(* ===== verification/Prelude.thy ===== *)
theory Prelude
  imports Complex_Main
begin

text \<open>
  Shared vocabulary of the development: the parts of Go's standard library that the sources use on
  strings (package \<^verbatim>\<open>strings\<close>), the model's names for Go types, and the lemma
  collections the component theories use.

  A Go string and a Go byte slice are both a \<^typ>\<open>string\<close>: a list of bytes. Text that is not
  ASCII is its UTF-8 encoding.
\<close>

named_theorems go_simps \<open>unfolding rules of the Go string and number routines\<close>
named_theorems db_simps \<open>unfolding rules of the database statements\<close>
named_theorems chain_simps \<open>facts on the audit hash chain\<close>

type_synonym bytes = string

text \<open>A \<^verbatim>\<open>time.Time\<close> is the number of nanoseconds since Go's zero time
  (January 1, year 1, UTC), so that \<^verbatim>\<open>IsZero\<close> is equality with 0; a
  \<^verbatim>\<open>time.Duration\<close> is a number of nanoseconds.\<close>

type_synonym time = int
type_synonym duration = int

abbreviation second_ns :: duration where "second_ns \<equiv> 1000000000"
abbreviation minute_ns :: duration where "minute_ns \<equiv> 60 * second_ns"
abbreviation hour_ns :: duration where "hour_ns \<equiv> 60 * minute_ns"

text \<open>Seconds between Go's zero time and the Unix epoch, and \<^verbatim>\<open>Time.Unix()\<close>.\<close>

definition unix_epoch_s :: int where
  "unix_epoch_s = 62135596800"

definition time_unix :: "time \<Rightarrow> int" where
  "time_unix t = t div second_ns - unix_epoch_s"

definition unix_time :: "int \<Rightarrow> time" where
  "unix_time s = (s + unix_epoch_s) * second_ns"

lemma time_unix_unix_time [simp]: "time_unix (unix_time s) = s"
  by (simp add: time_unix_def unix_time_def)

lemma time_unix_mono: "t \<le> t' \<Longrightarrow> time_unix t \<le> time_unix t'"
  by (simp add: time_unix_def zdiv_mono1)

text \<open>A duration in seconds, exactly. The rounded \<^verbatim>\<open>Duration.Seconds()\<close> of the program is
  \<open>Seconds\<close> of theory \<open>Go_Float\<close>.\<close>

definition dur_seconds :: "duration \<Rightarrow> rat" where
  "dur_seconds d = of_int d / 1000000000"

lemma dur_seconds_0 [simp]: "dur_seconds 0 = 0"
  by (simp add: dur_seconds_def)

lemma dur_seconds_pos [simp]: "(0 < dur_seconds d) = (0 < d)"
  by (simp add: dur_seconds_def)

lemma dur_seconds_add: "dur_seconds (d + d') = dur_seconds d + dur_seconds d'"
  by (simp add: dur_seconds_def add_divide_distrib)

lemma dur_seconds_mono: "d \<le> d' \<Longrightarrow> dur_seconds d \<le> dur_seconds d'"
  by (simp add: dur_seconds_def divide_right_mono)

text \<open>\<^verbatim>\<open>Time.Sub\<close>, which saturates at the range of a 64-bit duration.\<close>

definition time_sub :: "time \<Rightarrow> time \<Rightarrow> duration" where
  "time_sub t u = max (- 9223372036854775808) (min 9223372036854775807 (t - u))"

lemma time_sub_pos [simp]: "(0 < time_sub t u) = (u < t)"
  by (auto simp: time_sub_def)

lemma time_sub_le: "u < t \<Longrightarrow> time_sub t u \<le> t - u"
  by (simp add: time_sub_def)


section \<open>Package strings\<close>

definition HasPrefix :: "string \<Rightarrow> string \<Rightarrow> bool" where
  "HasPrefix s p = (take (length p) s = p)"

definition HasSuffix :: "string \<Rightarrow> string \<Rightarrow> bool" where
  "HasSuffix s p = HasPrefix (rev s) (rev p)"

definition TrimPrefix :: "string \<Rightarrow> string \<Rightarrow> string" where
  "TrimPrefix s p = (if HasPrefix s p then drop (length p) s else s)"

fun IndexByte :: "string \<Rightarrow> char \<Rightarrow> nat option" where
  "IndexByte [] c = None"
| "IndexByte (x # xs) c = (if x = c then Some 0 else map_option Suc (IndexByte xs c))"

fun Contains :: "string \<Rightarrow> string \<Rightarrow> bool" where
  "Contains [] sub = (sub = [])"
| "Contains (x # xs) sub = (HasPrefix (x # xs) sub \<or> Contains xs sub)"

lemma IndexByte_append: "c \<notin> set xs \<Longrightarrow> IndexByte (xs @ c # ys) c = Some (length xs)"
  by (induction xs) auto

text \<open>\<^verbatim>\<open>strings.Split\<close> on a separator of one byte: one more part than there are
  separators, so \<open>[[]]\<close> for the empty string.\<close>

fun Split :: "string \<Rightarrow> char \<Rightarrow> string list" where
  "Split [] c = [[]]"
| "Split (x # xs) c =
     (if x = c then [] # Split xs c
      else (case Split xs c of [] \<Rightarrow> [[x]] | y # ys \<Rightarrow> (x # y) # ys))"

text \<open>\<^verbatim>\<open>strings.SplitN\<close>: at most \<open>n\<close> parts, the last one the unsplit rest.\<close>

fun SplitN :: "string \<Rightarrow> char \<Rightarrow> nat \<Rightarrow> string list" where
  "SplitN s c 0 = []"
| "SplitN s c (Suc 0) = [s]"
| "SplitN s c (Suc (Suc n)) =
     (case IndexByte s c of
        None \<Rightarrow> [s]
      | Some i \<Rightarrow> take i s # SplitN (drop (Suc i) s) c (Suc n))"

text \<open>The byte sequences of the white-space runes (\<^verbatim>\<open>unicode.IsSpace\<close>).\<close>

definition space_runes :: "string list" where
  "space_runes =
     [[CHR 0x09], [CHR 0x0A], [CHR 0x0B], [CHR 0x0C], [CHR 0x0D], [CHR 0x20],
      [CHR 0xC2, CHR 0x85], [CHR 0xC2, CHR 0xA0], [CHR 0xE1, CHR 0x9A, CHR 0x80],
      [CHR 0xE2, CHR 0x80, CHR 0x80], [CHR 0xE2, CHR 0x80, CHR 0x81],
      [CHR 0xE2, CHR 0x80, CHR 0x82], [CHR 0xE2, CHR 0x80, CHR 0x83],
      [CHR 0xE2, CHR 0x80, CHR 0x84], [CHR 0xE2, CHR 0x80, CHR 0x85],
      [CHR 0xE2, CHR 0x80, CHR 0x86], [CHR 0xE2, CHR 0x80, CHR 0x87],
      [CHR 0xE2, CHR 0x80, CHR 0x88], [CHR 0xE2, CHR 0x80, CHR 0x89],
      [CHR 0xE2, CHR 0x80, CHR 0x8A], [CHR 0xE2, CHR 0x80, CHR 0xA8],
      [CHR 0xE2, CHR 0x80, CHR 0xA9], [CHR 0xE2, CHR 0x80, CHR 0xAF],
      [CHR 0xE2, CHR 0x81, CHR 0x9F], [CHR 0xE3, CHR 0x80, CHR 0x80]]"

text \<open>Drops leading sequences of a list of patterns; the empty pattern is never dropped.\<close>

function strip_seqs :: "string list \<Rightarrow> string \<Rightarrow> string" where
  "strip_seqs ps s =
     (case find (\<lambda>p. p \<noteq> [] \<and> HasPrefix s p) ps of
        None \<Rightarrow> s
      | Some p \<Rightarrow> if s = [] then s else strip_seqs ps (drop (length p) s))"
  by pat_completeness auto
termination
  by (relation "measure (length \<circ> snd)") (auto simp: find_Some_iff)

declare strip_seqs.simps [simp del]

definition TrimSpace :: "string \<Rightarrow> string" where
  "TrimSpace s = rev (strip_seqs (map rev space_runes) (rev (strip_seqs space_runes s)))"

lemma strip_seqs_id:
  assumes "s \<noteq> []" "list_all (\<lambda>p. p = [] \<or> hd p \<noteq> hd s) ps"
  shows "strip_seqs ps s = s"
proof -
  have "find (\<lambda>p. p \<noteq> [] \<and> HasPrefix s p) ps = None"
    using assms by (auto simp: find_None_iff list_all_iff HasPrefix_def neq_Nil_conv)
  then show ?thesis by (subst strip_seqs.simps) simp
qed

lemma find_SomeD: "find P xs = Some x \<Longrightarrow> x \<in> set xs \<and> P x"
  by (auto simp: find_Some_iff)

lemma find_None_append: "find P xs = None \<Longrightarrow> find P (xs @ ys) = find P ys"
  by (induction xs) auto

text \<open>
  \<^verbatim>\<open>strings.ToLower\<close>: ASCII letters, and the two code points outside ASCII whose lower
  case is an ASCII letter (U+0130 gives i, U+212A gives k). Other bytes stay: their lower case is
  never ASCII, so no comparison with an ASCII literal can tell the difference.
\<close>

definition lower_byte :: "char \<Rightarrow> char" where
  "lower_byte c = (let n = of_char c :: nat in
     if 65 \<le> n \<and> n \<le> 90 then char_of (n + 32) else c)"

function ToLower :: "string \<Rightarrow> string" where
  "ToLower [] = []"
| "ToLower (c # cs) =
     (if HasPrefix (c # cs) [CHR 0xC4, CHR 0xB0] then CHR ''i'' # ToLower (drop 1 cs)
      else if HasPrefix (c # cs) [CHR 0xE2, CHR 0x84, CHR 0xAA] then CHR ''k'' # ToLower (drop 2 cs)
      else lower_byte c # ToLower cs)"
  by pat_completeness auto
termination
  by (relation "measure length") auto

text \<open>\<^verbatim>\<open>strings.TrimRight(s, "/")\<close> for a single byte.\<close>

definition TrimRight :: "string \<Rightarrow> char \<Rightarrow> string" where
  "TrimRight s c = rev (dropWhile (\<lambda>x. x = c) (rev s))"

end
