(* ===== verification/Go_Encoding.thy ===== *)
theory Go_Encoding
  imports Prelude
begin

text \<open>
  The number and byte encodings of Go's standard library that the sources use:
  \<^verbatim>\<open>strconv.FormatInt\<close>, \<^verbatim>\<open>strconv.ParseInt\<close> and \<^verbatim>\<open>Atoi\<close> in base 10,
  \<^verbatim>\<open>encoding/hex\<close>, \<^verbatim>\<open>base64.RawStdEncoding\<close> and the integer verb of
  \<^verbatim>\<open>fmt.Sscanf\<close>, with their round trips.
\<close>

section \<open>Decimal integers\<close>

definition digit_char :: "nat \<Rightarrow> char" where
  "digit_char d = char_of (48 + d)"

definition is_digit_char :: "char \<Rightarrow> bool" where
  "is_digit_char c = (48 \<le> (of_char c :: nat) \<and> (of_char c :: nat) \<le> 57)"

definition digit_val :: "char \<Rightarrow> nat" where
  "digit_val c = of_char c - 48"

fun nat_dec :: "nat \<Rightarrow> string" where
  "nat_dec n = (if n < 10 then [digit_char n] else nat_dec (n div 10) @ [digit_char (n mod 10)])"

declare nat_dec.simps [simp del]

definition FormatInt :: "int \<Rightarrow> string" where
  "FormatInt i = (if i < 0 then CHR ''-'' # nat_dec (nat (- i)) else nat_dec (nat i))"

fun dec_val :: "nat \<Rightarrow> string \<Rightarrow> nat option" where
  "dec_val acc [] = Some acc"
| "dec_val acc (c # cs) =
     (if is_digit_char c then dec_val (10 * acc + digit_val c) cs else None)"

abbreviation int64_min :: int where "int64_min \<equiv> - 9223372036854775808"
abbreviation int64_max :: int where "int64_max \<equiv> 9223372036854775807"

text \<open>\<^verbatim>\<open>strconv.ParseInt(s, 10, 64)\<close>; \<^const>\<open>None\<close> is its error, a syntax or a range
  error. On a 64-bit machine \<^verbatim>\<open>strconv.Atoi\<close> accepts the same strings.\<close>

definition ParseInt :: "string \<Rightarrow> int option" where
  "ParseInt s =
     (let neg = (s \<noteq> [] \<and> hd s = CHR ''-'');
          ds = (if s \<noteq> [] \<and> (hd s = CHR ''-'' \<or> hd s = CHR ''+'') then tl s else s)
      in if ds = [] then None
         else (case dec_val 0 ds of
                 None \<Rightarrow> None
               | Some n \<Rightarrow>
                   (let v = (if neg then - int n else int n)
                    in if int64_min \<le> v \<and> v \<le> int64_max then Some v else None)))"

abbreviation Atoi :: "string \<Rightarrow> int option" where "Atoi \<equiv> ParseInt"


section \<open>Hexadecimal text\<close>

definition hex_digit :: "nat \<Rightarrow> char" where
  "hex_digit n = ''0123456789abcdef'' ! n"

fun hex_encode :: "bytes \<Rightarrow> string" where
  "hex_encode [] = []"
| "hex_encode (b # bs) =
     hex_digit (of_char b div 16) # hex_digit (of_char b mod 16) # hex_encode bs"


section \<open>Raw standard base64\<close>

definition b64_alphabet :: string where
  "b64_alphabet = ''ABCDEFGHIJKLMNOPQRSTUVWXYZabcdefghijklmnopqrstuvwxyz0123456789+/''"

definition b64_char :: "nat \<Rightarrow> char" where
  "b64_char n = b64_alphabet ! n"

fun b64_groups :: "nat list \<Rightarrow> nat list" where
  "b64_groups [] = []"
| "b64_groups [a] = [a div 4, (a mod 4) * 16]"
| "b64_groups [a, b] = [a div 4, (a mod 4) * 16 + b div 16, (b mod 16) * 4]"
| "b64_groups (a # b # c # r) =
     (a div 4) # ((a mod 4) * 16 + b div 16) # ((b mod 16) * 4 + c div 64) # (c mod 64) # b64_groups r"

definition b64_encode :: "bytes \<Rightarrow> string" where
  "b64_encode s = map b64_char (b64_groups (map of_char s))"

fun b64_ungroup :: "nat list \<Rightarrow> nat list option" where
  "b64_ungroup [] = Some []"
| "b64_ungroup [a] = None"
| "b64_ungroup [a, b] = Some [a * 4 + b div 16]"
| "b64_ungroup [a, b, c] = Some [a * 4 + b div 16, (b mod 16) * 16 + c div 4]"
| "b64_ungroup (a # b # c # d # r) =
     map_option (\<lambda>t. (a * 4 + b div 16) # ((b mod 16) * 16 + c div 4) # ((c mod 4) * 64 + d) # t)
       (b64_ungroup r)"

text \<open>\<^verbatim>\<open>DecodeString\<close> skips carriage returns and line feeds, refuses any other character
  outside the alphabet, and ignores the unused low bits of an incomplete last group.\<close>

definition b64_decode :: "string \<Rightarrow> bytes option" where
  "b64_decode s =
     (case those (map (IndexByte b64_alphabet) (filter (\<lambda>c. c \<noteq> CHR 0x0A \<and> c \<noteq> CHR 0x0D) s)) of
        None \<Rightarrow> None
      | Some vs \<Rightarrow> map_option (map char_of) (b64_ungroup vs))"


section \<open>fmt.Sscanf with literal text and the integer verb\<close>

text \<open>A literal of the format must match the input byte by byte.\<close>

definition scan_lit :: "string \<Rightarrow> string \<Rightarrow> string option" where
  "scan_lit lit s = (if HasPrefix s lit then Some (drop (length lit) s) else None)"

text \<open>The verb for an unsigned integer of \<open>w\<close> bits: white space is skipped, a line feed in it is
  an error, then the longest run of digits is read and must fit. Input that is left over after the
  last verb is not an error.\<close>

definition scan_uint :: "nat \<Rightarrow> string \<Rightarrow> (nat \<times> string) option" where
  "scan_uint w s =
     (let t = strip_seqs (filter (\<lambda>p. p \<noteq> [CHR 0x0A]) space_runes) s;
          ds = takeWhile is_digit_char t
      in if ds = [] then None
         else (case dec_val 0 ds of
                 None \<Rightarrow> None
               | Some n \<Rightarrow> if n < 2 ^ w then Some (n, dropWhile is_digit_char t) else None))"


section \<open>Round trips\<close>

lemma of_char_less [simp]: "(of_char (c :: char) :: nat) < 256"
  by (simp add: of_char_def)
  
lemma char_of_of_char_nat [simp]: "char_of (of_char c :: nat) = c"
  by (rule char_of_char)

lemma of_char_digit_char: "d < 10 \<Longrightarrow> (of_char (digit_char d) :: nat) = 48 + d"
  by (simp add: digit_char_def of_char_of)

lemma digit_chars:
  "digit_char 0 = CHR ''0''" "digit_char 1 = CHR ''1''" "digit_char (Suc 0) = CHR ''1''"
  "digit_char 2 = CHR ''2''" "digit_char 3 = CHR ''3''" "digit_char 4 = CHR ''4''"
  "digit_char 5 = CHR ''5''" "digit_char 6 = CHR ''6''" "digit_char 7 = CHR ''7''"
  "digit_char 8 = CHR ''8''" "digit_char 9 = CHR ''9''"
  by code_simp+

lemma is_digit_char_digit [simp]: "d < 10 \<Longrightarrow> is_digit_char (digit_char d)"
  by (simp add: is_digit_char_def of_char_digit_char)

lemma digit_val_digit [simp]: "d < 10 \<Longrightarrow> digit_val (digit_char d) = d"
  by (simp add: digit_val_def of_char_digit_char)

lemma dec_val_append:
  "dec_val acc (xs @ ys) = (case dec_val acc xs of None \<Rightarrow> None | Some n \<Rightarrow> dec_val n ys)"
  by (induction xs arbitrary: acc) auto

lemma nat_dec_nonempty [simp]: "nat_dec n \<noteq> []"
  by (subst nat_dec.simps) simp

lemma dec_val_nat_dec: "dec_val 0 (nat_dec n) = Some n"
proof (induction n rule: nat_dec.induct)
  case (1 n)
  show ?case
  proof (cases "n < 10")
    case True
    then show ?thesis by (simp add: nat_dec.simps [of n])
  next
    case False
    then have "dec_val 0 (nat_dec (n div 10)) = Some (n div 10)"
      by (rule "1.IH")
    with False show ?thesis
      by (simp add: nat_dec.simps [of n] dec_val_append)
  qed
qed

lemma nat_dec_digits: "\<forall>c \<in> set (nat_dec n). is_digit_char c"
proof (induction n rule: nat_dec.induct)
  case (1 n)
  then show ?case by (cases "n < 10") (auto simp: nat_dec.simps [of n])
qed

lemma nat_dec_hd_digit: "is_digit_char (hd (nat_dec n))"
  using nat_dec_digits [of n] by (metis hd_in_set nat_dec_nonempty)

lemma not_digit_sign [simp]: "\<not> is_digit_char CHR ''-''" "\<not> is_digit_char CHR ''+''"
  by (simp_all add: is_digit_char_def)

lemma ParseInt_FormatInt:
  assumes "int64_min \<le> i" "i \<le> int64_max"
  shows "ParseInt (FormatInt i) = Some i"
proof (cases "i < 0")
  case True
  with assms show ?thesis
    by (simp add: FormatInt_def ParseInt_def dec_val_nat_dec)
next
  case False
  moreover from False have "hd (nat_dec (nat i)) \<noteq> CHR ''-''" "hd (nat_dec (nat i)) \<noteq> CHR ''+''"
    using nat_dec_hd_digit [of "nat i"] by (metis not_digit_sign)+
  ultimately show ?thesis
    using assms by (simp add: FormatInt_def ParseInt_def dec_val_nat_dec)
qed

lemma nat_dec_inj: "nat_dec m = nat_dec n \<Longrightarrow> m = n"
  by (metis dec_val_nat_dec option.inject)

lemma FormatInt_inj: "FormatInt i = FormatInt j \<Longrightarrow> i = j"
proof -
  have sign: "hd (nat_dec n) \<noteq> CHR ''-''" for n
    using nat_dec_hd_digit [of n] by (metis not_digit_sign(1))
  assume "FormatInt i = FormatInt j"
  then show ?thesis
    by (auto simp: FormatInt_def split: if_splits dest: nat_dec_inj)
      (metis sign list.sel(1))+
qed

lemma length_hex_encode [simp]: "length (hex_encode s) = 2 * length s"
  by (induction s) auto

lemma hex_digit_cases:
  "n < 16 \<Longrightarrow> hex_digit n \<in> set ''0123456789abcdef''"
  unfolding hex_digit_def by (rule nth_mem) simp

lemma set_hex_encode: "set (hex_encode s) \<subseteq> set ''0123456789abcdef''"
proof (induction s)
  case Nil
  show ?case by simp
next
  case (Cons b s)
  have "(of_char b :: nat) div 16 < 16"
    using of_char_less [of b] by linarith
  with Cons show ?case
    using hex_digit_cases [of "of_char b div 16"] hex_digit_cases [of "of_char b mod 16"]
    by (simp del: set_simps(2) list.set(2) add: list.set(2) [of "hex_digit _"])
qed

lemma b64_char_index_all:
  "list_all (\<lambda>n. IndexByte b64_alphabet (b64_char n) = Some n) [0..<64]"
  by code_simp

lemma b64_char_index [simp]: "n < 64 \<Longrightarrow> IndexByte b64_alphabet (b64_char n) = Some n"
  using b64_char_index_all by (simp add: list_all_iff)

lemma b64_char_mem: "n < 64 \<Longrightarrow> b64_char n \<in> set b64_alphabet"
  unfolding b64_char_def by (rule nth_mem) (simp add: b64_alphabet_def)

lemma b64_groups_less:
  "\<forall>a \<in> set xs. a < 256 \<Longrightarrow> \<forall>n \<in> set (b64_groups xs). n < 64"
  by (induction xs rule: b64_groups.induct) auto

lemma b64_ungroup_groups:
  "\<forall>a \<in> set xs. a < 256 \<Longrightarrow> b64_ungroup (b64_groups xs) = Some xs"
proof (induction xs rule: b64_groups.induct)
  case (4 a b c r)
  then have "c div 64 < 4" "b div 16 < 16" by auto
  with 4 show ?case by auto
next
  case (3 a b)
  then have "b div 16 < 16" by auto
  with 3 show ?case by auto
qed auto

lemma those_map_Some: "(\<And>x. x \<in> set xs \<Longrightarrow> f x = Some (g x)) \<Longrightarrow> those (map f xs) = Some (map g xs)"
  by (induction xs) auto

lemma set_b64_encode: "set (b64_encode s) \<subseteq> set b64_alphabet"
proof -
  have "\<forall>n \<in> set (b64_groups (map of_char s)). n < 64"
    by (rule b64_groups_less) auto
  then show ?thesis by (auto simp: b64_encode_def intro: b64_char_mem)
qed

lemma b64_alphabet_excludes:
  "CHR 0x0A \<notin> set b64_alphabet" "CHR 0x0D \<notin> set b64_alphabet" "CHR ''$'' \<notin> set b64_alphabet"
  by (simp_all add: b64_alphabet_def)

lemma b64_decode_encode: "b64_decode (b64_encode s) = Some s"
proof -
  let ?g = "b64_groups (map of_char s)"
  have lt: "\<forall>n \<in> set ?g. n < 64"
    by (rule b64_groups_less) auto
  have "filter (\<lambda>c. c \<noteq> CHR 0x0A \<and> c \<noteq> CHR 0x0D) (b64_encode s) = b64_encode s"
    using set_b64_encode [of s] b64_alphabet_excludes by (subst filter_id_conv) auto
  moreover have "those (map (IndexByte b64_alphabet) (b64_encode s)) = Some ?g"
    using lt those_map_Some [of ?g "IndexByte b64_alphabet \<circ> b64_char" id]
    by (simp add: b64_encode_def)
  moreover have "b64_ungroup ?g = Some (map of_char s)"
    by (rule b64_ungroup_groups) auto
  ultimately show ?thesis
    by (simp add: b64_decode_def comp_def)
qed

end
