(* ===== verification/World.thy ===== *)
theory World
  imports Go_Encoding "HOL-Library.Multiset"
begin

text \<open>
  The state every component shares: the PostgreSQL tables (the schema of \<^verbatim>\<open>src/migrations\<close>),
  the log of calls to the Telegram Bot API, the rate limiters' memory, and a counter of the interactions with the outside.

  What the program does not decide is a parameter, the record \<open>env\<close>: whether a database
  round trip fails, what the clock and the random source give, how Telegram answers, whether a request's context ends during a wait, in which
  order a query without \<^verbatim>\<open>ORDER BY\<close> gives its rows, SHA-256,
  Argon2id (\<^verbatim>\<open>argon2.IDKey\<close> of password, salt, passes, memory, threads and key length), which runes beyond
  ASCII Unicode counts as printable, and the text PostgreSQL gives a JSON document. The counter \<open>w_tick\<close> numbers the
  interactions, so that each one may turn out differently. No theorem restricts these parameters
  except where its statement says so.
\<close>

section \<open>Tables\<close>

record app_row =
  app_id :: string
  app_name :: string
  app_description :: string
  app_min_grade :: string
  app_active :: bool
  app_created_at :: time
  app_capver :: int
  app_created_by :: string

record key_row =
  key_id :: int
  key_app :: string
  key_hash :: string
  key_prefix :: string
  key_label :: string
  key_created_at :: time
  key_revoked_at :: "time option"

record user_row =
  usr_id :: int
  usr_telegram_id :: int
  usr_username :: "string option"
  usr_grade :: string
  usr_preferred_lang :: "string option"
  usr_agreed_at :: "time option"
  usr_chat_id :: "int option"
  usr_linked_at :: "time option"
  usr_bot_is_admin :: bool
  usr_status :: string
  usr_anonymized :: bool
  usr_created_at :: time
  usr_updated_at :: time

record topic_row =
  top_user :: int
  top_app :: string
  top_topic_id :: int

record token_row =
  tok_token :: string
  tok_user :: int
  tok_expires_at :: time

record policy_row =
  pol_scope :: string
  pol_target :: string
  pol_rate_per_sec :: int
  pol_burst :: int

text \<open>A row of \<^verbatim>\<open>audit_log\<close>; \<^const>\<open>None\<close> is SQL's \<^verbatim>\<open>NULL\<close>. The
  timestamp has PostgreSQL's resolution, microseconds.\<close>

record audit_row =
  ar_id :: int
  ar_at :: int
  ar_trace_id :: "string option"
  ar_message_id :: "string option"
  ar_stage :: string
  ar_app_id :: "string option"
  ar_capability :: "string option"
  ar_capability_set_ver :: "int option"
  ar_endpoint :: "string option"
  ar_route_strategy :: "string option"
  ar_delivery_channel :: "string option"
  ar_recipient_user_id :: "int option"
  ar_recipient_chat_id :: "int option"
  ar_error_code :: "string option"
  ar_details :: string
  ar_prev_hash :: bytes
  ar_row_hash :: bytes

record database =
  d_apps :: "app_row list"
  d_caps :: "(string \<times> string) list"
  d_keys :: "key_row list"
  d_users :: "user_row list"
  d_subs :: "(int \<times> string) list"
  d_topics :: "topic_row list"
  d_tokens :: "token_row list"
  d_audit :: "audit_row list"
  d_policies :: "policy_row list"
  d_key_seq :: int
  d_user_seq :: int
  d_audit_seq :: int

text \<open>The values the schema's \<^verbatim>\<open>CHECK\<close> constraints allow.\<close>

definition grade_values :: "string list" where
  "grade_values = [''user'', ''developer'', ''admin'']"

definition status_values :: "string list" where
  "status_values = [''active'', ''paused'', ''anonymized'']"

definition channel_values :: "string list" where
  "channel_values = [''supergroup'', ''dm'', ''general'']"

definition audit_stage_values :: "string list" where
  "audit_stage_values =
     [''received'', ''validated'', ''dispatched'', ''delivered'', ''denied'', ''retried'',
      ''deferred'', ''intrusion_kick'', ''intrusion_unmitigated'', ''bot_not_admin'',
      ''telegram_auth_failed'', ''key_issued'', ''key_revoked'']"

text \<open>The schema's constraints: primary keys, unique columns, foreign keys, checks, and serial
  identifiers that stay below their sequences.\<close>

definition apps_ok :: "database \<Rightarrow> bool" where
  "apps_ok d = (distinct (map app_id (d_apps d)) \<and>
     list_all (\<lambda>a. app_min_grade a \<in> set grade_values) (d_apps d))"

definition caps_ok :: "database \<Rightarrow> bool" where
  "caps_ok d = (distinct (d_caps d) \<and>
     list_all (\<lambda>c. fst c \<in> set (map app_id (d_apps d))) (d_caps d))"

definition keys_ok :: "database \<Rightarrow> bool" where
  "keys_ok d = (distinct (map key_prefix (d_keys d)) \<and> distinct (map key_id (d_keys d)) \<and>
     list_all (\<lambda>k. key_app k \<in> set (map app_id (d_apps d)) \<and> key_id k < d_key_seq d) (d_keys d))"

definition users_ok :: "database \<Rightarrow> bool" where
  "users_ok d = (distinct (map usr_id (d_users d)) \<and> distinct (map usr_telegram_id (d_users d)) \<and>
     list_all (\<lambda>u. usr_grade u \<in> set grade_values \<and> usr_status u \<in> set status_values \<and>
       usr_id u < d_user_seq d) (d_users d))"

definition subs_ok :: "database \<Rightarrow> bool" where
  "subs_ok d = (distinct (d_subs d) \<and>
     list_all (\<lambda>s. fst s \<in> set (map usr_id (d_users d)) \<and>
       snd s \<in> set (map app_id (d_apps d))) (d_subs d))"

definition topics_ok :: "database \<Rightarrow> bool" where
  "topics_ok d = (distinct (map (\<lambda>t. (top_user t, top_app t)) (d_topics d)) \<and>
     list_all (\<lambda>t. top_user t \<in> set (map usr_id (d_users d)) \<and>
       top_app t \<in> set (map app_id (d_apps d))) (d_topics d))"

definition tokens_ok :: "database \<Rightarrow> bool" where
  "tokens_ok d = (distinct (map tok_token (d_tokens d)) \<and>
     list_all (\<lambda>t. tok_user t \<in> set (map usr_id (d_users d))) (d_tokens d))"

definition audit_ok :: "database \<Rightarrow> bool" where
  "audit_ok d = (sorted_wrt (<) (map ar_id (d_audit d)) \<and>
     list_all (\<lambda>r. ar_id r < d_audit_seq d \<and> ar_stage r \<in> set audit_stage_values \<and>
       (case ar_delivery_channel r of None \<Rightarrow> True | Some c \<Rightarrow> c \<in> set channel_values)) (d_audit d))"

definition db_ok :: "database \<Rightarrow> bool" where
  "db_ok d = (apps_ok d \<and> caps_ok d \<and> keys_ok d \<and> users_ok d \<and> subs_ok d \<and> topics_ok d \<and>
     tokens_ok d \<and> audit_ok d)"

lemmas db_ok_defs = db_ok_def apps_ok_def caps_ok_def keys_ok_def users_ok_def subs_ok_def
  topics_ok_def tokens_ok_def audit_ok_def

text \<open>Each constraint depends on its own tables only.\<close>

lemma apps_ok_frame [simp]:
  "apps_ok (d\<lparr>d_caps := x1\<rparr>) = apps_ok d" "apps_ok (d\<lparr>d_keys := x2\<rparr>) = apps_ok d"
  "apps_ok (d\<lparr>d_users := x3\<rparr>) = apps_ok d" "apps_ok (d\<lparr>d_subs := x4\<rparr>) = apps_ok d"
  "apps_ok (d\<lparr>d_topics := x5\<rparr>) = apps_ok d" "apps_ok (d\<lparr>d_tokens := x6\<rparr>) = apps_ok d"
  "apps_ok (d\<lparr>d_audit := x7\<rparr>) = apps_ok d" "apps_ok (d\<lparr>d_policies := x8\<rparr>) = apps_ok d"
  "apps_ok (d\<lparr>d_key_seq := x9\<rparr>) = apps_ok d" "apps_ok (d\<lparr>d_user_seq := x10\<rparr>) = apps_ok d"
  "apps_ok (d\<lparr>d_audit_seq := x11\<rparr>) = apps_ok d"
  by (simp_all add: apps_ok_def)

lemma caps_ok_frame [simp]:
  "caps_ok (d\<lparr>d_keys := x2\<rparr>) = caps_ok d" "caps_ok (d\<lparr>d_users := x3\<rparr>) = caps_ok d"
  "caps_ok (d\<lparr>d_subs := x4\<rparr>) = caps_ok d" "caps_ok (d\<lparr>d_topics := x5\<rparr>) = caps_ok d"
  "caps_ok (d\<lparr>d_tokens := x6\<rparr>) = caps_ok d" "caps_ok (d\<lparr>d_audit := x7\<rparr>) = caps_ok d"
  "caps_ok (d\<lparr>d_policies := x8\<rparr>) = caps_ok d" "caps_ok (d\<lparr>d_key_seq := x9\<rparr>) = caps_ok d"
  "caps_ok (d\<lparr>d_user_seq := x10\<rparr>) = caps_ok d" "caps_ok (d\<lparr>d_audit_seq := x11\<rparr>) = caps_ok d"
  by (simp_all add: caps_ok_def)

lemma keys_ok_frame [simp]:
  "keys_ok (d\<lparr>d_caps := x1\<rparr>) = keys_ok d" "keys_ok (d\<lparr>d_users := x3\<rparr>) = keys_ok d"
  "keys_ok (d\<lparr>d_subs := x4\<rparr>) = keys_ok d" "keys_ok (d\<lparr>d_topics := x5\<rparr>) = keys_ok d"
  "keys_ok (d\<lparr>d_tokens := x6\<rparr>) = keys_ok d" "keys_ok (d\<lparr>d_audit := x7\<rparr>) = keys_ok d"
  "keys_ok (d\<lparr>d_policies := x8\<rparr>) = keys_ok d" "keys_ok (d\<lparr>d_user_seq := x10\<rparr>) = keys_ok d"
  "keys_ok (d\<lparr>d_audit_seq := x11\<rparr>) = keys_ok d"
  by (simp_all add: keys_ok_def)

lemma users_ok_frame [simp]:
  "users_ok (d\<lparr>d_apps := x0\<rparr>) = users_ok d" "users_ok (d\<lparr>d_caps := x1\<rparr>) = users_ok d"
  "users_ok (d\<lparr>d_keys := x2\<rparr>) = users_ok d" "users_ok (d\<lparr>d_subs := x4\<rparr>) = users_ok d"
  "users_ok (d\<lparr>d_topics := x5\<rparr>) = users_ok d" "users_ok (d\<lparr>d_tokens := x6\<rparr>) = users_ok d"
  "users_ok (d\<lparr>d_audit := x7\<rparr>) = users_ok d" "users_ok (d\<lparr>d_policies := x8\<rparr>) = users_ok d"
  "users_ok (d\<lparr>d_key_seq := x9\<rparr>) = users_ok d" "users_ok (d\<lparr>d_audit_seq := x11\<rparr>) = users_ok d"
  by (simp_all add: users_ok_def)

lemma subs_ok_frame [simp]:
  "subs_ok (d\<lparr>d_caps := x1\<rparr>) = subs_ok d" "subs_ok (d\<lparr>d_keys := x2\<rparr>) = subs_ok d"
  "subs_ok (d\<lparr>d_topics := x5\<rparr>) = subs_ok d" "subs_ok (d\<lparr>d_tokens := x6\<rparr>) = subs_ok d"
  "subs_ok (d\<lparr>d_audit := x7\<rparr>) = subs_ok d" "subs_ok (d\<lparr>d_policies := x8\<rparr>) = subs_ok d"
  "subs_ok (d\<lparr>d_key_seq := x9\<rparr>) = subs_ok d" "subs_ok (d\<lparr>d_user_seq := x10\<rparr>) = subs_ok d"
  "subs_ok (d\<lparr>d_audit_seq := x11\<rparr>) = subs_ok d"
  by (simp_all add: subs_ok_def)

lemma topics_ok_frame [simp]:
  "topics_ok (d\<lparr>d_caps := x1\<rparr>) = topics_ok d" "topics_ok (d\<lparr>d_keys := x2\<rparr>) = topics_ok d"
  "topics_ok (d\<lparr>d_subs := x4\<rparr>) = topics_ok d" "topics_ok (d\<lparr>d_tokens := x6\<rparr>) = topics_ok d"
  "topics_ok (d\<lparr>d_audit := x7\<rparr>) = topics_ok d" "topics_ok (d\<lparr>d_policies := x8\<rparr>) = topics_ok d"
  "topics_ok (d\<lparr>d_key_seq := x9\<rparr>) = topics_ok d" "topics_ok (d\<lparr>d_user_seq := x10\<rparr>) = topics_ok d"
  "topics_ok (d\<lparr>d_audit_seq := x11\<rparr>) = topics_ok d"
  by (simp_all add: topics_ok_def)

lemma tokens_ok_frame [simp]:
  "tokens_ok (d\<lparr>d_apps := x0\<rparr>) = tokens_ok d" "tokens_ok (d\<lparr>d_caps := x1\<rparr>) = tokens_ok d"
  "tokens_ok (d\<lparr>d_keys := x2\<rparr>) = tokens_ok d" "tokens_ok (d\<lparr>d_subs := x4\<rparr>) = tokens_ok d"
  "tokens_ok (d\<lparr>d_topics := x5\<rparr>) = tokens_ok d" "tokens_ok (d\<lparr>d_audit := x7\<rparr>) = tokens_ok d"
  "tokens_ok (d\<lparr>d_policies := x8\<rparr>) = tokens_ok d" "tokens_ok (d\<lparr>d_key_seq := x9\<rparr>) = tokens_ok d"
  "tokens_ok (d\<lparr>d_user_seq := x10\<rparr>) = tokens_ok d" "tokens_ok (d\<lparr>d_audit_seq := x11\<rparr>) = tokens_ok d"
  by (simp_all add: tokens_ok_def)

lemma audit_ok_frame [simp]:
  "audit_ok (d\<lparr>d_apps := x0\<rparr>) = audit_ok d" "audit_ok (d\<lparr>d_caps := x1\<rparr>) = audit_ok d"
  "audit_ok (d\<lparr>d_keys := x2\<rparr>) = audit_ok d" "audit_ok (d\<lparr>d_users := x3\<rparr>) = audit_ok d"
  "audit_ok (d\<lparr>d_subs := x4\<rparr>) = audit_ok d" "audit_ok (d\<lparr>d_topics := x5\<rparr>) = audit_ok d"
  "audit_ok (d\<lparr>d_tokens := x6\<rparr>) = audit_ok d" "audit_ok (d\<lparr>d_policies := x8\<rparr>) = audit_ok d"
  "audit_ok (d\<lparr>d_key_seq := x9\<rparr>) = audit_ok d" "audit_ok (d\<lparr>d_user_seq := x10\<rparr>) = audit_ok d"
  by (simp_all add: audit_ok_def)

definition empty_db :: database where
  "empty_db = \<lparr>d_apps = [], d_caps = [], d_keys = [], d_users = [], d_subs = [], d_topics = [],
     d_tokens = [], d_audit = [], d_policies = [], d_key_seq = 1, d_user_seq = 1, d_audit_seq = 1\<rparr>"


section \<open>The outside\<close>

text \<open>The Bot API methods the server calls (through the telego client) and what a call gives:
  an error with its text, or a result, which may be the nil pointer or carry an identifier (of
  the message or of the forum topic).\<close>

datatype tg_call =
    SendMessage int "int option" string
  | CreateForumTopic int string
  | CloseForumTopic int int
  | BanChatMember int int

datatype tg_reply = Tg_error string | Tg_nil | Tg_ok int

text \<open>Values of a \<^verbatim>\<open>map[string]any\<close> handed to the audit log.\<close>

datatype jval = JStr string | JInt int | JBool bool

type_synonym details = "(string \<times> jval) list"

record env =
  env_fault :: "nat \<Rightarrow> bool"
  env_now :: "nat \<Rightarrow> time"
  env_uuid :: "nat \<Rightarrow> string"
  env_rand :: "nat \<Rightarrow> nat \<Rightarrow> bytes option"
  env_tg :: "tg_call list \<Rightarrow> tg_call \<Rightarrow> tg_reply"
  env_sha256 :: "bytes \<Rightarrow> bytes"
  env_jsonb :: "details \<Rightarrow> string"
  env_cancel :: "nat \<Rightarrow> bool"
  env_order :: "nat \<Rightarrow> nat \<Rightarrow> nat list"
  env_idkey :: "bytes \<Rightarrow> bytes \<Rightarrow> nat \<Rightarrow> nat \<Rightarrow> nat \<Rightarrow> nat \<Rightarrow> bytes"
  env_is_print :: "string \<Rightarrow> bool"

text \<open>The memory of the server process that outlives a request: the token buckets of the request
  limiter (\<^verbatim>\<open>ratelimit.bucketLimiter\<close>) and the dispatch limiter
  (\<^verbatim>\<open>telegram.DispatchLimiter\<close>). Token counts are \<^verbatim>\<open>float64\<close> in the code and exact
  rational numbers here.\<close>

record token_bucket =
  tb_tokens :: rat
  tb_last_refill :: time

record dispatch_limiter =
  dl_gTokens :: rat
  dl_gRefill :: time
  dl_gRate :: rat
  dl_gBurst :: rat
  dl_per :: "string \<rightharpoonup> token_bucket"
  dl_pRate :: rat
  dl_pBurst :: rat

record world =
  w_db :: database
  w_tick :: nat
  w_tg :: "tg_call list"
  w_buckets :: "string \<rightharpoonup> token_bucket"
  w_dispatch :: dispatch_limiter

definition empty_world :: world where
  "empty_world = \<lparr>w_db = empty_db, w_tick = 0, w_tg = [], w_buckets = Map.empty,
     w_dispatch = \<lparr>dl_gTokens = 30, dl_gRefill = 0, dl_gRate = 25, dl_gBurst = 30, dl_per = Map.empty,
       dl_pRate = 1, dl_pBurst = 2\<rparr>\<rparr>"

definition tick :: "world \<Rightarrow> world" where
  "tick w = w\<lparr>w_tick := Suc (w_tick w)\<rparr>"

definition read_clock :: "env \<Rightarrow> world \<Rightarrow> time \<times> world" where
  "read_clock e w = (env_now e (w_tick w), tick w)"

definition new_uuid :: "env \<Rightarrow> world \<Rightarrow> string \<times> world" where
  "new_uuid e w = (env_uuid e (w_tick w), tick w)"

definition rand_read :: "env \<Rightarrow> nat \<Rightarrow> world \<Rightarrow> bytes option \<times> world" where
  "rand_read e n w = (env_rand e (w_tick w) n, tick w)"

definition tg_invoke :: "env \<Rightarrow> tg_call \<Rightarrow> world \<Rightarrow> tg_reply \<times> world" where
  "tg_invoke e c w = (env_tg e (w_tg w) c, w\<lparr>w_tg := w_tg w @ [c]\<rparr>)"


section \<open>Statements\<close>

text \<open>A statement maps the time of its transaction and the tables to an error, or to its result
  and the new tables. \<open>Db_fault\<close> stands for every failure of the round trip itself
  (connection, deadline); the others are the errors a statement raises.\<close>

datatype db_error = Db_fault | Unique_violation | Fk_violation | Check_violation | Out_of_range

type_synonym 'a stmt = "time \<Rightarrow> database \<Rightarrow> db_error + ('a \<times> database)"

definition db_exec :: "env \<Rightarrow> 'a stmt \<Rightarrow> world \<Rightarrow> (db_error + 'a) \<times> world" where
  "db_exec e s w =
     (if env_fault e (w_tick w) then (Inl Db_fault, tick w)
      else (case s (env_now e (w_tick w)) (w_db w) of
              Inl err \<Rightarrow> (Inl err, tick w)
            | Inr (a, d) \<Rightarrow> (Inr a, (tick w)\<lparr>w_db := d\<rparr>)))"

text \<open>A read-only query. A round trip that carries no statement of its own (\<^verbatim>\<open>BEGIN\<close>,
  \<^verbatim>\<open>COMMIT\<close>, a row lock, a ping) is a query with result \<open>()\<close>.\<close>

definition db_query :: "env \<Rightarrow> (time \<Rightarrow> database \<Rightarrow> 'a) \<Rightarrow> world \<Rightarrow> (db_error + 'a) \<times> world" where
  "db_query e q = db_exec e (\<lambda>t d. Inr (q t d, d))"

definition db_trip :: "env \<Rightarrow> world \<Rightarrow> bool \<times> world" where
  "db_trip e w = (\<not> env_fault e (w_tick w), tick w)"

text \<open>The end of a transaction that did not commit: the tables are those it started from.\<close>

definition rollback_to :: "world \<Rightarrow> world \<Rightarrow> world" where
  "rollback_to w0 w = w\<lparr>w_db := w_db w0\<rparr>"

lemma tick_simps [simp]:
  "w_db (tick w) = w_db w" "w_tg (tick w) = w_tg w" "w_tick (tick w) = Suc (w_tick w)"
  "w_buckets (tick w) = w_buckets w" "w_dispatch (tick w) = w_dispatch w"
  by (simp_all add: tick_def)

lemma rollback_to_simps [simp]:
  "w_db (rollback_to w0 w) = w_db w0" "w_tg (rollback_to w0 w) = w_tg w"
  "w_tick (rollback_to w0 w) = w_tick w" "w_buckets (rollback_to w0 w) = w_buckets w"
  "w_dispatch (rollback_to w0 w) = w_dispatch w"
  by (simp_all add: rollback_to_def)

lemma read_clock_simps [simp]: "snd (read_clock e w) = tick w"
  by (simp add: read_clock_def)

lemma rand_read_simps [simp]: "snd (rand_read e n w) = tick w"
  by (simp add: rand_read_def)

lemma new_uuid_simps [simp]: "snd (new_uuid e w) = tick w"
  by (simp add: new_uuid_def)

lemma db_trip_simps [simp]: "snd (db_trip e w) = tick w"
  by (simp add: db_trip_def)

lemma db_query_world [simp]: "snd (db_query e q w) = tick w"
  by (simp add: db_query_def db_exec_def)

lemma db_query_cases:
  "db_query e q w = (if env_fault e (w_tick w) then (Inl Db_fault, tick w)
     else (Inr (q (env_now e (w_tick w)) (w_db w)), tick w))"
  by (simp add: db_query_def db_exec_def tick_def)

lemma db_exec_tg [simp]:
  "w_tg (snd (db_exec e s w)) = w_tg w" "w_buckets (snd (db_exec e s w)) = w_buckets w"
  "w_dispatch (snd (db_exec e s w)) = w_dispatch w"
  by (auto simp: db_exec_def split: sum.split)

lemma db_exec_InlD: "db_exec e s w = (Inl err, w') \<Longrightarrow> w' = tick w"
  by (auto simp: db_exec_def split: if_splits sum.splits prod.splits)

lemma db_exec_InrD:
  "db_exec e s w = (Inr a, w') \<Longrightarrow>
     \<exists>d. s (env_now e (w_tick w)) (w_db w) = Inr (a, d) \<and> w' = (tick w)\<lparr>w_db := d\<rparr>"
  by (auto simp: db_exec_def split: if_splits sum.splits prod.splits)

text \<open>An invariant that a statement keeps is kept by its execution, whatever happens.\<close>

lemma db_exec_invariant:
  assumes "P (w_db w)" "\<And>t a d. s t (w_db w) = Inr (a, d) \<Longrightarrow> P d"
  shows "P (w_db (snd (db_exec e s w)))"
  using assms by (auto simp: db_exec_def split: sum.split prod.split)


text \<open>The rows of a query without \<^verbatim>\<open>ORDER BY\<close>, as numbered by \<open>env_order\<close>.\<close>

definition unordered :: "env \<Rightarrow> nat \<Rightarrow> 'a list \<Rightarrow> 'a list" where
  "unordered e n rows = map (\<lambda>i. rows ! i) (env_order e n (length rows))"

text \<open>What SQL promises of it: every row comes, once.\<close>

definition orders_rows :: "env \<Rightarrow> bool" where
  "orders_rows e = (\<forall>n k. distinct (env_order e n k) \<and> set (env_order e n k) = {..<k})"

lemma length_unordered: "orders_rows e \<Longrightarrow> length (unordered e n rows) = length rows"
  unfolding unordered_def orders_rows_def by (metis card_lessThan distinct_card length_map)

lemma set_unordered: "orders_rows e \<Longrightarrow> set (unordered e n rows) = set rows"
  unfolding unordered_def orders_rows_def by (auto simp: in_set_conv_nth)

lemma distinct_unordered: "orders_rows e \<Longrightarrow> distinct rows \<Longrightarrow> distinct (unordered e n rows)"
  unfolding unordered_def orders_rows_def by (auto simp: distinct_map inj_on_def nth_eq_iff_index_eq)

lemma mset_unordered: "orders_rows e \<Longrightarrow> mset (unordered e n rows) = mset rows"
proof -
  assume "orders_rows e"
  then have "mset (env_order e n (length rows)) = mset [0..<length rows]"
    unfolding orders_rows_def by (intro set_eq_iff_mset_eq_distinct [THEN iffD1]) (auto simp: lessThan_atLeast0)
  then have "mset (map (\<lambda>i. rows ! i) (env_order e n (length rows))) = mset (map (\<lambda>i. rows ! i) [0..<length rows])"
    by (metis mset_map)
  then show ?thesis by (simp add: unordered_def map_nth)
qed

lemma map_unordered:
  assumes "orders_rows e"
  shows "map f (unordered e n rows) = unordered e n (map f rows)"
  using assms unfolding unordered_def orders_rows_def by (auto intro: nth_map [symmetric])


section \<open>A concrete environment\<close>

text \<open>An outside in which nothing fails, used where a theorem is applied to concrete inputs: a
  clock that advances by a second per interaction, Telegram numbering its answers, and the
  last 32 bytes of its input in place of SHA-256.\<close>

definition toy_hash :: "bytes \<Rightarrow> bytes" where
  "toy_hash x = take 32 (rev x @ replicate 32 (CHR 0x00))"

definition demo_env :: env where
  "demo_env = \<lparr>env_fault = (\<lambda>_. False), env_now = (\<lambda>n. unix_time (1767225600 + int n)),
     env_uuid = (\<lambda>n. ''uuid-'' @ nat_dec n), env_rand = (\<lambda>n k. Some (replicate k (char_of n))),
     env_tg = (\<lambda>cs c. Tg_ok (int (length cs) + 1)), env_sha256 = toy_hash,
     env_jsonb = (\<lambda>_. ''{}''),
     env_cancel = (\<lambda>_. False), env_order = (\<lambda>n k. [0..<k]),
     env_idkey = (\<lambda>pw salt t m p n. take n (pw @ salt @ replicate n (CHR 0x00))),
     env_is_print = (\<lambda>_. True)\<rparr>"

lemma demo_env_simps [simp]:
  "env_fault demo_env n = False" "env_sha256 demo_env = toy_hash"
  "env_now demo_env n = unix_time (1767225600 + int n)" "env_jsonb demo_env j = ''{}''"
  "env_tg demo_env cs c = Tg_ok (int (length cs) + 1)"
  "env_rand demo_env n k = Some (replicate k (char_of n))" "env_uuid demo_env n = ''uuid-'' @ nat_dec n"
  "env_cancel demo_env n = False" "env_order demo_env n k = [0..<k]"
  "env_idkey demo_env pw salt t m p n = take n (pw @ salt @ replicate n (CHR 0x00))"
  by (simp_all add: demo_env_def)

lemma demo_env_orders [simp]: "orders_rows demo_env"
  by (auto simp: orders_rows_def)

lemma demo_env_unordered [simp]: "unordered demo_env n rows = rows"
  by (simp add: unordered_def map_nth)

lemma length_toy_hash [simp]: "length (toy_hash x) = 32"
  by (simp add: toy_hash_def)

end
