(* ===== verification/Audit_Log.thy ===== *)
theory Audit_Log
  imports World
begin

text \<open>
  The append-only audit log of \<^verbatim>\<open>src/internal/audit\<close>: events, the hash chain and its
  verifier (\<^verbatim>\<open>chain.go\<close>), the PostgreSQL writer (\<^verbatim>\<open>writer.go\<close>) with the canonical row
  serialisation it calls (\<^verbatim>\<open>migrations/0007\<close>), and the read side
  \<^verbatim>\<open>pgStore.VerifyAuditChain\<close>. SHA-256 is the parameter \<open>env_sha256\<close>.
\<close>

section \<open>Events\<close>

definition StageReceived :: string where "StageReceived = ''received''"
definition StageValidated :: string where "StageValidated = ''validated''"
definition StageDispatched :: string where "StageDispatched = ''dispatched''"
definition StageDelivered :: string where "StageDelivered = ''delivered''"
definition StageDenied :: string where "StageDenied = ''denied''"
definition StageRetried :: string where "StageRetried = ''retried''"
definition StageDeferred :: string where "StageDeferred = ''deferred''"
definition StageIntrusionKick :: string where "StageIntrusionKick = ''intrusion_kick''"
definition StageIntrusionUnmitigated :: string where
  "StageIntrusionUnmitigated = ''intrusion_unmitigated''"
definition StageBotNotAdmin :: string where "StageBotNotAdmin = ''bot_not_admin''"
definition StageTelegramAuthFailed :: string where
  "StageTelegramAuthFailed = ''telegram_auth_failed''"
definition StageKeyIssued :: string where "StageKeyIssued = ''key_issued''"
definition StageKeyRevoked :: string where "StageKeyRevoked = ''key_revoked''"

lemmas stage_defs = StageReceived_def StageValidated_def StageDispatched_def StageDelivered_def
  StageDenied_def StageRetried_def StageDeferred_def StageIntrusionKick_def
  StageIntrusionUnmitigated_def StageBotNotAdmin_def StageTelegramAuthFailed_def
  StageKeyIssued_def StageKeyRevoked_def

definition ChannelSupergroup :: string where "ChannelSupergroup = ''supergroup''"
definition ChannelDM :: string where "ChannelDM = ''dm''"
definition ChannelGeneral :: string where "ChannelGeneral = ''general''"

lemmas channel_defs = ChannelSupergroup_def ChannelDM_def ChannelGeneral_def

record event =
  ev_at :: time
  ev_trace_id :: string
  ev_message_id :: string
  ev_stage :: string
  ev_app_id :: string
  ev_capability :: string
  ev_capability_set_ver :: int
  ev_endpoint :: string
  ev_route_strategy :: string
  ev_delivery_channel :: string
  ev_recipient_user_id :: int
  ev_recipient_chat_id :: int
  ev_error_code :: string
  ev_details :: details

text \<open>The zero value of the struct, which every composite literal starts from.\<close>

definition zero_event :: event where
  "zero_event = \<lparr>ev_at = 0, ev_trace_id = [], ev_message_id = [], ev_stage = [], ev_app_id = [],
     ev_capability = [], ev_capability_set_ver = 0, ev_endpoint = [], ev_route_strategy = [],
     ev_delivery_channel = [], ev_recipient_user_id = 0, ev_recipient_chat_id = 0,
     ev_error_code = [], ev_details = []\<rparr>"

definition marshalDetails :: "env \<Rightarrow> event \<Rightarrow> string" where
  "marshalDetails e ev = (if ev_details ev = [] then ''{}'' else env_jsonb e (ev_details ev))"


section \<open>Canonical row serialisation\<close>

abbreviation backslash :: char where "backslash \<equiv> CHR 0x5C"
abbreviation pipe :: char where "pipe \<equiv> CHR ''|''"

text \<open>\<^verbatim>\<open>replace(replace(v, '\', '\\'), '|', '\|')\<close>\<close>

fun chain_escape :: "string \<Rightarrow> string" where
  "chain_escape [] = []"
| "chain_escape (c # cs) =
     (if c = backslash \<or> c = pipe then backslash # c # chain_escape cs else c # chain_escape cs)"

definition audit_chain_field :: "string option \<Rightarrow> string" where
  "audit_chain_field v =
     (case v of None \<Rightarrow> [backslash, CHR ''N''] | Some s \<Rightarrow> chain_escape s)"

text \<open>\<^verbatim>\<open>extract(epoch FROM at)::text\<close> of a timestamp in microseconds: six decimals.\<close>

definition pad6 :: "nat \<Rightarrow> string" where
  "pad6 n = map (\<lambda>i. digit_char (n div 10 ^ i mod 10)) [5, 4, 3, 2, 1, 0]"

definition epoch_text :: "int \<Rightarrow> string" where
  "epoch_text us = (if us < 0 then ''-'' else []) @
     nat_dec (nat \<bar>us\<bar> div 1000000) @ ''.'' @ pad6 (nat \<bar>us\<bar> mod 1000000)"

definition chain_fields :: "audit_row \<Rightarrow> string option list" where
  "chain_fields r =
     [ar_trace_id r, ar_message_id r, Some (ar_stage r), ar_app_id r, ar_capability r,
      map_option FormatInt (ar_capability_set_ver r), ar_endpoint r, ar_route_strategy r,
      ar_delivery_channel r, map_option FormatInt (ar_recipient_user_id r),
      map_option FormatInt (ar_recipient_chat_id r), ar_error_code r, Some (ar_details r)]"

definition join_fields :: "string option list \<Rightarrow> string" where
  "join_fields fs = concat (map (\<lambda>f. pipe # audit_chain_field f) fs)"

definition audit_chain_payload :: "audit_row \<Rightarrow> bytes" where
  "audit_chain_payload r = ''v1'' @ pipe # epoch_text (ar_at r) @ join_fields (chain_fields r)"


section \<open>Chain and verifier\<close>

definition genesisSeed :: string where
  "genesisSeed = ''telegram_server-audit-genesis-v1''"

definition GenesisHash :: "(bytes \<Rightarrow> bytes) \<Rightarrow> bytes" where
  "GenesisHash sha = sha genesisSeed"

definition ComputeRowHash :: "(bytes \<Rightarrow> bytes) \<Rightarrow> bytes \<Rightarrow> bytes \<Rightarrow> bytes" where
  "ComputeRowHash sha prev payload = sha (prev @ payload)"

record chain_row =
  cr_id :: int
  cr_at :: int
  cr_stage :: string
  cr_prev_hash :: bytes
  cr_row_hash :: bytes
  cr_payload :: bytes

record verify_break =
  vb_id :: int
  vb_at :: int
  vb_stage :: string
  vb_column :: string
  vb_expected :: bytes
  vb_stored :: bytes

record verify_result =
  vr_ok :: bool
  vr_rows :: nat
  vr_break :: "verify_break option"

text \<open>
  The iterator \<^verbatim>\<open>next\<close> yields the rows of a list, then the end of the rows
  (\<^const>\<open>None\<close>) or an error (\<^const>\<open>Some\<close>). The second component of the result is the
  error that is returned.
\<close>

fun verify_loop ::
  "(bytes \<Rightarrow> bytes) \<Rightarrow> 'err option \<Rightarrow> chain_row list \<Rightarrow> bytes \<Rightarrow> verify_result \<Rightarrow>
     verify_result \<times> 'err option" where
  "verify_loop sha err [] running res =
     (case err of
        Some x \<Rightarrow> (res, Some x)
      | None \<Rightarrow> (res\<lparr>vr_ok := True\<rparr>, None))"
| "verify_loop sha err (row # rows) running res =
     (if cr_prev_hash row \<noteq> running then
        (res\<lparr>vr_break := Some \<lparr>vb_id = cr_id row, vb_at = cr_at row, vb_stage = cr_stage row,
           vb_column = ''prev_hash'', vb_expected = running, vb_stored = cr_prev_hash row\<rparr>\<rparr>, None)
      else
        (let want = ComputeRowHash sha running (cr_payload row)
         in if cr_row_hash row \<noteq> want then
              (res\<lparr>vr_break := Some \<lparr>vb_id = cr_id row, vb_at = cr_at row, vb_stage = cr_stage row,
                 vb_column = ''row_hash'', vb_expected = want, vb_stored = cr_row_hash row\<rparr>\<rparr>, None)
            else verify_loop sha err rows (cr_row_hash row) (res\<lparr>vr_rows := Suc (vr_rows res)\<rparr>)))"

definition VerifyChain ::
  "(bytes \<Rightarrow> bytes) \<Rightarrow> chain_row list \<Rightarrow> 'err option \<Rightarrow> verify_result \<times> 'err option" where
  "VerifyChain sha rows err =
     verify_loop sha err rows (GenesisHash sha) \<lparr>vr_ok = False, vr_rows = 0, vr_break = None\<rparr>"


section \<open>The writer\<close>

datatype audit_err = Audit_begin | Audit_lock | Audit_insert db_error | Audit_commit

definition nullif_text :: "string \<Rightarrow> string option" where
  "nullif_text s = (if s = [] then None else Some s)"

definition nullif_int :: "int \<Rightarrow> int option" where
  "nullif_int i = (if i = 0 then None else Some i)"

text \<open>PostgreSQL keeps microseconds since the Unix epoch.\<close>

definition pg_micros :: "time \<Rightarrow> int" where
  "pg_micros t = t div 1000 - unix_epoch_s * 1000000"

text \<open>\<^verbatim>\<open>SELECT row_hash FROM audit_log ORDER BY id DESC LIMIT 1\<close>, or the genesis hash.\<close>

definition chain_head :: "bytes \<Rightarrow> audit_row list \<Rightarrow> bytes" where
  "chain_head genesis rows =
     (if rows = [] then genesis else ar_row_hash (last (sort_key ar_id rows)))"

text \<open>The row that the statement inserts, for a transaction at time \<open>t\<close>.\<close>

definition unhashed_row :: "env \<Rightarrow> event \<Rightarrow> time \<Rightarrow> database \<Rightarrow> audit_row" where
  "unhashed_row e ev t d =
     \<lparr>ar_id = d_audit_seq d,
      ar_at = pg_micros (if ev_at ev = 0 then t else ev_at ev),
      ar_trace_id = nullif_text (ev_trace_id ev),
      ar_message_id = nullif_text (ev_message_id ev),
      ar_stage = ev_stage ev,
      ar_app_id = nullif_text (ev_app_id ev),
      ar_capability = nullif_text (ev_capability ev),
      ar_capability_set_ver = nullif_int (ev_capability_set_ver ev),
      ar_endpoint = nullif_text (ev_endpoint ev),
      ar_route_strategy = nullif_text (ev_route_strategy ev),
      ar_delivery_channel = nullif_text (ev_delivery_channel ev),
      ar_recipient_user_id = nullif_int (ev_recipient_user_id ev),
      ar_recipient_chat_id = nullif_int (ev_recipient_chat_id ev),
      ar_error_code = nullif_text (ev_error_code ev),
      ar_details = marshalDetails e ev,
      ar_prev_hash = chain_head (GenesisHash (env_sha256 e)) (d_audit d),
      ar_row_hash = []\<rparr>"

definition chained_row :: "env \<Rightarrow> event \<Rightarrow> time \<Rightarrow> database \<Rightarrow> audit_row" where
  "chained_row e ev t d =
     (let r = unhashed_row e ev t d
      in r\<lparr>ar_row_hash := env_sha256 e (ar_prev_hash r @ audit_chain_payload r)\<rparr>)"

definition append_audit :: "database \<Rightarrow> audit_row \<Rightarrow> database" where
  "append_audit d r = d\<lparr>d_audit := d_audit d @ [r], d_audit_seq := d_audit_seq d + 1\<rparr>"

definition insertChainedQuery :: "env \<Rightarrow> event \<Rightarrow> unit stmt" where
  "insertChainedQuery e ev t d =
     (let r = chained_row e ev t d
      in if ar_stage r \<notin> set audit_stage_values \<or>
            (case ar_delivery_channel r of None \<Rightarrow> False | Some c \<Rightarrow> c \<notin> set channel_values)
         then Inl Check_violation
         else Inr ((), append_audit d r))"

definition Write :: "env \<Rightarrow> event \<Rightarrow> world \<Rightarrow> (audit_err + unit) \<times> world" where
  "Write e ev w =
     (case db_trip e w of (ok, w1) \<Rightarrow>
      if \<not> ok then (Inl Audit_begin, w1)
      else case db_trip e w1 of (ok, w2) \<Rightarrow>
      if \<not> ok then (Inl Audit_lock, rollback_to w w2)
      else case db_exec e (insertChainedQuery e ev) w2 of
        (Inl err, w3) \<Rightarrow> (Inl (Audit_insert err), rollback_to w w3)
      | (Inr _, w3) \<Rightarrow>
          (case db_trip e w3 of (ok, w4) \<Rightarrow>
           if \<not> ok then (Inl Audit_commit, rollback_to w w4) else (Inr (), w4)))"


section \<open>Reading the chain back\<close>

definition chain_row_of :: "audit_row \<Rightarrow> chain_row" where
  "chain_row_of r = \<lparr>cr_id = ar_id r, cr_at = ar_at r, cr_stage = ar_stage r,
     cr_prev_hash = ar_prev_hash r, cr_row_hash = ar_row_hash r,
     cr_payload = audit_chain_payload r\<rparr>"

definition verifyChainQuery :: "database \<Rightarrow> chain_row list" where
  "verifyChainQuery d = map chain_row_of (sort_key ar_id (d_audit d))"

text \<open>\<open>stop\<close> is where the stream of rows breaks off with an error (a deadline, a lost connection):
  \<^const>\<open>None\<close> when it does not.\<close>

definition VerifyAuditChain ::
  "env \<Rightarrow> nat option \<Rightarrow> world \<Rightarrow> (verify_result \<times> db_error option) \<times> world" where
  "VerifyAuditChain e stop w =
     (case db_query e (\<lambda>t d. verifyChainQuery d) w of
        (Inl err, w1) \<Rightarrow> ((\<lparr>vr_ok = False, vr_rows = 0, vr_break = None\<rparr>, Some err), w1)
      | (Inr rows, w1) \<Rightarrow>
          (case stop of
             None \<Rightarrow> (VerifyChain (env_sha256 e) rows None, w1)
           | Some n \<Rightarrow> (VerifyChain (env_sha256 e) (take n rows) (Some Db_fault), w1)))"


section \<open>Intact chains\<close>

text \<open>The specification of an intact chain from the hash \<open>h\<close> on: every row names its
  predecessor's hash and carries the hash of its own content.\<close>

fun linked :: "(bytes \<Rightarrow> bytes) \<Rightarrow> bytes \<Rightarrow> chain_row list \<Rightarrow> bool" where
  "linked sha h [] = True"
| "linked sha h (r # rs) =
     (cr_prev_hash r = h \<and> cr_row_hash r = ComputeRowHash sha h (cr_payload r) \<and>
      linked sha (cr_row_hash r) rs)"

fun end_hash :: "bytes \<Rightarrow> chain_row list \<Rightarrow> bytes" where
  "end_hash h [] = h"
| "end_hash h (r # rs) = end_hash (cr_row_hash r) rs"

definition chain_ok :: "env \<Rightarrow> database \<Rightarrow> bool" where
  "chain_ok e d =
     linked (env_sha256 e) (GenesisHash (env_sha256 e)) (map chain_row_of (d_audit d))"

lemma linked_append [chain_simps]:
  "linked sha h (rs @ ss) = (linked sha h rs \<and> linked sha (end_hash h rs) ss)"
  by (induction rs arbitrary: h) auto

lemma end_hash_append [chain_simps]: "end_hash h (rs @ ss) = end_hash (end_hash h rs) ss"
  by (induction rs arbitrary: h) auto

lemma end_hash_last: "rs \<noteq> [] \<Longrightarrow> end_hash h rs = cr_row_hash (last rs)"
  by (induction rs arbitrary: h) auto

lemma verify_loop_linked:
  "linked sha h rows \<Longrightarrow> verify_loop sha err rows h res =
     (case err of
        Some x \<Rightarrow> (res\<lparr>vr_rows := vr_rows res + length rows\<rparr>, Some x)
      | None \<Rightarrow> (res\<lparr>vr_ok := True, vr_rows := vr_rows res + length rows\<rparr>, None))"
  by (induction rows arbitrary: h res) (auto split: option.splits)

lemma verify_loop_append:
  "linked sha h rows \<Longrightarrow> verify_loop sha err (rows @ rows') h res =
     verify_loop sha err rows' (end_hash h rows) (res\<lparr>vr_rows := vr_rows res + length rows\<rparr>)"
  by (induction rows arbitrary: h res) auto

lemma verify_loop_ok_iff:
  "\<not> vr_ok res \<Longrightarrow>
     vr_ok (fst (verify_loop sha err rows h res)) = (err = None \<and> linked sha h rows)"
  by (induction rows arbitrary: h res) (auto simp: Let_def split: option.splits)

lemma VerifyChain_linked:
  "linked sha (GenesisHash sha) rows \<Longrightarrow>
     VerifyChain sha rows None = (\<lparr>vr_ok = True, vr_rows = length rows, vr_break = None\<rparr>, None)"
  by (simp add: VerifyChain_def verify_loop_linked)

lemma VerifyChain_ok_iff:
  "vr_ok (fst (VerifyChain sha rows err)) = (err = None \<and> linked sha (GenesisHash sha) rows)"
  by (simp add: VerifyChain_def verify_loop_ok_iff)


section \<open>What a write does\<close>

text \<open>Tables that differ in the audit log only.\<close>

definition same_but_audit :: "database \<Rightarrow> database \<Rightarrow> bool" where
  "same_but_audit d d' = (d' = d\<lparr>d_audit := d_audit d', d_audit_seq := d_audit_seq d'\<rparr>)"

lemma same_but_audit_refl [simp]: "same_but_audit d d"
  by (simp add: same_but_audit_def)

lemma same_but_audit_trans:
  assumes "same_but_audit d d'" "same_but_audit d' d''"
  shows "same_but_audit d d''"
proof -
  from assms obtain a b a' b' where "d' = d\<lparr>d_audit := a, d_audit_seq := b\<rparr>"
    and "d'' = d'\<lparr>d_audit := a', d_audit_seq := b'\<rparr>"
    by (metis same_but_audit_def)
  then show ?thesis by (simp add: same_but_audit_def)
qed

lemma same_but_audit_fields:
  assumes "same_but_audit d d'"
  shows "d_apps d' = d_apps d" "d_caps d' = d_caps d" "d_keys d' = d_keys d"
    "d_users d' = d_users d" "d_subs d' = d_subs d" "d_topics d' = d_topics d"
    "d_tokens d' = d_tokens d" "d_policies d' = d_policies d"
    "d_key_seq d' = d_key_seq d" "d_user_seq d' = d_user_seq d"
proof -
  obtain a b where "d' = d\<lparr>d_audit := a, d_audit_seq := b\<rparr>"
    using assms by (metis same_but_audit_def)
  then show "d_apps d' = d_apps d" "d_caps d' = d_caps d" "d_keys d' = d_keys d"
    "d_users d' = d_users d" "d_subs d' = d_subs d" "d_topics d' = d_topics d"
    "d_tokens d' = d_tokens d" "d_policies d' = d_policies d"
    "d_key_seq d' = d_key_seq d" "d_user_seq d' = d_user_seq d"
    by simp_all
qed

lemma append_audit_same [simp]: "same_but_audit d (append_audit d r)"
  by (simp add: same_but_audit_def append_audit_def)

lemma chained_row_fields [simp]:
  "ar_id (chained_row e ev t d) = d_audit_seq d" "ar_stage (chained_row e ev t d) = ev_stage ev"
  "ar_delivery_channel (chained_row e ev t d) = nullif_text (ev_delivery_channel ev)"
  "ar_prev_hash (chained_row e ev t d) = chain_head (GenesisHash (env_sha256 e)) (d_audit d)"
  by (simp_all add: chained_row_def unhashed_row_def Let_def)

lemma payload_row_hash [simp]: "audit_chain_payload (r\<lparr>ar_row_hash := h\<rparr>) = audit_chain_payload r"
  by (simp add: audit_chain_payload_def chain_fields_def)

lemma chained_row_hash:
  "ar_row_hash (chained_row e ev t d) =
     env_sha256 e (ar_prev_hash (chained_row e ev t d) @ audit_chain_payload (chained_row e ev t d))"
  unfolding chained_row_def Let_def by simp

text \<open>The four round trips of a write, each of which may fail.\<close>

lemma Write_eq:
  "Write e ev w =
     (let n = w_tick w; t = env_now e (n + 2)
      in if env_fault e n then (Inl Audit_begin, tick w)
         else if env_fault e (n + 1) then (Inl Audit_lock, tick (tick w))
         else if env_fault e (n + 2) then (Inl (Audit_insert Db_fault), tick (tick (tick w)))
         else (case insertChainedQuery e ev t (w_db w) of
                 Inl err \<Rightarrow> (Inl (Audit_insert err), tick (tick (tick w)))
               | Inr (u, d) \<Rightarrow>
                   if env_fault e (n + 3) then (Inl Audit_commit, tick (tick (tick (tick w))))
                   else (Inr (), (tick (tick (tick (tick w))))\<lparr>w_db := d\<rparr>)))"
  by (simp add: Write_def db_trip_def db_exec_def Let_def tick_def rollback_to_def eval_nat_numeral
      split: sum.split prod.split)

text \<open>A write appends the row of its event or leaves the tables alone; it appends exactly when it
  reports success. Nothing else of the world changes.\<close>

lemma Write_cases:
  obtains (written) t where "fst (Write e ev w) = Inr ()"
      "w_db (snd (Write e ev w)) = append_audit (w_db w) (chained_row e ev t (w_db w))"
      "ev_stage ev \<in> set audit_stage_values"
      "ev_delivery_channel ev = [] \<or> ev_delivery_channel ev \<in> set channel_values"
    | (failed) err where "fst (Write e ev w) = Inl err" "w_db (snd (Write e ev w)) = w_db w"
proof (cases "fst (Write e ev w)")
  case (Inl err)
  then have "w_db (snd (Write e ev w)) = w_db w"
    by (simp add: Write_eq Let_def split: sum.splits prod.splits if_splits)
  with Inl failed show ?thesis by blast
next
  case (Inr u)
  define t where "t = env_now e (w_tick w + 2)"
  from Inr obtain d where ins: "insertChainedQuery e ev t (w_db w) = Inr ((), d)"
    and "w_db (snd (Write e ev w)) = d"
    by (simp add: Write_eq Let_def t_def split: sum.splits prod.splits if_splits)
  then have "w_db (snd (Write e ev w)) = append_audit (w_db w) (chained_row e ev t (w_db w))"
    and "ev_stage ev \<in> set audit_stage_values"
    and "ev_delivery_channel ev = [] \<or> ev_delivery_channel ev \<in> set channel_values"
    by (simp_all add: insertChainedQuery_def Let_def nullif_text_def split: if_splits)
  with Inr written show ?thesis by simp
qed

lemma Write_tg [simp]:
  "w_tg (snd (Write e ev w)) = w_tg w" "w_buckets (snd (Write e ev w)) = w_buckets w"
  "w_dispatch (snd (Write e ev w)) = w_dispatch w"
  by (simp_all add: Write_eq Let_def split: sum.split prod.split)

lemma Write_same [simp]: "same_but_audit (w_db w) (w_db (snd (Write e ev w)))"
  by (cases rule: Write_cases [of e ev w]) simp_all

lemmas Write_fields [simp] = same_but_audit_fields [OF Write_same]

lemma audit_ok_sorted: "audit_ok d \<Longrightarrow> sort_key ar_id (d_audit d) = d_audit d"
  by (simp add: audit_ok_def sort_key_id_if_sorted strict_sorted_imp_sorted)

lemma chain_head_end:
  "audit_ok d \<Longrightarrow> chain_head g (d_audit d) = end_hash g (map chain_row_of (d_audit d))"
  by (simp add: chain_head_def audit_ok_sorted end_hash_last last_map chain_row_of_def)

lemma append_audit_chain_ok:
  assumes "audit_ok d" "chain_ok e d"
  shows "chain_ok e (append_audit d (chained_row e ev t d))"
proof -
  let ?r = "chained_row e ev t d"
  have "linked (env_sha256 e) (end_hash (GenesisHash (env_sha256 e)) (map chain_row_of (d_audit d)))
      [chain_row_of ?r]"
    using chained_row_hash [of e ev t d] assms(1)
    by (simp add: chain_row_of_def ComputeRowHash_def chain_head_end)
  with assms(2) show ?thesis
    by (simp add: chain_ok_def append_audit_def linked_append)
qed

lemma append_audit_ok:
  assumes "audit_ok d" "ev_stage ev \<in> set audit_stage_values"
    "ev_delivery_channel ev = [] \<or> ev_delivery_channel ev \<in> set channel_values"
  shows "audit_ok (append_audit d (chained_row e ev t d))"
proof -
  have "\<forall>r \<in> set (d_audit d). ar_id r < d_audit_seq d + 1"
    using assms(1) by (auto simp: audit_ok_def list_all_iff)
  then show ?thesis
    using assms
    by (auto simp: audit_ok_def append_audit_def sorted_wrt_append list_all_iff nullif_text_def)
qed

lemma Write_audit_ok: "audit_ok (w_db w) \<Longrightarrow> audit_ok (w_db (snd (Write e ev w)))"
  by (cases rule: Write_cases [of e ev w]) (simp_all add: append_audit_ok)

lemma Write_chain_ok:
  "audit_ok (w_db w) \<Longrightarrow> chain_ok e (w_db w) \<Longrightarrow> chain_ok e (w_db (snd (Write e ev w)))"
  by (cases rule: Write_cases [of e ev w]) (simp_all add: append_audit_chain_ok)

lemma same_but_audit_db_ok:
  assumes "same_but_audit d d'" "db_ok d" "audit_ok d'"
  shows "db_ok d'"
  using assms same_but_audit_fields [OF assms(1)]
  unfolding db_ok_def apps_ok_def caps_ok_def keys_ok_def users_ok_def subs_ok_def topics_ok_def
    tokens_ok_def by simp

lemma Write_db_ok: "db_ok (w_db w) \<Longrightarrow> db_ok (w_db (snd (Write e ev w)))"
  by (rule same_but_audit_db_ok [OF Write_same]) (auto simp: db_ok_def Write_audit_ok)

end
