(* ===== verification/Audit_Chain.thy ===== *)
theory Audit_Chain
  imports Audit_Log
begin

text \<open>
  What the audit hash chain guarantees: the serialisation of a row can be read back (two rows with
  the same payload have the same content), a log the writers made always verifies, under every
  interleaving of writers and every failure, verification stops at the first bad row, and two logs
  that verify with the same head are equal or exhibit a SHA-256 collision.
\<close>

section \<open>The serialisation is injective\<close>

lemma chain_escape_split:
  assumes "chain_escape s @ t = chain_escape s' @ t'"
    and "t = [] \<or> hd t = pipe" "t' = [] \<or> hd t' = pipe"
  shows "s = s' \<and> t = t'"
  using assms(1)
proof (induction s arbitrary: s')
  case Nil
  show ?case
  proof (cases s')
    case (Cons c cs)
    with Nil assms(2,3) show ?thesis by (cases t) (auto split: if_splits)
  qed (use Nil in simp)
next
  case (Cons c s)
  show ?case
  proof (cases s')
    case Nil
    with Cons.prems assms(2,3) show ?thesis by (cases t') (auto split: if_splits)
  next
    case (Cons c' cs)
    with Cons.prems Cons.IH [of cs] show ?thesis by (auto split: if_splits)
  qed
qed

lemma null_field_split:
  assumes "[backslash, CHR ''N''] @ t = chain_escape s' @ t'" "t' = [] \<or> hd t' = pipe"
  shows False
proof (cases s')
  case Nil
  with assms show ?thesis by (cases t') auto
next
  case (Cons c cs)
  with assms show ?thesis by (auto split: if_splits)
qed

lemma audit_chain_field_split:
  assumes "audit_chain_field a @ t = audit_chain_field b @ t'"
    and "t = [] \<or> hd t = pipe" "t' = [] \<or> hd t' = pipe"
  shows "a = b \<and> t = t'"
proof (cases a; cases b)
  fix s s' assume ab: "a = Some s" "b = Some s'"
  with assms(1) have "chain_escape s @ t = chain_escape s' @ t'"
    by (simp add: audit_chain_field_def)
  then have "s = s' \<and> t = t'"
    using assms(2,3) by (rule chain_escape_split)
  with ab show ?thesis by simp
next
  fix s assume "a = Some s" "b = None"
  with assms null_field_split [of t' s t] show ?thesis by (simp add: audit_chain_field_def)
next
  fix s assume "a = None" "b = Some s"
  with assms null_field_split [of t s t'] show ?thesis by (simp add: audit_chain_field_def)
qed (use assms in \<open>simp add: audit_chain_field_def\<close>)

lemma join_fields_Cons: "join_fields (f # fs) = pipe # audit_chain_field f @ join_fields fs"
  by (simp add: join_fields_def)

lemma join_fields_hd: "join_fields fs = [] \<or> hd (join_fields fs) = pipe"
  by (cases fs) (simp_all add: join_fields_def)

lemma join_fields_inj:
  "length fs = length gs \<Longrightarrow> join_fields fs = join_fields gs \<Longrightarrow> fs = gs"
proof (induction fs gs rule: list_induct2)
  case Nil
  show ?case by simp
next
  case (Cons f fs g gs)
  then have "audit_chain_field f @ join_fields fs = audit_chain_field g @ join_fields gs"
    by (simp add: join_fields_Cons)
  then have "f = g \<and> join_fields fs = join_fields gs"
    using audit_chain_field_split join_fields_hd by blast
  with Cons.IH show ?case by simp
qed

lemma FormatInt_chars: "c \<in> set (FormatInt i) \<Longrightarrow> is_digit_char c \<or> c = CHR ''-''"
  using nat_dec_digits by (auto simp: FormatInt_def split: if_splits)

lemma map_option_FormatInt_inj: "map_option FormatInt a = map_option FormatInt b \<Longrightarrow> a = b"
  by (cases a; cases b) (auto dest: FormatInt_inj)

lemma dec_val_pad6: "n < 1000000 \<Longrightarrow> dec_val 0 (pad6 n) = Some n"
proof -
  assume n: "n < 1000000"
  have step: "m div 10 * 10 + m mod 10 = m" for m :: nat
    by simp
  have d: "n div 100 = n div 10 div 10" "n div 1000 = n div 100 div 10"
    "n div 10000 = n div 1000 div 10" "n div 100000 = n div 10000 div 10"
    by (simp_all add: div_mult2_eq [symmetric])
  have "100000 * (n div 100000) + 10000 * (n div 10000 mod 10) + 1000 * (n div 1000 mod 10) +
      100 * (n div 100 mod 10) + 10 * (n div 10 mod 10) + n mod 10 = n"
    using step [of n] step [of "n div 10"] step [of "n div 100"] step [of "n div 1000"]
      step [of "n div 10000"]
    unfolding d [symmetric] by linarith
  with n show ?thesis by (simp add: pad6_def)
qed

lemma pad6_inj: "m < 1000000 \<Longrightarrow> n < 1000000 \<Longrightarrow> pad6 m = pad6 n \<Longrightarrow> m = n"
  by (metis dec_val_pad6 option.inject)

lemma pad6_chars: "c \<in> set (pad6 n) \<Longrightarrow> is_digit_char c"
  by (auto simp: pad6_def)

lemma split_at_char:
  assumes "xs @ c # ys = xs' @ c # ys'" "c \<notin> set xs" "c \<notin> set xs'"
  shows "xs = xs' \<and> ys = ys'"
  using assms by (induction xs arbitrary: xs') (auto simp: append_eq_Cons_conv Cons_eq_append_conv)

lemma no_digit_in_nat_dec: "\<not> is_digit_char c \<Longrightarrow> c \<notin> set (nat_dec n)"
  using nat_dec_digits by blast

lemma hd_epoch_text: "(hd (epoch_text us) = CHR ''-'') = (us < 0)"
proof -
  have "hd (nat_dec n @ xs) \<noteq> CHR ''-''" for n xs
    using nat_dec_hd_digit [of n] not_digit_sign(1) by (metis hd_append2 nat_dec_nonempty)
  then show ?thesis by (simp add: epoch_text_def)
qed

lemma epoch_text_inj: "epoch_text a = epoch_text b \<Longrightarrow> a = b"
proof -
  assume eq: "epoch_text a = epoch_text b"
  let ?a = "nat \<bar>a\<bar>" and ?b = "nat \<bar>b\<bar>"
  have sign: "(a < 0) = (b < 0)" using eq hd_epoch_text by metis
  have "CHR ''.'' \<notin> set (nat_dec n)" for n
    by (rule no_digit_in_nat_dec) (simp add: is_digit_char_def)
  moreover have "nat_dec (?a div 1000000) @ CHR ''.'' # pad6 (?a mod 1000000) =
      nat_dec (?b div 1000000) @ CHR ''.'' # pad6 (?b mod 1000000)"
    using eq sign by (simp add: epoch_text_def split: if_splits)
  ultimately have "nat_dec (?a div 1000000) = nat_dec (?b div 1000000)"
    and "pad6 (?a mod 1000000) = pad6 (?b mod 1000000)"
    using split_at_char by metis+
  then have "?a div 1000000 = ?b div 1000000" "?a mod 1000000 = ?b mod 1000000"
    by (auto dest!: nat_dec_inj pad6_inj [rotated 2])
  then have "?a = ?b" by (metis mult_div_mod_eq)
  with sign show ?thesis by linarith
qed

lemma pipe_not_in_epoch_text: "pipe \<notin> set (epoch_text a)"
  using no_digit_in_nat_dec [of pipe] pad6_chars [of pipe]
  by (auto simp: epoch_text_def is_digit_char_def)

text \<open>The columns the hash covers: all but the serial id and the hashes themselves.\<close>

definition row_content :: "audit_row \<Rightarrow> audit_row" where
  "row_content r = r\<lparr>ar_id := 0, ar_prev_hash := [], ar_row_hash := []\<rparr>"

lemma audit_chain_payload_content:
  assumes "audit_chain_payload r = audit_chain_payload r'"
  shows "row_content r = row_content r'"
proof -
  obtain fs gs where fs: "join_fields (chain_fields r) = pipe # fs" "join_fields (chain_fields r') = pipe # gs"
    by (simp add: chain_fields_def join_fields_Cons)
  with assms have "epoch_text (ar_at r) @ pipe # fs = epoch_text (ar_at r') @ pipe # gs"
    by (simp add: audit_chain_payload_def)
  then have "ar_at r = ar_at r'" "join_fields (chain_fields r) = join_fields (chain_fields r')"
    using split_at_char pipe_not_in_epoch_text epoch_text_inj fs by metis+
  moreover from this(2) have "chain_fields r = chain_fields r'"
    by (intro join_fields_inj) (simp_all add: chain_fields_def)
  ultimately show ?thesis
    by (cases r; cases r') (auto simp: row_content_def chain_fields_def dest: map_option_FormatInt_inj)
qed

section \<open>The writer's interface\<close>

text \<open>What the users of \<^verbatim>\<open>audit.Writer\<close> rely on: a write appends the chained row of its
  event, or it fails and leaves the tables alone.\<close>

locale audit_writer =
  fixes put_event :: "env \<Rightarrow> event \<Rightarrow> world \<Rightarrow> (audit_err + unit) \<times> world"
  assumes write_effect:
    "(\<exists>t. fst (put_event e ev w) = Inr () \<and> ev_stage ev \<in> set audit_stage_values \<and>
        (ev_delivery_channel ev = [] \<or> ev_delivery_channel ev \<in> set channel_values) \<and>
        w_db (snd (put_event e ev w)) = append_audit (w_db w) (chained_row e ev t (w_db w))) \<or>
     (\<exists>err. fst (put_event e ev w) = Inl err \<and> w_db (snd (put_event e ev w)) = w_db w)"
begin

lemma write_keeps:
  assumes "audit_ok (w_db w)" "chain_ok e (w_db w)"
  shows "audit_ok (w_db (snd (put_event e ev w))) \<and> chain_ok e (w_db (snd (put_event e ev w)))"
  using write_effect [of e ev w] assms append_audit_ok append_audit_chain_ok by auto

lemma write_appends:
  "\<exists>rows. d_audit (w_db (snd (put_event e ev w))) = d_audit (w_db w) @ rows \<and>
     length rows = (if fst (put_event e ev w) = Inr () then 1 else 0)"
proof (rule disjE [OF write_effect [of e ev w]])
  assume "\<exists>t. fst (put_event e ev w) = Inr () \<and> ev_stage ev \<in> set audit_stage_values \<and>
        (ev_delivery_channel ev = [] \<or> ev_delivery_channel ev \<in> set channel_values) \<and>
        w_db (snd (put_event e ev w)) = append_audit (w_db w) (chained_row e ev t (w_db w))"
  then show ?thesis by (auto simp: append_audit_def)
qed auto

lemma writes_keep:
  assumes "audit_ok (w_db w)" "chain_ok e (w_db w)"
  shows "audit_ok (w_db (foldl (\<lambda>w ev. snd (put_event e ev w)) w evs)) \<and>
         chain_ok e (w_db (foldl (\<lambda>w ev. snd (put_event e ev w)) w evs))"
  using assms
proof (induction evs arbitrary: w)
  case (Cons ev evs)
  then show ?case using write_keeps [of w e ev] by simp
qed simp

lemma writes_append:
  "\<exists>rows. d_audit (w_db (foldl (\<lambda>w ev. snd (put_event e ev w)) w evs)) = d_audit (w_db w) @ rows"
proof (induction evs arbitrary: w)
  case (Cons ev evs)
  obtain rows where "d_audit (w_db (snd (put_event e ev w))) = d_audit (w_db w) @ rows"
    using write_appends by blast
  with Cons [of "snd (put_event e ev w)"] show ?case by auto
qed simp

end

interpretation pgw: audit_writer Write
proof
  fix e ev w
  show "(\<exists>t. fst (Write e ev w) = Inr () \<and> ev_stage ev \<in> set audit_stage_values \<and>
        (ev_delivery_channel ev = [] \<or> ev_delivery_channel ev \<in> set channel_values) \<and>
        w_db (snd (Write e ev w)) = append_audit (w_db w) (chained_row e ev t (w_db w))) \<or>
     (\<exists>err. fst (Write e ev w) = Inl err \<and> w_db (snd (Write e ev w)) = w_db w)"
    by (cases rule: Write_cases [of e ev w]) blast+
qed


section \<open>Verification of a written log\<close>

lemma chain_ok_verifies:
  assumes "audit_ok d" "chain_ok e d"
  shows "VerifyChain (env_sha256 e) (verifyChainQuery d) None =
    (\<lparr>vr_ok = True, vr_rows = length (d_audit d), vr_break = None\<rparr>, None)"
  using assms VerifyChain_linked [of "env_sha256 e" "map chain_row_of (d_audit d)"]
  by (simp add: verifyChainQuery_def audit_ok_sorted chain_ok_def)

lemma chain_ok_empty [simp]: "chain_ok e empty_db" "audit_ok empty_db" "db_ok empty_db"
  by (simp_all add: chain_ok_def empty_db_def db_ok_defs)

text \<open>C12: Starting from an intact log, after any sequence of audit writes, with any of their round
  trips failing, the log has only grown at its end and the verifier accepts it and counts every row.\<close>

theorem written_log_verifies:
  assumes "audit_ok (w_db w)" "chain_ok e (w_db w)"
    and "w' = foldl (\<lambda>w ev. snd (Write e ev w)) w evs" "\<not> env_fault e (w_tick w')"
  shows "fst (VerifyAuditChain e None w') =
      (\<lparr>vr_ok = True, vr_rows = length (d_audit (w_db w')), vr_break = None\<rparr>, None)
      \<and> (\<exists>rows. d_audit (w_db w') = d_audit (w_db w) @ rows)"
proof (rule conjI)
  show "\<exists>rows. d_audit (w_db w') = d_audit (w_db w) @ rows"
    unfolding assms(3) by (rule pgw.writes_append)
next
  from pgw.writes_keep [OF assms(1,2)] have "audit_ok (w_db w')" "chain_ok e (w_db w')"
    by (simp_all add: assms(3))
  with assms(4) show "fst (VerifyAuditChain e None w') =
      (\<lparr>vr_ok = True, vr_rows = length (d_audit (w_db w')), vr_break = None\<rparr>, None)"
    by (simp add: VerifyAuditChain_def db_query_cases chain_ok_verifies)
qed

theorem written_log_verifies_witness:
  "fst (VerifyAuditChain demo_env None
     (foldl (\<lambda>w ev. snd (Write demo_env ev w)) empty_world
        [zero_event\<lparr>ev_stage := StageReceived\<rparr>, zero_event\<lparr>ev_stage := StageDelivered\<rparr>])) =
   (\<lparr>vr_ok = True, vr_rows = length (d_audit (w_db
     (foldl (\<lambda>w ev. snd (Write demo_env ev w)) empty_world
        [zero_event\<lparr>ev_stage := StageReceived\<rparr>, zero_event\<lparr>ev_stage := StageDelivered\<rparr>]))),
     vr_break = None\<rparr>, None)"
  using written_log_verifies [OF _ _ refl, of empty_world demo_env
      "[zero_event\<lparr>ev_stage := StageReceived\<rparr>, zero_event\<lparr>ev_stage := StageDelivered\<rparr>]"]
  by (simp add: empty_world_def)


section \<open>Where verification stops\<close>

text \<open>When the first rows of a log are intact and the next one is not, verification reports a
  break at exactly that row, in the column that fails, and counts the rows before it.\<close>

theorem verification_stops_at_first_bad_row:
  assumes "linked sha (GenesisHash sha) good" "\<not> linked sha (end_hash (GenesisHash sha) good) [bad]"
  shows "\<exists>b. VerifyChain sha (good @ bad # rest) err =
           (\<lparr>vr_ok = False, vr_rows = length good, vr_break = Some b\<rparr>, None) \<and>
         vb_id b = cr_id bad \<and> vb_expected b \<noteq> vb_stored b \<and>
         vb_column b = (if cr_prev_hash bad = end_hash (GenesisHash sha) good
                        then ''row_hash'' else ''prev_hash'')"
  using assms by (auto simp: VerifyChain_def verify_loop_append Let_def)

theorem verification_stops_at_first_bad_row_witness:
  "\<exists>b. VerifyChain toy_hash
       ([] @ \<lparr>cr_id = 1, cr_at = 0, cr_stage = ''received'', cr_prev_hash = GenesisHash toy_hash,
           cr_row_hash = [], cr_payload = ''p1''\<rparr> # []) (None :: unit option) =
       (\<lparr>vr_ok = False, vr_rows = length ([] :: chain_row list), vr_break = Some b\<rparr>, None) \<and>
     vb_id b = 1 \<and> vb_expected b \<noteq> vb_stored b \<and> vb_column b = ''row_hash''"
  using verification_stops_at_first_bad_row [of toy_hash "[]"
      "\<lparr>cr_id = 1, cr_at = 0, cr_stage = ''received'', cr_prev_hash = GenesisHash toy_hash,
         cr_row_hash = [], cr_payload = ''p1''\<rparr>" "[]" "None :: unit option"]
  by (simp add: ComputeRowHash_def toy_hash_def)


section \<open>Tamper evidence\<close>

text \<open>The inputs that a log feeds to the hash function: the seed, and for every row the previous
  hash followed by the payload.\<close>

definition hash_inputs :: "chain_row list \<Rightarrow> bytes set" where
  "hash_inputs rows = insert genesisSeed (set (map (\<lambda>r. cr_prev_hash r @ cr_payload r) rows))"

definition chain_cols :: "chain_row \<Rightarrow> bytes \<times> bytes \<times> bytes" where
  "chain_cols r = (cr_prev_hash r, cr_row_hash r, cr_payload r)"

lemma hash_inputs_simps [simp]:
  "genesisSeed \<in> hash_inputs rows"
  "cr_prev_hash r @ cr_payload r \<in> hash_inputs (rs @ [r])"
  "hash_inputs rs \<subseteq> hash_inputs (rs @ ss)"
  by (auto simp: hash_inputs_def)

lemma end_hash_length:
  assumes "\<And>x. length (sha x) = 32" "linked sha (GenesisHash sha) rows"
  shows "length (end_hash (GenesisHash sha) rows) = 32"
  using assms by (cases rows rule: rev_cases)
    (auto simp: linked_append end_hash_append GenesisHash_def ComputeRowHash_def)

lemma linked_snocD:
  assumes "linked sha h (rs @ [r])"
  shows "linked sha h rs" "cr_prev_hash r = end_hash h rs"
    "cr_row_hash r = sha (end_hash h rs @ cr_payload r)" "end_hash h (rs @ [r]) = cr_row_hash r"
  using assms by (simp_all add: linked_append end_hash_append ComputeRowHash_def)

lemma genesis_not_last:
  assumes len: "\<And>x. length (sha x) = 32" and inj: "inj_on sha (hash_inputs (rs @ [r]))"
    and ok: "linked sha (GenesisHash sha) (rs @ [r])" and pay: "cr_payload r \<noteq> []"
  shows "end_hash (GenesisHash sha) (rs @ [r]) \<noteq> GenesisHash sha"
proof
  assume "end_hash (GenesisHash sha) (rs @ [r]) = GenesisHash sha"
  with linked_snocD [OF ok] have "sha (cr_prev_hash r @ cr_payload r) = sha genesisSeed"
    by (simp add: GenesisHash_def)
  then have "cr_prev_hash r @ cr_payload r = genesisSeed"
    using inj by (simp add: inj_on_eq_iff)
  then have "length (cr_prev_hash r @ cr_payload r) = length genesisSeed" by simp
  moreover have "length (cr_prev_hash r) = 32"
    using end_hash_length [OF len linked_snocD(1) [OF ok]] linked_snocD(2) [OF ok] by simp
  ultimately show False using pay by (simp add: genesisSeed_def)
qed

lemma linked_same_end:
  assumes len: "\<And>x. length (sha x) = 32"
    and "linked sha (GenesisHash sha) rows" "linked sha (GenesisHash sha) rows'"
    and "inj_on sha (hash_inputs rows \<union> hash_inputs rows')"
    and "\<forall>r \<in> set rows \<union> set rows'. cr_payload r \<noteq> []"
    and "end_hash (GenesisHash sha) rows = end_hash (GenesisHash sha) rows'"
  shows "map chain_cols rows = map chain_cols rows'"
  using assms(2-)
proof (induction rows arbitrary: rows' rule: rev_induct)
  case Nil
  have "rows' \<noteq> ss @ [s]" for ss s
  proof
    assume rows': "rows' = ss @ [s]"
    have "inj_on sha (hash_inputs (ss @ [s]))"
      using Nil(3) rows' inj_on_subset by blast
    then have "end_hash (GenesisHash sha) (ss @ [s]) \<noteq> GenesisHash sha"
      by (rule genesis_not_last [OF len]) (use Nil(2,4) rows' in auto)
    with Nil(5) rows' show False by (metis end_hash.simps(1))
  qed
  then show ?case by (cases rows' rule: rev_cases) auto
next
  case (snoc r rs)
  note inj = snoc.prems(3)
  show ?case
  proof (cases rows' rule: rev_cases)
    case Nil
    have "inj_on sha (hash_inputs (rs @ [r]))" using inj inj_on_subset by blast
    then have "end_hash (GenesisHash sha) (rs @ [r]) \<noteq> GenesisHash sha"
      by (rule genesis_not_last [OF len]) (use snoc.prems(1,4) in auto)
    with snoc.prems(5) Nil show ?thesis by (metis end_hash.simps(1))
  next
    case rows': (snoc ss s)
    note r = linked_snocD [OF snoc.prems(1)] and s = linked_snocD [OF snoc.prems(2) [unfolded rows']]
    have "sha (cr_prev_hash r @ cr_payload r) = sha (cr_prev_hash s @ cr_payload s)"
      using snoc.prems(5) r s unfolding rows' by metis
    then have "cr_prev_hash r @ cr_payload r = cr_prev_hash s @ cr_payload s"
      by (rule inj_onD [OF inj]) (simp_all add: rows')
    moreover have "length (cr_prev_hash r) = length (cr_prev_hash s)"
      using end_hash_length [OF len r(1)] end_hash_length [OF len s(1)] r(2) s(2) by metis
    ultimately have eq: "cr_prev_hash r = cr_prev_hash s" "cr_payload r = cr_payload s"
      by (metis append_eq_append_conv)+
    moreover have "cr_row_hash r = cr_row_hash s" using eq r s by metis
    moreover have "map chain_cols rs = map chain_cols ss"
    proof (rule snoc.IH)
      show "inj_on sha (hash_inputs rs \<union> hash_inputs ss)"
        using inj by (rule inj_on_subset) (use hash_inputs_simps(3) rows' in blast)
      show "end_hash (GenesisHash sha) rs = end_hash (GenesisHash sha) ss" using eq(1) r(2) s(2) by metis
      show "linked sha (GenesisHash sha) rs" by (rule r(1))
      show "linked sha (GenesisHash sha) ss" by (rule s(1))
    qed (use snoc.prems(4) rows' in auto)
    ultimately have "map chain_cols rs = map chain_cols ss \<and> chain_cols r = chain_cols s"
      by (simp add: chain_cols_def [of r] chain_cols_def [of s])
    then show ?thesis by (simp add: rows')
  qed
qed

lemma audit_chain_payload_nonempty [simp]: "audit_chain_payload r \<noteq> []"
  by (simp add: audit_chain_payload_def)

lemma chain_head_query:
  "chain_head g (d_audit d) = end_hash g (verifyChainQuery d)"
proof (cases "d_audit d = []")
  case False
  then have "sort_key ar_id (d_audit d) \<noteq> []"
    by (metis length_0_conv length_sort)
  with False show ?thesis
    by (simp add: chain_head_def verifyChainQuery_def end_hash_last last_map chain_row_of_def)
qed (simp add: chain_head_def verifyChainQuery_def)

lemma same_chain_cols_same_row:
  assumes "chain_cols (chain_row_of r) = chain_cols (chain_row_of s)"
  shows "r\<lparr>ar_id := 0\<rparr> = s\<lparr>ar_id := 0\<rparr>"
proof -
  from assms have eq: "ar_prev_hash r = ar_prev_hash s" "ar_row_hash r = ar_row_hash s"
    "audit_chain_payload r = audit_chain_payload s"
    by (simp_all add: chain_cols_def chain_row_of_def)
  have "row_content r = row_content s"
    using eq(3) by (rule audit_chain_payload_content)
  with eq(1,2) show ?thesis by (cases r; cases s) (simp add: row_content_def)
qed

lemma same_chain_same_rows:
  assumes "map chain_cols (map chain_row_of rs) = map chain_cols (map chain_row_of ss)"
  shows "map (\<lambda>r. r\<lparr>ar_id := 0\<rparr>) rs = map (\<lambda>r. r\<lparr>ar_id := 0\<rparr>) ss"
proof (rule nth_equalityI)
  have len: "length rs = length ss" using arg_cong [OF assms, of length] by simp
  then show "length (map (\<lambda>r. r\<lparr>ar_id := 0\<rparr>) rs) = length (map (\<lambda>r. r\<lparr>ar_id := 0\<rparr>) ss)" by simp
  fix i assume i: "i < length (map (\<lambda>r. r\<lparr>ar_id := 0\<rparr>) rs)"
  have "chain_cols (chain_row_of (rs ! i)) = chain_cols (chain_row_of (ss ! i))"
    using arg_cong [OF assms, of "\<lambda>xs. xs ! i"] i len by simp
  then have "(rs ! i)\<lparr>ar_id := 0\<rparr> = (ss ! i)\<lparr>ar_id := 0\<rparr>" by (rule same_chain_cols_same_row)
  with i len show "map (\<lambda>r. r\<lparr>ar_id := 0\<rparr>) rs ! i = map (\<lambda>r. r\<lparr>ar_id := 0\<rparr>) ss ! i"
    by (simp only: length_map nth_map)
qed

text \<open>C3: Two audit logs that both verify and whose newest rows have the same hash have the same rows
  in the same order (serial numbers apart), as long as SHA-256 gives 32 bytes and does not collide
  on the inputs that these two logs feed to it.\<close>

theorem head_hash_determines_log:
  assumes "\<And>x. length (sha x) = 32"
    and "inj_on sha (hash_inputs (verifyChainQuery d) \<union> hash_inputs (verifyChainQuery d'))"
    and "vr_ok (fst (VerifyChain sha (verifyChainQuery d) (None :: db_error option)))"
    and "vr_ok (fst (VerifyChain sha (verifyChainQuery d') (None :: db_error option)))"
    and "chain_head (GenesisHash sha) (d_audit d) = chain_head (GenesisHash sha) (d_audit d')"
  shows "map (\<lambda>r. r\<lparr>ar_id := 0\<rparr>) (sort_key ar_id (d_audit d)) =
           map (\<lambda>r. r\<lparr>ar_id := 0\<rparr>) (sort_key ar_id (d_audit d'))"
proof -
  have "map chain_cols (verifyChainQuery d) = map chain_cols (verifyChainQuery d')"
  proof (rule linked_same_end [OF assms(1) _ _ assms(2)])
    show "\<forall>r \<in> set (verifyChainQuery d) \<union> set (verifyChainQuery d'). cr_payload r \<noteq> []"
      by (auto simp: verifyChainQuery_def chain_row_of_def)
    show "end_hash (GenesisHash sha) (verifyChainQuery d) = end_hash (GenesisHash sha) (verifyChainQuery d')"
      using assms(5) unfolding chain_head_query .
  qed (use assms(3,4) in \<open>simp_all add: VerifyChain_ok_iff\<close>)
  then show ?thesis
    unfolding verifyChainQuery_def by (rule same_chain_same_rows)
qed

definition demo_log :: "int \<Rightarrow> database" where
  "demo_log n = append_audit (empty_db\<lparr>d_audit_seq := n\<rparr>)
     (chained_row demo_env (zero_event\<lparr>ev_stage := StageReceived\<rparr>) 0 (empty_db\<lparr>d_audit_seq := n\<rparr>))"

lemma demo_log_ok: "vr_ok (fst (VerifyChain toy_hash (verifyChainQuery (demo_log n)) (None :: db_error option)))"
proof -
  have "chain_ok demo_env (demo_log n)"
    unfolding demo_log_def
    by (rule append_audit_chain_ok) (simp_all add: audit_ok_def empty_db_def chain_ok_def)
  then show ?thesis
    by (simp add: VerifyChain_ok_iff chain_ok_def demo_log_def append_audit_def verifyChainQuery_def empty_db_def)
qed

lemma demo_log_query:
  "\<exists>r. verifyChainQuery (demo_log n) = [r] \<and> cr_prev_hash r = GenesisHash toy_hash \<and>
     cr_payload r = audit_chain_payload (unhashed_row demo_env (zero_event\<lparr>ev_stage := StageReceived\<rparr>) 0 empty_db)"
  by (simp add: demo_log_def append_audit_def chain_head_def empty_db_def chained_row_def chain_row_of_def
      unhashed_row_def audit_chain_payload_def chain_fields_def Let_def verifyChainQuery_def)

lemma demo_log_inputs:
  "hash_inputs (verifyChainQuery (demo_log n)) =
     {genesisSeed, GenesisHash toy_hash @ audit_chain_payload
        (unhashed_row demo_env (zero_event\<lparr>ev_stage := StageReceived\<rparr>) 0 empty_db)}"
  using demo_log_query [of n] by (auto simp: hash_inputs_def)

lemma demo_log_row_checksum:
  "toy_hash (GenesisHash toy_hash @ audit_chain_payload
     (unhashed_row demo_env (zero_event\<lparr>ev_stage := StageReceived\<rparr>) 0 empty_db)) \<noteq> toy_hash genesisSeed"
  by (simp add: toy_hash_def audit_chain_payload_def unhashed_row_def chain_fields_def zero_event_def
      join_fields_def audit_chain_field_def nullif_text_def nullif_int_def marshalDetails_def
      StageReceived_def genesisSeed_def)

theorem head_hash_determines_log_witness:
  "map (\<lambda>r. r\<lparr>ar_id := 0\<rparr>) (sort_key ar_id (d_audit (demo_log 1))) =
     map (\<lambda>r. r\<lparr>ar_id := 0\<rparr>) (sort_key ar_id (d_audit (demo_log 7)))"
proof (rule head_hash_determines_log)
  show "chain_head (GenesisHash toy_hash) (d_audit (demo_log 1)) =
      chain_head (GenesisHash toy_hash) (d_audit (demo_log 7))"
    by (simp add: demo_log_def append_audit_def chain_head_def empty_db_def chained_row_def
        unhashed_row_def audit_chain_payload_def chain_fields_def Let_def)
  show "inj_on toy_hash (hash_inputs (verifyChainQuery (demo_log 1)) \<union> hash_inputs (verifyChainQuery (demo_log 7)))"
    unfolding demo_log_inputs using demo_log_row_checksum by (auto simp: inj_on_def)
qed (simp_all add: demo_log_ok)

end
