(* ===== verification/Audit_Concurrent.thy ===== *)
theory Audit_Concurrent
  imports Audit_Chain
begin

text \<open>
  Concurrent audit writers. \<^verbatim>\<open>PgWriter.Write\<close> runs in the goroutine of every HTTP request and
  bot update, so its four round trips (begin, advisory lock, insert, commit) interleave with those of
  other writers. The step relation takes each round trip as one atomic step of one writer; the
  invariant shows that the advisory lock keeps the hash chain intact in every reachable state.
\<close>

text \<open>Where a writer is in \<^verbatim>\<open>PgWriter.Write\<close>: outside, after \<^verbatim>\<open>BEGIN\<close>, holding the
  lock, or with its row inserted and not yet committed.\<close>

datatype writer_pc = Outside | Begun event | Locked event | Inserted audit_row

record chain_state =
  cs_db :: database
  cs_lock :: "nat option"
  cs_pc :: "nat \<Rightarrow> writer_pc"

text \<open>An insert draws its serial number at once, outside the transaction, as sequences do; the row
  becomes visible to the others at the commit. An abort (an error, a deadline, the deferred
  rollback) may come at any moment; it releases the lock and drops the row.\<close>

inductive writer_step :: "env \<Rightarrow> chain_state \<Rightarrow> chain_state \<Rightarrow> bool" for e :: env where
  begin_tx: "cs_pc s i = Outside \<Longrightarrow> writer_step e s (s\<lparr>cs_pc := (cs_pc s)(i := Begun ev)\<rparr>)"
| lock: "cs_pc s i = Begun ev \<Longrightarrow> cs_lock s = None \<Longrightarrow>
    writer_step e s (s\<lparr>cs_lock := Some i, cs_pc := (cs_pc s)(i := Locked ev)\<rparr>)"
| insert: "cs_pc s i = Locked ev \<Longrightarrow> insertChainedQuery e ev t (cs_db s) = Inr ((), d) \<Longrightarrow>
    writer_step e s (s\<lparr>cs_db := (cs_db s)\<lparr>d_audit_seq := d_audit_seq d\<rparr>,
      cs_pc := (cs_pc s)(i := Inserted (last (d_audit d)))\<rparr>)"
| commit: "cs_pc s i = Inserted r \<Longrightarrow>
    writer_step e s (s\<lparr>cs_db := (cs_db s)\<lparr>d_audit := d_audit (cs_db s) @ [r]\<rparr>,
      cs_lock := None, cs_pc := (cs_pc s)(i := Outside)\<rparr>)"
| abort: "cs_pc s i \<noteq> Outside \<Longrightarrow>
    writer_step e s (s\<lparr>cs_lock := (if cs_lock s = Some i then None else cs_lock s),
      cs_pc := (cs_pc s)(i := Outside)\<rparr>)"

definition holds_lock :: "writer_pc \<Rightarrow> bool" where
  "holds_lock pc = (case pc of Locked _ \<Rightarrow> True | Inserted _ \<Rightarrow> True | _ \<Rightarrow> False)"

lemma holds_lock_simps [simp]:
  "\<not> holds_lock Outside" "\<not> holds_lock (Begun ev)" "holds_lock (Locked ev)" "holds_lock (Inserted r)"
  by (simp_all add: holds_lock_def)

text \<open>The inserted row is the chained row of an event on the committed log, at the serial number
  just drawn.\<close>

definition pending_row :: "env \<Rightarrow> database \<Rightarrow> audit_row \<Rightarrow> bool" where
  "pending_row e d r = (\<exists>ev t. ev_stage ev \<in> set audit_stage_values \<and>
     (ev_delivery_channel ev = [] \<or> ev_delivery_channel ev \<in> set channel_values) \<and>
     r = chained_row e ev t (d\<lparr>d_audit_seq := d_audit_seq d - 1\<rparr>) \<and>
     audit_ok (d\<lparr>d_audit_seq := d_audit_seq d - 1\<rparr>))"

definition chain_inv :: "env \<Rightarrow> audit_row list \<Rightarrow> chain_state \<Rightarrow> bool" where
  "chain_inv e old s = (audit_ok (cs_db s) \<and> chain_ok e (cs_db s) \<and>
     (\<exists>rows. d_audit (cs_db s) = old @ rows) \<and>
     (\<forall>i. holds_lock (cs_pc s i) \<longrightarrow> cs_lock s = Some i) \<and>
     (\<forall>i r. cs_pc s i = Inserted r \<longrightarrow> pending_row e (cs_db s) r))"

lemma insertChainedQuery_InrD:
  assumes "insertChainedQuery e ev t d = Inr ((), d')"
  shows "d' = append_audit d (chained_row e ev t d)" "ev_stage ev \<in> set audit_stage_values"
    "ev_delivery_channel ev = [] \<or> ev_delivery_channel ev \<in> set channel_values"
  using assms by (auto simp: insertChainedQuery_def Let_def nullif_text_def split: if_splits)

lemma audit_ok_next: "audit_ok d \<Longrightarrow> audit_ok (d\<lparr>d_audit_seq := d_audit_seq d + 1\<rparr>)"
  by (auto simp: audit_ok_def list_all_iff)

lemma chain_ok_seq [simp]: "chain_ok e (d\<lparr>d_audit_seq := n\<rparr>) = chain_ok e d"
  by (simp add: chain_ok_def)

lemma pending_row_commit:
  assumes "pending_row e d r" "chain_ok e d"
  shows "audit_ok (d\<lparr>d_audit := d_audit d @ [r]\<rparr>) \<and> chain_ok e (d\<lparr>d_audit := d_audit d @ [r]\<rparr>)"
proof -
  let ?d = "d\<lparr>d_audit_seq := d_audit_seq d - 1\<rparr>"
  from assms(1) obtain ev t where ev: "ev_stage ev \<in> set audit_stage_values"
    "ev_delivery_channel ev = [] \<or> ev_delivery_channel ev \<in> set channel_values"
    and r: "r = chained_row e ev t ?d" and ok: "audit_ok ?d"
    by (auto simp: pending_row_def)
  have d: "d\<lparr>d_audit := d_audit d @ [r]\<rparr> = append_audit ?d (chained_row e ev t ?d)"
    by (simp add: append_audit_def r)
  show ?thesis
    unfolding d using append_audit_ok [OF ok ev] append_audit_chain_ok [OF ok] assms(2) by simp
qed

lemma chain_inv_step: "writer_step e s s' \<Longrightarrow> chain_inv e old s \<Longrightarrow> chain_inv e old s'"
proof (induction rule: writer_step.induct)
  case (insert s i ev t d)
  let ?d = "(cs_db s)\<lparr>d_audit_seq := d_audit_seq d\<rparr>"
  note ins = insertChainedQuery_InrD [OF insert.hyps(2)]
  have seq: "d_audit_seq d = d_audit_seq (cs_db s) + 1" and row: "last (d_audit d) = chained_row e ev t (cs_db s)"
    by (simp_all add: ins(1) append_audit_def)
  have "pending_row e ?d (last (d_audit d))"
    unfolding pending_row_def using ins(2,3) insert.prems
    by (intro exI [of _ ev] exI [of _ t]) (simp add: seq row chain_inv_def)
  moreover have "\<not> holds_lock (cs_pc s j)" if "j \<noteq> i" for j
    using insert that unfolding chain_inv_def by (metis holds_lock_simps(3) option.inject)
  ultimately show ?case
    using insert audit_ok_next [of "cs_db s"]
    by (auto simp: chain_inv_def seq split: if_splits) (metis holds_lock_simps(4))
next
  case (commit s i r)
  have "\<not> holds_lock (cs_pc s j)" if "j \<noteq> i" for j
    using commit that unfolding chain_inv_def by (metis holds_lock_simps(4) option.inject)
  then show ?case
    using commit pending_row_commit [of e "cs_db s" r] by (auto simp: chain_inv_def) (metis holds_lock_simps(4))
qed (auto simp: chain_inv_def split: if_splits)

lemma chain_inv_steps: "(writer_step e)\<^sup>*\<^sup>* s s' \<Longrightarrow> chain_inv e old s \<Longrightarrow> chain_inv e old s'"
  by (induction rule: rtranclp_induct) (auto dest: chain_inv_step)

text \<open>C2: Whatever the number of concurrent audit writers and however their round trips interleave,
  fail or are abandoned half-way, in every state they reach from an intact log the committed log
  extends the old one and verifies completely, and at most one writer is between taking the chain
  lock and releasing it.\<close>

theorem concurrent_writers_keep_chain:
  assumes "(writer_step e)\<^sup>*\<^sup>* s s'"
    and "audit_ok (cs_db s)" "chain_ok e (cs_db s)" "cs_pc s = (\<lambda>_. Outside)"
  shows "VerifyChain (env_sha256 e) (verifyChainQuery (cs_db s')) None =
           (\<lparr>vr_ok = True, vr_rows = length (d_audit (cs_db s')), vr_break = None\<rparr>, None :: db_error option) \<and>
         (\<exists>rows. d_audit (cs_db s') = d_audit (cs_db s) @ rows) \<and>
         (\<forall>i j. holds_lock (cs_pc s' i) \<and> holds_lock (cs_pc s' j) \<longrightarrow> i = j)"
proof -
  have "chain_inv e (d_audit (cs_db s)) s"
    using assms(2-4) by (simp add: chain_inv_def)
  then have inv: "chain_inv e (d_audit (cs_db s)) s'"
    by (rule chain_inv_steps [OF assms(1)])
  then have "i = j" if "holds_lock (cs_pc s' i)" "holds_lock (cs_pc s' j)" for i j
    using that by (metis chain_inv_def option.inject)
  with inv show ?thesis
    by (auto simp: chain_inv_def chain_ok_verifies)
qed

text \<open>A call of \<^const>\<open>Write\<close> that succeeds is the run begin, lock, insert, commit of one
  writer.\<close>

lemma Write_is_run:
  assumes "fst (Write e ev w) = Inr ()" "cs_db s = w_db w" "cs_lock s = None" "cs_pc s i = Outside"
  shows "(writer_step e)\<^sup>*\<^sup>* s (s\<lparr>cs_db := w_db (snd (Write e ev w))\<rparr>)"
proof -
  obtain t where db: "w_db (snd (Write e ev w)) = append_audit (w_db w) (chained_row e ev t (w_db w))"
    and ins: "insertChainedQuery e ev t (w_db w) =
      Inr ((), append_audit (w_db w) (chained_row e ev t (w_db w)))"
    using assms(1) by (cases rule: Write_cases [of e ev w])
      (auto simp: insertChainedQuery_def Let_def nullif_text_def)
  let ?s1 = "s\<lparr>cs_pc := (cs_pc s)(i := Begun ev)\<rparr>"
  let ?s2 = "?s1\<lparr>cs_lock := Some i, cs_pc := (cs_pc ?s1)(i := Locked ev)\<rparr>"
  let ?r = "chained_row e ev t (w_db w)"
  let ?s3 = "?s2\<lparr>cs_db := (cs_db ?s2)\<lparr>d_audit_seq := d_audit_seq (w_db w) + 1\<rparr>,
      cs_pc := (cs_pc ?s2)(i := Inserted ?r)\<rparr>"
  let ?s4 = "?s3\<lparr>cs_db := (cs_db ?s3)\<lparr>d_audit := d_audit (cs_db ?s3) @ [?r]\<rparr>,
      cs_lock := None, cs_pc := (cs_pc ?s3)(i := Outside)\<rparr>"
  have "writer_step e s ?s1" using assms(4) by (rule begin_tx)
  moreover have "writer_step e ?s1 ?s2" by (rule lock) (simp_all add: assms(3))
  moreover have "writer_step e ?s2 ?s3"
    using writer_step.insert [of ?s2 i ev e t "append_audit (w_db w) ?r"] ins
    by (simp add: append_audit_def assms(2))
  moreover have "writer_step e ?s3 ?s4" by (rule commit) simp
  moreover have "?s4 = s\<lparr>cs_db := w_db (snd (Write e ev w))\<rparr>"
    using assms(3,4) by (simp add: db append_audit_def assms(2) fun_upd_idem)
  ultimately show ?thesis by (metis (no_types, lifting) rtranclp.simps)
qed

definition idle_writers :: chain_state where
  "idle_writers = \<lparr>cs_db = empty_db, cs_lock = None, cs_pc = (\<lambda>_. Outside)\<rparr>"

theorem concurrent_writers_keep_chain_witness:
  "VerifyChain toy_hash (verifyChainQuery (w_db (snd (Write demo_env
       (zero_event\<lparr>ev_stage := StageReceived\<rparr>) empty_world)))) None =
     (\<lparr>vr_ok = True, vr_rows = length (d_audit (w_db (snd (Write demo_env
       (zero_event\<lparr>ev_stage := StageReceived\<rparr>) empty_world)))), vr_break = None\<rparr>, None :: db_error option)"
proof -
  have ok: "fst (Write demo_env (zero_event\<lparr>ev_stage := StageReceived\<rparr>) empty_world) = Inr ()"
    by (simp add: Write_eq insertChainedQuery_def Let_def zero_event_def stage_defs audit_stage_values_def
        nullif_text_def)
  show ?thesis
    using concurrent_writers_keep_chain [OF Write_is_run [OF ok, of idle_writers 0]]
    by (simp add: idle_writers_def empty_world_def)
qed

end
