(* ===== verification/Go_Text.thy ===== *)
theory Go_Text
  imports Go_Encoding
begin

text \<open>
  Text in UTF-8: byte literals, the runes of a string, \<^verbatim>\<open>strconv.Quote\<close> (the verb
  \<^verbatim>\<open>%q\<close>), the verb \<^verbatim>\<open>%v\<close> for a slice of strings, and the escapes of package \<^verbatim>\<open>net/url\<close>. Which runes beyond ASCII are printable
  is a table of package \<^verbatim>\<open>unicode\<close>, here an argument.
\<close>

definition utf8 :: "nat list \<Rightarrow> string" where
  "utf8 bs = map char_of bs"

definition byte_in :: "nat \<Rightarrow> nat \<Rightarrow> char \<Rightarrow> bool" where
  "byte_in lo hi c = (lo \<le> of_char c \<and> of_char c \<le> hi)"

text \<open>The length of the well-formed rune at the start of a string; 0 when there is none.\<close>

fun rune_len :: "string \<Rightarrow> nat" where
  "rune_len [] = 0"
| "rune_len (a # s) =
     (if byte_in 0 0x7F a then 1
      else (case s of
         [] \<Rightarrow> 0
       | b # s \<Rightarrow>
           if byte_in 0xC2 0xDF a \<and> byte_in 0x80 0xBF b then 2
           else (case s of
              [] \<Rightarrow> 0
            | c # s \<Rightarrow>
                if byte_in 0x80 0xBF c \<and>
                   (of_char a = (0xE0 :: nat) \<and> byte_in 0xA0 0xBF b \<or>
                    of_char a = (0xED :: nat) \<and> byte_in 0x80 0x9F b \<or>
                    byte_in 0xE1 0xEF a \<and> of_char a \<noteq> (0xED :: nat) \<and> byte_in 0x80 0xBF b) then 3
                else (case s of
                   [] \<Rightarrow> 0
                 | d # _ \<Rightarrow>
                     if byte_in 0x80 0xBF c \<and> byte_in 0x80 0xBF d \<and>
                        (of_char a = (0xF0 :: nat) \<and> byte_in 0x90 0xBF b \<or>
                         of_char a = (0xF4 :: nat) \<and> byte_in 0x80 0x8F b \<or>
                         byte_in 0xF1 0xF3 a \<and> byte_in 0x80 0xBF b) then 4
                     else 0))))"

definition rune_value :: "string \<Rightarrow> nat" where
  "rune_value r =
     (case map of_char r of
        [] \<Rightarrow> 0
      | [a] \<Rightarrow> a
      | [a, b] \<Rightarrow> (a - 0xC0) * 64 + (b - 0x80)
      | [a, b, c] \<Rightarrow> ((a - 0xE0) * 64 + (b - 0x80)) * 64 + (c - 0x80)
      | a # b # c # d # _ \<Rightarrow> (((a - 0xF0) * 64 + (b - 0x80)) * 64 + (c - 0x80)) * 64 + (d - 0x80))"

definition hex_pad :: "nat \<Rightarrow> nat \<Rightarrow> string" where
  "hex_pad k n = map (\<lambda>i. hex_digit (n div 16 ^ i mod 16)) (rev [0..<k])"

definition backslash_char :: char where "backslash_char = CHR 0x5C"

text \<open>One rune inside the quotes.\<close>

definition quote_rune :: "(string \<Rightarrow> bool) \<Rightarrow> string \<Rightarrow> string" where
  "quote_rune is_print r =
     (let n = rune_value r
      in if r = [CHR 0x22] \<or> r = [backslash_char] then backslash_char # r
         else if length r = 1 \<and> 0x20 \<le> n \<and> n < 0x7F \<or> length r > 1 \<and> is_print r then r
         else if n = 7 then [backslash_char, CHR ''a''] else if n = 8 then [backslash_char, CHR ''b'']
         else if n = 12 then [backslash_char, CHR ''f''] else if n = 10 then [backslash_char, CHR ''n'']
         else if n = 13 then [backslash_char, CHR ''r''] else if n = 9 then [backslash_char, CHR ''t'']
         else if n = 11 then [backslash_char, CHR ''v'']
         else if n < 0x20 \<or> n = 0x7F then backslash_char # CHR ''x'' # hex_pad 2 n
         else if n < 0x10000 then backslash_char # CHR ''u'' # hex_pad 4 n
         else backslash_char # CHR ''U'' # hex_pad 8 n)"

function quote_body :: "(string \<Rightarrow> bool) \<Rightarrow> string \<Rightarrow> string" where
  "quote_body is_print [] = []"
| "quote_body is_print (c # s) =
     (let k = rune_len (c # s)
      in if k = 0 then backslash_char # CHR ''x'' # hex_pad 2 (of_char c) @ quote_body is_print s
         else quote_rune is_print (take k (c # s)) @ quote_body is_print (drop k (c # s)))"
  by pat_completeness auto
termination
  by (relation "measure (length \<circ> snd)") auto

definition Quote :: "(string \<Rightarrow> bool) \<Rightarrow> string \<Rightarrow> string" where
  "Quote is_print s = CHR 0x22 # quote_body is_print s @ [CHR 0x22]"

fun join_with :: "string \<Rightarrow> string list \<Rightarrow> string" where
  "join_with sep [] = []"
| "join_with sep [x] = x"
| "join_with sep (x # y # xs) = x @ sep @ join_with sep (y # xs)"

definition format_list :: "string list \<Rightarrow> string" where
  "format_list xs = ''['' @ join_with '' '' xs @ '']''"

text \<open>\<^verbatim>\<open>utf8.RuneCountInString\<close>: a byte that starts no rune counts as one.\<close>

function rune_count :: "string \<Rightarrow> nat" where
  "rune_count [] = 0"
| "rune_count (c # s) = Suc (rune_count (drop (rune_len (c # s) - 1) s))"
  by pat_completeness auto
termination
  by (relation "measure length") auto

text \<open>\<^verbatim>\<open>url.QueryEscape\<close> and \<^verbatim>\<open>url.PathEscape\<close>.\<close>

definition unreserved_char :: "char \<Rightarrow> bool" where
  "unreserved_char c = (byte_in 0x30 0x39 c \<or> byte_in 0x41 0x5A c \<or> byte_in 0x61 0x7A c \<or> c \<in> set ''-_.~'')"

definition percent_char :: "char \<Rightarrow> string" where
  "percent_char c = (let d = (\<lambda>n. ''0123456789ABCDEF'' ! n)
     in [CHR 0x25, d (of_char c div 16), d (of_char c mod 16)])"

definition QueryEscape :: "string \<Rightarrow> string" where
  "QueryEscape s = concat (map (\<lambda>c. if c = CHR '' '' then ''+'' else if unreserved_char c then [c] else percent_char c) s)"

definition PathEscape :: "string \<Rightarrow> string" where
  "PathEscape s = concat (map (\<lambda>c. if unreserved_char c \<or> c \<in> set ''$&+=:@'' then [c] else percent_char c) s)"

end
