(* ===== verification/Bot_Texts.thy ===== *)
theory Bot_Texts
  imports Go_Text
begin

text \<open>The texts that the bot handlers (\<^verbatim>\<open>src/internal/bot/handlers\<close>) send, as the bytes of their UTF-8
  encoding.\<close>

definition msg_registered :: string where
  "msg_registered = utf8
    [236, 157, 180, 235, 175, 184, 32, 235, 147, 177, 235, 161, 157, 235, 144, 152, 236, 133, 168, 236,
     138, 181, 235, 139, 136, 235, 139, 164, 46, 32, 234, 176, 156, 236, 157, 184, 32, 234, 183, 184,
     235, 163, 185, 236, 157, 180, 32, 236, 151, 176, 234, 178, 176, 235, 144, 152, 236, 150, 180, 32,
     236, 158, 136, 236, 138, 181, 235, 139, 136, 235, 139, 164, 46]"

definition msg_welcome :: string where
  "msg_welcome = utf8
    [236, 149, 136, 235, 133, 149, 237, 149, 152, 236, 132, 184, 236, 154, 148, 46, 32, 236, 149, 140,
     235, 166, 188, 32, 235, 180, 135, 236, 158, 133, 235, 139, 136, 235, 139, 164, 46, 10, 235, 179,
     184, 32, 235, 180, 135, 236, 157, 128, 32, 236, 149, 140, 235, 166, 188, 32, 236, 160, 132, 235,
     139, 172, 236, 157, 132, 32, 236, 156, 132, 237, 149, 180, 32, 84, 101, 108, 101, 103, 114, 97,
     109, 32, 236, 130, 172, 236, 154, 169, 236, 158, 144, 32, 73, 68, 235, 165, 188, 32, 235, 179, 180,
     234, 180, 128, 237, 149, 169, 235, 139, 136, 235, 139, 164, 46, 10, 235, 143, 153, 236, 157, 152,
     237, 149, 152, 236, 139, 156, 235, 169, 180, 32, 47, 97, 103, 114, 101, 101, 32, 235, 165, 188, 32,
     236, 158, 133, 235, 160, 165, 237, 149, 180, 236, 163, 188, 236, 132, 184, 236, 154, 148, 46]"

definition msg_no_username :: string where
  "msg_no_username = utf8
    [235, 180, 135, 32, 117, 115, 101, 114, 110, 97, 109, 101, 236, 157, 180, 32, 236, 132, 164, 236,
     160, 149, 235, 144, 152, 236, 167, 128, 32, 236, 149, 138, 236, 149, 152, 236, 138, 181, 235, 139,
     136, 235, 139, 164, 46, 32, 236, 154, 180, 236, 152, 129, 236, 158, 144, 236, 151, 144, 234, 178,
     140, 32, 235, 172, 184, 236, 157, 152, 237, 149, 180, 236, 163, 188, 236, 132, 184, 236, 154, 148,
     46]"

definition msg_deeplink_1 :: string where
  "msg_deeplink_1 = utf8
    [234, 176, 156, 236, 157, 184, 32, 236, 149, 140, 235, 166, 188, 236, 154, 169, 32, 236, 138, 136,
     237, 141, 188, 234, 183, 184, 235, 163, 185, 236, 157, 132, 32, 235, 167, 140, 235, 147, 164, 236,
     150, 180, 236, 163, 188, 236, 132, 184, 236, 154, 148, 46, 10]"

definition msg_deeplink_2 :: string where
  "msg_deeplink_2 = utf8
    [10, 235, 178, 132, 237, 138, 188, 236, 157, 180, 32, 236, 149, 136, 32, 235, 179, 180, 236, 157,
     180, 235, 169, 180, 32, 236, 156, 132, 32, 235, 167, 129, 237, 129, 172, 235, 165, 188, 32, 235,
     136, 140, 235, 159, 172, 32, 236, 131, 136, 32, 234, 183, 184, 235, 163, 185, 236, 157, 132, 32,
     235, 167, 140, 235, 147, 164, 234, 179, 160, 32, 235, 180, 135, 236, 157, 132, 32, 97, 100, 109,
     105, 110, 236, 156, 188, 235, 161, 156, 32, 236, 182, 148, 234, 176, 128, 237, 149, 180, 236, 163,
     188, 236, 132, 184, 236, 154, 148, 46, 10, 234, 182, 140, 237, 149, 156, 58, 32, 80, 111, 115, 116,
     32, 77, 101, 115, 115, 97, 103, 101, 115, 32, 47, 32, 77, 97, 110, 97, 103, 101, 32, 84, 111, 112,
     105, 99, 115, 32, 47, 32, 66, 97, 110, 32, 85, 115, 101, 114, 115, 32, 235, 170, 168, 235, 145,
     144, 32, 237, 149, 132, 236, 154, 148, 237, 149, 169, 235, 139, 136, 235, 139, 164, 46]"

definition msg_bad_token :: string where
  "msg_bad_token = utf8
    [236, 158, 152, 235, 170, 187, 235, 144, 152, 236, 151, 136, 234, 177, 176, 235, 130, 152, 32, 235,
     167, 140, 235, 163, 140, 235, 144, 156, 32, 236, 180, 136, 235, 140, 128, 32, 237, 134, 160, 237,
     129, 176, 236, 158, 133, 235, 139, 136, 235, 139, 164, 46, 10, 234, 176, 156, 236, 157, 184, 32,
     68, 77, 236, 151, 144, 236, 132, 156, 32, 47, 115, 116, 97, 114, 116, 32, 235, 165, 188, 32, 235,
     139, 164, 236, 139, 156, 32, 236, 158, 133, 235, 160, 165, 237, 149, 180, 32, 236, 131, 136, 32,
     235, 167, 129, 237, 129, 172, 235, 165, 188, 32, 235, 176, 155, 236, 149, 132, 236, 163, 188, 236,
     132, 184, 236, 154, 148, 46]"

definition msg_linked :: string where
  "msg_linked = utf8
    [234, 176, 156, 236, 157, 184, 32, 234, 183, 184, 235, 163, 185, 236, 157, 180, 32, 236, 151, 176,
     234, 178, 176, 235, 144, 152, 236, 151, 136, 236, 138, 181, 235, 139, 136, 235, 139, 164, 46, 10,
     235, 139, 164, 236, 157, 140, 32, 235, 139, 168, 234, 179, 132, 58, 10, 49, 46, 32, 234, 183, 184,
     235, 163, 185, 32, 236, 132, 164, 236, 160, 149, 236, 151, 144, 236, 132, 156, 32, 84, 111, 112,
     105, 99, 115, 32, 235, 165, 188, 32, 236, 188, 156, 236, 163, 188, 236, 132, 184, 236, 154, 148,
     46, 10, 50, 46, 32, 235, 180, 135, 236, 151, 144, 234, 178, 140, 32, 80, 111, 115, 116, 32, 77,
     101, 115, 115, 97, 103, 101, 115, 32, 47, 32, 77, 97, 110, 97, 103, 101, 32, 84, 111, 112, 105, 99,
     115, 32, 47, 32, 66, 97, 110, 32, 85, 115, 101, 114, 115, 32, 234, 182, 140, 237, 149, 156, 236,
     157, 132, 32, 235, 182, 128, 236, 151, 172, 237, 149, 180, 236, 163, 188, 236, 132, 184, 236, 154,
     148, 46, 10, 234, 182, 140, 237, 149, 156, 236, 157, 180, 32, 236, 160, 129, 236, 154, 169, 235,
     144, 152, 235, 169, 180, 32, 234, 176, 128, 236, 158, 133, 235, 144, 156, 32, 236, 149, 177, 235,
     179, 132, 32, 237, 134, 160, 237, 148, 189, 236, 157, 180, 32, 236, 158, 144, 235, 143, 153, 32,
     236, 131, 157, 236, 132, 177, 235, 144, 169, 235, 139, 136, 235, 139, 164, 46]"

definition msg_missing_rights :: string where
  "msg_missing_rights = utf8
    [235, 180, 135, 32, 234, 182, 140, 237, 149, 156, 32, 236, 164, 145, 32, 236, 157, 188, 235, 182,
     128, 234, 176, 128, 32, 235, 182, 128, 236, 161, 177, 237, 149, 169, 235, 139, 136, 235, 139, 164,
     46, 10, 80, 111, 115, 116, 32, 77, 101, 115, 115, 97, 103, 101, 115, 32, 47, 32, 77, 97, 110, 97,
     103, 101, 32, 84, 111, 112, 105, 99, 115, 32, 47, 32, 66, 97, 110, 32, 85, 115, 101, 114, 115, 32,
     235, 170, 168, 235, 145, 144, 32, 236, 188, 156, 236, 160, 184, 236, 149, 188, 32, 237, 134, 160,
     237, 148, 189, 236, 157, 132, 32, 236, 131, 157, 236, 132, 177, 237, 149, 152, 234, 179, 160, 32,
     236, 185, 168, 236, 158, 133, 236, 157, 132, 32, 235, 167, 137, 236, 157, 132, 32, 236, 136, 152,
     32, 236, 158, 136, 236, 138, 181, 235, 139, 136, 235, 139, 164, 46]"

definition msg_ready :: string where
  "msg_ready = utf8
    [236, 164, 128, 235, 185, 132, 32, 236, 153, 132, 235, 163, 140, 46, 32, 236, 149, 140, 235, 166,
     188, 236, 157, 180, 32, 237, 153, 156, 236, 132, 177, 237, 153, 148, 235, 144, 152, 236, 151, 136,
     236, 138, 181, 235, 139, 136, 235, 139, 164, 46]"

definition msg_ready_1 :: string where
  "msg_ready_1 = utf8
    [236, 164, 128, 235, 185, 132, 32, 236, 153, 132, 235, 163, 140, 46, 32, 236, 131, 157, 236, 132,
     177, 235, 144, 156, 32, 237, 134, 160, 237, 148, 189, 32]"

definition msg_ready_2 :: string where
  "msg_ready_2 = utf8
    [234, 176, 156, 58, 32]"

definition msg_list_first :: string where
  "msg_list_first = utf8
    [235, 168, 188, 236, 160, 128, 32, 68, 77, 236, 151, 144, 236, 132, 156, 32, 47, 115, 116, 97, 114,
     116, 32, 236, 153, 128, 32, 47, 97, 103, 114, 101, 101, 32, 235, 165, 188, 32, 236, 167, 132, 237,
     150, 137, 237, 149, 180, 236, 163, 188, 236, 132, 184, 236, 154, 148, 46]"

definition msg_list_head :: string where
  "msg_list_head = utf8
    [234, 176, 128, 236, 158, 133, 32, 234, 176, 128, 235, 138, 165, 237, 149, 156, 32, 236, 149, 177,
     32, 235, 170, 169, 235, 161, 157, 58, 10]"

definition msg_box :: string where
  "msg_box = utf8
    [226, 150, 161]"

definition msg_full_box :: string where
  "msg_full_box = utf8
    [226, 150, 160]"

definition msg_locked_head :: string where
  "msg_locked_head = utf8
    [10, 235, 147, 177, 234, 184, 137, 236, 157, 180, 32, 235, 182, 128, 236, 161, 177, 237, 149, 152,
     236, 151, 172, 32, 234, 176, 128, 236, 158, 133, 32, 235, 182, 136, 234, 176, 128, 58, 10]"

definition msg_usage :: string where
  "msg_usage = utf8
    [236, 130, 172, 236, 154, 169, 58, 32, 47, 115, 117, 98, 115, 99, 114, 105, 98, 101, 32, 60, 97,
     112, 112, 95, 105, 100, 62, 32, 235, 152, 144, 235, 138, 148, 32, 47, 117, 110, 115, 117, 98, 115,
     99, 114, 105, 98, 101, 32, 60, 97, 112, 112, 95, 105, 100, 62]"

definition msg_toggle_first :: string where
  "msg_toggle_first = utf8
    [235, 168, 188, 236, 160, 128, 32, 47, 115, 116, 97, 114, 116, 32, 237, 155, 132, 32, 47, 97, 103,
     114, 101, 101, 32, 235, 165, 188, 32, 236, 167, 132, 237, 150, 137, 237, 149, 180, 236, 163, 188,
     236, 132, 184, 236, 154, 148, 46]"

definition msg_app :: string where
  "msg_app = utf8
    [236, 149, 177, 32]"

definition msg_not_found :: string where
  "msg_not_found = utf8
    [32, 236, 157, 132, 32, 236, 176, 190, 236, 157, 132, 32, 236, 136, 152, 32, 236, 151, 134, 236,
     138, 181, 235, 139, 136, 235, 139, 164, 46]"

definition msg_inactive :: string where
  "msg_inactive = utf8
    [32, 236, 157, 128, 32, 235, 185, 132, 237, 153, 156, 236, 132, 177, 32, 236, 131, 129, 237, 131,
     156, 236, 158, 133, 235, 139, 136, 235, 139, 164, 46]"

definition msg_grade :: string where
  "msg_grade = utf8
    [236, 157, 180, 32, 236, 149, 177, 236, 157, 132, 32, 234, 181, 172, 235, 143, 133, 237, 149, 160,
     32, 236, 136, 152, 32, 236, 158, 136, 235, 138, 148, 32, 235, 147, 177, 234, 184, 137, 236, 157,
     180, 32, 236, 149, 132, 235, 139, 153, 235, 139, 136, 235, 139, 164, 46]"

definition msg_subscribed :: string where
  "msg_subscribed = utf8
    [32, 234, 181, 172, 235, 143, 133, 236, 157, 132, 32, 236, 182, 148, 234, 176, 128, 237, 150, 136,
     236, 138, 181, 235, 139, 136, 235, 139, 164, 46, 32, 234, 176, 156, 236, 157, 184, 32, 234, 183,
     184, 235, 163, 185, 236, 151, 144, 32, 237, 134, 160, 237, 148, 189, 236, 157, 180, 32, 236, 131,
     157, 236, 132, 177, 235, 144, 152, 236, 151, 136, 236, 138, 181, 235, 139, 136, 235, 139, 164, 46]"

definition msg_unsubscribed :: string where
  "msg_unsubscribed = utf8
    [32, 234, 181, 172, 235, 143, 133, 236, 157, 132, 32, 237, 149, 180, 236, 167, 128, 237, 150, 136,
     236, 138, 181, 235, 139, 136, 235, 139, 164, 46, 32, 237, 134, 160, 237, 148, 189, 236, 157, 128,
     32, 235, 179, 180, 234, 180, 128, 40, 97, 114, 99, 104, 105, 118, 101, 100, 41, 32, 236, 178, 152,
     235, 166, 172, 235, 144, 152, 236, 151, 136, 236, 138, 181, 235, 139, 136, 235, 139, 164, 46]"

end
