(* ===== verification/Auth.thy ===== *)
theory Auth
  imports World
begin

text \<open>
  API keys and capabilities: \<^verbatim>\<open>src/internal/auth\<close>. \<^verbatim>\<open>argon2.go\<close> (the encoded hash of
  a key and its verification), \<^verbatim>\<open>capability.go\<close> (capability sets and the requester
  identity) and \<^verbatim>\<open>store.go\<close> (from a bearer token to an identity). The Argon2id function of
  \<^verbatim>\<open>golang.org/x/crypto\<close> is the parameter \<open>env_idkey\<close>.
\<close>

section \<open>Hashing of keys\<close>

definition Argon2Memory :: nat where "Argon2Memory = 64 * 1024"
definition Argon2Iterations :: nat where "Argon2Iterations = 3"
definition Argon2Parallelism :: nat where "Argon2Parallelism = 1"
definition Argon2KeyLen :: nat where "Argon2KeyLen = 32"
definition Argon2SaltLen :: nat where "Argon2SaltLen = 16"

lemmas argon2_consts = Argon2Memory_def Argon2Iterations_def Argon2Parallelism_def
  Argon2KeyLen_def Argon2SaltLen_def

datatype hash_error = Salt_unreadable | ErrInvalidHashFormat | ErrUnsupportedParams

definition encodeArgon2id :: "env \<Rightarrow> string \<Rightarrow> bytes \<Rightarrow> string" where
  "encodeArgon2id e cleartext salt =
     (let key = env_idkey e cleartext salt Argon2Iterations Argon2Memory Argon2Parallelism Argon2KeyLen
      in ''$argon2id$v=19$m='' @ nat_dec Argon2Memory @ '',t='' @ nat_dec Argon2Iterations @
         '',p='' @ nat_dec Argon2Parallelism @ ''$'' @ b64_encode salt @ ''$'' @ b64_encode key)"

definition HashAPIKey :: "env \<Rightarrow> string \<Rightarrow> world \<Rightarrow> (hash_error + string) \<times> world" where
  "HashAPIKey e cleartext w =
     (case rand_read e Argon2SaltLen w of
        (None, w1) \<Rightarrow> (Inl Salt_unreadable, w1)
      | (Some salt, w1) \<Rightarrow> (Inr (encodeArgon2id e cleartext salt), w1))"

text \<open>\<^verbatim>\<open>fmt.Sscanf(parts[3], "m=%d,t=%d,p=%d", &mem, &iter, &par)\<close>\<close>

definition scan_params :: "string \<Rightarrow> (nat \<times> nat \<times> nat) option" where
  "scan_params s =
     (case Option.bind (scan_lit ''m='' s) (scan_uint 32) of
        None \<Rightarrow> None
      | Some (mem, s1) \<Rightarrow>
          (case Option.bind (scan_lit '',t='' s1) (scan_uint 32) of
             None \<Rightarrow> None
           | Some (iter, s2) \<Rightarrow>
               (case Option.bind (scan_lit '',p='' s2) (scan_uint 8) of
                  None \<Rightarrow> None
                | Some (par, s3) \<Rightarrow> Some (mem, iter, par))))"

definition VerifyAPIKey :: "env \<Rightarrow> string \<Rightarrow> string \<Rightarrow> hash_error + bool" where
  "VerifyAPIKey e cleartext encoded =
     (let parts = Split encoded (CHR ''$'')
      in if length parts \<noteq> 6 \<or> parts ! 0 \<noteq> [] \<or> parts ! 1 \<noteq> ''argon2id'' then Inl ErrInvalidHashFormat
         else if parts ! 2 \<noteq> ''v=19'' then Inl ErrInvalidHashFormat
         else (case scan_params (parts ! 3) of
                 None \<Rightarrow> Inl ErrInvalidHashFormat
               | Some (mem, iter, par) \<Rightarrow>
                   if mem \<noteq> Argon2Memory \<or> iter \<noteq> Argon2Iterations \<or> par \<noteq> Argon2Parallelism
                   then Inl ErrUnsupportedParams
                   else (case b64_decode (parts ! 4) of
                           None \<Rightarrow> Inl ErrInvalidHashFormat
                         | Some salt \<Rightarrow>
                             (case b64_decode (parts ! 5) of
                                None \<Rightarrow> Inl ErrInvalidHashFormat
                              | Some want \<Rightarrow>
                                  Inr (env_idkey e cleartext salt iter mem par (length want) = want)))))"


section \<open>Capabilities\<close>

definition CapMessagesDirect :: string where "CapMessagesDirect = ''messages.direct.send''"
definition CapMessagesDirectDM :: string where "CapMessagesDirectDM = ''messages.direct.dm''"
definition CapMessagesTopic :: string where "CapMessagesTopic = ''messages.topic.send''"
definition CapMessagesBroadcast :: string where "CapMessagesBroadcast = ''messages.broadcast.send''"
definition CapNoopInvoke :: string where "CapNoopInvoke = ''noop.invoke''"
definition CapAppsRegister :: string where "CapAppsRegister = ''apps.register''"
definition CapUsersPromote :: string where "CapUsersPromote = ''users.promote''"
definition CapUsersDeactivate :: string where "CapUsersDeactivate = ''users.deactivate''"
definition CapAuditSearch :: string where "CapAuditSearch = ''audit.search''"
definition CapAuditFreeze :: string where "CapAuditFreeze = ''audit.freeze''"

lemmas cap_defs = CapMessagesDirect_def CapMessagesDirectDM_def CapMessagesTopic_def
  CapMessagesBroadcast_def CapNoopInvoke_def CapAppsRegister_def CapUsersPromote_def
  CapUsersDeactivate_def CapAuditSearch_def CapAuditFreeze_def

type_synonym capability_set = "string set"

definition NewCapabilitySet :: "string list \<Rightarrow> capability_set" where
  "NewCapabilitySet caps = foldl (\<lambda>s c. insert c s) {} caps"

definition Has :: "capability_set \<Rightarrow> string \<Rightarrow> bool" where
  "Has s c = (c \<in> s)"

definition Add :: "capability_set \<Rightarrow> string \<Rightarrow> capability_set" where
  "Add s c = insert c s"

record requester =
  rq_app_id :: string
  rq_capabilities :: capability_set
  rq_capability_set_ver :: int
  rq_key_prefix :: string

datatype access_error = ErrUnauthorized | ErrForbidden

text \<open>The value \<^verbatim>\<open>WithRequester\<close> puts into a request's context, if any.\<close>

type_synonym auth_ctx = "requester option"

definition Require :: "auth_ctx \<Rightarrow> string \<Rightarrow> access_error option" where
  "Require ctx cap =
     (case ctx of
        None \<Rightarrow> Some ErrUnauthorized
      | Some r \<Rightarrow> if \<not> Has (rq_capabilities r) cap then Some ErrForbidden else None)"

lemma set_NewCapabilitySet [simp]: "NewCapabilitySet caps = set caps"
proof -
  have "foldl (\<lambda>s c. insert c s) s caps = s \<union> set caps" for s :: "string set"
    by (induction caps arbitrary: s) auto
  then show ?thesis by (simp add: NewCapabilitySet_def)
qed


section \<open>From a bearer token to an identity\<close>

datatype auth_error = ErrBearerMalformed | ErrKeyNotFound | Auth_db string

definition bearerPrefix :: string where "bearerPrefix = ''tg_''"

definition ParseBearer :: "string \<Rightarrow> string option" where
  "ParseBearer token =
     (if \<not> HasPrefix token bearerPrefix then None
      else (let rest = drop (length bearerPrefix) token
            in case IndexByte rest (CHR ''_'') of
                 None \<Rightarrow> None
               | Some idx \<Rightarrow>
                   if idx = 0 \<or> int idx \<ge> int (length rest) - 1 then None else Some (take idx rest)))"

text \<open>The rows \<^verbatim>\<open>app_keys k JOIN apps a\<close> of an unrevoked key with the prefix and an active app.\<close>

definition key_candidates :: "string \<Rightarrow> database \<Rightarrow> (string \<times> string \<times> int) list" where
  "key_candidates prefix d =
     concat (map (\<lambda>k. map (\<lambda>a. (key_app k, key_hash k, app_capver a))
         (filter (\<lambda>a. app_id a = key_app k \<and> app_active a) (d_apps d)))
       (filter (\<lambda>k. key_prefix k = prefix \<and> key_revoked_at k = None) (d_keys d)))"

text \<open>The loop over the rows: a hash that cannot be verified is skipped.\<close>

fun match_key :: "env \<Rightarrow> string \<Rightarrow> (string \<times> string \<times> int) list \<Rightarrow> (string \<times> int) option" where
  "match_key e bearer [] = None"
| "match_key e bearer ((rowAppID, rowHash, rowCapVer) # rows) =
     (case VerifyAPIKey e bearer rowHash of
        Inl _ \<Rightarrow> match_key e bearer rows
      | Inr ok \<Rightarrow> if ok then Some (rowAppID, rowCapVer) else match_key e bearer rows)"

definition loadCapabilitiesTx :: "env \<Rightarrow> string \<Rightarrow> world \<Rightarrow> (auth_error + capability_set) \<times> world" where
  "loadCapabilitiesTx e appID w =
     (case db_query e (\<lambda>t d. map snd (filter (\<lambda>c. fst c = appID) (d_caps d))) w of
        (Inl _, w1) \<Rightarrow> (Inl (Auth_db ''query caps''), w1)
      | (Inr cs, w1) \<Rightarrow> (Inr (foldl Add (NewCapabilitySet []) cs), w1))"

definition Resolve :: "env \<Rightarrow> string \<Rightarrow> world \<Rightarrow> (auth_error + requester) \<times> world" where
  "Resolve e bearer w =
     (case ParseBearer bearer of
        None \<Rightarrow> (Inl ErrBearerMalformed, w)
      | Some prefix \<Rightarrow>
          (case db_trip e w of (ok, w1) \<Rightarrow>
           if \<not> ok then (Inl (Auth_db ''begin''), w1)
           else case db_query e (\<lambda>t d. key_candidates prefix d) w1 of
             (Inl _, w2) \<Rightarrow> (Inl (Auth_db ''query key''), w2)
           | (Inr rows, w2) \<Rightarrow>
               (case match_key e bearer rows of
                  None \<Rightarrow> (Inl ErrKeyNotFound, w2)
                | Some (appID, capVer) \<Rightarrow>
                    (case loadCapabilitiesTx e appID w2 of
                       (Inl err, w3) \<Rightarrow> (Inl err, w3)
                     | (Inr caps, w3) \<Rightarrow>
                         (case db_trip e w3 of (ok, w4) \<Rightarrow>
                          if \<not> ok then (Inl (Auth_db ''commit''), w4)
                          else (Inr \<lparr>rq_app_id = appID, rq_capabilities = caps,
                                     rq_capability_set_ver = capVer, rq_key_prefix = prefix\<rparr>, w4))))))"


section \<open>Verification accepts what hashing made\<close>

lemma Split_append:
  "c \<notin> set xs \<Longrightarrow> Split (xs @ c # ys) c = xs # Split ys c"
  by (induction xs) auto

lemma Split_single: "c \<notin> set xs \<Longrightarrow> Split xs c = [xs]"
  by (induction xs) auto

lemma b64_no_dollar: "CHR ''$'' \<notin> set (b64_encode s)"
  using set_b64_encode b64_alphabet_excludes by blast

lemma argon2_param_text:
  "nat_dec Argon2Memory = ''65536''" "nat_dec Argon2Iterations = ''3''" "nat_dec Argon2Parallelism = ''1''"
  by (simp_all add: argon2_consts nat_dec.simps digit_chars)

lemma encodeArgon2id_parts:
  "Split (encodeArgon2id e k salt) (CHR ''$'') =
     [[], ''argon2id'', ''v=19'', ''m=65536,t=3,p=1'', b64_encode salt,
      b64_encode (env_idkey e k salt Argon2Iterations Argon2Memory Argon2Parallelism Argon2KeyLen)]"
proof -
  let ?key = "env_idkey e k salt Argon2Iterations Argon2Memory Argon2Parallelism Argon2KeyLen"
  have "encodeArgon2id e k salt = [] @ CHR ''$'' # (''argon2id'' @ CHR ''$'' # (''v=19'' @ CHR ''$'' #
      (''m=65536,t=3,p=1'' @ CHR ''$'' # (b64_encode salt @ CHR ''$'' # b64_encode ?key))))"
    by (simp add: encodeArgon2id_def Let_def argon2_param_text)
  then show ?thesis
    by (simp only: Split_append Split_single b64_no_dollar set_simps) (simp add: Split_append b64_no_dollar Split_single)
qed

lemma scan_params_pinned:
  "scan_params ''m=65536,t=3,p=1'' = Some (Argon2Memory, Argon2Iterations, Argon2Parallelism)"
  by (simp add: scan_params_def scan_lit_def scan_uint_def HasPrefix_def argon2_consts strip_seqs.simps
      space_runes_def is_digit_char_def digit_val_def)

lemma VerifyAPIKey_encoded:
  assumes "\<And>pw s t m p n. length (env_idkey e pw s t m p n) = n"
  shows "VerifyAPIKey e k (encodeArgon2id e k' salt) =
    Inr (env_idkey e k salt Argon2Iterations Argon2Memory Argon2Parallelism Argon2KeyLen =
         env_idkey e k' salt Argon2Iterations Argon2Memory Argon2Parallelism Argon2KeyLen)"
  unfolding VerifyAPIKey_def Let_def encodeArgon2id_parts
  using assms by (simp add: scan_params_pinned b64_decode_encode)

text \<open>A hash that \<^verbatim>\<open>HashAPIKey\<close> made, whatever the salt, is parsed back by
  \<^verbatim>\<open>VerifyAPIKey\<close> without error; the key it was made of is accepted, and any other key is
  accepted only when Argon2id gives both the same 32 bytes under that salt. Of Argon2id it needs the
  documented length of the output.\<close>

theorem hash_verify_roundtrip:
  assumes "\<And>pw s t m p n. length (env_idkey e pw s t m p n) = n"
    and "fst (HashAPIKey e key w) = Inr enc"
  shows "VerifyAPIKey e key enc = Inr True \<and>
    (\<exists>salt. env_rand e (w_tick w) Argon2SaltLen = Some salt \<and>
       (\<forall>other. VerifyAPIKey e other enc =
          Inr (env_idkey e other salt Argon2Iterations Argon2Memory Argon2Parallelism Argon2KeyLen =
               env_idkey e key salt Argon2Iterations Argon2Memory Argon2Parallelism Argon2KeyLen)))"
  using assms(2) VerifyAPIKey_encoded [OF assms(1)]
  by (auto simp: HashAPIKey_def rand_read_def split: option.splits)

theorem hash_verify_roundtrip_witness:
  "VerifyAPIKey demo_env ''tg_ab_cd''
     (encodeArgon2id demo_env ''tg_ab_cd'' (replicate Argon2SaltLen (char_of (0 :: nat)))) = Inr True"
  using hash_verify_roundtrip [of demo_env "''tg_ab_cd''" empty_world
      "encodeArgon2id demo_env ''tg_ab_cd'' (replicate Argon2SaltLen (char_of (0 :: nat)))"]
  by (simp add: HashAPIKey_def rand_read_def empty_world_def del: append_Cons take_append)


section \<open>What a resolved identity guarantees\<close>

lemma HasPrefix_append [simp]: "HasPrefix (p @ s) p"
  by (simp add: HasPrefix_def)

lemma IndexByte_SomeD: "IndexByte xs c = Some i \<Longrightarrow> i < length xs \<and> xs ! i = c \<and> c \<notin> set (take i xs)"
  by (induction xs c arbitrary: i rule: IndexByte.induct) (auto split: if_splits)

lemma ParseBearer_compose:
  assumes "prefix \<noteq> []" "CHR ''_'' \<notin> set prefix" "secret \<noteq> []"
  shows "ParseBearer (bearerPrefix @ prefix @ ''_'' @ secret) = Some prefix"
  using assms by (cases secret) (simp_all add: ParseBearer_def IndexByte_append)

text \<open>\<^verbatim>\<open>ParseBearer\<close> accepts exactly the tokens \<^verbatim>\<open>tg_<prefix>_<secret>\<close> with a
  non-empty prefix that holds no underscore and a non-empty secret, and gives the prefix.\<close>

theorem parse_bearer_iff:
  "ParseBearer token = Some prefix \<longleftrightarrow>
     prefix \<noteq> [] \<and> CHR ''_'' \<notin> set prefix \<and>
     (\<exists>secret. secret \<noteq> [] \<and> token = bearerPrefix @ prefix @ ''_'' @ secret)"
proof
  assume parsed: "ParseBearer token = Some prefix"
  define rest where "rest = drop (length bearerPrefix) token"
  from parsed obtain i where i: "IndexByte rest (CHR ''_'') = Some i" "0 < i" "i + 1 < length rest"
    and prefix: "prefix = take i rest" and pre: "HasPrefix token bearerPrefix"
    by (auto simp: ParseBearer_def rest_def Let_def split: if_splits option.splits)
  have "rest = take i rest @ rest ! i # drop (Suc i) rest"
    using i by (simp add: id_take_nth_drop [symmetric])
  moreover have "token = bearerPrefix @ rest"
    using pre unfolding rest_def HasPrefix_def by (metis append_take_drop_id)
  ultimately have "token = bearerPrefix @ prefix @ ''_'' @ drop (Suc i) rest"
    using IndexByte_SomeD [OF i(1)] prefix by simp
  moreover have "drop (Suc i) rest \<noteq> []" using i(3) by simp
  ultimately show "prefix \<noteq> [] \<and> CHR ''_'' \<notin> set prefix \<and>
     (\<exists>secret. secret \<noteq> [] \<and> token = bearerPrefix @ prefix @ ''_'' @ secret)"
    using IndexByte_SomeD [OF i(1)] i(2) prefix by (intro conjI exI [of _ "drop (Suc i) rest"]) auto
qed (use ParseBearer_compose in auto)

lemma match_key_SomeD:
  "match_key e bearer rows = Some (a, v) \<Longrightarrow>
     \<exists>h. (a, h, v) \<in> set rows \<and> VerifyAPIKey e bearer h = Inr True"
  by (induction e bearer rows rule: match_key.induct) (auto split: sum.splits if_splits)

lemma match_key_None:
  "match_key e bearer rows = None \<Longrightarrow> (a, h, v) \<in> set rows \<Longrightarrow> VerifyAPIKey e bearer h \<noteq> Inr True"
  by (induction e bearer rows rule: match_key.induct) (auto split: sum.splits if_splits)

lemma set_key_candidates:
  "(i, h, v) \<in> set (key_candidates prefix d) \<longleftrightarrow>
     (\<exists>k \<in> set (d_keys d). \<exists>a \<in> set (d_apps d). key_prefix k = prefix \<and> key_revoked_at k = None \<and>
        app_id a = key_app k \<and> app_active a \<and> i = key_app k \<and> h = key_hash k \<and> v = app_capver a)"
  by (auto simp: key_candidates_def)

lemma foldl_Add: "foldl Add s cs = s \<union> set cs"
  by (induction cs arbitrary: s) (auto simp: Add_def)

definition app_caps :: "database \<Rightarrow> string \<Rightarrow> capability_set" where
  "app_caps d i = {c. (i, c) \<in> set (d_caps d)}"

lemma loadCapabilitiesTx_eq:
  "loadCapabilitiesTx e i w = (if env_fault e (w_tick w) then (Inl (Auth_db ''query caps''), tick w)
     else (Inr (app_caps (w_db w) i), tick w))"
proof -
  have "snd ` {x \<in> set (d_caps (w_db w)). fst x = i} = app_caps (w_db w) i"
    by (force simp: app_caps_def)
  then show ?thesis by (simp add: loadCapabilitiesTx_def db_query_cases foldl_Add)
qed

lemma Resolve_db [simp]:
  "w_db (snd (Resolve e bearer w)) = w_db w" "w_tg (snd (Resolve e bearer w)) = w_tg w"
  by (auto simp: Resolve_def db_trip_def db_query_cases loadCapabilitiesTx_eq split: option.split prod.split)

text \<open>The identities that the tables grant: an unrevoked key whose hash the bearer matches, of an
  active app, with the app's capabilities and capability version.\<close>

definition grants :: "env \<Rightarrow> database \<Rightarrow> string \<Rightarrow> requester \<Rightarrow> bool" where
  "grants e d bearer r =
     (\<exists>k \<in> set (d_keys d). \<exists>a \<in> set (d_apps d).
        ParseBearer bearer = Some (key_prefix k) \<and> key_revoked_at k = None \<and>
        app_id a = key_app k \<and> app_active a \<and> VerifyAPIKey e bearer (key_hash k) = Inr True \<and>
        r = \<lparr>rq_app_id = app_id a, rq_capabilities = app_caps d (app_id a),
             rq_capability_set_ver = app_capver a, rq_key_prefix = key_prefix k\<rparr>)"

lemma Resolve_grants:
  assumes "fst (Resolve e bearer w) = Inr r"
  shows "grants e (w_db w) bearer r"
proof -
  from assms obtain prefix i v where p: "ParseBearer bearer = Some prefix"
    and m: "match_key e bearer (key_candidates prefix (w_db w)) = Some (i, v)"
    and r: "r = \<lparr>rq_app_id = i, rq_capabilities = app_caps (w_db w) i,
       rq_capability_set_ver = v, rq_key_prefix = prefix\<rparr>"
    by (auto simp: Resolve_def db_trip_def db_query_cases loadCapabilitiesTx_eq
        split: option.splits prod.splits if_splits)
  from match_key_SomeD [OF m] p r show ?thesis
    by (fastforce simp: set_key_candidates grants_def)
qed

lemma Resolve_complete:
  assumes "\<forall>n. \<not> env_fault e n" "grants e (w_db w) bearer r"
  shows "\<exists>r'. fst (Resolve e bearer w) = Inr r'"
proof -
  from assms(2) obtain prefix i h v where p: "ParseBearer bearer = Some prefix"
    and c: "(i, h, v) \<in> set (key_candidates prefix (w_db w))" "VerifyAPIKey e bearer h = Inr True"
    unfolding grants_def set_key_candidates by blast
  then have "match_key e bearer (key_candidates prefix (w_db w)) \<noteq> None"
    using match_key_None by blast
  with assms(1) p show ?thesis
    by (auto simp: Resolve_def db_trip_def db_query_cases loadCapabilitiesTx_eq)
qed

text \<open>C7: An identity that \<^verbatim>\<open>KeyStore.Resolve\<close> gives is one the tables grant: its key is in the
  tables, not revoked and verified against the whole bearer token, its app is active, its capabilities
  are exactly the app's rows. Conversely, when no round trip fails, a granted bearer is resolved, and
  a bearer for which nothing is granted gets the malformed or the not-found error. Nothing is changed.\<close>

theorem resolve_iff_granted:
  "(fst (Resolve e bearer w) = Inr r \<longrightarrow> grants e (w_db w) bearer r) \<and>
   ((\<forall>n. \<not> env_fault e n) \<longrightarrow> (\<exists>r. grants e (w_db w) bearer r) \<longrightarrow>
      (\<exists>r'. fst (Resolve e bearer w) = Inr r')) \<and>
   ((\<forall>n. \<not> env_fault e n) \<longrightarrow> (\<nexists>r. grants e (w_db w) bearer r) \<longrightarrow>
      fst (Resolve e bearer w) = Inl (if ParseBearer bearer = None then ErrBearerMalformed else ErrKeyNotFound)) \<and>
   w_db (snd (Resolve e bearer w)) = w_db w"
proof (intro conjI impI)
  assume "\<forall>n. \<not> env_fault e n" "\<exists>r. grants e (w_db w) bearer r"
  with Resolve_complete show "\<exists>r'. fst (Resolve e bearer w) = Inr r'" by blast
next
  assume nf: "\<forall>n. \<not> env_fault e n" and ng: "\<nexists>r. grants e (w_db w) bearer r"
  show "fst (Resolve e bearer w) = Inl (if ParseBearer bearer = None then ErrBearerMalformed else ErrKeyNotFound)"
  proof (cases "ParseBearer bearer")
    case (Some prefix)
    have "match_key e bearer (key_candidates prefix (w_db w)) = None"
    proof (rule ccontr)
      assume "match_key e bearer (key_candidates prefix (w_db w)) \<noteq> None"
      then have "\<exists>r. fst (Resolve e bearer w) = Inr r"
        using nf Some by (auto simp: Resolve_def db_trip_def db_query_cases loadCapabilitiesTx_eq)
      with ng Resolve_grants show False by blast
    qed
    with nf Some show ?thesis
      by (simp add: Resolve_def db_trip_def db_query_cases)
  qed (simp add: Resolve_def)
qed (simp_all add: Resolve_grants)

definition demo_app_db :: database where
  "demo_app_db = empty_db\<lparr>
     d_apps := [\<lparr>app_id = ''ops'', app_name = ''ops'', app_description = [], app_min_grade = ''user'',
       app_active = True, app_created_at = 0, app_capver = 2, app_created_by = ''seed''\<rparr>],
     d_caps := [(''ops'', CapMessagesDirect)],
     d_keys := [\<lparr>key_id = 1, key_app = ''ops'',
       key_hash = encodeArgon2id demo_env ''tg_ab_cd'' ''salt'', key_prefix = ''ab'', key_label = [],
       key_created_at = 0, key_revoked_at = None\<rparr>], d_key_seq := 2\<rparr>"

lemma demo_app_grants:
  "grants demo_env demo_app_db ''tg_ab_cd'' \<lparr>rq_app_id = ''ops'', rq_capabilities = {CapMessagesDirect},
     rq_capability_set_ver = 2, rq_key_prefix = ''ab''\<rparr>"
proof -
  have "ParseBearer ''tg_ab_cd'' = Some ''ab''" by code_simp
  then show ?thesis
    by (auto simp: grants_def demo_app_db_def app_caps_def VerifyAPIKey_encoded)
qed

theorem resolve_iff_granted_witness:
  "\<exists>r'. fst (Resolve demo_env ''tg_ab_cd'' (empty_world\<lparr>w_db := demo_app_db\<rparr>)) = Inr r'"
  using resolve_iff_granted [of demo_env "''tg_ab_cd''" "empty_world\<lparr>w_db := demo_app_db\<rparr>"] demo_app_grants
  by auto

end
