(* ===== verification/Go_Float.thy ===== *)
theory Go_Float
  imports Prelude
begin

text \<open>
  The \<^verbatim>\<open>float64\<close> arithmetic of Go, for the token buckets and the shares of the failure ring. A float is the rational number it
  stands for; \<open>f64\<close> rounds an exact result to the nearest number with a 53-bit significand, ties to
  even, as IEEE 754 binary64 does, and each operation is the rounding of the exact one. The exponent is
  not bounded: the numbers of the token buckets (tokens, seconds, rates and waits of policies with rate and
  burst between 1 and \<open>2^31\<close>; the share of one count in another) lie far inside the range of normal numbers, or are 0. A product and a sum are
  rounded separately, as on amd64.
\<close>

section \<open>Rounding\<close>

text \<open>The nearest integer, ties to even; also \<^verbatim>\<open>fmt.Sprintf("%.0f", x)\<close> of a non-negative number.\<close>

definition round_even :: "rat \<Rightarrow> int" where
  "round_even x = (let f = \<lfloor>x\<rfloor>; d = x - of_int f
     in if d < 1 / 2 then f else if d > 1 / 2 then f + 1 else if even f then f else f + 1)"

text \<open>The number of binary digits, and the exponent of the leading one of a positive number.\<close>

fun bit_len :: "int \<Rightarrow> nat" where
  "bit_len n = (if n \<le> 0 then 0 else Suc (bit_len (n div 2)))"

declare bit_len.simps [simp del]

definition binade :: "rat \<Rightarrow> int" where
  "binade x =
     (case quotient_of x of (p, q) \<Rightarrow>
      let k = int (bit_len p) - int (bit_len q)
      in if 2 powi k \<le> x then k else k - 1)"

definition f64 :: "rat \<Rightarrow> rat" where
  "f64 x = (if x = 0 then 0
            else let ulp = 2 powi (binade \<bar>x\<bar> - 52) in of_int (round_even (x / ulp)) * ulp)"

definition f_add :: "rat \<Rightarrow> rat \<Rightarrow> rat" where "f_add x y = f64 (x + y)"
definition f_sub :: "rat \<Rightarrow> rat \<Rightarrow> rat" where "f_sub x y = f64 (x - y)"
definition f_mul :: "rat \<Rightarrow> rat \<Rightarrow> rat" where "f_mul x y = f64 (x * y)"
definition f_div :: "rat \<Rightarrow> rat \<Rightarrow> rat" where "f_div x y = f64 (x / y)"

text \<open>Conversions: \<^verbatim>\<open>float64(n)\<close> of an integer and \<^verbatim>\<open>int64(x)\<close>, which cuts the fraction off.\<close>

definition f_of_int :: "int \<Rightarrow> rat" where "f_of_int n = f64 (of_int n)"

definition f_trunc :: "rat \<Rightarrow> int" where "f_trunc x = (if x < 0 then \<lceil>x\<rceil> else \<lfloor>x\<rfloor>)"

text \<open>\<^verbatim>\<open>Duration.Seconds()\<close>: the whole seconds plus the remaining nanoseconds over \<open>10^9\<close>, where
  the integer division truncates.\<close>

definition Seconds :: "duration \<Rightarrow> rat" where
  "Seconds d =
     (let sec = sgn d * (\<bar>d\<bar> div second_ns); nsec = sgn d * (\<bar>d\<bar> mod second_ns)
      in f_add (f_of_int sec) (f_div (f_of_int nsec) 1000000000))"


section \<open>Rounding to an integer\<close>

lemma round_even_bounds: "of_int (round_even x) - 1 / 2 \<le> x" "x \<le> of_int (round_even x) + 1 / 2"
proof -
  define f where "f = \<lfloor>x\<rfloor>"
  have "of_int f \<le> x" "x < of_int f + 1" using floor_correct [of x] by (simp_all add: f_def)
  then show "of_int (round_even x) - 1 / 2 \<le> x" "x \<le> of_int (round_even x) + 1 / 2"
    unfolding round_even_def Let_def f_def [symmetric] by (auto simp: field_simps)
qed

lemma round_even_of_int [simp]: "round_even (of_int n) = n"
  by (simp add: round_even_def)

lemma round_even_mono:
  assumes "x \<le> y"
  shows "round_even x \<le> round_even y"
proof (cases "\<lfloor>x\<rfloor> = \<lfloor>y\<rfloor>")
  case True
  with assms show ?thesis by (auto simp: round_even_def Let_def)
next
  case False
  with assms have "\<lfloor>x\<rfloor> + 1 \<le> \<lfloor>y\<rfloor>" using floor_mono [of x y] by simp
  moreover have "round_even x \<le> \<lfloor>x\<rfloor> + 1" "\<lfloor>y\<rfloor> \<le> round_even y" by (auto simp: round_even_def Let_def)
  ultimately show ?thesis by simp
qed

lemma round_even_minus: "round_even (- x) = - round_even x"
proof (cases "x = of_int \<lfloor>x\<rfloor>")
  case True
  then show ?thesis by (metis of_int_minus round_even_of_int)
next
  case False
  define f d where "f = \<lfloor>x\<rfloor>" and "d = x - of_int f"
  have d: "0 < d" "d < 1" using False floor_correct [of x] by (auto simp: d_def f_def order_le_less)
  have "\<lfloor>- x\<rfloor> = - f - 1" using d by (intro floor_unique) (simp_all add: d_def)
  then have "round_even (- x) = (if 1 - d < 1 / 2 then - f - 1 else if 1 / 2 < 1 - d then - f
      else if even (- f - 1) then - f - 1 else - f)"
    by (simp add: round_even_def Let_def d_def)
  moreover have "round_even x = (if d < 1 / 2 then f else if 1 / 2 < d then f + 1 else if even f then f else f + 1)"
    by (simp add: round_even_def Let_def d_def f_def)
  ultimately show ?thesis by auto
qed


section \<open>The exponent\<close>

lemma bit_len_bounds: "0 < n \<Longrightarrow> 2 ^ bit_len n \<le> 2 * n \<and> n < 2 ^ bit_len n"
proof (induction n rule: bit_len.induct)
  case (1 n)
  have eq: "bit_len n = Suc (bit_len (n div 2))"
    using 1(2) by (subst bit_len.simps) simp
  show ?case
  proof (cases "n = 1")
    case True
    then show ?thesis by (simp add: bit_len.simps)
  next
    case False
    then have "0 < n div 2" using 1(2) by simp
    with 1 have "2 ^ bit_len (n div 2) \<le> 2 * (n div 2) \<and> n div 2 < 2 ^ bit_len (n div 2)" by simp
    then show ?thesis unfolding eq by simp linarith
  qed
qed

lemma powi_pos [simp]: "0 < (2 :: rat) powi e"
  by (simp add: zero_less_power_int)

lemma powi_Suc: "(2 :: rat) powi (e + 1) = 2 * 2 powi e"
  by (simp add: power_int_add_1)

lemma binade_bounds:
  assumes "0 < x"
  shows "2 powi binade x \<le> x" "x < 2 powi (binade x + 1)"
proof -
  obtain p q where pq: "quotient_of x = (p, q)" by fastforce
  have q: "0 < q" and x: "x = of_int p / of_int q"
    using quotient_of_denom_pos [OF pq] quotient_of_div [OF pq] by auto
  with assms have p: "0 < p" by (simp add: zero_less_divide_iff)
  define P Q where "P = bit_len p" and "Q = bit_len q"
  let ?k = "int P - int Q"
  have pb: "(2 :: rat) ^ P \<le> 2 * of_int p" "of_int p < (2 :: rat) ^ P"
    using bit_len_bounds [OF p] unfolding P_def by (metis of_int_le_iff of_int_less_iff of_int_mult of_int_numeral of_int_power)+
  have qb: "(2 :: rat) ^ Q \<le> 2 * of_int q" "of_int q < (2 :: rat) ^ Q"
    using bit_len_bounds [OF q] unfolding Q_def by (metis of_int_le_iff of_int_less_iff of_int_mult of_int_numeral of_int_power)+
  have k: "(2 :: rat) powi ?k = 2 ^ P / 2 ^ Q"
    by (simp add: power_int_diff)
  have upper: "x < 2 * 2 powi ?k"
  proof -
    have "of_int p * 2 ^ Q < (2 :: rat) ^ P * 2 ^ Q" using pb(2) by simp
    also have "\<dots> \<le> 2 ^ P * (2 * of_int q)" using qb(1) by (intro mult_left_mono) simp_all
    finally show ?thesis using q by (simp add: k x field_simps)
  qed
  have lower: "2 powi ?k < 2 * x"
  proof -
    have "2 ^ P * of_int q \<le> 2 * of_int p * (of_int q :: rat)" using pb(1) q by (intro mult_right_mono) simp_all
    also have "\<dots> < 2 * of_int p * 2 ^ Q" using qb(2) p by (intro mult_strict_left_mono) simp_all
    finally show ?thesis using q by (simp add: k x field_simps)
  qed
  have half: "(2 :: rat) powi ?k = 2 * 2 powi (?k - 1)"
    using powi_Suc [of "?k - 1"] by simp
  show "2 powi binade x \<le> x"
    using lower half by (auto simp: binade_def pq P_def [symmetric] Q_def [symmetric] Let_def)
  show "x < 2 powi (binade x + 1)"
    using upper half by (auto simp: binade_def pq P_def [symmetric] Q_def [symmetric] Let_def powi_Suc)
qed

lemma binade_mono:
  assumes "0 < x" "x \<le> y"
  shows "binade x \<le> binade y"
proof (rule ccontr)
  assume "\<not> binade x \<le> binade y"
  then have "(2 :: rat) powi (binade y + 1) \<le> 2 powi binade x" by (intro power_int_increasing) simp_all
  with binade_bounds [of x] binade_bounds [of y] assms show False by simp
qed

lemma binade_eq:
  assumes "2 powi e \<le> x" "x < 2 powi (e + 1)"
  shows "binade x = e"
proof -
  have x: "0 < x" using assms(1) powi_pos [of e] by linarith
  have le: "a \<le> b" if "(2 :: rat) powi a < 2 powi (b + 1)" for a b
  proof (rule ccontr)
    assume "\<not> a \<le> b"
    then have "(2 :: rat) powi (b + 1) \<le> 2 powi a" by (intro power_int_increasing) simp_all
    with that show False by simp
  qed
  show ?thesis
    using le [of "binade x" e] le [of e "binade x"] binade_bounds [OF x] assms by fastforce
qed


section \<open>Rounding to a float\<close>

abbreviation ulp_of :: "rat \<Rightarrow> rat" where "ulp_of x \<equiv> 2 powi (binade x - 52)"

lemma f64_0 [simp]: "f64 0 = 0"
  by (simp add: f64_def)

lemma f64_pos: "0 < x \<Longrightarrow> f64 x = of_int (round_even (x / ulp_of x)) * ulp_of x"
  by (simp add: f64_def Let_def)

lemma significand_bounds:
  assumes "0 < x"
  shows "2 ^ 52 \<le> x / ulp_of x" "x / ulp_of x < 2 ^ 53"
proof -
  have "(2 :: rat) powi binade x = 2 ^ 52 * ulp_of x"
    using power_int_add [of "2 :: rat" "52" "binade x - 52"] by simp
  moreover have "(2 :: rat) powi (binade x + 1) = 2 ^ 53 * ulp_of x"
    using calculation by (simp add: powi_Suc)
  ultimately show "2 ^ 52 \<le> x / ulp_of x" "x / ulp_of x < 2 ^ 53"
    using binade_bounds [OF assms] by (simp_all add: pos_le_divide_eq pos_divide_less_eq)
qed

lemma rounded_significand:
  assumes "0 < x"
  shows "2 ^ 52 \<le> round_even (x / ulp_of x)" "round_even (x / ulp_of x) \<le> 2 ^ 53"
proof -
  have "of_int (2 ^ 52) \<le> x / ulp_of x" "x / ulp_of x \<le> of_int (2 ^ 53)"
    using significand_bounds [OF assms] by simp_all
  from round_even_mono [OF this(1)] round_even_mono [OF this(2)]
  show "2 ^ 52 \<le> round_even (x / ulp_of x)" "round_even (x / ulp_of x) \<le> 2 ^ 53"
    by (simp_all only: round_even_of_int)
qed

text \<open>The unit roundoff, and the error of one rounding.\<close>

definition f_eps :: rat where "f_eps = 1 / 2 ^ 53"

lemma f_eps_pos [simp]: "0 < f_eps" "0 \<le> f_eps"
  by (simp_all add: f_eps_def)

lemma f64_error:
  assumes "0 \<le> x"
  shows "x * (1 - f_eps) \<le> f64 x" "f64 x \<le> x * (1 + f_eps)"
proof -
  have "x * (1 - f_eps) \<le> f64 x \<and> f64 x \<le> x * (1 + f_eps)"
  proof (cases "x = 0")
    case False
    with assms have x: "0 < x" by simp
    let ?u = "ulp_of x"
    have "x = x / ?u * ?u" by simp
    have half: "?u / 2 \<le> x * f_eps"
      using significand_bounds(1) [OF x] by (simp add: f_eps_def pos_le_divide_eq field_simps)
    have "(x / ?u - 1 / 2) * ?u \<le> f64 x" "f64 x \<le> (x / ?u + 1 / 2) * ?u"
      using round_even_bounds [of "x / ?u"] unfolding f64_pos [OF x]
      by (intro mult_right_mono; simp)+
    then show ?thesis using half by (simp add: algebra_simps)
  qed simp
  then show "x * (1 - f_eps) \<le> f64 x" "f64 x \<le> x * (1 + f_eps)" by simp_all
qed

lemma f64_positive:
  assumes "0 < x"
  shows "0 < f64 x"
proof -
  have "0 < x * (1 - f_eps)" using assms by (intro mult_pos_pos) (simp_all add: f_eps_def)
  with f64_error(1) [of x] assms show ?thesis by simp
qed

lemma f64_nonneg: "0 \<le> x \<Longrightarrow> 0 \<le> f64 x"
  using f64_positive [of x] by (cases "x = 0") simp_all

lemma f64_mono:
  assumes "0 \<le> x" "x \<le> y"
  shows "f64 x \<le> f64 y"
proof (cases "x = 0")
  case True
  then show ?thesis using assms f64_nonneg by simp
next
  case False
  with assms have x: "0 < x" and y: "0 < y" by simp_all
  show ?thesis
  proof (cases "binade x = binade y")
    case True
    have "x / ulp_of y \<le> y / ulp_of y" using assms(2) by (intro divide_right_mono) simp_all
    then show ?thesis
      unfolding f64_pos [OF x] f64_pos [OF y] True by (intro mult_right_mono) (simp_all add: round_even_mono)
  next
    case False
    then have "binade x + 1 \<le> binade y" using binade_mono [OF x assms(2)] by simp
    have "f64 x \<le> of_int (2 ^ 53) * ulp_of x"
      unfolding f64_pos [OF x] using rounded_significand(2) [OF x] by (intro mult_right_mono; simp only: of_int_le_iff; simp)
    also have "\<dots> = 2 powi (binade x + 1)"
      using power_int_add [of "2 :: rat" 53 "binade x - 52"] by (simp add: add.commute)
    also have "\<dots> \<le> 2 powi binade y" using \<open>binade x + 1 \<le> binade y\<close> by (intro power_int_increasing) simp_all
    also have "\<dots> = of_int (2 ^ 52) * ulp_of y"
      using power_int_add [of "2 :: rat" 52 "binade y - 52"] by simp
    also have "\<dots> \<le> f64 y"
      unfolding f64_pos [OF y] using rounded_significand(1) [OF y] by (intro mult_right_mono; simp only: of_int_le_iff; simp)
    finally show ?thesis .
  qed
qed

text \<open>Floats are the numbers that rounding leaves alone: among them the integers up to \<open>2^53\<close> and every
  result of a rounding.\<close>

lemma f64_exact: "0 < x \<Longrightarrow> x / ulp_of x = of_int m \<Longrightarrow> f64 x = x"
  by (metis divide_eq_eq f64_pos less_irrefl powi_pos round_even_of_int)

lemma f64_scaled:
  assumes "0 < m" "m < 2 ^ 53"
  shows "f64 (of_int m * 2 powi e) = of_int m * 2 powi e"
proof -
  let ?x = "of_int m * 2 powi e :: rat"
  have x: "0 < ?x" using assms(1) by simp
  have "(of_int m :: rat) < of_int (2 ^ 53)" using assms(2) by (simp only: of_int_less_iff)
  then have "?x < 2 ^ 53 * 2 powi e" by simp
  also have "\<dots> = 2 powi (e + 53)"
    by (simp add: power_int_add)
  finally have small: "?x < 2 powi (e + 53)" .
  have "binade ?x < e + 53"
  proof (rule ccontr)
    assume "\<not> binade ?x < e + 53"
    then have "(2 :: rat) powi (e + 53) \<le> 2 powi binade ?x" by (intro power_int_increasing) simp_all
    with small binade_bounds(1) [OF x] show False by simp
  qed
  define n where "n = nat (e - (binade ?x - 52))"
  have n: "e - (binade ?x - 52) = int n"
    unfolding n_def by (rule nat_0_le [symmetric]) (use \<open>binade ?x < e + 53\<close> in linarith)
  have "?x / ulp_of ?x = of_int m * 2 powi (e - (binade ?x - 52))"
    by (subst power_int_diff [of 2 e "binade ?x - 52"]) simp_all
  also have "\<dots> = of_int (m * 2 ^ n)" unfolding n by simp
  finally show ?thesis by (rule f64_exact [OF x])
qed

lemma f64_of_int:
  assumes "0 \<le> n" "n < 2 ^ 53"
  shows "f64 (of_int n) = of_int n"
  using f64_scaled [of n 0] assms by (cases "n = 0") simp_all

lemma f64_numeral: "numeral n < (2 :: int) ^ 53 \<Longrightarrow> f64 (numeral n) = numeral n"
  using f64_of_int [of "numeral n"] by simp

lemma f64_1 [simp]: "f64 1 = 1"
  using f64_of_int [of 1] by simp

lemma f64_idem: "0 \<le> x \<Longrightarrow> f64 (f64 x) = f64 x"
proof (cases "x = 0")
  case False
  assume "0 \<le> x"
  with False have x: "0 < x" by simp
  let ?m = "round_even (x / ulp_of x)"
  show ?thesis
  proof (cases "?m = 2 ^ 53")
    case True
    have "f64 x = of_int 1 * 2 powi (binade x + 1)"
      using power_int_add [of "2 :: rat" 53 "binade x - 52"] by (simp add: f64_pos [OF x] True add.commute)
    then show ?thesis using f64_scaled [of 1 "binade x + 1"] by simp
  next
    case False
    with rounded_significand [OF x] have "0 < ?m" "?m < 2 ^ 53" by simp_all
    then show ?thesis using f64_scaled [of ?m "binade x - 52"] by (simp add: f64_pos [OF x])
  qed
qed simp

lemma f64_le_int: "0 \<le> x \<Longrightarrow> x \<le> of_int n \<Longrightarrow> n < 2 ^ 53 \<Longrightarrow> f64 x \<le> of_int n"
  by (metis f64_mono f64_of_int of_int_0_le_iff order_trans)

lemma f64_minus: "f64 (- x) = - f64 x"
  using round_even_minus [of "x / ulp_of \<bar>x\<bar>"] by (simp add: f64_def Let_def)

lemma f64_nonpos: "x \<le> 0 \<Longrightarrow> f64 x \<le> 0"
  using f64_nonneg [of "- x"] by (simp add: f64_minus)

lemma f64_le:
  assumes "x \<le> y"
  shows "f64 x \<le> f64 y"
proof -
  consider "0 \<le> x" | "x < 0" "0 \<le> y" | "y < 0" by linarith
  then show ?thesis
  proof cases
    case 1
    then show ?thesis using assms by (rule f64_mono)
  next
    case 2
    then show ?thesis using f64_nonpos [of x] f64_nonneg [of y] by simp
  next
    case 3
    then show ?thesis using f64_mono [of "- y" "- x"] assms by (simp add: f64_minus)
  qed
qed


section \<open>Seconds\<close>

lemma Seconds_nonneg_eq:
  "0 \<le> d \<Longrightarrow> Seconds d = f64 (f64 (of_int (d div second_ns)) + f64 (f64 (of_int (d mod second_ns)) / 1000000000))"
  by (cases "d = 0") (simp_all add: Seconds_def f_add_def f_div_def f_of_int_def Let_def)

lemma f64_of_nsec: "f64 (of_int (d mod second_ns)) = of_int (d mod second_ns)"
  by (intro f64_of_int) (simp_all add: order_less_trans [OF pos_mod_bound])

lemma dur_seconds_split: "dur_seconds d = of_int (d div second_ns) + of_int (d mod second_ns) / 1000000000"
proof -
  have "(of_int d :: rat) = of_int (d div second_ns) * 1000000000 + of_int (d mod second_ns)"
    using arg_cong [OF div_mult_mod_eq [of d second_ns, symmetric], of "of_int :: int \<Rightarrow> rat"]
    by (simp only: of_int_add of_int_mult of_int_numeral)
  then show ?thesis unfolding dur_seconds_def by (simp add: add_divide_distrib)
qed

lemma Seconds_error:
  assumes "0 \<le> d"
  shows "dur_seconds d * (1 - f_eps) ^ 2 \<le> Seconds d" "Seconds d \<le> dur_seconds d * (1 + f_eps) ^ 2"
proof -
  define s n where "s = (of_int (d div second_ns) :: rat)" and "n = (of_int (d mod second_ns) / 1000000000 :: rat)"
  have sn: "0 \<le> s" "0 \<le> n" using assms by (simp_all add: s_def n_def pos_imp_zdiv_nonneg_iff)
  have eq: "Seconds d = f64 (f64 s + f64 n)" "dur_seconds d = s + n"
    using assms by (simp_all add: Seconds_nonneg_eq f64_of_nsec dur_seconds_split s_def n_def)
  have nn: "0 \<le> f64 s + f64 n" using sn by (intro add_nonneg_nonneg f64_nonneg)
  have e1: "0 \<le> 1 - f_eps" by (simp add: f_eps_def)
  have "(s + n) * (1 - f_eps) ^ 2 = ((s * (1 - f_eps)) + (n * (1 - f_eps))) * (1 - f_eps)"
    by (simp add: power2_eq_square algebra_simps)
  also have "\<dots> \<le> (f64 s + f64 n) * (1 - f_eps)"
    using f64_error(1) sn e1 by (intro mult_right_mono add_mono) simp_all
  also have "\<dots> \<le> f64 (f64 s + f64 n)" by (rule f64_error(1) [OF nn])
  finally show "dur_seconds d * (1 - f_eps) ^ 2 \<le> Seconds d" by (simp add: eq)
  have "f64 (f64 s + f64 n) \<le> (f64 s + f64 n) * (1 + f_eps)" by (rule f64_error(2) [OF nn])
  also have "\<dots> \<le> ((s * (1 + f_eps)) + (n * (1 + f_eps))) * (1 + f_eps)"
    using f64_error(2) sn by (intro mult_right_mono add_mono) simp_all
  also have "\<dots> = (s + n) * (1 + f_eps) ^ 2" by (simp add: power2_eq_square algebra_simps)
  finally show "Seconds d \<le> dur_seconds d * (1 + f_eps) ^ 2" by (simp add: eq)
qed

lemma Seconds_pos [simp]: "(0 < Seconds d) = (0 < d)"
proof (cases "0 < d")
  case True
  then have "0 < dur_seconds d * (1 - f_eps) ^ 2"
    by (intro mult_pos_pos) (simp_all add: f_eps_def)
  with Seconds_error(1) [of d] True show ?thesis by simp
next
  case False
  have "f64 (of_int (sgn d * (\<bar>d\<bar> div second_ns))) \<le> 0" "f64 (of_int (sgn d * (\<bar>d\<bar> mod second_ns))) / 1000000000 \<le> 0"
    using False by (auto intro!: f64_nonpos divide_nonpos_pos simp: sgn_if pos_imp_zdiv_nonneg_iff)
  then have "Seconds d \<le> 0"
    unfolding Seconds_def f_add_def f_div_def f_of_int_def Let_def
    by (intro f64_nonpos [of "_ + _"] add_nonpos_nonpos f64_nonpos [of "_ / _"])
  with False show ?thesis by simp
qed

lemma Seconds_0 [simp]: "Seconds 0 = 0"
  by (simp add: Seconds_def f_add_def f_div_def f_of_int_def)

lemma Seconds_minus: "Seconds (- d) = - Seconds d"
proof -
  have "f64 (- x) + f64 (f64 (- y) / 1000000000) = - (f64 x + f64 (f64 y / 1000000000))" for x y
    by (simp add: f64_minus)
  from this [of "of_int (sgn d * (\<bar>d\<bar> div second_ns))" "of_int (sgn d * (\<bar>d\<bar> mod second_ns))"]
  show ?thesis
    unfolding Seconds_def f_add_def f_div_def f_of_int_def Let_def
    by (simp only: idom_abs_sgn_class.sgn_minus abs_minus_cancel mult_minus_left of_int_minus f64_minus)
qed

lemma Seconds_le_nonneg:
  assumes "0 \<le> d" "d \<le> d'" "d' \<le> 2 ^ 63"
  shows "Seconds d \<le> Seconds d'"
proof -
  let ?f = "\<lambda>d. f64 (of_int (d mod second_ns) / 1000000000)"
  have sec: "f64 (of_int (x div second_ns)) = of_int (x div second_ns)" if "0 \<le> x" "x \<le> d'" for x
    using that assms(3) by (intro f64_of_int) (simp_all add: pos_imp_zdiv_nonneg_iff)
  have le: "d div second_ns \<le> d' div second_ns" using assms(2) by (intro zdiv_mono1) simp_all
  have "of_int (d div second_ns) + ?f d \<le> of_int (d' div second_ns) + ?f d'"
  proof (cases "d div second_ns = d' div second_ns")
    case True
    then have "d mod second_ns \<le> d' mod second_ns" using assms(2) by (simp add: minus_div_mult_eq_mod [symmetric])
    then have "?f d \<le> ?f d'" by (intro f64_le divide_right_mono) simp_all
    with True show ?thesis by simp
  next
    case False
    with le have "of_int (d div second_ns) + 1 \<le> (of_int (d' div second_ns) :: rat)"
      using of_int_le_iff [of "d div second_ns + 1" "d' div second_ns", where 'a = rat] by simp
    moreover have "?f d \<le> f64 1"
      by (intro f64_le) (simp add: order_less_imp_le [OF pos_mod_bound])
    moreover have "0 \<le> ?f d'" by (intro f64_nonneg) simp
    ultimately show ?thesis by simp
  qed
  then show ?thesis
    using assms by (simp add: Seconds_nonneg_eq f64_of_nsec sec f64_le)
qed

lemma Seconds_le:
  assumes "d \<le> d'" "- (2 ^ 63) \<le> d" "d' \<le> 2 ^ 63"
  shows "Seconds d \<le> Seconds d'"
proof -
  consider "0 \<le> d" | "d < 0" "0 < d'" | "d' \<le> 0" by linarith
  then show ?thesis
  proof cases
    case 1
    then show ?thesis using assms by (intro Seconds_le_nonneg)
  next
    case 2
    then show ?thesis using Seconds_pos [of d] Seconds_pos [of d'] by linarith
  next
    case 3
    then show ?thesis using Seconds_le_nonneg [of "- d'" "- d"] assms by (simp add: Seconds_minus)
  qed
qed

end
