(* ===== verification/Rate_Limit.thy ===== *)
theory Rate_Limit
  imports World Go_Float
begin

text \<open>
  Token buckets: the request limiter of \<^verbatim>\<open>src/internal/ratelimit\<close> with its policies from the
  database, and the two-level dispatch limiter of
  \<^verbatim>\<open>src/internal/dispatch/telegram/dispatch_limiter.go\<close>. The locale \<open>rate_bound\<close> states
  what the three bucket routines have in common; its consequence, the bound on the calls allowed in a
  window of time, is proved once and used for each. The arithmetic is that of \<^verbatim>\<open>float64\<close>
  (theory \<open>Go_Float\<close>): every operation rounds, so the bounds have a term for the rounding errors of
  the calls.
\<close>

section \<open>The bucket limiter\<close>

record decision =
  dec_allowed :: bool
  dec_retry_after :: duration

record policy =
  pc_rate :: rat
  pc_burst :: rat

type_synonym buckets = "string \<rightharpoonup> token_bucket"

text \<open>\<^verbatim>\<open>time.Duration((1 - tokens) / rate * float64(time.Second))\<close>, cut to whole nanoseconds.\<close>

definition retry_wait :: "rat \<Rightarrow> rat \<Rightarrow> duration" where
  "retry_wait tokens rate = f_trunc (f_mul (f_div (f_sub 1 tokens) rate) 1000000000)"

definition bucket_Allow :: "(string \<Rightarrow> policy) \<Rightarrow> string \<Rightarrow> time \<Rightarrow> buckets \<Rightarrow> decision \<times> buckets" where
  "bucket_Allow policyFn key now bs =
     (let pol = policyFn key
      in if pc_rate pol \<le> 0 \<or> pc_burst pol \<le> 0 then (\<lparr>dec_allowed = True, dec_retry_after = 0\<rparr>, bs)
         else
           (let b = (case bs key of
                       None \<Rightarrow> \<lparr>tb_tokens = pc_burst pol, tb_last_refill = now\<rparr>
                     | Some b \<Rightarrow> b);
                elapsed = Seconds (time_sub now (tb_last_refill b));
                b1 = (if elapsed > 0
                      then (let tokens = f_add (tb_tokens b) (f_mul elapsed (pc_rate pol));
                                tokens = (if tokens > pc_burst pol then pc_burst pol else tokens)
                            in \<lparr>tb_tokens = tokens, tb_last_refill = now\<rparr>)
                      else b)
            in if tb_tokens b1 \<ge> 1
               then (\<lparr>dec_allowed = True, dec_retry_after = 0\<rparr>,
                     bs(key \<mapsto> b1\<lparr>tb_tokens := f_sub (tb_tokens b1) 1\<rparr>))
               else (\<lparr>dec_allowed = False, dec_retry_after = retry_wait (tb_tokens b1) (pc_rate pol)\<rparr>,
                     bs(key \<mapsto> b1))))"

text \<open>\<^verbatim>\<open>NewRequestLimiter\<close>: the policy of a key is its override or the default.\<close>

definition request_policy :: "policy \<Rightarrow> (string \<rightharpoonup> policy) \<Rightarrow> string \<Rightarrow> policy" where
  "request_policy defaultPolicy overrides key =
     (case overrides key of Some p \<Rightarrow> p | None \<Rightarrow> defaultPolicy)"

text \<open>\<^verbatim>\<open>PolicyLoader.Load\<close>: a later row for the same target replaces an earlier one.\<close>

definition Load :: "env \<Rightarrow> string \<Rightarrow> world \<Rightarrow> (db_error + (string \<rightharpoonup> policy)) \<times> world" where
  "Load e scope w =
     (case db_query e (\<lambda>t d. filter (\<lambda>p. pol_scope p = scope) (d_policies d)) w of
        (Inl err, w1) \<Rightarrow> (Inl err, w1)
      | (Inr rows, w1) \<Rightarrow>
          (Inr (foldl (\<lambda>m p. m(pol_target p \<mapsto>
             \<lparr>pc_rate = f_of_int (pol_rate_per_sec p), pc_burst = f_of_int (pol_burst p)\<rparr>)) Map.empty rows), w1))"

definition BuildRequestLimiter ::
  "env \<Rightarrow> string \<Rightarrow> policy \<Rightarrow> world \<Rightarrow> (db_error + (string \<Rightarrow> policy)) \<times> world" where
  "BuildRequestLimiter e scope defaultPolicy w =
     (case Load e scope w of
        (Inl err, w1) \<Rightarrow> (Inl err, w1)
      | (Inr overrides, w1) \<Rightarrow> (Inr (request_policy defaultPolicy overrides), w1))"


section \<open>The dispatch limiter\<close>

definition NewDispatchLimiter :: "time \<Rightarrow> dispatch_limiter" where
  "NewDispatchLimiter now = \<lparr>dl_gTokens = 30, dl_gRefill = now, dl_gRate = 25, dl_gBurst = 30,
     dl_per = Map.empty, dl_pRate = 1, dl_pBurst = 2\<rparr>"

definition takeGlobal :: "time \<Rightarrow> dispatch_limiter \<Rightarrow> (decision \<times> bool) \<times> dispatch_limiter" where
  "takeGlobal now l =
     (let elapsed = Seconds (time_sub now (dl_gRefill l));
          l1 = (if elapsed > 0
                then (let tokens = f_add (dl_gTokens l) (f_mul elapsed (dl_gRate l));
                          tokens = (if tokens > dl_gBurst l then dl_gBurst l else tokens)
                      in l\<lparr>dl_gTokens := tokens, dl_gRefill := now\<rparr>)
                else l)
      in if dl_gTokens l1 \<ge> 1
         then ((\<lparr>dec_allowed = True, dec_retry_after = 0\<rparr>, True), l1\<lparr>dl_gTokens := f_sub (dl_gTokens l1) 1\<rparr>)
         else ((\<lparr>dec_allowed = False, dec_retry_after = retry_wait (dl_gTokens l1) (dl_gRate l1)\<rparr>, False), l1))"

definition takePerChat :: "string \<Rightarrow> time \<Rightarrow> dispatch_limiter \<Rightarrow> decision \<times> dispatch_limiter" where
  "takePerChat key now l =
     (let b = (case dl_per l key of
                 None \<Rightarrow> \<lparr>tb_tokens = dl_pBurst l, tb_last_refill = now\<rparr>
               | Some b \<Rightarrow> b);
          elapsed = Seconds (time_sub now (tb_last_refill b));
          b1 = (if elapsed > 0
                then (let tokens = f_add (tb_tokens b) (f_mul elapsed (dl_pRate l));
                          tokens = (if tokens > dl_pBurst l then dl_pBurst l else tokens)
                      in \<lparr>tb_tokens = tokens, tb_last_refill = now\<rparr>)
                else b)
      in if tb_tokens b1 \<ge> 1
         then (\<lparr>dec_allowed = True, dec_retry_after = 0\<rparr>,
               l\<lparr>dl_per := (dl_per l)(key \<mapsto> b1\<lparr>tb_tokens := f_sub (tb_tokens b1) 1\<rparr>)\<rparr>)
         else (\<lparr>dec_allowed = False, dec_retry_after = retry_wait (tb_tokens b1) (dl_pRate l)\<rparr>,
               l\<lparr>dl_per := (dl_per l)(key \<mapsto> b1)\<rparr>))"

definition dispatch_Allow :: "string \<Rightarrow> time \<Rightarrow> dispatch_limiter \<Rightarrow> decision \<times> dispatch_limiter" where
  "dispatch_Allow key now l =
     (case takeGlobal now l of ((d, ok), l1) \<Rightarrow>
      if \<not> ok then (d, l1) else takePerChat key now l1)"

text \<open>The global bucket and the chat buckets have a mutex each, so concurrent calls interleave between
  \<^verbatim>\<open>takeGlobal\<close> and \<^verbatim>\<open>takePerChat\<close>. \<open>dispatch_run l pend es\<close> runs such an interleaving: \<open>Enter key now\<close>
  is a call that read the clock and takes from the global bucket; if that allows, the call is pending
  until \<open>Finish i\<close>, where the \<open>i\<close>-th pending call takes from its chat's bucket. The result lists the
  answers in the order they are given. \<open>dispatch_Allow\<close> is the run of one call alone.\<close>

datatype dispatch_event = Enter string time | Finish nat

fun dispatch_run ::
  "dispatch_limiter \<Rightarrow> (string \<times> time) list \<Rightarrow> dispatch_event list \<Rightarrow> (string \<times> decision) list" where
  "dispatch_run l pend [] = []"
| "dispatch_run l pend (Enter key now # es) =
     (case takeGlobal now l of ((d, ok), l1) \<Rightarrow>
      if \<not> ok then (key, d) # dispatch_run l1 pend es
      else dispatch_run l1 (pend @ [(key, now)]) es)"
| "dispatch_run l pend (Finish i # es) =
     (if i < length pend
      then (case pend ! i of (key, now) \<Rightarrow>
            case takePerChat key now l of (d, l1) \<Rightarrow>
            (key, d) # dispatch_run l1 (take i pend @ drop (Suc i) pend) es)
      else dispatch_run l pend es)"

lemma dispatch_Allow_run: "dispatch_run l [] [Enter key now, Finish 0] = [(key, fst (dispatch_Allow key now l))]"
  by (simp add: dispatch_Allow_def split: prod.splits)


section \<open>What a bucket promises\<close>

text \<open>
  A limiter answers calls; \<open>mine\<close> are the calls that the bucket counts. \<open>pot s t\<close> is what the
  bucket could give out until time \<open>t\<close> if it had no capacity limit. A call of another key leaves the bucket
  alone. A call of the bucket's own brings it up to date: then what it allowed plus what is left is at
  most the capacity plus the refill until \<open>t\<close>, and never more than what there was, up to an error \<open>err\<close>
  of the floating-point operations. The times of the calls may come in any order, as the clock is read
  before the lock is taken.
\<close>

fun allowed_calls ::
  "('s \<Rightarrow> 'c \<Rightarrow> time \<Rightarrow> bool \<times> 's) \<Rightarrow> ('c \<Rightarrow> bool) \<Rightarrow> 's \<Rightarrow> ('c \<times> time) list \<Rightarrow> nat" where
  "allowed_calls take_call mine s [] = 0"
| "allowed_calls take_call mine s ((c, t) # cs) =
     (case take_call s c t of (ok, s') \<Rightarrow>
        of_bool (ok \<and> mine c) + allowed_calls take_call mine s' cs)"

definition calls_of :: "('c \<Rightarrow> bool) \<Rightarrow> ('c \<times> time) list \<Rightarrow> nat" where
  "calls_of mine cs = length (filter (\<lambda>(c, t). mine c) cs)"

lemma calls_of_simps [simp]:
  "calls_of mine [] = 0" "calls_of mine ((c, t) # cs) = of_bool (mine c) + calls_of mine cs"
  by (simp_all add: calls_of_def)

locale rate_bound =
  fixes take_call :: "'s \<Rightarrow> 'c \<Rightarrow> time \<Rightarrow> bool \<times> 's"
    and mine :: "'c \<Rightarrow> bool"
    and wf :: "'s \<Rightarrow> bool"
    and started :: "'s \<Rightarrow> bool"
    and pot :: "'s \<Rightarrow> time \<Rightarrow> rat"
    and rate :: rat
    and burst :: rat
    and err :: rat
  assumes wf_step: "wf s \<Longrightarrow> take_call s c t = (ok, s') \<Longrightarrow> wf s'"
    and other: "wf s \<Longrightarrow> take_call s c t = (ok, s') \<Longrightarrow> \<not> mine c \<Longrightarrow>
      started s' = started s \<and> pot s' t1 = pot s t1"
    and own: "wf s \<Longrightarrow> take_call s c t = (ok, s') \<Longrightarrow> mine c \<Longrightarrow> t \<le> t1 \<Longrightarrow>
      started s' \<and> of_bool ok + pot s' t1 \<le> burst + rate * dur_seconds (t1 - t) + err \<and>
      (started s \<longrightarrow> of_bool ok + pot s' t1 \<le> pot s t1 + err)"
    and pot_nonneg: "wf s \<Longrightarrow> started s \<Longrightarrow> 0 \<le> pot s t1"
    and rate_nonneg: "0 \<le> rate"
    and burst_nonneg: "0 \<le> burst"
begin

lemma allowed_started:
  assumes "wf s" "started s" "\<forall>(c, t) \<in> set cs. t \<le> t1"
  shows "of_nat (allowed_calls take_call mine s cs) \<le> pot s t1 + err * of_nat (calls_of mine cs)"
  using assms
proof (induction cs arbitrary: s)
  case Nil
  then show ?case by (simp add: pot_nonneg)
next
  case (Cons ct cs)
  obtain c t where ct: "ct = (c, t)" by fastforce
  obtain ok s' where tk: "take_call s c t = (ok, s')" by fastforce
  have t: "t \<le> t1" using Cons.prems(3) ct by simp
  have step: "started s'" "of_bool (ok \<and> mine c) + pot s' t1 \<le> pot s t1 + err * of_bool (mine c)"
    using other [OF Cons.prems(1) tk, of t1] own [OF Cons.prems(1) tk _ t] Cons.prems(2) by (cases "mine c"; simp)+
  have "of_nat (allowed_calls take_call mine s' cs) \<le> pot s' t1 + err * of_nat (calls_of mine cs)"
    using Cons.IH [OF wf_step [OF Cons.prems(1) tk] step(1)] Cons.prems(3) by simp
  with step(2) show ?case by (simp add: ct tk algebra_simps)
qed

lemma window_bound:
  assumes "wf s" "\<forall>(c, t) \<in> set cs. t0 \<le> t \<and> t \<le> t1" "t0 \<le> t1"
  shows "of_nat (allowed_calls take_call mine s cs)
    \<le> burst + rate * dur_seconds (t1 - t0) + err * of_nat (calls_of mine cs)"
  using assms(1,2)
proof (induction cs arbitrary: s)
  case Nil
  have "0 \<le> dur_seconds (t1 - t0)" using assms(3) dur_seconds_mono [of 0 "t1 - t0"] by simp
  then show ?case using rate_nonneg burst_nonneg by simp
next
  case (Cons ct cs)
  obtain c t where ct: "ct = (c, t)" by fastforce
  obtain ok s' where tk: "take_call s c t = (ok, s')" by fastforce
  from Cons.prems ct have t: "t0 \<le> t" "t \<le> t1" by auto
  have wf': "wf s'" by (rule wf_step [OF Cons.prems(1) tk])
  show ?case
  proof (cases "mine c")
    case False
    then show ?thesis using Cons.IH [OF wf'] Cons.prems(2) by (simp add: ct tk)
  next
    case True
    note eff = own [OF Cons.prems(1) tk True t(2)]
    have "rate * dur_seconds (t1 - t) \<le> rate * dur_seconds (t1 - t0)"
      using t rate_nonneg by (intro mult_left_mono dur_seconds_mono) auto
    moreover have "of_nat (allowed_calls take_call mine s' cs) \<le> pot s' t1 + err * of_nat (calls_of mine cs)"
      using wf' eff Cons.prems(2) by (intro allowed_started) auto
    ultimately show ?thesis using eff True by (simp add: ct tk algebra_simps)
  qed
qed

end


section \<open>The three routines as one bucket step\<close>

definition refilled :: "rat \<Rightarrow> rat \<Rightarrow> time \<Rightarrow> token_bucket \<Rightarrow> token_bucket" where
  "refilled rate burst now b =
     (if tb_last_refill b < now
      then \<lparr>tb_tokens = min burst (f_add (tb_tokens b) (f_mul (Seconds (time_sub now (tb_last_refill b))) rate)),
            tb_last_refill = now\<rparr>
      else b)"

definition bucket_step :: "rat \<Rightarrow> rat \<Rightarrow> time \<Rightarrow> token_bucket \<Rightarrow> bool \<times> token_bucket" where
  "bucket_step rate burst now b =
     (let b1 = refilled rate burst now b
      in (1 \<le> tb_tokens b1, if 1 \<le> tb_tokens b1 then b1\<lparr>tb_tokens := f_sub (tb_tokens b1) 1\<rparr> else b1))"

definition bucket_wf :: "rat \<Rightarrow> token_bucket \<Rightarrow> bool" where
  "bucket_wf burst b = (0 \<le> tb_tokens b \<and> tb_tokens b \<le> burst)"

definition bucket_pot :: "rat \<Rightarrow> token_bucket \<Rightarrow> time \<Rightarrow> rat" where
  "bucket_pot rate b t1 = tb_tokens b + rate * dur_seconds (max 0 (t1 - tb_last_refill b))"

text \<open>The error of one call: eight units of roundoff at the size of the burst.\<close>

definition call_err :: "rat \<Rightarrow> rat" where "call_err burst = burst / 2 ^ 50"

lemma call_err_eq: "call_err burst = 8 * (burst * f_eps)"
  by (simp add: call_err_def f_eps_def)

lemma bucket_pot_nonneg: "0 \<le> rate \<Longrightarrow> bucket_wf burst b \<Longrightarrow> 0 \<le> bucket_pot rate b t1"
  using dur_seconds_mono [of 0] by (simp add: bucket_pot_def bucket_wf_def)

lemma dur_seconds_diff: "dur_seconds (d - d') = dur_seconds d - dur_seconds d'"
  by (simp add: dur_seconds_def diff_divide_distrib)

lemma gained_error:
  assumes "0 \<le> tokens" "0 \<le> rate" "0 \<le> d"
  shows "f_add tokens (f_mul (Seconds d) rate) \<le> (tokens + dur_seconds d * rate) * (1 + f_eps) ^ 4"
proof -
  let ?e = "1 + f_eps" and ?g = "dur_seconds d * rate"
  have sec: "0 \<le> Seconds d" "0 \<le> dur_seconds d"
    using assms(3) Seconds_pos [of d] by (auto simp: dur_seconds_def Seconds_def f_add_def f_div_def f_of_int_def order_le_less)
  have p: "0 \<le> Seconds d * rate" using sec assms(2) by simp
  have e: "1 \<le> ?e ^ n" for n by simp
  have "f_mul (Seconds d) rate \<le> Seconds d * rate * ?e" unfolding f_mul_def by (rule f64_error(2) [OF p])
  also have "\<dots> \<le> dur_seconds d * ?e ^ 2 * rate * ?e"
    using Seconds_error(2) [OF assms(3)] assms(2) by (intro mult_right_mono) simp_all
  also have "\<dots> = ?g * ?e ^ 3" by (simp add: power2_eq_square power3_eq_cube mult_ac)
  finally have m: "f_mul (Seconds d) rate \<le> ?g * ?e ^ 3" .
  have tk: "tokens \<le> tokens * ?e ^ 3" using mult_left_mono [OF e [of 3] assms(1)] by simp
  have nn: "0 \<le> tokens + f_mul (Seconds d) rate"
    unfolding f_mul_def using assms(1) p by (intro add_nonneg_nonneg f64_nonneg)
  have "f_add tokens (f_mul (Seconds d) rate) \<le> (tokens + f_mul (Seconds d) rate) * ?e"
    unfolding f_add_def by (rule f64_error(2) [OF nn])
  also have "\<dots> \<le> ((tokens + ?g) * ?e ^ 3) * ?e"
    using m tk by (intro mult_right_mono) (simp_all add: distrib_right)
  also have "\<dots> = (tokens + ?g) * ?e ^ 4" by (simp add: power3_eq_cube power4_eq_xxxx mult_ac)
  finally show ?thesis .
qed

lemma eps_powers: "(1 + f_eps) ^ 4 \<le> 1 + 5 * f_eps" "1 - 3 * f_eps \<le> (1 - f_eps) ^ 3"
  by (simp_all add: f_eps_def power_divide field_simps)

lemma refilled_effect:
  assumes "0 \<le> rate" "0 \<le> burst" "bucket_wf burst b"
  shows "bucket_wf burst (refilled rate burst t b)"
    "t \<le> t1 \<Longrightarrow> bucket_pot rate (refilled rate burst t b) t1 \<le> burst + rate * dur_seconds (t1 - t)"
    "t \<le> t1 \<Longrightarrow> bucket_pot rate (refilled rate burst t b) t1 \<le> bucket_pot rate b t1 + 5 * (burst * f_eps)"
proof -
  let ?u = "tb_last_refill b" and ?r = "refilled rate burst t b"
  let ?d = "time_sub t ?u"
  have tok: "0 \<le> tb_tokens b" "tb_tokens b \<le> burst" using assms(3) by (simp_all add: bucket_wf_def)
  have mono: "rate * dur_seconds x \<le> rate * dur_seconds y" if "x \<le> y" for x y
    using that assms(1) by (intro mult_left_mono dur_seconds_mono)
  have d: "0 < ?d" if "?u < t" using that by simp
  have sec: "0 \<le> Seconds ?d" if "?u < t"
    using d [OF that] Seconds_pos [of ?d] by (simp only: less_imp_le)
  have gain: "0 \<le> f_add (tb_tokens b) (f_mul (Seconds ?d) rate)" if "?u < t"
    unfolding f_add_def f_mul_def using sec [OF that] assms(1) tok
    by (intro f64_nonneg add_nonneg_nonneg mult_nonneg_nonneg)
  show "bucket_wf burst ?r"
    using assms(2,3) gain by (auto simp: refilled_def bucket_wf_def)
  show "bucket_pot rate ?r t1 \<le> burst + rate * dur_seconds (t1 - t)" if "t \<le> t1"
    using that tok mono [of "max 0 (t1 - ?u)" "t1 - t"] by (auto simp: refilled_def bucket_pot_def max_def)
  show "bucket_pot rate ?r t1 \<le> bucket_pot rate b t1 + 5 * (burst * f_eps)" if t1: "t \<le> t1"
  proof (cases "?u < t")
    case False
    then show ?thesis using assms(2) by (simp add: refilled_def)
  next
    case True
    let ?x = "tb_tokens b + dur_seconds ?d * rate"
    have "dur_seconds ?d * rate \<le> dur_seconds (t - ?u) * rate"
      using True assms(1) by (intro mult_right_mono dur_seconds_mono time_sub_le)
    then have pot: "?x + rate * dur_seconds (t1 - t) \<le> bucket_pot rate b t1"
      using True t1 by (simp add: bucket_pot_def max_def dur_seconds_diff algebra_simps)
    have "min burst (f_add (tb_tokens b) (f_mul (Seconds ?d) rate)) \<le> ?x + 5 * (burst * f_eps)"
    proof (cases "burst \<le> ?x")
      case True
      then show ?thesis using assms(2) by (simp add: min.coboundedI1 add_increasing2)
    next
      case False
      have "0 \<le> dur_seconds ?d" using d [OF True] dur_seconds_pos [of ?d] by (simp only: less_imp_le)
      then have x0: "0 \<le> ?x" using tok assms(1) by (intro add_nonneg_nonneg mult_nonneg_nonneg)
      have "f_add (tb_tokens b) (f_mul (Seconds ?d) rate) \<le> ?x * (1 + f_eps) ^ 4"
        by (intro gained_error tok(1) assms(1) less_imp_le d \<open>?u < t\<close>)
      also have "\<dots> \<le> ?x * (1 + 5 * f_eps)"
        using eps_powers(1) x0 by (intro mult_left_mono)
      also have "\<dots> \<le> ?x + 5 * (burst * f_eps)"
        using False mult_right_mono [of ?x burst f_eps] by (simp add: distrib_left)
      finally show ?thesis by (simp add: min.coboundedI2)
    qed
    with pot show ?thesis using True t1 by (simp add: refilled_def bucket_pot_def max_def)
  qed
qed

lemma bucket_step_effect:
  assumes "0 \<le> rate" "1 \<le> burst" "f64 burst = burst" "bucket_wf burst b" "bucket_step rate burst t b = (ok, b')"
  shows "bucket_wf burst b'"
    "t \<le> t1 \<Longrightarrow> of_bool ok + bucket_pot rate b' t1 \<le> burst + rate * dur_seconds (t1 - t) + call_err burst"
    "t \<le> t1 \<Longrightarrow> of_bool ok + bucket_pot rate b' t1 \<le> bucket_pot rate b t1 + call_err burst"
proof -
  let ?r = "refilled rate burst t b"
  have B: "0 \<le> burst" using assms(2) by simp
  note eff = refilled_effect [OF assms(1) B assms(4), of t]
  have b': "b' = (if ok then ?r\<lparr>tb_tokens := f_sub (tb_tokens ?r) 1\<rparr> else ?r)" and ok: "ok = (1 \<le> tb_tokens ?r)"
    using assms(5) by (auto simp: bucket_step_def Let_def)
  have be: "0 \<le> burst * f_eps" using B by simp
  have taken: "0 \<le> f_sub (tb_tokens ?r) 1" "f_sub (tb_tokens ?r) 1 \<le> burst"
    "1 + f_sub (tb_tokens ?r) 1 \<le> tb_tokens ?r + burst * f_eps" if ok
  proof -
    have r: "0 \<le> tb_tokens ?r - 1" "tb_tokens ?r - 1 \<le> burst" using that ok eff(1) by (simp_all add: bucket_wf_def)
    show "0 \<le> f_sub (tb_tokens ?r) 1" unfolding f_sub_def using r(1) by (rule f64_nonneg)
    show "f_sub (tb_tokens ?r) 1 \<le> burst"
      using f64_mono [OF r] assms(3) by (simp add: f_sub_def)
    have "f_sub (tb_tokens ?r) 1 \<le> tb_tokens ?r - 1 + (tb_tokens ?r - 1) * f_eps"
      using f64_error(2) [OF r(1)] by (simp add: f_sub_def distrib_left)
    also have "(tb_tokens ?r - 1) * f_eps \<le> burst * f_eps" using r(2) by (intro mult_right_mono) simp_all
    finally show "1 + f_sub (tb_tokens ?r) 1 \<le> tb_tokens ?r + burst * f_eps" by simp
  qed
  show "bucket_wf burst b'" using eff(1) taken by (auto simp: b' bucket_wf_def)
  have step: "of_bool ok + bucket_pot rate b' t1 \<le> bucket_pot rate ?r t1 + burst * f_eps"
    using taken(3) be by (auto simp: b' bucket_pot_def)
  show "of_bool ok + bucket_pot rate b' t1 \<le> burst + rate * dur_seconds (t1 - t) + call_err burst" if "t \<le> t1"
    using step eff(2) [OF that] be by (simp add: call_err_eq)
  show "of_bool ok + bucket_pot rate b' t1 \<le> bucket_pot rate b t1 + call_err burst" if "t \<le> t1"
    using step eff(3) [OF that] be by (simp add: call_err_eq)
qed


text \<open>The bucket of one key in the limiter's map: a missing bucket starts full at the first call.\<close>

definition key_bucket :: "rat \<Rightarrow> buckets \<Rightarrow> string \<Rightarrow> time \<Rightarrow> token_bucket" where
  "key_bucket burst bs key now =
     (case bs key of None \<Rightarrow> \<lparr>tb_tokens = burst, tb_last_refill = now\<rparr> | Some b \<Rightarrow> b)"

definition limited :: "policy \<Rightarrow> bool" where
  "limited p = (0 < pc_rate p \<and> 0 < pc_burst p)"

text \<open>The policies there are: a row of the table has a positive 32-bit rate and burst, and the default
  is 100 and 100.\<close>

definition policy_ok :: "policy \<Rightarrow> bool" where
  "policy_ok p = (1 \<le> pc_rate p \<and> pc_rate p \<le> 2 ^ 31 \<and> f64 (pc_rate p) = pc_rate p \<and>
     1 \<le> pc_burst p \<and> pc_burst p \<le> 2 ^ 31 \<and> f64 (pc_burst p) = pc_burst p)"

definition bucket_take ::
  "(string \<Rightarrow> policy) \<Rightarrow> buckets \<Rightarrow> string \<Rightarrow> time \<Rightarrow> bool \<times> buckets" where
  "bucket_take policyFn bs key now =
     (case bucket_Allow policyFn key now bs of (d, bs') \<Rightarrow> (dec_allowed d, bs'))"

lemma bucket_take_eq:
  "bucket_take pf bs k now =
     (if limited (pf k)
      then (case bucket_step (pc_rate (pf k)) (pc_burst (pf k)) now (key_bucket (pc_burst (pf k)) bs k now) of
              (ok, b) \<Rightarrow> (ok, bs(k \<mapsto> b)))
      else (True, bs))"
  by (auto simp: bucket_take_def bucket_Allow_def limited_def bucket_step_def refilled_def key_bucket_def Let_def
      min_def split: option.splits)

text \<open>Facts that the interpretations share: a bucket map as the state of one key's bucket.\<close>

definition map_wf :: "rat \<Rightarrow> string \<Rightarrow> buckets \<Rightarrow> bool" where
  "map_wf burst k bs = (case bs k of None \<Rightarrow> True | Some b \<Rightarrow> bucket_wf burst b)"

definition map_pot :: "rat \<Rightarrow> string \<Rightarrow> buckets \<Rightarrow> time \<Rightarrow> rat" where
  "map_pot rate k bs t1 = (case bs k of None \<Rightarrow> 0 | Some b \<Rightarrow> bucket_pot rate b t1)"

lemma key_bucket_effect:
  assumes "0 \<le> rate" "1 \<le> burst" "f64 burst = burst" "map_wf burst k bs"
    and "bucket_step rate burst t (key_bucket burst bs k t) = (ok, b)"
  shows "bucket_wf burst b"
    "t \<le> t1 \<Longrightarrow> of_bool ok + bucket_pot rate b t1 \<le> burst + rate * dur_seconds (t1 - t) + call_err burst"
    "t \<le> t1 \<Longrightarrow> bs k \<noteq> None \<Longrightarrow> of_bool ok + bucket_pot rate b t1 \<le> map_pot rate k bs t1 + call_err burst"
proof -
  have "bucket_wf burst (key_bucket burst bs k t)"
    using assms(2,4) by (auto simp: map_wf_def key_bucket_def bucket_wf_def split: option.splits)
  note eff = bucket_step_effect [OF assms(1-3) this assms(5)]
  show "bucket_wf burst b" by (rule eff(1))
  show "of_bool ok + bucket_pot rate b t1 \<le> burst + rate * dur_seconds (t1 - t) + call_err burst" if "t \<le> t1"
    using that by (rule eff(2))
  show "of_bool ok + bucket_pot rate b t1 \<le> map_pot rate k bs t1 + call_err burst" if "t \<le> t1" "bs k \<noteq> None"
    using that eff(3) by (auto simp: map_pot_def key_bucket_def)
qed

lemma map_pot_nonneg: "0 \<le> rate \<Longrightarrow> map_wf burst k bs \<Longrightarrow> 0 \<le> map_pot rate k bs t1"
  by (auto simp: map_wf_def map_pot_def bucket_pot_nonneg split: option.splits)

text \<open>The interpretation needs laws without a hypothesis on the policy, so a policy that is not one of
  those that there are is replaced by one that is.\<close>

definition usual :: "(string \<Rightarrow> policy) \<Rightarrow> string \<Rightarrow> string \<Rightarrow> policy" where
  "usual pf k c = (if c = k \<and> \<not> policy_ok (pf k) then \<lparr>pc_rate = 1, pc_burst = 1\<rparr> else pf c)"

lemma usual_ok: "policy_ok (usual pf k k)"
  by (simp add: usual_def policy_ok_def)

lemma usual_id: "policy_ok (pf k) \<Longrightarrow> usual pf k = pf"
  by (auto simp: usual_def)

interpretation reqb: rate_bound "bucket_take (usual pf k)" "\<lambda>c. c = k"
  "map_wf (pc_burst (usual pf k k)) k" "\<lambda>bs. bs k \<noteq> None"
  "map_pot (pc_rate (usual pf k k)) k" "pc_rate (usual pf k k)" "pc_burst (usual pf k k)"
  "call_err (pc_burst (usual pf k k))"
  for pf :: "string \<Rightarrow> policy" and k :: string
proof -
  let ?pf = "usual pf k" and ?r = "pc_rate (usual pf k k)" and ?B = "pc_burst (usual pf k k)"
  have ok: "0 \<le> ?r" "1 \<le> ?B" "f64 ?B = ?B" "limited (?pf k)"
    using usual_ok [of pf k] by (auto simp: policy_ok_def limited_def)
  have step: "\<exists>b. bucket_step ?r ?B t (key_bucket ?B bs k t) = (a, b) \<and> bs' = bs(k \<mapsto> b)"
    if "bucket_take ?pf bs k t = (a, bs')" for bs t a bs'
    using that ok(4) by (auto simp: bucket_take_eq split: prod.splits)
  have frame: "bs' k = bs k" if "bucket_take ?pf bs c t = (a, bs')" "c \<noteq> k" for bs c t a bs'
    using that by (auto simp: bucket_take_eq split: if_splits prod.splits)
  show "rate_bound (bucket_take ?pf) (\<lambda>c. c = k) (map_wf ?B k) (\<lambda>bs. bs k \<noteq> None) (map_pot ?r k) ?r ?B (call_err ?B)"
  proof
    fix bs c t a bs'
    assume wf: "map_wf ?B k bs" and tk: "bucket_take ?pf bs c t = (a, bs')"
    show "map_wf ?B k bs'"
    proof (cases "c = k")
      case True
      then obtain b where "bucket_step ?r ?B t (key_bucket ?B bs k t) = (a, b)" "bs' = bs(k \<mapsto> b)"
        using step tk by blast
      then show ?thesis using key_bucket_effect(1) [OF ok(1-3) wf] by (simp add: map_wf_def)
    qed (use wf frame [OF tk] in \<open>simp add: map_wf_def\<close>)
    show "(bs' k \<noteq> None) = (bs k \<noteq> None) \<and> map_pot ?r k bs' t1 = map_pot ?r k bs t1" if "c \<noteq> k" for t1
      using frame [OF tk that] by (simp add: map_pot_def)
    show "bs' k \<noteq> None \<and> of_bool a + map_pot ?r k bs' t1 \<le> ?B + ?r * dur_seconds (t1 - t) + call_err ?B \<and>
      (bs k \<noteq> None \<longrightarrow> of_bool a + map_pot ?r k bs' t1 \<le> map_pot ?r k bs t1 + call_err ?B)"
      if "c = k" "t \<le> t1" for t1
    proof -
      obtain b where b: "bucket_step ?r ?B t (key_bucket ?B bs k t) = (a, b)" "bs' = bs(k \<mapsto> b)"
        using step tk \<open>c = k\<close> by blast
      show ?thesis
        using key_bucket_effect(2,3) [OF ok(1-3) wf b(1) that(2)] by (auto simp: b(2) map_pot_def)
    qed
  qed (use ok map_pot_nonneg [OF ok(1)] in auto)
qed


subsection \<open>Dispatch\<close>

definition gbucket :: "dispatch_limiter \<Rightarrow> token_bucket" where
  "gbucket l = \<lparr>tb_tokens = dl_gTokens l, tb_last_refill = dl_gRefill l\<rparr>"

text \<open>The limiter as \<^verbatim>\<open>NewDispatchLimiter\<close> configures it, with its buckets in range.\<close>

definition dispatch_config :: "dispatch_limiter \<Rightarrow> bool" where
  "dispatch_config l = (dl_gRate l = 25 \<and> dl_gBurst l = 30 \<and> dl_pRate l = 1 \<and> dl_pBurst l = 2)"

definition dispatch_wf :: "dispatch_limiter \<Rightarrow> bool" where
  "dispatch_wf l = (dispatch_config l \<and> bucket_wf 30 (gbucket l) \<and> (\<forall>k. map_wf 2 k (dl_per l)))"

text \<open>The two stages of a call as bucket routines: the chat buckets are a bucket limiter with one policy
  for every key.\<close>

definition global_take :: "token_bucket \<Rightarrow> string \<Rightarrow> time \<Rightarrow> bool \<times> token_bucket" where
  "global_take b key now = bucket_step 25 30 now b"

definition chat_policy :: "string \<Rightarrow> policy" where
  "chat_policy key = \<lparr>pc_rate = 1, pc_burst = 2\<rparr>"

lemma takeGlobal_step:
  assumes "dispatch_config l" "takeGlobal now l = ((d, ok), l1)"
  shows "dispatch_config l1" "dec_allowed d = ok" "global_take (gbucket l) key now = (ok, gbucket l1)"
    "dl_per l1 = dl_per l"
  using assms
  by (auto simp: dispatch_config_def takeGlobal_def global_take_def bucket_step_def refilled_def gbucket_def
      Let_def min_def split: if_splits)

lemma takePerChat_step:
  assumes "dispatch_config l" "takePerChat key now l = (d, l1)"
  shows "dispatch_config l1" "bucket_take chat_policy (dl_per l) key now = (dec_allowed d, dl_per l1)"
    "gbucket l1 = gbucket l"
  using assms
  by (auto simp: dispatch_config_def takePerChat_def bucket_take_def bucket_Allow_def chat_policy_def gbucket_def
      Let_def split: if_splits option.splits)

interpretation dglobal: rate_bound global_take "\<lambda>c. True" "bucket_wf 30" "\<lambda>b. True" "bucket_pot 25" 25 30
  "call_err 30"
proof
  fix b c t ok b'
  assume "bucket_wf 30 b" "global_take b c t = (ok, b')"
  moreover have "f64 30 = 30" by (rule f64_numeral) simp
  ultimately have eff: "bucket_wf 30 b'"
    "t \<le> t1 \<Longrightarrow> of_bool ok + bucket_pot 25 b' t1 \<le> 30 + 25 * dur_seconds (t1 - t) + call_err 30"
    "t \<le> t1 \<Longrightarrow> of_bool ok + bucket_pot 25 b' t1 \<le> bucket_pot 25 b t1 + call_err 30" for t1
    using bucket_step_effect [of 25 30 b t ok b'] by (simp_all add: global_take_def)
  show "bucket_wf 30 b'" by (rule eff(1))
  show "True \<and> of_bool ok + bucket_pot 25 b' t1 \<le> 30 + 25 * dur_seconds (t1 - t) + call_err 30 \<and>
      (True \<longrightarrow> of_bool ok + bucket_pot 25 b' t1 \<le> bucket_pot 25 b t1 + call_err 30)" if "t \<le> t1" for t1
    using eff(2,3) [OF that] by simp
qed (auto intro: bucket_pot_nonneg)

text \<open>An interleaved run seen from one bucket: the global bucket serves the calls in the order in which
  they enter; the chat buckets serve some of them in some order.\<close>

fun entered :: "dispatch_event list \<Rightarrow> (string \<times> time) list" where
  "entered [] = []"
| "entered (Enter key now # es) = (key, now) # entered es"
| "entered (Finish i # es) = entered es"

definition allowed_answers :: "(string \<Rightarrow> bool) \<Rightarrow> (string \<times> decision) list \<Rightarrow> nat" where
  "allowed_answers mine as = length (filter (\<lambda>(k, d). mine k \<and> dec_allowed d) as)"

lemma allowed_answers_simps [simp]:
  "allowed_answers mine [] = 0"
  "allowed_answers mine ((k, d) # as) = of_bool (dec_allowed d \<and> mine k) + allowed_answers mine as"
  by (auto simp: allowed_answers_def)

lemma run_global_bound:
  assumes "dispatch_config l"
  shows "allowed_answers (\<lambda>_. True) (dispatch_run l pend es)
    \<le> length pend + allowed_calls global_take (\<lambda>_. True) (gbucket l) (entered es)"
  using assms
proof (induction l pend es rule: dispatch_run.induct)
  case (2 l pend key now es)
  obtain d ok l1 where tg: "takeGlobal now l = ((d, ok), l1)" by (metis prod.exhaust)
  note st = takeGlobal_step [OF 2(3) tg]
  show ?case
    using 2(1) [OF tg [symmetric] refl _ st(1)] 2(2) [OF tg [symmetric] refl _ st(1)] st(2,3) tg
    by (cases ok) simp_all
next
  case (3 l pend i es)
  show ?case
  proof (cases "i < length pend")
    case True
    obtain key now where p: "pend ! i = (key, now)" by fastforce
    obtain d l1 where tp: "takePerChat key now l = (d, l1)" by fastforce
    note st = takePerChat_step [OF 3(3) tp]
    show ?thesis
      using 3(1) [OF True p [symmetric] tp [symmetric] st(1)] st(3) True p tp by (cases "dec_allowed d") simp_all
  qed (use 3 in simp)
qed simp

lemma run_chat_calls:
  assumes "dispatch_config l"
  shows "\<exists>cs. mset cs \<subseteq># mset (pend @ entered es) \<and>
    allowed_answers mine (dispatch_run l pend es) = allowed_calls (bucket_take chat_policy) mine (dl_per l) cs"
  using assms
proof (induction l pend es rule: dispatch_run.induct)
  case (1 l pend)
  show ?case by (rule exI [of _ "[]"]) simp
next
  case (2 l pend key now es)
  obtain d ok l1 where tg: "takeGlobal now l = ((d, ok), l1)" by (metis prod.exhaust)
  note st = takeGlobal_step [OF 2(3) tg]
  show ?case
  proof (cases ok)
    case True
    then show ?thesis using 2(2) [OF tg [symmetric] refl _ st(1)] tg st(4) by simp
  next
    case False
    then obtain cs where cs: "mset cs \<subseteq># mset (pend @ entered es)"
      "allowed_answers mine (dispatch_run l1 pend es) = allowed_calls (bucket_take chat_policy) mine (dl_per l) cs"
      using 2(1) [OF tg [symmetric] refl _ st(1)] st(4) by auto
    have "mset cs \<subseteq># mset (pend @ entered (Enter key now # es))"
      by (rule subset_mset.order_trans [OF cs(1)]) (simp add: subseteq_mset_def)
    then show ?thesis using cs(2) False tg st(2) by (intro exI [of _ cs]) simp
  qed
next
  case (3 l pend i es)
  show ?case
  proof (cases "i < length pend")
    case True
    obtain key now where p: "pend ! i = (key, now)" by fastforce
    obtain d l1 where tp: "takePerChat key now l = (d, l1)" by fastforce
    note st = takePerChat_step [OF 3(3) tp]
    let ?rest = "take i pend @ drop (Suc i) pend"
    obtain cs where cs: "mset cs \<subseteq># mset (?rest @ entered es)"
      "allowed_answers mine (dispatch_run l1 ?rest es) = allowed_calls (bucket_take chat_policy) mine (dl_per l1) cs"
      using 3(1) [OF True p [symmetric] tp [symmetric] st(1)] by auto
    have "mset pend = add_mset (key, now) (mset ?rest)"
      using arg_cong [OF id_take_nth_drop [OF True], of mset] p by simp
    with cs show ?thesis
      using True p tp st(2) by (intro exI [of _ "(key, now) # cs"]) simp
  qed (use 3 in simp)
qed


section \<open>Bounds on the calls allowed\<close>

text \<open>The policies of the limiter that the server builds are of the kind the bounds are about.\<close>

lemma int_policy_ok:
  assumes "0 < r" "r < 2 ^ 31" "0 < b" "b < 2 ^ 31"
  shows "policy_ok \<lparr>pc_rate = f_of_int r, pc_burst = f_of_int b\<rparr>"
proof -
  have "f64 (of_int n) = of_int n \<and> (1 :: rat) \<le> of_int n \<and> (of_int n :: rat) \<le> 2 ^ 31"
    if "0 < n" "n < 2 ^ 31" for n :: int
    using that f64_of_int [of n] of_int_le_iff [of n "2 ^ 31", where 'a = rat] of_int_le_iff [of 1 n, where 'a = rat]
    by simp
  with assms show ?thesis by (simp add: policy_ok_def f_of_int_def)
qed

lemma policy_rows_ok:
  assumes "\<forall>p \<in> set rows. 0 < pol_rate_per_sec p \<and> pol_rate_per_sec p < 2 ^ 31 \<and> 0 < pol_burst p \<and> pol_burst p < 2 ^ 31"
    and "\<forall>k p. m k = Some p \<longrightarrow> policy_ok p"
  shows "\<forall>k p. foldl (\<lambda>m p. m(pol_target p \<mapsto>
      \<lparr>pc_rate = f_of_int (pol_rate_per_sec p), pc_burst = f_of_int (pol_burst p)\<rparr>)) m rows k = Some p \<longrightarrow> policy_ok p"
  using assms
proof (induction rows arbitrary: m)
  case (Cons row rows)
  show ?case unfolding foldl_Cons using Cons.prems by (intro Cons.IH) (auto simp: int_policy_ok)
qed simp

lemma built_policies_ok:
  assumes "\<forall>p \<in> set (d_policies (w_db w)). 0 < pol_rate_per_sec p \<and> pol_rate_per_sec p < 2 ^ 31 \<and>
      0 < pol_burst p \<and> pol_burst p < 2 ^ 31"
    and "BuildRequestLimiter e scope def w = (Inr pf, w')" "policy_ok def"
  shows "policy_ok (pf k)"
proof -
  let ?rows = "filter (\<lambda>p. pol_scope p = scope) (d_policies (w_db w))"
  have "\<forall>p \<in> set ?rows. 0 < pol_rate_per_sec p \<and> pol_rate_per_sec p < 2 ^ 31 \<and> 0 < pol_burst p \<and> pol_burst p < 2 ^ 31"
    using assms(1) by simp
  note ok = policy_rows_ok [OF this, of Map.empty, simplified]
  show ?thesis
    using assms(2,3) ok
    by (auto simp: BuildRequestLimiter_def Load_def db_query_def db_exec_def request_policy_def
        split: if_splits prod.splits sum.splits option.splits)
qed

text \<open>C13: Among any sequence of calls of the request limiter (for this key and others, with clock
  readings in any order) that fall into the window from \<open>t0\<close> to \<open>t1\<close>, at most burst plus rate
  times the length of the window are allowed for a key, plus an error of the floating-point arithmetic
  of \<open>burst / 2^50\<close> for each call of the key. The policy of the key is one of those that there are:
  rate and burst between 1 and \<open>2^31\<close>.\<close>

theorem request_limit_window:
  assumes "policy_ok (pf k)" "map_wf (pc_burst (pf k)) k bs"
    and "\<forall>(c, t) \<in> set cs. t0 \<le> t \<and> t \<le> t1" "t0 \<le> t1"
  shows "of_nat (allowed_calls (bucket_take pf) (\<lambda>c. c = k) bs cs)
    \<le> pc_burst (pf k) + pc_rate (pf k) * dur_seconds (t1 - t0)
      + pc_burst (pf k) / 2 ^ 50 * of_nat (calls_of (\<lambda>c. c = k) cs)"
  using reqb.window_bound [of pf k bs cs t0 t1] assms(2-4) unfolding usual_id [of pf k, OF assms(1)]
  by (simp add: call_err_def)

theorem request_limit_window_witness:
  "of_nat (allowed_calls (bucket_take (\<lambda>_. \<lparr>pc_rate = 1, pc_burst = 2\<rparr>)) (\<lambda>c. c = ''a'') Map.empty
      [(''a'', 0), (''b'', 5), (''a'', 0), (''a'', 10)]) \<le> (2 :: rat) + 1 * dur_seconds (10 - 0) + 2 / 2 ^ 50 * 3"
  using request_limit_window [of "\<lambda>_. \<lparr>pc_rate = 1, pc_burst = 2\<rparr>" "''a''" Map.empty
      "[(''a'', 0), (''b'', 5), (''a'', 0), (''a'', 10)]" 0 10]
  by (simp add: map_wf_def policy_ok_def f64_numeral)

text \<open>C14: Take any interleaving of calls of the dispatch limiter (of any chats, each call in its two
  stages under the two mutexes, the clock read before and so out of order), the calls entering with
  clock readings between \<open>t0\<close> and \<open>t1\<close>. The calls allowed are at most 30 plus 25 per second of the
  window in all, plus an error of the floating-point arithmetic of \<open>30 / 2^50\<close> for each call, and at
  most 2 plus 1 per second for each chat, plus \<open>2 / 2^50\<close> for each call of the chat.\<close>

theorem dispatch_limit_window:
  assumes "dispatch_wf l" "\<forall>(c, t) \<in> set (entered es). t0 \<le> t \<and> t \<le> t1" "t0 \<le> t1"
  shows "of_nat (allowed_answers (\<lambda>c. True) (dispatch_run l [] es))
      \<le> 30 + 25 * dur_seconds (t1 - t0) + 30 / 2 ^ 50 * of_nat (calls_of (\<lambda>c. True) (entered es)) \<and>
    of_nat (allowed_answers (\<lambda>c. c = chat) (dispatch_run l [] es))
      \<le> 2 + dur_seconds (t1 - t0) + 2 / 2 ^ 50 * of_nat (calls_of (\<lambda>c. c = chat) (entered es))"
proof
  have cfg: "dispatch_config l" and gwf: "bucket_wf 30 (gbucket l)" and pwf: "map_wf 2 chat (dl_per l)"
    using assms(1) by (simp_all add: dispatch_wf_def)
  have "of_nat (allowed_answers (\<lambda>c. True) (dispatch_run l [] es))
      \<le> (of_nat (allowed_calls global_take (\<lambda>c. True) (gbucket l) (entered es)) :: rat)"
    using run_global_bound [OF cfg, of "[]" es] by simp
  with dglobal.window_bound [OF gwf assms(2,3)]
  show "of_nat (allowed_answers (\<lambda>c. True) (dispatch_run l [] es))
      \<le> 30 + 25 * dur_seconds (t1 - t0) + 30 / 2 ^ 50 * of_nat (calls_of (\<lambda>c. True) (entered es))"
    by (simp add: call_err_def)
  obtain cs where cs: "mset cs \<subseteq># mset (entered es)"
    "allowed_answers (\<lambda>c. c = chat) (dispatch_run l [] es) = allowed_calls (bucket_take chat_policy) (\<lambda>c. c = chat) (dl_per l) cs"
    using run_chat_calls [OF cfg, of "[]" es] by auto
  have ok: "policy_ok (chat_policy chat)" by (simp add: policy_ok_def chat_policy_def f64_numeral)
  have times: "\<forall>(c, t) \<in> set cs. t0 \<le> t \<and> t \<le> t1"
    using assms(2) set_mset_mono [OF cs(1)] by auto
  have "size (filter_mset (\<lambda>(c, t). c = chat) (mset cs)) \<le> size (filter_mset (\<lambda>(c, t). c = chat) (mset (entered es)))"
    by (intro size_mset_mono multiset_filter_mono cs(1))
  then have "(of_nat (calls_of (\<lambda>c. c = chat) cs) :: rat) \<le> of_nat (calls_of (\<lambda>c. c = chat) (entered es))"
    by (simp add: calls_of_def flip: mset_filter)
  then show "of_nat (allowed_answers (\<lambda>c. c = chat) (dispatch_run l [] es))
      \<le> 2 + dur_seconds (t1 - t0) + 2 / 2 ^ 50 * of_nat (calls_of (\<lambda>c. c = chat) (entered es))"
    using reqb.window_bound [of chat_policy chat "dl_per l" cs t0 t1] pwf times assms(3) cs(2)
    unfolding usual_id [of chat_policy chat, OF ok] by (simp add: call_err_def chat_policy_def)
qed

lemma NewDispatchLimiter_wf: "dispatch_wf (NewDispatchLimiter now)"
  by (simp add: dispatch_wf_def dispatch_config_def NewDispatchLimiter_def gbucket_def bucket_wf_def map_wf_def)

theorem dispatch_limit_window_witness:
  "of_nat (allowed_answers (\<lambda>c. c = ''1'') (dispatch_run (NewDispatchLimiter 0) []
     [Enter ''1'' 0, Enter ''2'' 0, Enter ''1'' 0, Finish 2, Finish 0, Enter ''1'' 5])) \<le> 2 + dur_seconds (5 - 0) + 2 / 2 ^ 50 * 3"
  using dispatch_limit_window [of "NewDispatchLimiter 0"
      "[Enter ''1'' 0, Enter ''2'' 0, Enter ''1'' 0, Finish 2, Finish 0, Enter ''1'' 5]" 0 5 "''1''"] NewDispatchLimiter_wf
  by simp



section \<open>A denied caller is served after the announced wait\<close>

lemma retry_wait_lower:
  assumes "1 \<le> rate" "0 \<le> tokens" "tokens < 1"
  shows "(1 - tokens) / rate * 1000000000 - 3 / 2 < of_int (retry_wait tokens rate)"
proof -
  let ?e = "1 - f_eps" and ?N = "(1 - tokens) / rate"
  define x y z where "x = f_sub 1 tokens" and "y = f_div x rate" and "z = f_mul y 1000000000"
  have e: "0 \<le> ?e" by (simp add: f_eps_def)
  have x: "0 \<le> x" "(1 - tokens) * ?e \<le> x"
    unfolding x_def f_sub_def using assms(3) by (simp_all add: f64_nonneg f64_error(1))
  have xr: "0 \<le> x / rate" using x(1) assms(1) by simp
  have "?N * ?e * ?e = (1 - tokens) * ?e / rate * ?e" by simp
  also have "\<dots> \<le> x / rate * ?e" using x(2) e assms(1) by (intro mult_right_mono divide_right_mono) simp_all
  also have "\<dots> \<le> y" unfolding y_def f_div_def by (rule f64_error(1) [OF xr])
  finally have y: "?N * ?e * ?e \<le> y" .
  have y0: "0 \<le> y" unfolding y_def f_div_def by (rule f64_nonneg [OF xr])
  have N: "0 \<le> ?N" "?N \<le> 1" using assms by (simp_all add: field_simps)
  have "M * 1000000000 - 1 / 2 \<le> M * 1000000000 * (1 - 3 * f_eps)" if "M \<le> 1" for M :: rat
    using that by (simp add: f_eps_def field_simps)
  from this [OF N(2)] have "?N * 1000000000 - 1 / 2 \<le> ?N * 1000000000 * (1 - 3 * f_eps)" .
  also have "\<dots> \<le> ?N * 1000000000 * ?e ^ 3"
    using N(1) eps_powers(2) by (intro mult_left_mono mult_nonneg_nonneg) simp_all
  also have "\<dots> = ?N * ?e * ?e * 1000000000 * ?e" by (simp only: power3_eq_cube mult_ac)
  also have "\<dots> \<le> y * 1000000000 * ?e" using y e by (intro mult_right_mono) simp_all
  also have "\<dots> \<le> z" unfolding z_def f_mul_def using y0 by (intro f64_error(1)) simp
  finally have z: "?N * 1000000000 - 1 / 2 \<le> z" .
  have z0: "0 \<le> z" unfolding z_def f_mul_def using y0 by (intro f64_nonneg) simp
  have "z < of_int (retry_wait tokens rate) + 1"
    using z0 floor_correct [of z] by (simp add: retry_wait_def f_trunc_def x_def y_def z_def)
  with z show ?thesis by simp
qed

lemma retry_wait_enough:
  assumes "1 \<le> rate" "0 \<le> tokens" "tokens < 1" "retry_wait tokens rate + 2 \<le> d" "0 \<le> d"
  shows "1 \<le> f_add tokens (f_mul (Seconds d) rate)"
proof -
  let ?e = "1 - f_eps" and ?s = "dur_seconds d"
  have "(1 - tokens) / rate * 1000000000 + 1 / 2 \<le> of_int d"
    using retry_wait_lower [OF assms(1-3)] of_int_le_iff [where 'a = rat, THEN iffD2, OF assms(4)] by simp
  then have "((1 - tokens) / rate * 1000000000 + 1 / 2) / 1000000000 \<le> ?s"
    unfolding dur_seconds_def by (intro divide_right_mono) simp_all
  moreover have "(N * 1000000000 + 1 / 2) / 1000000000 = N + 1 / 2000000000" for N :: rat by simp
  ultimately have "(1 - tokens) / rate + 1 / 2000000000 \<le> ?s" by (simp only:)
  then have "((1 - tokens) / rate + 1 / 2000000000) * rate \<le> ?s * rate" using assms(1) by (intro mult_right_mono) simp_all
  then have s: "(1 - tokens) + rate / 2000000000 \<le> ?s * rate" using assms(1) by (simp add: distrib_right)
  have "1 - tokens \<le> ((1 - tokens) + rate / 2000000000) * (1 - 3 * f_eps)"
    using assms(1-3) by (simp add: f_eps_def field_simps)
  also have "\<dots> \<le> ?s * rate * ?e ^ 3"
    using s assms(1,3) eps_powers(2) by (intro mult_mono) (simp_all add: f_eps_def)
  also have "\<dots> = ?s * ?e ^ 2 * rate * ?e" by (simp add: power2_eq_square power3_eq_cube)
  also have "\<dots> \<le> Seconds d * rate * ?e"
    using Seconds_error(1) [OF assms(5)] assms(1) by (intro mult_right_mono) (simp_all add: f_eps_def)
  also have "\<dots> \<le> f_mul (Seconds d) rate"
    unfolding f_mul_def using Seconds_pos [of d] assms(1,5)
    by (intro f64_error(1) mult_nonneg_nonneg) (auto simp: order_le_less Seconds_def f_add_def f_div_def f_of_int_def)
  finally have "1 \<le> tokens + f_mul (Seconds d) rate" by simp
  from f64_mono [OF _ this] show ?thesis by (simp add: f_add_def)
qed

lemma retry_wait_range:
  assumes "1 \<le> rate" "0 \<le> tokens" "tokens < 1"
  shows "0 \<le> retry_wait tokens rate" "retry_wait tokens rate \<le> second_ns"
proof -
  have x: "0 \<le> f_sub 1 tokens" "f_sub 1 tokens \<le> of_int 1"
    unfolding f_sub_def using assms by (simp_all only: f64_nonneg) (rule f64_le_int; simp)
  have xr: "f_sub 1 tokens / rate \<le> of_int 1" using x(2) assms(1) by (simp add: field_simps)
  have y: "0 \<le> f_div (f_sub 1 tokens) rate" "f_div (f_sub 1 tokens) rate \<le> of_int 1"
    unfolding f_div_def using x(1) assms(1) xr by (simp_all only: f64_nonneg divide_nonneg_nonneg) (rule f64_le_int; simp)
  have z: "0 \<le> f_mul (f_div (f_sub 1 tokens) rate) 1000000000"
    "f_mul (f_div (f_sub 1 tokens) rate) 1000000000 \<le> of_int second_ns"
    unfolding f_mul_def using y by (simp_all only: f64_nonneg) (rule f64_le_int; simp)
  show "0 \<le> retry_wait tokens rate" "retry_wait tokens rate \<le> second_ns"
    using z by (simp_all add: retry_wait_def f_trunc_def floor_le_iff)
qed

lemma bucket_Allow_denied:
  assumes "policy_ok (pf k)" "map_wf (pc_burst (pf k)) k bs" "\<forall>b. bs k = Some b \<longrightarrow> tb_last_refill b \<le> now"
    and "bucket_Allow pf k now bs = (d, bs')" "\<not> dec_allowed d"
  obtains b where "bs' k = Some b" "0 \<le> tb_tokens b" "tb_tokens b < 1" "tb_last_refill b = now"
    "dec_retry_after d = retry_wait (tb_tokens b) (pc_rate (pf k))"
proof -
  let ?r = "pc_rate (pf k)" and ?B = "pc_burst (pf k)"
  have ok: "0 \<le> ?r" "1 \<le> ?B" "f64 ?B = ?B" and lim: "limited (pf k)"
    using assms(1) by (auto simp: policy_ok_def limited_def)
  obtain a b where st: "bucket_step ?r ?B now (key_bucket ?B bs k now) = (a, b)" by fastforce
  have "bucket_take pf bs k now = (a, bs(k \<mapsto> b))"
    using lim st by (simp add: bucket_take_eq)
  with assms(4,5) have bs': "bs' k = Some b" and a: "\<not> a"
    by (auto simp: bucket_take_def)
  have "0 \<le> tb_tokens b"
    using key_bucket_effect(1) [OF ok assms(2) st] by (simp add: bucket_wf_def)
  moreover have "tb_tokens b < 1"
    using st a by (auto simp: bucket_step_def Let_def split: if_splits)
  moreover have "tb_last_refill b = now"
    using st a assms(3) by (auto simp: bucket_step_def refilled_def key_bucket_def Let_def split: if_splits option.splits)
  moreover have "dec_retry_after d = retry_wait (tb_tokens b) ?r"
    using lim assms(4,5) bs' by (auto simp: bucket_Allow_def limited_def Let_def split: if_splits option.splits)
  ultimately show thesis using bs' that by blast
qed

text \<open>C15: When the request limiter denies a key (whose policy is one of those that there are) and the clock
  has not run backwards, the announced wait is at most a second, and the next call for the key, at any
  time from two nanoseconds after the announced wait on, is allowed. The two nanoseconds are the cut
  fraction of a nanosecond and the rounding of the floats: the witness has a call that comes one
  nanosecond after the announced wait and is denied once more.\<close>

theorem denied_then_allowed:
  assumes "policy_ok (pf k)" "map_wf (pc_burst (pf k)) k bs"
    and "\<forall>b. bs k = Some b \<longrightarrow> tb_last_refill b \<le> now"
    and "bucket_Allow pf k now bs = (d, bs')" "\<not> dec_allowed d" "now + dec_retry_after d + 2 \<le> later"
  shows "dec_allowed (fst (bucket_Allow pf k later bs')) \<and> dec_retry_after d \<le> second_ns"
proof -
  have ok: "1 \<le> pc_rate (pf k)" "1 \<le> pc_burst (pf k)" using assms(1) by (simp_all add: policy_ok_def)
  obtain b where b: "bs' k = Some b" "0 \<le> tb_tokens b" "tb_tokens b < 1" "tb_last_refill b = now"
    "dec_retry_after d = retry_wait (tb_tokens b) (pc_rate (pf k))"
    by (rule bucket_Allow_denied [OF assms(1-5)])
  note range = retry_wait_range [OF ok(1) b(2,3)]
  have "retry_wait (tb_tokens b) (pc_rate (pf k)) + 2 \<le> time_sub later now"
    using assms(6) range by (simp add: b(5) time_sub_def)
  then have "1 \<le> f_add (tb_tokens b) (f_mul (Seconds (time_sub later now)) (pc_rate (pf k)))"
    using range by (intro retry_wait_enough ok b) linarith+
  moreover have "now < later" using assms(6) range by (simp add: b(5))
  ultimately show ?thesis
    using ok b range by (auto simp: bucket_Allow_def Let_def)
qed

text \<open>The witness: rate 5, burst 2, an empty bucket that is refilled for 68128371 ns. The call is told to wait
  131871628 ns; one nanosecond after that wait the next call is denied too, two nanoseconds after it is allowed.\<close>

lemma short_wait_floats:
  "Seconds 68128371 = 2454583249991671 / 36028797018963968" "f_add 0 (f_mul (2454583249991671 / 36028797018963968) 5) = 3068229062489589 / 9007199254740992"
  "retry_wait (3068229062489589 / 9007199254740992) 5 = 131871628"
  "Seconds 131871629 = 2375588076900561 / 18014398509481984"
  "f_add (3068229062489589 / 9007199254740992) (f_mul (2375588076900561 / 18014398509481984) 5) = 9007199254740991 / 9007199254740992"
  by code_simp+

theorem denied_then_allowed_witness:
  "\<exists>d bs'. bucket_Allow (\<lambda>_. \<lparr>pc_rate = 5, pc_burst = 2\<rparr>) ''a'' 68128371
       [''a'' \<mapsto> \<lparr>tb_tokens = 0, tb_last_refill = 0\<rparr>] = (d, bs') \<and>
     \<not> dec_allowed d \<and> dec_retry_after d = 131871628 \<and>
     \<not> dec_allowed (fst (bucket_Allow (\<lambda>_. \<lparr>pc_rate = 5, pc_burst = 2\<rparr>) ''a'' (68128371 + 131871628 + 1) bs')) \<and>
     dec_allowed (fst (bucket_Allow (\<lambda>_. \<lparr>pc_rate = 5, pc_burst = 2\<rparr>) ''a'' (68128371 + 131871628 + 2) bs'))"
proof -
  let ?pf = "\<lambda>_ :: string. \<lparr>pc_rate = 5, pc_burst = 2\<rparr>"
  let ?bs = "[''a'' \<mapsto> \<lparr>tb_tokens = 0, tb_last_refill = 0\<rparr>]"
  let ?d = "\<lparr>dec_allowed = False, dec_retry_after = 131871628\<rparr>"
  let ?bs' = "?bs(''a'' \<mapsto> \<lparr>tb_tokens = 3068229062489589 / 9007199254740992, tb_last_refill = 68128371\<rparr>)"
  have first: "bucket_Allow ?pf ''a'' 68128371 ?bs = (?d, ?bs')"
    by (simp add: bucket_Allow_def time_sub_def short_wait_floats Let_def)
  moreover have "\<not> dec_allowed (fst (bucket_Allow ?pf ''a'' (68128371 + 131871628 + 1) ?bs'))"
    by (simp add: bucket_Allow_def time_sub_def short_wait_floats Let_def)
  moreover have "dec_allowed (fst (bucket_Allow ?pf ''a'' (68128371 + 131871628 + 2) ?bs'))"
    using denied_then_allowed [OF _ _ _ first, of "68128371 + 131871628 + 2"]
    by (simp add: map_wf_def bucket_wf_def policy_ok_def f64_numeral)
  ultimately show ?thesis by (intro exI [of _ ?d] exI [of _ ?bs']) simp
qed

end
