(* ===== verification/Strategy.thy ===== *)
theory Strategy
  imports World
begin

text \<open>
  Routing strategies, \<^verbatim>\<open>src/internal/dispatch/strategy\<close>: who receives a message. Each strategy
  turns a request into recipients and skipped users; the SQL queries are list queries on the tables.
  The locale \<open>route_strategy\<close> is the contract the message handlers rely on.
\<close>

section \<open>Data\<close>

record envelope =
  en_text :: string
  en_schema_version :: int

record recipient =
  rc_user :: int
  rc_chat :: int
  rc_topic :: int
  rc_channel :: string

record resolve_error =
  re_user :: int
  re_code :: string

record resolve_result =
  rr_recipients :: "recipient list"
  rr_skipped :: "resolve_error list"

record route_request =
  rt_app_id :: string
  rt_recipients :: "int list"
  rt_min_grade :: string
  rt_envelope :: envelope

datatype strategy_error = ErrAppNotFound | ErrEmptyRecipients | Resolver_db string

definition ResolveCodeUnknownRecipient :: string where "ResolveCodeUnknownRecipient = ''unknown_recipient''"
definition ResolveCodeRecipientInactive :: string where "ResolveCodeRecipientInactive = ''recipient_inactive''"
definition ResolveCodeRecipientNotSubbed :: string where "ResolveCodeRecipientNotSubbed = ''recipient_not_subscribed''"
definition ResolveCodeRecipientNotLinked :: string where "ResolveCodeRecipientNotLinked = ''recipient_not_linked''"
definition ResolveCodeTopicMissing :: string where "ResolveCodeTopicMissing = ''recipient_topic_missing''"
definition ResolveCodeBotNotAdmin :: string where "ResolveCodeBotNotAdmin = ''bot_not_admin''"
definition ResolveCodeGradeInsufficient :: string where "ResolveCodeGradeInsufficient = ''grade_insufficient''"

lemmas resolve_codes = ResolveCodeUnknownRecipient_def ResolveCodeRecipientInactive_def
  ResolveCodeRecipientNotSubbed_def ResolveCodeRecipientNotLinked_def ResolveCodeTopicMissing_def
  ResolveCodeBotNotAdmin_def ResolveCodeGradeInsufficient_def

definition no_result :: resolve_result where
  "no_result = \<lparr>rr_recipients = [], rr_skipped = []\<rparr>"

definition skip_user :: "int \<Rightarrow> string \<Rightarrow> resolve_result \<Rightarrow> resolve_result" where
  "skip_user u code res = res\<lparr>rr_skipped := rr_skipped res @ [\<lparr>re_user = u, re_code = code\<rparr>]\<rparr>"

definition add_recipient :: "recipient \<Rightarrow> resolve_result \<Rightarrow> resolve_result" where
  "add_recipient r res = res\<lparr>rr_recipients := rr_recipients res @ [r]\<rparr>"


section \<open>Grades\<close>

definition gradeRank :: "string \<Rightarrow> int" where
  "gradeRank g =
     (let g = ToLower (TrimSpace g)
      in if g = ''admin'' then 3
         else if g = ''developer'' \<or> g = ''dev'' then 2
         else if g = ''user'' then 1
         else 0)"

definition normalizeGrade :: "string \<Rightarrow> string" where
  "normalizeGrade g =
     (let g = ToLower (TrimSpace g)
      in if g = ''dev'' then ''developer'' else if g = [] then ''user'' else g)"

definition maxGrade :: "string \<Rightarrow> string \<Rightarrow> string" where
  "maxGrade a b = (if gradeRank a \<ge> gradeRank b then a else b)"


section \<open>Topic\<close>

definition user_topic :: "database \<Rightarrow> int \<Rightarrow> string \<Rightarrow> int option" where
  "user_topic d u app = map_option top_topic_id (find (\<lambda>t. top_user t = u \<and> top_app t = app) (d_topics d))"

definition app_exists_active :: "database \<Rightarrow> string \<Rightarrow> bool" where
  "app_exists_active d app = list_ex (\<lambda>a. app_id a = app \<and> app_active a) (d_apps d)"

definition app_min_grade_or :: "database \<Rightarrow> string \<Rightarrow> string" where
  "app_min_grade_or d app =
     (case find (\<lambda>a. app_id a = app) (d_apps d) of None \<Rightarrow> ''user'' | Some a \<Rightarrow> app_min_grade a)"

type_synonym topic_candidate = "int \<times> string \<times> int option \<times> bool \<times> int option"

text \<open>Subscribers that are active, with their topic for the app, by user id. The join with
  \<^verbatim>\<open>user_topics\<close> gives at most one topic: its key is the pair of user and app.\<close>

definition topic_rows :: "string \<Rightarrow> database \<Rightarrow> topic_candidate list" where
  "topic_rows app d =
     sort_key fst
       (concat (map (\<lambda>s. map (\<lambda>u. (usr_id u, usr_grade u, usr_chat_id u, usr_bot_is_admin u,
                                    user_topic d (usr_id u) app))
            (filter (\<lambda>u. usr_id u = fst s \<and> usr_status u = ''active'') (d_users d)))
          (filter (\<lambda>s. snd s = app) (d_subs d))))"

fun topic_loop :: "string \<Rightarrow> topic_candidate list \<Rightarrow> resolve_result \<Rightarrow> resolve_result" where
  "topic_loop effectiveGrade [] res = res"
| "topic_loop effectiveGrade ((userID, grade, personalChatID, botIsAdmin, topicID) # rows) res =
     (if gradeRank grade < gradeRank effectiveGrade then
        topic_loop effectiveGrade rows (skip_user userID ResolveCodeGradeInsufficient res)
      else case personalChatID of
        None \<Rightarrow> topic_loop effectiveGrade rows (skip_user userID ResolveCodeRecipientNotLinked res)
      | Some chat \<Rightarrow>
          if \<not> botIsAdmin then
            topic_loop effectiveGrade rows (skip_user userID ResolveCodeBotNotAdmin res)
          else (case topicID of
            None \<Rightarrow> topic_loop effectiveGrade rows (skip_user userID ResolveCodeTopicMissing res)
          | Some topic \<Rightarrow>
              topic_loop effectiveGrade rows
                (add_recipient \<lparr>rc_user = userID, rc_chat = chat, rc_topic = topic,
                   rc_channel = ''supergroup''\<rparr> res)))"

definition ResolveTopic ::
  "env \<Rightarrow> string \<Rightarrow> string \<Rightarrow> world \<Rightarrow> (strategy_error + resolve_result) \<times> world" where
  "ResolveTopic e app requestMinGrade w =
     (case db_query e (\<lambda>t d. (app_exists_active d app, app_min_grade_or d app)) w of
        (Inl _, w1) \<Rightarrow> (Inl (Resolver_db ''topic resolver: app lookup''), w1)
      | (Inr (exists, appMinGrade), w1) \<Rightarrow>
          if \<not> exists then (Inl ErrAppNotFound, w1)
          else (case db_query e (\<lambda>t d. topic_rows app d) w1 of
             (Inl _, w2) \<Rightarrow> (Inl (Resolver_db ''topic resolver: query''), w2)
           | (Inr rows, w2) \<Rightarrow>
               (Inr (topic_loop (maxGrade appMinGrade requestMinGrade) rows no_result), w2)))"

definition TopicStrategy_Resolve ::
  "env \<Rightarrow> route_request \<Rightarrow> world \<Rightarrow> (strategy_error + resolve_result) \<times> world" where
  "TopicStrategy_Resolve e r w =
     (if rt_app_id r = [] then (Inl ErrAppNotFound, w)
      else ResolveTopic e (rt_app_id r) (normalizeGrade (rt_min_grade r)) w)"


section \<open>Broadcast\<close>

type_synonym broadcast_candidate = "int \<times> string \<times> int option \<times> bool"

definition broadcast_rows :: "database \<Rightarrow> broadcast_candidate list" where
  "broadcast_rows d =
     map (\<lambda>u. (usr_id u, usr_grade u, usr_chat_id u, usr_bot_is_admin u))
       (sort_key usr_id (filter (\<lambda>u. usr_status u = ''active'') (d_users d)))"

fun broadcast_loop :: "string \<Rightarrow> broadcast_candidate list \<Rightarrow> resolve_result \<Rightarrow> resolve_result" where
  "broadcast_loop minGrade [] res = res"
| "broadcast_loop minGrade ((userID, grade, personalChatID, botIsAdmin) # rows) res =
     (if gradeRank grade < gradeRank minGrade then
        broadcast_loop minGrade rows (skip_user userID ResolveCodeGradeInsufficient res)
      else case personalChatID of
        None \<Rightarrow> broadcast_loop minGrade rows (skip_user userID ResolveCodeRecipientNotLinked res)
      | Some chat \<Rightarrow>
          if \<not> botIsAdmin then
            broadcast_loop minGrade rows (skip_user userID ResolveCodeBotNotAdmin res)
          else
            broadcast_loop minGrade rows
              (add_recipient \<lparr>rc_user = userID, rc_chat = chat, rc_topic = 0, rc_channel = ''general''\<rparr> res))"

definition ResolveBroadcast ::
  "env \<Rightarrow> string \<Rightarrow> world \<Rightarrow> (strategy_error + resolve_result) \<times> world" where
  "ResolveBroadcast e minGrade w =
     (case db_query e (\<lambda>t d. broadcast_rows d) w of
        (Inl _, w1) \<Rightarrow> (Inl (Resolver_db ''broadcast resolver: query''), w1)
      | (Inr rows, w1) \<Rightarrow> (Inr (broadcast_loop minGrade rows no_result), w1))"

definition BroadcastAllStrategy_Resolve ::
  "env \<Rightarrow> route_request \<Rightarrow> world \<Rightarrow> (strategy_error + resolve_result) \<times> world" where
  "BroadcastAllStrategy_Resolve e r w = ResolveBroadcast e (normalizeGrade (rt_min_grade r)) w"


section \<open>Direct\<close>

text \<open>The columns of one row: of the user, if there is one with the requested id, whether the
  user subscribed to the app, and the topic.\<close>

type_synonym direct_candidate = "(int \<times> string \<times> int option \<times> bool) option \<times> bool \<times> int option"

definition direct_row :: "database \<Rightarrow> string \<Rightarrow> int \<Rightarrow> direct_candidate" where
  "direct_row d app uid =
     (case find (\<lambda>u. usr_id u = uid) (d_users d) of
        None \<Rightarrow> (None, False, None)
      | Some u \<Rightarrow> (Some (usr_id u, usr_status u, usr_chat_id u, usr_bot_is_admin u),
                    (usr_id u, app) \<in> set (d_subs d), user_topic d (usr_id u) app))"

text \<open>The loop pairs the rows with the requested ids by position (\<^verbatim>\<open>userIDs[idx]\<close>); the query
  has no \<^verbatim>\<open>ORDER BY\<close>.\<close>

fun direct_loop ::
  "(int \<times> direct_candidate) list \<Rightarrow> int set \<Rightarrow> resolve_result \<Rightarrow> resolve_result" where
  "direct_loop [] seen res = res"
| "direct_loop ((requested, row, subscribed, topicID) # rows) seen res =
     (case row of
        None \<Rightarrow> direct_loop rows seen (skip_user requested ResolveCodeUnknownRecipient res)
      | Some (userID, status, personalChatID, botIsAdmin) \<Rightarrow>
          if userID \<in> seen then direct_loop rows seen res
          else if status \<noteq> ''active'' then
            direct_loop rows (insert userID seen) (skip_user userID ResolveCodeRecipientInactive res)
          else if \<not> subscribed then
            direct_loop rows (insert userID seen) (skip_user userID ResolveCodeRecipientNotSubbed res)
          else (case personalChatID of
            None \<Rightarrow> direct_loop rows (insert userID seen) (skip_user userID ResolveCodeRecipientNotLinked res)
          | Some chat \<Rightarrow>
              if \<not> botIsAdmin then
                direct_loop rows (insert userID seen) (skip_user userID ResolveCodeBotNotAdmin res)
              else (case topicID of
                None \<Rightarrow> direct_loop rows (insert userID seen) (skip_user userID ResolveCodeTopicMissing res)
              | Some topic \<Rightarrow>
                  direct_loop rows (insert userID seen)
                    (add_recipient \<lparr>rc_user = userID, rc_chat = chat, rc_topic = topic,
                       rc_channel = ''supergroup''\<rparr> res))))"

definition ResolveDirect ::
  "env \<Rightarrow> int list \<Rightarrow> string \<Rightarrow> world \<Rightarrow> (strategy_error + resolve_result) \<times> world" where
  "ResolveDirect e userIDs app w =
     (case db_query e (\<lambda>t d. app_exists_active d app) w of
        (Inl _, w1) \<Rightarrow> (Inl (Resolver_db ''direct resolver: app lookup''), w1)
      | (Inr exists, w1) \<Rightarrow>
          if \<not> exists then (Inl ErrAppNotFound, w1)
          else (case db_query e (\<lambda>t d. unordered e (w_tick w1) (map (direct_row d app) userIDs)) w1 of
             (Inl _, w2) \<Rightarrow> (Inl (Resolver_db ''direct resolver: query''), w2)
           | (Inr rows, w2) \<Rightarrow> (Inr (direct_loop (zip userIDs rows) {} no_result), w2)))"

definition DirectStrategy_Resolve ::
  "env \<Rightarrow> route_request \<Rightarrow> world \<Rightarrow> (strategy_error + resolve_result) \<times> world" where
  "DirectStrategy_Resolve e r w =
     (if rt_app_id r = [] then (Inl ErrAppNotFound, w)
      else if rt_recipients r = [] then (Inl ErrEmptyRecipients, w)
      else ResolveDirect e (rt_recipients r) (rt_app_id r) w)"


section \<open>Direct message\<close>

type_synonym dm_candidate = "int \<times> (int \<times> int \<times> string) option"

definition dm_row :: "database \<Rightarrow> int \<Rightarrow> dm_candidate" where
  "dm_row d tgid =
     (tgid, map_option (\<lambda>u. (usr_id u, usr_telegram_id u, usr_status u))
        (find (\<lambda>u. usr_telegram_id u = tgid) (d_users d)))"

fun dm_loop :: "dm_candidate list \<Rightarrow> int set \<Rightarrow> resolve_result \<Rightarrow> resolve_result" where
  "dm_loop [] seen res = res"
| "dm_loop ((requestedTGID, row) # rows) seen res =
     (case row of
        None \<Rightarrow> dm_loop rows seen (skip_user requestedTGID ResolveCodeUnknownRecipient res)
      | Some (userID, telegramID, status) \<Rightarrow>
          if userID \<in> seen then dm_loop rows seen res
          else if status \<noteq> ''active'' then
            dm_loop rows (insert userID seen) (skip_user userID ResolveCodeRecipientInactive res)
          else
            dm_loop rows (insert userID seen)
              (add_recipient \<lparr>rc_user = userID, rc_chat = telegramID, rc_topic = 0, rc_channel = ''dm''\<rparr> res))"

definition ResolveDirectDM ::
  "env \<Rightarrow> int list \<Rightarrow> world \<Rightarrow> (strategy_error + resolve_result) \<times> world" where
  "ResolveDirectDM e telegramIDs w =
     (case db_query e (\<lambda>t d. unordered e (w_tick w) (map (dm_row d) telegramIDs)) w of
        (Inl _, w1) \<Rightarrow> (Inl (Resolver_db ''direct-dm resolver: query''), w1)
      | (Inr rows, w1) \<Rightarrow> (Inr (dm_loop rows {} no_result), w1))"

definition DirectDMStrategy_Resolve ::
  "env \<Rightarrow> route_request \<Rightarrow> world \<Rightarrow> (strategy_error + resolve_result) \<times> world" where
  "DirectDMStrategy_Resolve e r w =
     (if rt_recipients r = [] then (Inl ErrEmptyRecipients, w)
      else ResolveDirectDM e (rt_recipients r) w)"

section \<open>Loops as lists of outcomes\<close>

text \<open>Every loop decides each row on its own: a skip or a recipient.\<close>

type_synonym outcome = "resolve_error + recipient"

definition skipped :: "int \<Rightarrow> string \<Rightarrow> outcome" where
  "skipped u code = Inl \<lparr>re_user = u, re_code = code\<rparr>"

definition outcome_user :: "outcome \<Rightarrow> int" where
  "outcome_user o' = (case o' of Inl s \<Rightarrow> re_user s | Inr r \<Rightarrow> rc_user r)"

definition lefts :: "('a + 'b) list \<Rightarrow> 'a list" where
  "lefts os = concat (map (case_sum (\<lambda>x. [x]) (\<lambda>_. [])) os)"

definition rights :: "('a + 'b) list \<Rightarrow> 'b list" where
  "rights os = concat (map (case_sum (\<lambda>_. []) (\<lambda>x. [x])) os)"

lemma lefts_rights_simps [simp]:
  "lefts [] = []" "rights [] = []" "lefts (Inl a # os) = a # lefts os" "lefts (Inr b # os) = lefts os"
  "rights (Inl a # os) = rights os" "rights (Inr b # os) = b # rights os"
  by (simp_all add: lefts_def rights_def)

lemma set_lefts: "set (lefts os) = {a. Inl a \<in> set os}"
  by (induction os rule: list.induct) (auto simp: lefts_def split: sum.splits)

lemma set_rights: "set (rights os) = {b. Inr b \<in> set os}"
  by (induction os rule: list.induct) (auto simp: rights_def split: sum.splits)

definition collect :: "outcome list \<Rightarrow> resolve_result \<Rightarrow> resolve_result" where
  "collect os res = \<lparr>rr_recipients = rr_recipients res @ rights os, rr_skipped = rr_skipped res @ lefts os\<rparr>"

lemma collect_simps [simp]:
  "collect [] res = res"
  "collect (skipped u c # os) res = collect os (skip_user u c res)"
  "collect (Inr r # os) res = collect os (add_recipient r res)"
  by (simp_all add: collect_def skipped_def skip_user_def add_recipient_def)

definition topic_outcome :: "string \<Rightarrow> topic_candidate \<Rightarrow> outcome" where
  "topic_outcome g = (\<lambda>(u, grade, chat, adm, topic).
     if gradeRank grade < gradeRank g then skipped u ResolveCodeGradeInsufficient
     else case chat of None \<Rightarrow> skipped u ResolveCodeRecipientNotLinked
     | Some c \<Rightarrow> if \<not> adm then skipped u ResolveCodeBotNotAdmin
         else (case topic of None \<Rightarrow> skipped u ResolveCodeTopicMissing
           | Some t \<Rightarrow> Inr \<lparr>rc_user = u, rc_chat = c, rc_topic = t, rc_channel = ''supergroup''\<rparr>))"

lemma topic_loop_outcomes: "topic_loop g rows res = collect (map (topic_outcome g) rows) res"
  by (induction g rows res rule: topic_loop.induct) (auto simp: topic_outcome_def split: option.splits)

definition broadcast_outcome :: "string \<Rightarrow> broadcast_candidate \<Rightarrow> outcome" where
  "broadcast_outcome g = (\<lambda>(u, grade, chat, adm).
     if gradeRank grade < gradeRank g then skipped u ResolveCodeGradeInsufficient
     else case chat of None \<Rightarrow> skipped u ResolveCodeRecipientNotLinked
     | Some c \<Rightarrow> if \<not> adm then skipped u ResolveCodeBotNotAdmin
         else Inr \<lparr>rc_user = u, rc_chat = c, rc_topic = 0, rc_channel = ''general''\<rparr>)"

lemma broadcast_loop_outcomes:
  "broadcast_loop g rows res = collect (map (broadcast_outcome g) rows) res"
  by (induction g rows res rule: broadcast_loop.induct) (auto simp: broadcast_outcome_def split: option.splits)

definition direct_outcome :: "int \<times> direct_candidate \<Rightarrow> outcome" where
  "direct_outcome = (\<lambda>(req, row, sub, topic). case row of
     None \<Rightarrow> skipped req ResolveCodeUnknownRecipient
   | Some (u, status, chat, adm) \<Rightarrow>
       if status \<noteq> ''active'' then skipped u ResolveCodeRecipientInactive
       else if \<not> sub then skipped u ResolveCodeRecipientNotSubbed
       else (case chat of None \<Rightarrow> skipped u ResolveCodeRecipientNotLinked
         | Some c \<Rightarrow> if \<not> adm then skipped u ResolveCodeBotNotAdmin
             else (case topic of None \<Rightarrow> skipped u ResolveCodeTopicMissing
               | Some t \<Rightarrow> Inr \<lparr>rc_user = u, rc_chat = c, rc_topic = t, rc_channel = ''supergroup''\<rparr>)))"

definition dm_outcome :: "dm_candidate \<Rightarrow> outcome" where
  "dm_outcome = (\<lambda>(req, row). case row of
     None \<Rightarrow> skipped req ResolveCodeUnknownRecipient
   | Some (u, tg, status) \<Rightarrow>
       if status \<noteq> ''active'' then skipped u ResolveCodeRecipientInactive
       else Inr \<lparr>rc_user = u, rc_chat = tg, rc_topic = 0, rc_channel = ''dm''\<rparr>)"

text \<open>The rows that the duplicate check lets through: unknown users, and the first row of each
  user; \<open>key\<close> gives the user of a row, if it has one.\<close>

fun first_rows :: "('a \<Rightarrow> int option) \<Rightarrow> int set \<Rightarrow> 'a list \<Rightarrow> 'a list" where
  "first_rows key seen [] = []"
| "first_rows key seen (x # xs) =
     (case key x of
        None \<Rightarrow> x # first_rows key seen xs
      | Some u \<Rightarrow> if u \<in> seen then first_rows key seen xs else x # first_rows key (insert u seen) xs)"

definition direct_key :: "int \<times> direct_candidate \<Rightarrow> int option" where
  "direct_key x = map_option fst (fst (snd x))"

definition dm_key :: "dm_candidate \<Rightarrow> int option" where
  "dm_key x = map_option fst (snd x)"

lemma direct_loop_outcomes:
  "direct_loop zs seen res = collect (map direct_outcome (first_rows direct_key seen zs)) res"
  by (induction zs seen res rule: direct_loop.induct)
    (auto simp: direct_outcome_def direct_key_def split: option.splits)

lemma dm_loop_outcomes:
  "dm_loop rows seen res = collect (map dm_outcome (first_rows dm_key seen rows)) res"
  by (induction rows seen res rule: dm_loop.induct) (auto simp: dm_outcome_def dm_key_def split: option.splits)

lemma set_first_rows: "set (first_rows key seen xs) \<subseteq> set xs"
  by (induction key seen xs rule: first_rows.induct) (auto split: option.splits)

lemma unknown_first_rows: "filter (\<lambda>x. key x = None) (first_rows key seen xs) = filter (\<lambda>x. key x = None) xs"
  by (induction key seen xs rule: first_rows.induct) (auto split: option.splits)

lemma keys_first_rows:
  "distinct (List.map_filter key (first_rows key seen xs)) \<and>
   set (List.map_filter key (first_rows key seen xs)) = set (List.map_filter key xs) - seen"
  by (induction key seen xs rule: first_rows.induct) (auto simp: List.map_filter_simps split: option.splits)

lemma set_map_filter_iff: "u \<in> set (List.map_filter f xs) \<longleftrightarrow> (\<exists>x \<in> set xs. f x = Some u)"
  by (induction xs) (auto simp: List.map_filter_simps split: option.splits)

text \<open>When a user determines the row, every row of the input is represented in the output.\<close>

lemma known_first_rows:
  assumes "\<And>x y. x \<in> set xs \<Longrightarrow> y \<in> set xs \<Longrightarrow> key x = Some u \<Longrightarrow> key y = Some u \<Longrightarrow> x = y \<or> f x = f y"
    and "x \<in> set xs" "key x = Some u" "u \<notin> seen"
  shows "\<exists>y \<in> set (first_rows key seen xs). key y = Some u \<and> f y = f x"
proof -
  have "u \<in> set (List.map_filter key (first_rows key seen xs))"
    using keys_first_rows [of key seen xs] assms(2-4) by (auto simp: set_map_filter_iff)
  then obtain y where "y \<in> set (first_rows key seen xs)" "key y = Some u"
    by (auto simp: set_map_filter_iff)
  moreover have "y \<in> set xs" using calculation(1) set_first_rows [of key seen xs] by blast
  ultimately show ?thesis using assms(1) [of x y] assms(2,3) by metis
qed

section \<open>Who receives\<close>

lemma outcome_users_partition:
  "set (map rc_user (rights os) @ map re_user (lefts os)) = outcome_user ` set os"
  "distinct (map outcome_user os) \<Longrightarrow> distinct (map rc_user (rights os) @ map re_user (lefts os))"
proof -
  show part: "set (map rc_user (rights os) @ map re_user (lefts os)) = outcome_user ` set os" for os
  proof (induction os)
    case (Cons o' os)
    then show ?case by (cases o') (auto simp: outcome_user_def)
  qed simp
  show "distinct (map rc_user (rights os) @ map re_user (lefts os))" if "distinct (map outcome_user os)"
    using that
  proof (induction os)
    case (Cons o' os)
    then show ?case using part [of os] by (cases o') (auto simp: outcome_user_def)
  qed simp
qed

lemma outcome_user_simps [simp]:
  "outcome_user (skipped u c) = u" "outcome_user (Inr r) = rc_user r"
  by (simp_all add: outcome_user_def skipped_def)

lemma topic_outcome_user [simp]: "outcome_user (topic_outcome g row) = fst row"
  by (auto simp: topic_outcome_def split: option.splits prod.splits)

lemma broadcast_outcome_user [simp]: "outcome_user (broadcast_outcome g row) = fst row"
  by (auto simp: broadcast_outcome_def split: option.splits prod.splits)

lemma skipped_not_Inr [simp]: "skipped u c \<noteq> Inr r" "Inr r \<noteq> skipped u c"
  by (simp_all add: skipped_def)

lemma topic_outcome_Inr:
  "topic_outcome g (u, grade, chat, adm, topic) = Inr r \<longleftrightarrow>
     gradeRank g \<le> gradeRank grade \<and> adm \<and> chat = Some (rc_chat r) \<and> topic = Some (rc_topic r) \<and>
     rc_user r = u \<and> rc_channel r = ''supergroup''"
  by (cases r) (auto simp: topic_outcome_def split: option.splits)

lemma broadcast_outcome_Inr:
  "broadcast_outcome g (u, grade, chat, adm) = Inr r \<longleftrightarrow>
     gradeRank g \<le> gradeRank grade \<and> adm \<and> chat = Some (rc_chat r) \<and> rc_topic r = 0 \<and>
     rc_user r = u \<and> rc_channel r = ''general''"
  by (cases r) (auto simp: broadcast_outcome_def split: option.splits)

lemma gradeRank_maxGrade: "gradeRank (maxGrade a b) = max (gradeRank a) (gradeRank b)"
  by (simp add: maxGrade_def max_def)

lemma set_topic_rows:
  "set (topic_rows app d) =
     (\<lambda>u. (usr_id u, usr_grade u, usr_chat_id u, usr_bot_is_admin u, user_topic d (usr_id u) app)) `
       {u \<in> set (d_users d). usr_status u = ''active'' \<and> (usr_id u, app) \<in> set (d_subs d)}"
  by (auto simp: topic_rows_def)

lemma Inr_image_iff: "Inr r \<in> f ` g ` A \<longleftrightarrow> (\<exists>a \<in> A. f (g a) = Inr r)"
  by (auto simp: image_iff) metis+

lemma filter_id_single:
  "distinct (map usr_id us) \<Longrightarrow> length (filter (\<lambda>u. usr_id u = i \<and> P u) us) \<le> 1"
proof (induction us)
  case (Cons u us)
  then have "usr_id u = i \<Longrightarrow> filter (\<lambda>u. usr_id u = i \<and> P u) us = []"
    by (auto simp: filter_empty_conv image_iff)
  with Cons show ?case by auto
qed simp

lemma distinct_map_sort_key [simp]: "distinct (map f (sort_key k xs)) = distinct (map f xs)"
  by (simp add: distinct_map)

lemma sorted_rights:
  "sorted_wrt (<) (map outcome_user os) \<Longrightarrow> sorted_wrt (<) (map rc_user (rights os))"
proof (induction os)
  case (Cons o' os)
  then show ?case by (cases o') (auto simp: set_rights)
qed simp

lemma distinct_topic_rows:
  assumes "users_ok d" "subs_ok d"
  shows "sorted_wrt (<) (map fst (topic_rows app d))"
proof -
  let ?f = "\<lambda>u. (usr_id u, usr_grade u, usr_chat_id u, usr_bot_is_admin u, user_topic d (usr_id u) app)"
  let ?rows = "\<lambda>ss. concat (map (\<lambda>s. map ?f (filter (\<lambda>u. usr_id u = fst s \<and> usr_status u = ''active'') (d_users d))) ss)"
  have ids: "distinct (map usr_id (d_users d))" using assms(1) by (simp add: users_ok_def)
  have "distinct (map fst (?rows ss))" if "distinct (map fst ss)" for ss :: "(int \<times> string) list"
    using that
  proof (induction ss)
    case (Cons s ss)
    let ?us = "filter (\<lambda>u. usr_id u = fst s \<and> usr_status u = ''active'') (d_users d)"
    have "distinct (map (fst \<circ> ?f) ?us)"
      using filter_id_single [OF ids, of "fst s" "\<lambda>u. usr_status u = ''active''"]
      by (cases ?us) (auto simp: Suc_le_eq)
    with Cons show ?case by (auto simp: image_iff)
  qed simp
  moreover have "distinct (map fst (filter (\<lambda>s. snd s = app) (d_subs d)))"
    using assms(2) by (auto simp: subs_ok_def distinct_map inj_on_def prod_eq_iff)
  ultimately have "distinct (map fst (topic_rows app d))"
    unfolding topic_rows_def by (simp only: distinct_map_sort_key)
  then show ?thesis
    unfolding topic_rows_def by (simp add: strict_sorted_iff)
qed

lemma ResolveTopic_InrD:
  assumes "fst (ResolveTopic e app g w) = Inr res"
  shows "app_exists_active (w_db w) app" "res = collect (map (topic_outcome
     (maxGrade (app_min_grade_or (w_db w) app) g)) (topic_rows app (w_db w))) no_result"
  using assms by (auto simp: ResolveTopic_def db_query_cases topic_loop_outcomes split: if_splits)

lemma topic_recipients_lemma:
  assumes "db_ok (w_db w)" "fst (ResolveTopic e app g w) = Inr res"
  shows "set (rr_recipients res) =
      {r. rc_channel r = ''supergroup'' \<and> (\<exists>u \<in> set (d_users (w_db w)).
         usr_status u = ''active'' \<and> (usr_id u, app) \<in> set (d_subs (w_db w)) \<and>
         max (gradeRank (app_min_grade_or (w_db w) app)) (gradeRank g) \<le> gradeRank (usr_grade u) \<and>
         usr_bot_is_admin u \<and> rc_user r = usr_id u \<and> usr_chat_id u = Some (rc_chat r) \<and>
         user_topic (w_db w) (usr_id u) app = Some (rc_topic r))} \<and>
    sorted_wrt (<) (map rc_user (rr_recipients res)) \<and>
    distinct (map rc_user (rr_recipients res) @ map re_user (rr_skipped res)) \<and>
    set (map rc_user (rr_recipients res) @ map re_user (rr_skipped res)) =
      {usr_id u | u. u \<in> set (d_users (w_db w)) \<and> usr_status u = ''active'' \<and> (usr_id u, app) \<in> set (d_subs (w_db w))}"
proof -
  let ?d = "w_db w"
  let ?g = "maxGrade (app_min_grade_or ?d app) g"
  let ?os = "map (topic_outcome ?g) (topic_rows app ?d)"
  have res: "rr_recipients res = rights ?os" "rr_skipped res = lefts ?os"
    using ResolveTopic_InrD(2) [OF assms(2)] by (simp_all add: collect_def no_result_def)
  have sorted: "sorted_wrt (<) (map outcome_user ?os)"
    using distinct_topic_rows [of ?d app] assms(1) by (simp add: db_ok_def comp_def)
  then have dist: "distinct (map outcome_user ?os)" by (simp add: strict_sorted_iff)
  have users: "outcome_user ` set ?os = {usr_id u | u. u \<in> set (d_users ?d) \<and> usr_status u = ''active'' \<and>
      (usr_id u, app) \<in> set (d_subs ?d)}"
    by (auto simp: set_topic_rows image_image)
  show ?thesis
    unfolding res
  proof (intro conjI)
    show "set (rights ?os) = {r. rc_channel r = ''supergroup'' \<and> (\<exists>u \<in> set (d_users ?d).
         usr_status u = ''active'' \<and> (usr_id u, app) \<in> set (d_subs ?d) \<and>
         max (gradeRank (app_min_grade_or ?d app)) (gradeRank g) \<le> gradeRank (usr_grade u) \<and>
         usr_bot_is_admin u \<and> rc_user r = usr_id u \<and> usr_chat_id u = Some (rc_chat r) \<and>
         user_topic ?d (usr_id u) app = Some (rc_topic r))}"
      unfolding set_rights set_map set_topic_rows Inr_image_iff topic_outcome_Inr gradeRank_maxGrade by auto
  qed (rule sorted_rights [OF sorted] outcome_users_partition(2) [OF dist]
      outcome_users_partition(1) [of ?os, unfolded users])+
qed

lemma set_broadcast_rows:
  "set (broadcast_rows d) = (\<lambda>u. (usr_id u, usr_grade u, usr_chat_id u, usr_bot_is_admin u)) `
     {u \<in> set (d_users d). usr_status u = ''active''}"
  by (simp add: broadcast_rows_def)

lemma distinct_broadcast_rows:
  assumes "users_ok d"
  shows "sorted_wrt (<) (map fst (broadcast_rows d))"
  using assms by (simp add: broadcast_rows_def comp_def users_ok_def strict_sorted_iff distinct_map_filter)

lemma broadcast_recipients_lemma:
  assumes "db_ok (w_db w)" "fst (ResolveBroadcast e g w) = Inr res"
  shows "set (rr_recipients res) =
      {r. rc_channel r = ''general'' \<and> rc_topic r = 0 \<and> (\<exists>u \<in> set (d_users (w_db w)).
         usr_status u = ''active'' \<and> gradeRank g \<le> gradeRank (usr_grade u) \<and>
         usr_bot_is_admin u \<and> rc_user r = usr_id u \<and> usr_chat_id u = Some (rc_chat r))} \<and>
    sorted_wrt (<) (map rc_user (rr_recipients res)) \<and>
    distinct (map rc_user (rr_recipients res) @ map re_user (rr_skipped res)) \<and>
    set (map rc_user (rr_recipients res) @ map re_user (rr_skipped res)) =
      {usr_id u | u. u \<in> set (d_users (w_db w)) \<and> usr_status u = ''active''}"
proof -
  let ?d = "w_db w"
  let ?os = "map (broadcast_outcome g) (broadcast_rows ?d)"
  have res: "rr_recipients res = rights ?os" "rr_skipped res = lefts ?os"
    using assms(2)
    by (auto simp: ResolveBroadcast_def db_query_cases broadcast_loop_outcomes collect_def no_result_def
        split: if_splits)
  have sorted: "sorted_wrt (<) (map outcome_user ?os)"
    using distinct_broadcast_rows [of ?d] assms(1) by (simp add: db_ok_def comp_def)
  then have dist: "distinct (map outcome_user ?os)" by (simp add: strict_sorted_iff)
  have users: "outcome_user ` set ?os = {usr_id u | u. u \<in> set (d_users ?d) \<and> usr_status u = ''active''}"
    by (auto simp: set_broadcast_rows image_image)
  show ?thesis
    unfolding res
  proof (intro conjI)
    show "set (rights ?os) = {r. rc_channel r = ''general'' \<and> rc_topic r = 0 \<and> (\<exists>u \<in> set (d_users ?d).
         usr_status u = ''active'' \<and> gradeRank g \<le> gradeRank (usr_grade u) \<and>
         usr_bot_is_admin u \<and> rc_user r = usr_id u \<and> usr_chat_id u = Some (rc_chat r))}"
      unfolding set_rights set_map set_broadcast_rows Inr_image_iff broadcast_outcome_Inr by auto
  qed (rule sorted_rights [OF sorted] outcome_users_partition(2) [OF dist]
      outcome_users_partition(1) [of ?os, unfolded users])+
qed


section \<open>Requested recipients\<close>

lemma find_user_id:
  "find (\<lambda>u. usr_id u = i) us = Some u \<Longrightarrow> u \<in> set us \<and> usr_id u = i"
  by (auto simp: find_Some_iff)

lemma find_distinct:
  assumes "distinct (map f us)" "u \<in> set us"
  shows "find (\<lambda>v. f v = f u) us = Some u"
  using assms by (induction us) (auto simp: image_iff)

text \<open>The rows of the direct query, paired with the requested ids.\<close>

definition direct_zip :: "env \<Rightarrow> nat \<Rightarrow> database \<Rightarrow> string \<Rightarrow> int list \<Rightarrow> (int \<times> direct_candidate) list" where
  "direct_zip e n d app ids = zip ids (unordered e n (map (direct_row d app) ids))"

lemma direct_row_user: "fst (direct_row d app i) = Some (u, x) \<Longrightarrow> u = i \<and> i \<in> usr_id ` set (d_users d)"
  by (auto simp: direct_row_def dest!: find_user_id split: option.splits)

lemma direct_row_unknown: "fst (direct_row d app i) = None \<longleftrightarrow> i \<notin> usr_id ` set (d_users d)"
  by (auto simp: direct_row_def find_None_iff split: option.splits dest!: find_user_id)

lemma direct_zip_key:
  assumes "orders_rows e" "z \<in> set (direct_zip e n d app ids)" "direct_key z = Some u"
  shows "snd z = direct_row d app u" "u \<in> set ids" "u \<in> usr_id ` set (d_users d)"
proof -
  have "snd z \<in> set (unordered e n (map (direct_row d app) ids))"
    using assms(2) unfolding direct_zip_def by (metis prod.collapse set_zip_rightD)
  then obtain i where i: "i \<in> set ids" "snd z = direct_row d app i"
    by (auto simp: set_unordered [OF assms(1)])
  with assms(3) direct_row_user [of d app i u] show "snd z = direct_row d app u" "u \<in> set ids"
    "u \<in> usr_id ` set (d_users d)"
    by (auto simp: direct_key_def)
qed

lemma direct_zip_rows:
  assumes "orders_rows e" shows "map snd (direct_zip e n d app ids) = unordered e n (map (direct_row d app) ids)"
  by (simp add: direct_zip_def length_unordered [OF assms])

lemma direct_zip_known:
  assumes "orders_rows e" "u \<in> set ids" "u \<in> usr_id ` set (d_users d)"
  shows "\<exists>z \<in> set (direct_zip e n d app ids). direct_key z = Some u"
proof -
  have "direct_row d app u \<in> set (map snd (direct_zip e n d app ids))"
    using assms(2) by (simp add: direct_zip_rows [OF assms(1)] set_unordered [OF assms(1)])
  then obtain z where z: "z \<in> set (direct_zip e n d app ids)" "snd z = direct_row d app u" by auto
  moreover obtain v x where "fst (direct_row d app u) = Some (v, x)"
    using assms(3) direct_row_unknown [of d app u] by fastforce
  ultimately have "direct_key z = Some u"
    using direct_row_user [of d app u v x] by (simp add: direct_key_def)
  with z(1) show ?thesis by blast
qed

lemma direct_outcome_known:
  assumes "users_ok d" "u \<in> set (d_users d)"
  shows "direct_outcome (x, direct_row d app (usr_id u)) = Inr r \<longleftrightarrow>
     usr_status u = ''active'' \<and> (usr_id u, app) \<in> set (d_subs d) \<and> usr_bot_is_admin u \<and>
     rc_user r = usr_id u \<and> usr_chat_id u = Some (rc_chat r) \<and>
     user_topic d (usr_id u) app = Some (rc_topic r) \<and> rc_channel r = ''supergroup''"
  using find_distinct [of usr_id "d_users d" u] assms
  by (cases r) (auto simp: direct_outcome_def direct_row_def users_ok_def split: option.splits)

lemma direct_outcome_user:
  "outcome_user (direct_outcome z) = (case direct_key z of None \<Rightarrow> fst z | Some u \<Rightarrow> u)"
  by (auto simp: direct_outcome_def direct_key_def split: option.splits prod.splits)

lemma direct_outcome_Inr_key: "direct_outcome z = Inr r \<Longrightarrow> direct_key z = Some (rc_user r)"
  by (auto simp: direct_outcome_def direct_key_def split: option.splits prod.splits if_splits)

text \<open>Outcomes of rows some of which are unknown: what is reported about the known ones, and how
  many unknown ones there are.\<close>

abbreviation unknown_skip :: "resolve_error \<Rightarrow> bool" where
  "unknown_skip s \<equiv> re_code s = ResolveCodeUnknownRecipient"

definition keyed :: "('a \<Rightarrow> outcome) \<Rightarrow> ('a \<Rightarrow> int option) \<Rightarrow> bool" where
  "keyed f key = (\<forall>z. case key z of
     None \<Rightarrow> \<exists>u. f z = skipped u ResolveCodeUnknownRecipient
   | Some u \<Rightarrow> outcome_user (f z) = u \<and> (\<forall>s. f z = Inl s \<longrightarrow> \<not> unknown_skip s))"

lemma keyed_direct: "keyed direct_outcome direct_key"
  by (auto simp: keyed_def direct_outcome_def direct_key_def skipped_def outcome_user_def resolve_codes
      split: option.splits prod.splits if_splits)

lemma keyed_dm: "keyed dm_outcome dm_key"
  by (auto simp: keyed_def dm_outcome_def dm_key_def skipped_def outcome_user_def resolve_codes
      split: option.splits prod.splits if_splits)

lemma keyed_NoneD: "keyed f key \<Longrightarrow> key z = None \<Longrightarrow> \<exists>u. f z = skipped u ResolveCodeUnknownRecipient"
  unfolding keyed_def by (drule spec [of _ z]) simp

lemma keyed_SomeD:
  "keyed f key \<Longrightarrow> key z = Some u \<Longrightarrow> outcome_user (f z) = u \<and> (\<forall>s. f z = Inl s \<longrightarrow> \<not> unknown_skip s)"
  unfolding keyed_def by (drule spec [of _ z]) simp

lemma direct_outcome_row:
  "direct_key (x, row) = Some u \<Longrightarrow> direct_outcome (x, row) = direct_outcome (y, row)"
  by (cases row) (auto simp: direct_outcome_def direct_key_def split: option.splits)

lemma keyed_known:
  assumes "keyed f key"
  shows "\<exists>os. rights (map f zs) = rights os \<and> filter (\<lambda>s. \<not> unknown_skip s) (lefts (map f zs)) = lefts os \<and>
     map outcome_user os = List.map_filter key zs"
proof (induction zs)
  case (Cons z zs)
  then obtain os where os: "rights (map f zs) = rights os"
    "filter (\<lambda>s. \<not> unknown_skip s) (lefts (map f zs)) = lefts os"
    "map outcome_user os = List.map_filter key zs" by blast
  show ?case
  proof (cases "key z")
    case None
    then obtain u where "f z = skipped u ResolveCodeUnknownRecipient"
      using keyed_NoneD [OF assms] by blast
    then show ?thesis
      using os None by (intro exI [of _ os]) (simp add: skipped_def List.map_filter_simps)
  next
    case (Some u)
    then have z: "outcome_user (f z) = u" "\<forall>s. f z = Inl s \<longrightarrow> \<not> unknown_skip s"
      using keyed_SomeD [OF assms] by blast+
    then show ?thesis
      using os Some by (intro exI [of _ "f z # os"]) (cases "f z"; simp add: List.map_filter_simps)
  qed
qed (simp add: List.map_filter_simps exI [of _ "[]"])

lemma keyed_unknown:
  assumes "keyed f key"
  shows "length (filter unknown_skip (lefts (map f zs))) = length (filter (\<lambda>z. key z = None) zs)"
proof (induction zs)
  case (Cons z zs)
  then show ?case
    using assms [unfolded keyed_def, rule_format, of z] by (cases "f z") (auto simp: skipped_def split: option.splits)
qed simp

lemma rights_first_rows:
  assumes "keyed f key"
    and "\<And>x y u. x \<in> set zs \<Longrightarrow> y \<in> set zs \<Longrightarrow> key x = Some u \<Longrightarrow> key y = Some u \<Longrightarrow> f x = f y"
  shows "set (rights (map f (first_rows key {} zs))) = {r. \<exists>z \<in> set zs. f z = Inr r}"
proof (intro set_eqI iffI)
  fix r assume "r \<in> set (rights (map f (first_rows key {} zs)))"
  then show "r \<in> {r. \<exists>z \<in> set zs. f z = Inr r}"
    using set_first_rows [of key "{}" zs] by (auto simp: set_rights)
next
  fix r assume "r \<in> {r. \<exists>z \<in> set zs. f z = Inr r}"
  then obtain z where z: "z \<in> set zs" "f z = Inr r" by blast
  then obtain u where "key z = Some u"
    using keyed_NoneD [OF assms(1), of z] by (cases "key z") auto
  then obtain y where "y \<in> set (first_rows key {} zs)" "f y = f z"
    using known_first_rows [of zs key u f z "{}"] assms(2) z(1) by blast
  then show "r \<in> set (rights (map f (first_rows key {} zs)))"
    using z(2) unfolding set_rights by (metis imageI mem_Collect_eq set_map)
qed

lemma length_filter_mset: "mset xs = mset ys \<Longrightarrow> length (filter P xs) = length (filter P ys)"
  by (metis mset_filter size_mset)

lemma direct_zip_unknown:
  assumes "orders_rows e"
  shows "length (filter (\<lambda>z. direct_key z = None) (direct_zip e n d app ids)) =
    length (filter (\<lambda>i. i \<notin> usr_id ` set (d_users d)) ids)"
proof -
  have "length (filter (\<lambda>z. direct_key z = None) (direct_zip e n d app ids)) =
      length (filter (\<lambda>row. fst row = None) (map snd (direct_zip e n d app ids)))"
    by (simp add: filter_map comp_def direct_key_def)
  also have "\<dots> = length (filter (\<lambda>row. fst row = None) (map (direct_row d app) ids))"
    unfolding direct_zip_rows [OF assms] by (rule length_filter_mset) (rule mset_unordered [OF assms])
  also have "\<dots> = length (filter (\<lambda>i. i \<notin> usr_id ` set (d_users d)) ids)"
    by (simp add: filter_map comp_def direct_row_unknown)
  finally show ?thesis .
qed

lemma direct_zip_recipients:
  assumes "users_ok d" "orders_rows e"
  shows "{r. \<exists>z \<in> set (direct_zip e n d app ids). direct_outcome z = Inr r} =
    {r. rc_channel r = ''supergroup'' \<and> (\<exists>u \<in> set (d_users d). usr_id u \<in> set ids \<and>
       usr_status u = ''active'' \<and> (usr_id u, app) \<in> set (d_subs d) \<and> usr_bot_is_admin u \<and>
       rc_user r = usr_id u \<and> usr_chat_id u = Some (rc_chat r) \<and>
       user_topic d (usr_id u) app = Some (rc_topic r))}" (is "?L = ?R")
proof (intro subset_antisym subsetI)
  fix r assume "r \<in> ?L"
  then obtain z where z: "z \<in> set (direct_zip e n d app ids)" "direct_outcome z = Inr r" by blast
  note key = direct_zip_key [OF assms(2) z(1) direct_outcome_Inr_key [OF z(2)]]
  then obtain u where u: "u \<in> set (d_users d)" "usr_id u = rc_user r" by auto
  have "direct_outcome (fst z, direct_row d app (usr_id u)) = Inr r"
    using z(2) key(1) u(2) by (metis prod.collapse)
  then have "usr_status u = ''active'' \<and> (usr_id u, app) \<in> set (d_subs d) \<and> usr_bot_is_admin u \<and>
       rc_user r = usr_id u \<and> usr_chat_id u = Some (rc_chat r) \<and>
       user_topic d (usr_id u) app = Some (rc_topic r) \<and> rc_channel r = ''supergroup''"
    using direct_outcome_known [OF assms(1) u(1)] by blast
  moreover have "usr_id u \<in> set ids" using key(2) u(2) by simp
  ultimately show "r \<in> ?R" using u(1) by blast
next
  fix r assume "r \<in> ?R"
  then obtain u where u: "u \<in> set (d_users d)" "usr_id u \<in> set ids"
    and "usr_status u = ''active'' \<and> (usr_id u, app) \<in> set (d_subs d) \<and> usr_bot_is_admin u \<and>
       rc_user r = usr_id u \<and> usr_chat_id u = Some (rc_chat r) \<and>
       user_topic d (usr_id u) app = Some (rc_topic r) \<and> rc_channel r = ''supergroup''" by blast
  then have out: "direct_outcome (x, direct_row d app (usr_id u)) = Inr r" for x
    using direct_outcome_known [OF assms(1) u(1), of x app r] by blast
  obtain z where z: "z \<in> set (direct_zip e n d app ids)" "direct_key z = Some (usr_id u)"
    using direct_zip_known [OF assms(2) u(2), of d n app] u(1) by auto
  then have "snd z = direct_row d app (usr_id u)" by (rule direct_zip_key(1) [OF assms(2)])
  with out have "direct_outcome z = Inr r" by (metis prod.collapse)
  with z(1) show "r \<in> ?L" by blast
qed

lemma ResolveDirect_InrD:
  assumes "fst (ResolveDirect e ids app w) = Inr res"
  shows "app_exists_active (w_db w) app" "res = collect (map direct_outcome
     (first_rows direct_key {} (direct_zip e (Suc (w_tick w)) (w_db w) app ids))) no_result"
  using assms
  by (auto simp: ResolveDirect_def db_query_cases direct_loop_outcomes direct_zip_def split: if_splits)

lemma direct_recipients_lemma:
  assumes "db_ok (w_db w)" "orders_rows e" "fst (ResolveDirect e ids app w) = Inr res"
  shows "set (rr_recipients res) =
      {r. rc_channel r = ''supergroup'' \<and> (\<exists>u \<in> set (d_users (w_db w)). usr_id u \<in> set ids \<and>
         usr_status u = ''active'' \<and> (usr_id u, app) \<in> set (d_subs (w_db w)) \<and> usr_bot_is_admin u \<and>
         rc_user r = usr_id u \<and> usr_chat_id u = Some (rc_chat r) \<and>
         user_topic (w_db w) (usr_id u) app = Some (rc_topic r))} \<and>
    distinct (map rc_user (rr_recipients res) @ map re_user (filter (\<lambda>s. \<not> unknown_skip s) (rr_skipped res))) \<and>
    set (map rc_user (rr_recipients res) @ map re_user (filter (\<lambda>s. \<not> unknown_skip s) (rr_skipped res))) =
      set ids \<inter> usr_id ` set (d_users (w_db w)) \<and>
    length (filter unknown_skip (rr_skipped res)) =
      length (filter (\<lambda>i. i \<notin> usr_id ` set (d_users (w_db w))) ids)"
proof -
  let ?d = "w_db w"
  define zs where "zs = direct_zip e (Suc (w_tick w)) ?d app ids"
  note key = direct_zip_key [OF assms(2), where n = "Suc (w_tick w)" and d = ?d and app = app and ids = ids,
      folded zs_def]
  let ?fs = "first_rows direct_key {} zs"
  have res: "rr_recipients res = rights (map direct_outcome ?fs)" "rr_skipped res = lefts (map direct_outcome ?fs)"
    using ResolveDirect_InrD(2) [OF assms(3)] by (simp_all add: collect_def no_result_def zs_def)
  have users: "set (List.map_filter direct_key zs) = set ids \<inter> usr_id ` set (d_users ?d)"
    using key(2,3) direct_zip_known [OF assms(2), of _ ids ?d "Suc (w_tick w)" app]
    unfolding zs_def set_map_filter_iff set_eq_iff Int_iff by metis
  obtain os where os: "rights (map direct_outcome ?fs) = rights os"
    "filter (\<lambda>s. \<not> unknown_skip s) (lefts (map direct_outcome ?fs)) = lefts os"
    "map outcome_user os = List.map_filter direct_key ?fs"
    using keyed_known [OF keyed_direct, of ?fs] by blast
  have dist: "distinct (map outcome_user os)" and os_users: "outcome_user ` set os = set ids \<inter> usr_id ` set (d_users ?d)"
    using keys_first_rows [of direct_key "{}" zs] os(3) users by (simp_all flip: set_map)
  have uok: "users_ok ?d" using assms(1) by (simp add: db_ok_def)
  have same: "direct_outcome x = direct_outcome y" if "x \<in> set zs" "y \<in> set zs" "direct_key x = Some u"
      "direct_key y = Some u" for x y u
    using key(1) [OF that(1,3)] key(1) [OF that(2,4)] that(3)
    by (metis direct_outcome_row prod.collapse)
  have recips: "set (rights (map direct_outcome ?fs)) = {r. \<exists>z \<in> set zs. direct_outcome z = Inr r}"
    using keyed_direct same by (rule rights_first_rows)
  show ?thesis
    unfolding res
  proof (intro conjI)
    show "length (filter unknown_skip (lefts (map direct_outcome ?fs))) =
        length (filter (\<lambda>i. i \<notin> usr_id ` set (d_users ?d)) ids)"
      unfolding keyed_unknown [OF keyed_direct] unknown_first_rows zs_def by (rule direct_zip_unknown [OF assms(2)])
    show "distinct (map rc_user (rights (map direct_outcome ?fs)) @
        map re_user (filter (\<lambda>s. \<not> unknown_skip s) (lefts (map direct_outcome ?fs))))"
      unfolding os by (rule outcome_users_partition(2) [OF dist])
    show "set (map rc_user (rights (map direct_outcome ?fs)) @
        map re_user (filter (\<lambda>s. \<not> unknown_skip s) (lefts (map direct_outcome ?fs)))) =
        set ids \<inter> usr_id ` set (d_users ?d)"
      unfolding os using outcome_users_partition(1) [of os] os_users by simp
  qed (rule recips [unfolded zs_def direct_zip_recipients [OF uok assms(2)], folded zs_def])
qed

lemma dm_row_key:
  assumes "users_ok d"
  shows "dm_key (dm_row d i) = Some u \<longleftrightarrow> (\<exists>v \<in> set (d_users d). usr_telegram_id v = i \<and> usr_id v = u)"
proof -
  have "find (\<lambda>v. usr_telegram_id v = i) (d_users d) = Some v \<longleftrightarrow> v \<in> set (d_users d) \<and> usr_telegram_id v = i" for v
    using find_distinct [of usr_telegram_id "d_users d" v] assms
    by (auto simp: users_ok_def find_Some_iff)
  then show ?thesis by (auto simp: dm_key_def dm_row_def)
qed

lemma dm_row_unknown: "dm_key (dm_row d i) = None \<longleftrightarrow> i \<notin> usr_telegram_id ` set (d_users d)"
  by (auto simp: dm_key_def dm_row_def find_None_iff)

lemma dm_row_inj:
  assumes "users_ok d" "dm_key (dm_row d i) = Some u" "dm_key (dm_row d j) = Some u"
  shows "i = j"
proof -
  obtain v v' where v: "v \<in> set (d_users d)" "usr_telegram_id v = i" "usr_id v = u"
    and v': "v' \<in> set (d_users d)" "usr_telegram_id v' = j" "usr_id v' = u"
    using assms(2,3) unfolding dm_row_key [OF assms(1)] by blast
  have "inj_on usr_id (set (d_users d))" using assms(1) by (simp add: users_ok_def distinct_map)
  with v v' have "v = v'" by (auto dest: inj_onD)
  with v v' show ?thesis by simp
qed

lemma dm_row_outcome:
  assumes "users_ok d" "v \<in> set (d_users d)"
  shows "dm_outcome (dm_row d (usr_telegram_id v)) =
     (if usr_status v \<noteq> ''active'' then skipped (usr_id v) ResolveCodeRecipientInactive
      else Inr \<lparr>rc_user = usr_id v, rc_chat = usr_telegram_id v, rc_topic = 0, rc_channel = ''dm''\<rparr>)"
  using find_distinct [of usr_telegram_id "d_users d" v] assms
  by (simp add: users_ok_def dm_outcome_def dm_row_def)

lemma dm_outcome_recipients:
  assumes "users_ok d"
  shows "{r. \<exists>i \<in> set ids. dm_outcome (dm_row d i) = Inr r} =
    {r. rc_channel r = ''dm'' \<and> rc_topic r = 0 \<and> (\<exists>u \<in> set (d_users d). usr_telegram_id u \<in> set ids \<and>
       usr_status u = ''active'' \<and> rc_user r = usr_id u \<and> rc_chat r = usr_telegram_id u)}" (is "?L = ?R")
proof (intro subset_antisym subsetI)
  fix r assume "r \<in> ?L"
  then obtain i where i: "i \<in> set ids" "dm_outcome (dm_row d i) = Inr r" by blast
  then have "dm_key (dm_row d i) \<noteq> None" using keyed_NoneD [OF keyed_dm, of "dm_row d i"] by auto
  then obtain v where "v \<in> set (d_users d)" "usr_telegram_id v = i"
    using dm_row_unknown [of d i] by auto
  with i show "r \<in> ?R" using dm_row_outcome [OF assms, of v] by (auto split: if_splits)
next
  fix r assume "r \<in> ?R"
  then obtain v where v: "v \<in> set (d_users d)" "usr_telegram_id v \<in> set ids" "usr_status v = ''active''"
    "r = \<lparr>rc_user = usr_id v, rc_chat = usr_telegram_id v, rc_topic = 0, rc_channel = ''dm''\<rparr>"
    by (cases r) auto
  then show "r \<in> ?L" using dm_row_outcome [OF assms v(1)] by auto
qed

lemma dm_recipients_lemma:
  assumes "db_ok (w_db w)" "orders_rows e" "fst (ResolveDirectDM e ids w) = Inr res"
  shows "set (rr_recipients res) =
      {r. rc_channel r = ''dm'' \<and> rc_topic r = 0 \<and> (\<exists>u \<in> set (d_users (w_db w)).
         usr_telegram_id u \<in> set ids \<and> usr_status u = ''active'' \<and> rc_user r = usr_id u \<and>
         rc_chat r = usr_telegram_id u)} \<and>
    distinct (map rc_user (rr_recipients res) @ map re_user (filter (\<lambda>s. \<not> unknown_skip s) (rr_skipped res))) \<and>
    set (map rc_user (rr_recipients res) @ map re_user (filter (\<lambda>s. \<not> unknown_skip s) (rr_skipped res))) =
      {usr_id u | u. u \<in> set (d_users (w_db w)) \<and> usr_telegram_id u \<in> set ids} \<and>
    length (filter unknown_skip (rr_skipped res)) =
      length (filter (\<lambda>i. i \<notin> usr_telegram_id ` set (d_users (w_db w))) ids)"
proof -
  let ?d = "w_db w"
  define rows where "rows = unordered e (w_tick w) (map (dm_row ?d) ids)"
  let ?fs = "first_rows dm_key {} rows"
  have uok: "users_ok ?d" using assms(1) by (simp add: db_ok_def)
  have set_rows: "set rows = dm_row ?d ` set ids"
    by (simp add: rows_def set_unordered [OF assms(2)])
  have res: "rr_recipients res = rights (map dm_outcome ?fs)" "rr_skipped res = lefts (map dm_outcome ?fs)"
    using assms(3) by (auto simp: ResolveDirectDM_def db_query_cases dm_loop_outcomes rows_def collect_def
        no_result_def split: if_splits)
  have users: "set (List.map_filter dm_key rows) = {usr_id u | u. u \<in> set (d_users ?d) \<and> usr_telegram_id u \<in> set ids}"
    by (simp add: set_eq_iff set_map_filter_iff set_rows dm_row_key [OF uok]) blast
  obtain os where os: "rights (map dm_outcome ?fs) = rights os"
    "filter (\<lambda>s. \<not> unknown_skip s) (lefts (map dm_outcome ?fs)) = lefts os"
    "map outcome_user os = List.map_filter dm_key ?fs"
    using keyed_known [OF keyed_dm, of ?fs] by blast
  have dist: "distinct (map outcome_user os)"
    and os_users: "outcome_user ` set os = {usr_id u | u. u \<in> set (d_users ?d) \<and> usr_telegram_id u \<in> set ids}"
    using keys_first_rows [of dm_key "{}" rows] os(3) users by (simp_all flip: set_map)
  have same: "dm_outcome x = dm_outcome y" if "x \<in> set rows" "y \<in> set rows" "dm_key x = Some u"
      "dm_key y = Some u" for x y u
    using that dm_row_inj [OF uok] unfolding set_rows by (metis imageE)
  have recips: "set (rights (map dm_outcome ?fs)) = {r. \<exists>z \<in> set rows. dm_outcome z = Inr r}"
    using keyed_dm same by (rule rights_first_rows)
  have unknown: "length (filter (\<lambda>z. dm_key z = None) rows) = length (filter (\<lambda>i. i \<notin> usr_telegram_id ` set (d_users ?d)) ids)"
    unfolding rows_def length_filter_mset [OF mset_unordered [OF assms(2)]]
    by (simp add: filter_map comp_def dm_row_unknown)
  show ?thesis
    unfolding res
  proof (intro conjI)
    show "distinct (map rc_user (rights (map dm_outcome ?fs)) @
        map re_user (filter (\<lambda>s. \<not> unknown_skip s) (lefts (map dm_outcome ?fs))))"
      unfolding os by (rule outcome_users_partition(2) [OF dist])
    show "set (map rc_user (rights (map dm_outcome ?fs)) @
        map re_user (filter (\<lambda>s. \<not> unknown_skip s) (lefts (map dm_outcome ?fs)))) =
        {usr_id u | u. u \<in> set (d_users ?d) \<and> usr_telegram_id u \<in> set ids}"
      unfolding os using outcome_users_partition(1) [of os] os_users by simp
    show "length (filter unknown_skip (lefts (map dm_outcome ?fs))) =
        length (filter (\<lambda>i. i \<notin> usr_telegram_id ` set (d_users ?d)) ids)"
      unfolding keyed_unknown [OF keyed_dm] unknown_first_rows by (rule unknown)
  qed (use dm_outcome_recipients [OF uok, of ids] in \<open>simp only: recips set_rows bex_simps\<close>)
qed

section \<open>The contract of a strategy\<close>

text \<open>A recipient the handlers may send to: an active user, addressed in their private chat or in the
  supergroup they linked, over a channel the audit log knows.\<close>

definition recipient_ok :: "database \<Rightarrow> recipient \<Rightarrow> bool" where
  "recipient_ok d r = (rc_channel r \<in> set channel_values \<and>
     (\<exists>u \<in> set (d_users d). usr_id u = rc_user r \<and> usr_status u = ''active'' \<and>
        (if rc_channel r = ''dm'' then rc_chat r = usr_telegram_id u
         else usr_chat_id u = Some (rc_chat r) \<and> usr_bot_is_admin u)))"

locale route_strategy =
  fixes resolve :: "env \<Rightarrow> route_request \<Rightarrow> world \<Rightarrow> (strategy_error + resolve_result) \<times> world"
  assumes read_only: "\<exists>n. snd (resolve e r w) = w\<lparr>w_tick := n\<rparr>"
    and recipients: "db_ok (w_db w) \<Longrightarrow> orders_rows e \<Longrightarrow> fst (resolve e r w) = Inr res \<Longrightarrow>
      distinct (map rc_user (rr_recipients res)) \<and>
      (\<forall>h \<in> set (rr_recipients res). recipient_ok (w_db w) h)"
begin

lemma resolve_keeps [simp]:
  "w_db (snd (resolve e r w)) = w_db w" "w_tg (snd (resolve e r w)) = w_tg w"
  using read_only [of e r w] by auto

end

lemma tick_upd: "tick w = w\<lparr>w_tick := Suc (w_tick w)\<rparr>"
  by (simp add: tick_def)

lemma recipient_okI:
  assumes "u \<in> set (d_users d)" "usr_id u = rc_user r" "usr_status u = ''active''"
    and "rc_channel r = ''dm'' \<and> rc_chat r = usr_telegram_id u \<or>
      rc_channel r \<in> {''supergroup'', ''general''} \<and> usr_chat_id u = Some (rc_chat r) \<and> usr_bot_is_admin u"
  shows "recipient_ok d r"
  using assms by (auto simp: recipient_ok_def channel_values_def)

interpretation topic_route: route_strategy TopicStrategy_Resolve
proof
  show "\<exists>n. snd (TopicStrategy_Resolve e r w) = w\<lparr>w_tick := n\<rparr>" for e r w
    by (auto simp: TopicStrategy_Resolve_def ResolveTopic_def db_query_cases tick_upd
        intro: exI [of _ "w_tick w"])
  fix e r w res
  assume "db_ok (w_db w)" "orders_rows e" "fst (TopicStrategy_Resolve e r w) = Inr res"
  then have ok: "db_ok (w_db w)" "fst (ResolveTopic e (rt_app_id r) (normalizeGrade (rt_min_grade r)) w) = Inr res"
    by (auto simp: TopicStrategy_Resolve_def split: if_splits)
  show "distinct (map rc_user (rr_recipients res)) \<and> (\<forall>h \<in> set (rr_recipients res). recipient_ok (w_db w) h)"
    using topic_recipients_lemma [OF ok] by (auto intro: recipient_okI)
qed

interpretation broadcast_route: route_strategy BroadcastAllStrategy_Resolve
proof
  show "\<exists>n. snd (BroadcastAllStrategy_Resolve e r w) = w\<lparr>w_tick := n\<rparr>" for e r w
    by (auto simp: BroadcastAllStrategy_Resolve_def ResolveBroadcast_def db_query_cases tick_upd)
  fix e r w res
  assume ok: "db_ok (w_db w)" "fst (BroadcastAllStrategy_Resolve e r w) = Inr res"
  show "distinct (map rc_user (rr_recipients res)) \<and> (\<forall>h \<in> set (rr_recipients res). recipient_ok (w_db w) h)"
    using broadcast_recipients_lemma [OF ok(1) ok(2) [unfolded BroadcastAllStrategy_Resolve_def]]
    by (auto intro: recipient_okI)
qed

interpretation direct_route: route_strategy DirectStrategy_Resolve
proof
  show "\<exists>n. snd (DirectStrategy_Resolve e r w) = w\<lparr>w_tick := n\<rparr>" for e r w
    by (auto simp: DirectStrategy_Resolve_def ResolveDirect_def db_query_cases tick_upd
        intro: exI [of _ "w_tick w"])
  fix e r w res
  assume "db_ok (w_db w)" "orders_rows e" "fst (DirectStrategy_Resolve e r w) = Inr res"
  then have ok: "db_ok (w_db w)" "orders_rows e" "fst (ResolveDirect e (rt_recipients r) (rt_app_id r) w) = Inr res"
    by (auto simp: DirectStrategy_Resolve_def split: if_splits)
  show "distinct (map rc_user (rr_recipients res)) \<and> (\<forall>h \<in> set (rr_recipients res). recipient_ok (w_db w) h)"
    using direct_recipients_lemma [OF ok] by (auto intro: recipient_okI)
qed

interpretation dm_route: route_strategy DirectDMStrategy_Resolve
proof
  show "\<exists>n. snd (DirectDMStrategy_Resolve e r w) = w\<lparr>w_tick := n\<rparr>" for e r w
    by (auto simp: DirectDMStrategy_Resolve_def ResolveDirectDM_def db_query_cases tick_upd
        intro: exI [of _ "w_tick w"])
  fix e r w res
  assume "db_ok (w_db w)" "orders_rows e" "fst (DirectDMStrategy_Resolve e r w) = Inr res"
  then have ok: "db_ok (w_db w)" "orders_rows e" "fst (ResolveDirectDM e (rt_recipients r) w) = Inr res"
    by (auto simp: DirectDMStrategy_Resolve_def split: if_splits)
  show "distinct (map rc_user (rr_recipients res)) \<and> (\<forall>h \<in> set (rr_recipients res). recipient_ok (w_db w) h)"
    using dm_recipients_lemma [OF ok] by (auto intro: recipient_okI)
qed

section \<open>A concrete world\<close>

definition demo_user :: "int \<Rightarrow> string \<Rightarrow> int option \<Rightarrow> user_row" where
  "demo_user i g chat = \<lparr>usr_id = i, usr_telegram_id = 100 + i, usr_username = None, usr_grade = g,
     usr_preferred_lang = None, usr_agreed_at = None, usr_chat_id = chat, usr_linked_at = None,
     usr_bot_is_admin = (chat \<noteq> None), usr_status = ''active'', usr_anonymized = False,
     usr_created_at = 0, usr_updated_at = 0\<rparr>"

definition demo_route_world :: world where
  "demo_route_world = empty_world\<lparr>w_db := empty_db\<lparr>
     d_apps := [\<lparr>app_id = ''ops'', app_name = ''ops'', app_description = [], app_min_grade = ''user'',
       app_active = True, app_created_at = 0, app_capver = 1, app_created_by = ''seed''\<rparr>],
     d_users := [demo_user 1 ''user'' None, demo_user 2 ''developer'' (Some (-7)), demo_user 3 ''user'' (Some (-8))],
     d_user_seq := 4, d_subs := [(1, ''ops''), (2, ''ops''), (3, ''ops'')],
     d_topics := [\<lparr>top_user = 2, top_app = ''ops'', top_topic_id = 40\<rparr>]\<rparr>\<rparr>"

lemma demo_route_ok: "db_ok (w_db demo_route_world)"
  by (simp add: demo_route_world_def db_ok_defs empty_db_def demo_user_def grade_values_def status_values_def)

lemma gradeRank_known:
  "gradeRank ''user'' = 1" "gradeRank ''developer'' = 2" "gradeRank ''admin'' = 3"
  by code_simp+

lemmas demo_route_simps = demo_route_world_def demo_user_def empty_world_def empty_db_def no_result_def
  db_query_cases app_exists_active_def app_min_grade_or_def user_topic_def maxGrade_def gradeRank_known
  skip_user_def add_recipient_def

lemma demo_route_topic:
  "fst (ResolveTopic demo_env ''ops'' ''developer'' demo_route_world) =
     Inr \<lparr>rr_recipients = [\<lparr>rc_user = 2, rc_chat = -7, rc_topic = 40, rc_channel = ''supergroup''\<rparr>],
          rr_skipped = [\<lparr>re_user = 1, re_code = ResolveCodeGradeInsufficient\<rparr>,
                        \<lparr>re_user = 3, re_code = ResolveCodeGradeInsufficient\<rparr>]\<rparr>"
  by (simp add: ResolveTopic_def topic_rows_def demo_route_simps)

lemma demo_route_broadcast:
  "fst (ResolveBroadcast demo_env ''user'' demo_route_world) =
     Inr \<lparr>rr_recipients = [\<lparr>rc_user = 2, rc_chat = -7, rc_topic = 0, rc_channel = ''general''\<rparr>,
                           \<lparr>rc_user = 3, rc_chat = -8, rc_topic = 0, rc_channel = ''general''\<rparr>],
          rr_skipped = [\<lparr>re_user = 1, re_code = ResolveCodeRecipientNotLinked\<rparr>]\<rparr>"
  by (simp add: ResolveBroadcast_def broadcast_rows_def demo_route_simps)

lemma demo_route_direct:
  "fst (ResolveDirect demo_env [2, 9, 2, 3] ''ops'' demo_route_world) =
     Inr \<lparr>rr_recipients = [\<lparr>rc_user = 2, rc_chat = -7, rc_topic = 40, rc_channel = ''supergroup''\<rparr>],
          rr_skipped = [\<lparr>re_user = 9, re_code = ResolveCodeUnknownRecipient\<rparr>,
                        \<lparr>re_user = 3, re_code = ResolveCodeTopicMissing\<rparr>]\<rparr>"
  by (simp add: ResolveDirect_def direct_row_def demo_route_simps)

lemma demo_route_dm:
  "fst (ResolveDirectDM demo_env [103, 9] demo_route_world) =
     Inr \<lparr>rr_recipients = [\<lparr>rc_user = 3, rc_chat = 103, rc_topic = 0, rc_channel = ''dm''\<rparr>],
          rr_skipped = [\<lparr>re_user = 9, re_code = ResolveCodeUnknownRecipient\<rparr>]\<rparr>"
  by (simp add: ResolveDirectDM_def dm_row_def demo_route_simps)


section \<open>Properties\<close>

text \<open>C16: A topic message goes to exactly the active subscribers of the app whose grade reaches both
  the app's minimum and the requested one, who linked a personal supergroup in which the bot is
  admin and have a topic for the app, in that chat and topic, each once and in the order of their
  ids. Every other active subscriber is reported as skipped, once.\<close>

theorem topic_recipients_exact:
  assumes "db_ok (w_db w)" "fst (ResolveTopic e app g w) = Inr res"
  shows "set (rr_recipients res) =
      {r. rc_channel r = ''supergroup'' \<and> (\<exists>u \<in> set (d_users (w_db w)).
         usr_status u = ''active'' \<and> (usr_id u, app) \<in> set (d_subs (w_db w)) \<and>
         max (gradeRank (app_min_grade_or (w_db w) app)) (gradeRank g) \<le> gradeRank (usr_grade u) \<and>
         usr_bot_is_admin u \<and> rc_user r = usr_id u \<and> usr_chat_id u = Some (rc_chat r) \<and>
         user_topic (w_db w) (usr_id u) app = Some (rc_topic r))} \<and>
    sorted_wrt (<) (map rc_user (rr_recipients res)) \<and>
    distinct (map rc_user (rr_recipients res) @ map re_user (rr_skipped res)) \<and>
    set (map rc_user (rr_recipients res) @ map re_user (rr_skipped res)) =
      {usr_id u | u. u \<in> set (d_users (w_db w)) \<and> usr_status u = ''active'' \<and> (usr_id u, app) \<in> set (d_subs (w_db w))}"
  by (rule topic_recipients_lemma [OF assms])

theorem topic_recipients_exact_witness:
  "{2, 1, 3} = {usr_id u | u. u \<in> set (d_users (w_db demo_route_world)) \<and> usr_status u = ''active'' \<and>
     (usr_id u, ''ops'') \<in> set (d_subs (w_db demo_route_world))}"
  using topic_recipients_exact [OF demo_route_ok demo_route_topic] by (simp add: resolve_codes)

text \<open>A broadcast goes to exactly the active users whose grade reaches the requested one and
  whose linked supergroup has the bot as admin, in the general topic, each once and in the order of
  their ids. Every other active user is reported as skipped, once.\<close>

theorem broadcast_recipients_exact:
  assumes "db_ok (w_db w)" "fst (ResolveBroadcast e g w) = Inr res"
  shows "set (rr_recipients res) =
      {r. rc_channel r = ''general'' \<and> rc_topic r = 0 \<and> (\<exists>u \<in> set (d_users (w_db w)).
         usr_status u = ''active'' \<and> gradeRank g \<le> gradeRank (usr_grade u) \<and>
         usr_bot_is_admin u \<and> rc_user r = usr_id u \<and> usr_chat_id u = Some (rc_chat r))} \<and>
    sorted_wrt (<) (map rc_user (rr_recipients res)) \<and>
    distinct (map rc_user (rr_recipients res) @ map re_user (rr_skipped res)) \<and>
    set (map rc_user (rr_recipients res) @ map re_user (rr_skipped res)) =
      {usr_id u | u. u \<in> set (d_users (w_db w)) \<and> usr_status u = ''active''}"
  by (rule broadcast_recipients_lemma [OF assms])

theorem broadcast_recipients_exact_witness:
  "{2, 3, 1} = {usr_id u | u. u \<in> set (d_users (w_db demo_route_world)) \<and> usr_status u = ''active''}"
  using broadcast_recipients_exact [OF demo_route_ok demo_route_broadcast] by (simp add: resolve_codes)

text \<open>C17: The recipients of a direct message are ids of the users table (\<^verbatim>\<open>users.id\<close>), not Telegram ids as the client
  guide, the skill and the test console say; a Telegram id is looked up among those ids and, as in the witness, is
  an unknown recipient although a user has that Telegram id. In whatever order the database gives its rows, a direct message goes to exactly the
  requested users that are active, subscribed to the app, linked to a supergroup with the bot as
  admin and have a topic, each once however often they were requested. Every other requested user
  that exists is reported as skipped, once, and there are as many unknown-recipient reports as
  unknown ids.\<close>

theorem direct_recipients_exact:
  assumes "db_ok (w_db w)" "orders_rows e" "fst (ResolveDirect e ids app w) = Inr res"
  shows "set (rr_recipients res) =
      {r. rc_channel r = ''supergroup'' \<and> (\<exists>u \<in> set (d_users (w_db w)). usr_id u \<in> set ids \<and>
         usr_status u = ''active'' \<and> (usr_id u, app) \<in> set (d_subs (w_db w)) \<and> usr_bot_is_admin u \<and>
         rc_user r = usr_id u \<and> usr_chat_id u = Some (rc_chat r) \<and>
         user_topic (w_db w) (usr_id u) app = Some (rc_topic r))} \<and>
    distinct (map rc_user (rr_recipients res) @ map re_user (filter (\<lambda>s. \<not> unknown_skip s) (rr_skipped res))) \<and>
    set (map rc_user (rr_recipients res) @ map re_user (filter (\<lambda>s. \<not> unknown_skip s) (rr_skipped res))) =
      set ids \<inter> usr_id ` set (d_users (w_db w)) \<and>
    length (filter unknown_skip (rr_skipped res)) =
      length (filter (\<lambda>i. i \<notin> usr_id ` set (d_users (w_db w))) ids)"
  by (rule direct_recipients_lemma [OF assms])

theorem direct_recipients_exact_witness:
  "102 \<in> usr_telegram_id ` set (d_users (w_db demo_route_world)) \<and>
   (\<exists>res. fst (ResolveDirect demo_env [2, 102, 2, 3] ''ops'' demo_route_world) = Inr res \<and>
      map rc_user (rr_recipients res) = [2] \<and> length (filter unknown_skip (rr_skipped res)) = 1)"
proof -
  have run: "fst (ResolveDirect demo_env [2, 102, 2, 3] ''ops'' demo_route_world) =
     Inr \<lparr>rr_recipients = [\<lparr>rc_user = 2, rc_chat = -7, rc_topic = 40, rc_channel = ''supergroup''\<rparr>],
          rr_skipped = [\<lparr>re_user = 102, re_code = ResolveCodeUnknownRecipient\<rparr>,
                        \<lparr>re_user = 3, re_code = ResolveCodeTopicMissing\<rparr>]\<rparr>" (is "_ = Inr ?res")
    by (simp add: ResolveDirect_def direct_row_def demo_route_simps)
  have "length (filter (\<lambda>i. i \<notin> usr_id ` set (d_users (w_db demo_route_world))) [2, 102, 2, 3]) = 1"
    by (simp add: demo_route_world_def demo_user_def)
  then have "length (filter unknown_skip (rr_skipped ?res)) = 1"
    using direct_recipients_exact [OF demo_route_ok demo_env_orders run] by simp
  with run show ?thesis by (simp add: demo_route_world_def demo_user_def)
qed

text \<open>In whatever order the database gives its rows, a direct message by Telegram id goes to
  exactly the active users with one of the requested Telegram ids, in their private chat, each once.
  Every other requested user that exists is skipped as inactive, once, and the unknown-recipient
  reports are exactly the requested ids that belong to nobody.\<close>

theorem dm_recipients_exact:
  assumes "db_ok (w_db w)" "orders_rows e" "fst (ResolveDirectDM e ids w) = Inr res"
  shows "set (rr_recipients res) =
      {r. rc_channel r = ''dm'' \<and> rc_topic r = 0 \<and> (\<exists>u \<in> set (d_users (w_db w)).
         usr_telegram_id u \<in> set ids \<and> usr_status u = ''active'' \<and> rc_user r = usr_id u \<and>
         rc_chat r = usr_telegram_id u)} \<and>
    distinct (map rc_user (rr_recipients res) @ map re_user (filter (\<lambda>s. \<not> unknown_skip s) (rr_skipped res))) \<and>
    set (map rc_user (rr_recipients res) @ map re_user (filter (\<lambda>s. \<not> unknown_skip s) (rr_skipped res))) =
      {usr_id u | u. u \<in> set (d_users (w_db w)) \<and> usr_telegram_id u \<in> set ids} \<and>
    length (filter unknown_skip (rr_skipped res)) =
      length (filter (\<lambda>i. i \<notin> usr_telegram_id ` set (d_users (w_db w))) ids)"
  by (rule dm_recipients_lemma [OF assms])

theorem dm_recipients_exact_witness:
  "length (filter (\<lambda>i. i \<notin> usr_telegram_id ` set (d_users (w_db demo_route_world))) [103, 9]) = 1"
  using dm_recipients_exact [OF demo_route_ok demo_env_orders demo_route_dm] by (simp add: resolve_codes)

end
