(* ===== verification/Telegram_Dispatch.thy ===== *)
theory Telegram_Dispatch
  imports Rate_Limit Strategy
begin

text \<open>
  Sending one message: \<^verbatim>\<open>src/internal/dispatch/dispatcher.go\<close> and
  \<^verbatim>\<open>src/internal/dispatch/telegram/dispatcher.go\<close>. The limiter is the dispatch limiter in the
  state, the bot client is \<open>tg_invoke\<close>. Locale \<open>dispatcher\<close> is the interface
  \<^verbatim>\<open>dispatch.Dispatcher\<close> as the handlers use it.
\<close>

record delivery_result =
  dr_message_id :: int
  dr_delivered_at :: time

text \<open>The sentinel errors; the text wrapped around them is not looked at by any caller. The last one
  is the error of a context that ended.\<close>

datatype dispatch_error =
    ErrChatNotFound | ErrBotNotAdmin | ErrRateLimited | ErrTelegramAuth | ErrTransient | Ctx_done

definition classify :: "string \<Rightarrow> dispatch_error" where
  "classify err =
     (let low = ToLower err
      in if Contains low ''chat not found'' then ErrChatNotFound
         else if Contains low ''bot is not a member'' \<or> Contains low ''not enough rights'' \<or>
                 Contains low ''have no rights'' then ErrBotNotAdmin
         else if Contains low ''too many requests'' \<or> Contains low ''retry_after'' then ErrRateLimited
         else if Contains low ''unauthorized'' then ErrTelegramAuth
         else ErrTransient)"

text \<open>\<^verbatim>\<open>limiter.Allow\<close> with the clock and the limiter of the state.\<close>

definition limiter_Allow :: "env \<Rightarrow> string \<Rightarrow> world \<Rightarrow> decision \<times> world" where
  "limiter_Allow e key w =
     (case read_clock e w of (now, w1) \<Rightarrow>
      case dispatch_Allow key now (w_dispatch w1) of (d, l) \<Rightarrow> (d, w1\<lparr>w_dispatch := l\<rparr>))"

definition sendParams :: "recipient \<Rightarrow> envelope \<Rightarrow> tg_call" where
  "sendParams h en = SendMessage (rc_chat h) (if rc_topic h > 0 then Some (rc_topic h) else None) (en_text en)"

text \<open>The rest of \<^verbatim>\<open>Send\<close> after the limiter.\<close>

definition send_now :: "env \<Rightarrow> recipient \<Rightarrow> envelope \<Rightarrow> world \<Rightarrow> (dispatch_error + delivery_result) \<times> world" where
  "send_now e h en w =
     (case tg_invoke e (sendParams h en) w of
        (Tg_error err, w1) \<Rightarrow> (Inl (classify err), w1)
      | (Tg_nil, w1) \<Rightarrow> (Inl ErrTransient, w1)
      | (Tg_ok msg, w1) \<Rightarrow>
          (case read_clock e w1 of (now, w2) \<Rightarrow>
           (Inr \<lparr>dr_message_id = msg, dr_delivered_at = now\<rparr>, w2)))"

definition Send :: "env \<Rightarrow> recipient \<Rightarrow> envelope \<Rightarrow> world \<Rightarrow> (dispatch_error + delivery_result) \<times> world" where
  "Send e h en w =
     (case limiter_Allow e (''chat:'' @ FormatInt (rc_chat h)) w of (d, w1) \<Rightarrow>
      if \<not> dec_allowed d then
        (if dec_retry_after d > 0 then
           (if env_cancel e (w_tick w1) then (Inl Ctx_done, tick w1)
            else send_now e h en (tick w1))
         else (Inl ErrRateLimited, w1))
      else send_now e h en w1)"


section \<open>What a dispatcher promises\<close>

text \<open>One send makes at most one call to Telegram, the one for its recipient and text, and leaves the
  tables alone; success means that the call was made and that Telegram answered it with the message
  id that is reported.\<close>

locale dispatcher =
  fixes send :: "env \<Rightarrow> recipient \<Rightarrow> envelope \<Rightarrow> world \<Rightarrow> (dispatch_error + delivery_result) \<times> world"
  assumes send_db: "w_db (snd (send e h en w)) = w_db w"
    and send_calls: "w_tg (snd (send e h en w)) = w_tg w \<or> w_tg (snd (send e h en w)) = w_tg w @ [sendParams h en]"
    and send_ok: "fst (send e h en w) = Inr res \<Longrightarrow>
      w_tg (snd (send e h en w)) = w_tg w @ [sendParams h en] \<and>
      env_tg e (w_tg w) (sendParams h en) = Tg_ok (dr_message_id res)"
begin

lemma send_prefix: "\<exists>cs. w_tg (snd (send e h en w)) = w_tg w @ cs \<and> set cs \<subseteq> {sendParams h en}"
  using send_calls [of e h en w] by auto

end

lemma limiter_Allow_keeps [simp]:
  "w_db (snd (limiter_Allow e k w)) = w_db w" "w_tg (snd (limiter_Allow e k w)) = w_tg w"
  by (simp_all add: limiter_Allow_def read_clock_def split: prod.splits)

lemma send_now_keeps [simp]:
  "w_db (snd (send_now e h en w)) = w_db w" "w_tg (snd (send_now e h en w)) = w_tg w @ [sendParams h en]"
  by (simp_all add: send_now_def tg_invoke_def read_clock_def split: tg_reply.splits prod.splits)

lemma send_now_ok:
  "fst (send_now e h en w) = Inr res \<Longrightarrow> env_tg e (w_tg w) (sendParams h en) = Tg_ok (dr_message_id res)"
  by (auto simp: send_now_def tg_invoke_def read_clock_def split: tg_reply.splits prod.splits)

lemma Send_cases:
  obtains (sent) w1 where "Send e h en w = send_now e h en w1" "w_db w1 = w_db w" "w_tg w1 = w_tg w"
    | (refused) err w1 where "Send e h en w = (Inl err, w1)" "w_db w1 = w_db w" "w_tg w1 = w_tg w"
proof -
  obtain d w1 where a: "limiter_Allow e (''chat:'' @ FormatInt (rc_chat h)) w = (d, w1)" by fastforce
  then have "w_db w1 = w_db w" "w_tg w1 = w_tg w"
    using limiter_Allow_keeps [of e "''chat:'' @ FormatInt (rc_chat h)" w] by simp_all
  with a sent [of w1] sent [of "tick w1"] refused show thesis
    by (cases "dec_allowed d"; cases "0 < dec_retry_after d"; cases "env_cancel e (w_tick w1)")
      (auto simp: Send_def)
qed

interpretation tgd: dispatcher Send
proof
  fix e h en w
  show "w_db (snd (Send e h en w)) = w_db w"
    by (cases rule: Send_cases [of e h en w]) simp_all
  show "w_tg (snd (Send e h en w)) = w_tg w \<or> w_tg (snd (Send e h en w)) = w_tg w @ [sendParams h en]"
    by (cases rule: Send_cases [of e h en w]) simp_all
  show "w_tg (snd (Send e h en w)) = w_tg w @ [sendParams h en] \<and>
      env_tg e (w_tg w) (sendParams h en) = Tg_ok (dr_message_id res)"
    if "fst (Send e h en w) = Inr res" for res
    using that by (cases rule: Send_cases [of e h en w]) (auto dest: send_now_ok)
qed

text \<open>A call whose rate-limit wait ends is sent without a further look at the limiter: when the
  limiter defers a message and the context stays alive, the message is sent after the single wait,
  whether or not the bucket has a token by then.\<close>

theorem deferred_send_goes_out:
  assumes "limiter_Allow e (''chat:'' @ FormatInt (rc_chat h)) w = (d, w1)"
    and "\<not> dec_allowed d" "0 < dec_retry_after d" "\<not> env_cancel e (w_tick w1)"
  shows "w_tg (snd (Send e h en w)) = w_tg w @ [sendParams h en] \<and>
    w_dispatch (snd (Send e h en w)) = w_dispatch w1"
proof -
  have "w_tg w1 = w_tg w" using limiter_Allow_keeps(2) [of e _ w] assms(1) by (metis snd_conv)
  moreover have "w_dispatch (snd (send_now e h en w')) = w_dispatch w'" for w'
    by (simp add: send_now_def tg_invoke_def read_clock_def tick_def split: tg_reply.splits prod.splits)
  ultimately show ?thesis using assms by (simp add: Send_def tick_def)
qed

lemma drained_wait: "retry_wait 0 25 = 40000000"
  by code_simp

definition drained_world :: world where
  "drained_world = empty_world\<lparr>w_dispatch := (NewDispatchLimiter (unix_time 1767225600))\<lparr>dl_gTokens := 0\<rparr>\<rparr>"

theorem deferred_send_goes_out_witness:
  "w_tg (snd (Send demo_env \<lparr>rc_user = 1, rc_chat = 5, rc_topic = 0, rc_channel = ''dm''\<rparr>
      \<lparr>en_text = ''hi'', en_schema_version = 1\<rparr> drained_world)) =
   w_tg drained_world @ [sendParams \<lparr>rc_user = 1, rc_chat = 5, rc_topic = 0, rc_channel = ''dm''\<rparr>
      \<lparr>en_text = ''hi'', en_schema_version = 1\<rparr>]"
proof -
  let ?h = "\<lparr>rc_user = 1, rc_chat = 5, rc_topic = 0, rc_channel = ''dm''\<rparr>"
  have "dec_allowed (fst (limiter_Allow demo_env k drained_world)) = False \<and>
      0 < dec_retry_after (fst (limiter_Allow demo_env k drained_world))" for k
    by (simp add: limiter_Allow_def read_clock_def drained_world_def empty_world_def dispatch_Allow_def
        takeGlobal_def NewDispatchLimiter_def time_sub_def drained_wait Let_def)
  then show ?thesis
    using deferred_send_goes_out [of demo_env ?h drained_world
        "fst (limiter_Allow demo_env (''chat:'' @ FormatInt (rc_chat ?h)) drained_world)"
        "snd (limiter_Allow demo_env (''chat:'' @ FormatInt (rc_chat ?h)) drained_world)"]
    by simp
qed

end
