(* ===== verification/Http.thy ===== *)
theory Http
  imports Audit_Chain Auth Rate_Limit Telegram_Dispatch
begin

text \<open>
  The HTTP side: requests, responses and the middlewares of \<^verbatim>\<open>src/internal/api/middleware\<close>, and the
  audit helpers of \<^verbatim>\<open>handlers/common.go\<close>. A request's body is what \<^verbatim>\<open>decodeStrict\<close> makes of it for
  the request type of its route (\<open>Bad_body\<close> when decoding fails). Access-log and error-log lines go to
  standard output and are not part of the state.
\<close>

section \<open>Requests and responses\<close>

record dispatch_request =
  dq_recipients :: "int list"
  dq_app_id :: string
  dq_min_grade :: string
  dq_envelope :: envelope

record create_app_request =
  ca_id :: string
  ca_name :: string
  ca_description :: string
  ca_min_grade :: string
  ca_capabilities :: "string list"

record patch_app_request =
  pa_description :: "string option"
  pa_min_grade :: "string option"
  pa_active :: "bool option"
  pa_add_capabilities :: "string list"
  pa_remove_capabilities :: "string list"

record patch_user_request =
  pu_grade :: string

datatype body = Bad_body | Body_dispatch dispatch_request | Body_create create_app_request
  | Body_patch patch_app_request | Body_user patch_user_request

record http_request =
  hr_method :: string
  hr_path :: string
  hr_authorization :: string
  hr_trace_header :: string
  hr_remote :: string
  hr_query :: "(string \<times> string) list"
  hr_params :: "(string \<times> string) list"
  hr_body :: body
  hr_trace :: string
  hr_requester :: auth_ctx

text \<open>\<^verbatim>\<open>url.Values.Get\<close> and \<^verbatim>\<open>chi.URLParam\<close>: the first value, or the empty string.\<close>

definition get_value :: "(string \<times> string) list \<Rightarrow> string \<Rightarrow> string" where
  "get_value kvs k = (case map_of kvs k of None \<Rightarrow> [] | Some v \<Rightarrow> v)"

record dispatch_report =
  rp_user :: int
  rp_status :: string
  rp_reason :: string
  rp_message_id :: int

record dispatch_response =
  ds_message_id :: string
  ds_delivered :: nat
  ds_skipped :: nat
  ds_failed :: nat
  ds_recipients :: "dispatch_report list"

text \<open>The rows of an audit search (\<^verbatim>\<open>auditRow\<close>); \<^verbatim>\<open>null\<close> is \<^const>\<open>None\<close>.\<close>

record audit_view =
  av_id :: int
  av_at :: string
  av_trace_id :: "string option"
  av_message_id :: "string option"
  av_stage :: string
  av_app_id :: "string option"
  av_capability :: "string option"
  av_capability_set_ver :: "int option"
  av_endpoint :: "string option"
  av_route_strategy :: "string option"
  av_delivery_channel :: "string option"
  av_recipient_user_id :: "int option"
  av_recipient_chat_id :: "int option"
  av_error_code :: "string option"
  av_details_json :: string

text \<open>The body of an answer. \<open>J_ok\<close> is the health check's, with its \<^verbatim>\<open>error\<close> field when it has one.\<close>

datatype reply = J_error string | J_ok bool "string option" | J_dispatch dispatch_response | J_fields details
  | J_audit "audit_view list" int

record response =
  rs_status :: int
  rs_reply :: reply
  rs_headers :: "(string \<times> string) list"

definition writeJSON :: "int \<Rightarrow> reply \<Rightarrow> response" where
  "writeJSON status v = \<lparr>rs_status = status, rs_reply = v, rs_headers = [(''Content-Type'', ''application/json'')]\<rparr>"

definition writeError :: "int \<Rightarrow> string \<Rightarrow> response" where
  "writeError status code = writeJSON status (J_error code)"

text \<open>\<^verbatim>\<open>http.Error\<close> with a JSON text.\<close>

definition httpError :: "int \<Rightarrow> string \<Rightarrow> response" where
  "httpError status code = \<lparr>rs_status = status, rs_reply = J_error code,
     rs_headers = [(''Content-Type'', ''text/plain; charset=utf-8'')]\<rparr>"

type_synonym handler = "http_request \<Rightarrow> world \<Rightarrow> response \<times> world"


section \<open>Middlewares\<close>

definition RequestID :: "env \<Rightarrow> handler \<Rightarrow> handler" where
  "RequestID e nxt r w =
     (case (if hr_trace_header r = [] then new_uuid e w else (hr_trace_header r, w)) of (traceID, w1) \<Rightarrow>
      case nxt (r\<lparr>hr_trace := traceID\<rparr>) w1 of (resp, w2) \<Rightarrow>
      (resp\<lparr>rs_headers := (''X-Trace-Id'', traceID) # rs_headers resp\<rparr>, w2))"

text \<open>A handler that may panic gives \<^const>\<open>None\<close>.\<close>

definition Recover :: "(http_request \<Rightarrow> world \<Rightarrow> response option \<times> world) \<Rightarrow> handler" where
  "Recover nxt r w =
     (case nxt r w of
        (None, w1) \<Rightarrow> (httpError 500 ''internal_error'', w1)
      | (Some resp, w1) \<Rightarrow> (resp, w1))"

definition denyAndAudit :: "env \<Rightarrow> http_request \<Rightarrow> string \<Rightarrow> int \<Rightarrow> world \<Rightarrow> response \<times> world" where
  "denyAndAudit e r code status w =
     (case Write e (zero_event\<lparr>ev_trace_id := hr_trace r, ev_stage := StageDenied,
              ev_endpoint := hr_path r, ev_error_code := code\<rparr>) w of
        (_, w1) \<Rightarrow> (httpError status code, w1))"

text \<open>\<^verbatim>\<open>middleware.Auth\<close>, for any \<^verbatim>\<open>Resolver\<close>.\<close>

definition Auth_mw ::
  "env \<Rightarrow> (env \<Rightarrow> string \<Rightarrow> world \<Rightarrow> (auth_error + requester) \<times> world) \<Rightarrow> handler \<Rightarrow> handler" where
  "Auth_mw e resolve nxt r w =
     (let hdr = hr_authorization r; prefix = ''Bearer ''
      in if \<not> HasPrefix hdr prefix then denyAndAudit e r ''missing_bearer'' 401 w
         else (let bearer = TrimSpace (drop (length prefix) hdr)
               in if bearer = [] then denyAndAudit e r ''empty_bearer'' 401 w
                  else (case resolve e bearer w of
                          (Inl err, w1) \<Rightarrow>
                            denyAndAudit e r
                              (case err of ErrBearerMalformed \<Rightarrow> ''malformed_bearer''
                               | ErrKeyNotFound \<Rightarrow> ''unknown_bearer'' | _ \<Rightarrow> ''invalid_bearer'') 401 w1
                        | (Inr i, w1) \<Rightarrow> nxt (r\<lparr>hr_requester := Some i\<rparr>) w1)))"

definition RequireCapability :: "env \<Rightarrow> string \<Rightarrow> handler \<Rightarrow> handler" where
  "RequireCapability e c nxt r w =
     (case Require (hr_requester r) c of
        Some err \<Rightarrow>
          (let code = (case err of ErrUnauthorized \<Rightarrow> ''unauthenticated'' | ErrForbidden \<Rightarrow> ''forbidden'');
               status = (case err of ErrUnauthorized \<Rightarrow> 401 | ErrForbidden \<Rightarrow> 403);
               app = (case hr_requester r of None \<Rightarrow> [] | Some i \<Rightarrow> rq_app_id i)
           in case Write e (zero_event\<lparr>ev_trace_id := hr_trace r, ev_stage := StageDenied,
                     ev_endpoint := hr_path r, ev_app_id := app, ev_capability := c,
                     ev_error_code := code\<rparr>) w of
                (_, w1) \<Rightarrow> (httpError status code, w1))
      | None \<Rightarrow> nxt r w)"

definition RateLimit :: "env \<Rightarrow> (string \<Rightarrow> policy) option \<Rightarrow> handler \<Rightarrow> handler" where
  "RateLimit e rl nxt r w =
     (case rl of
        None \<Rightarrow> nxt r w
      | Some policyFn \<Rightarrow>
          (let key = (case hr_requester r of None \<Rightarrow> hr_remote r | Some i \<Rightarrow> ''app:'' @ rq_app_id i)
           in case read_clock e w of (now, w1) \<Rightarrow>
              case bucket_Allow policyFn key now (w_buckets w1) of (d, bs) \<Rightarrow>
              (let w2 = w1\<lparr>w_buckets := bs\<rparr>
               in if \<not> dec_allowed d then
                    (let resp = httpError 429 ''rate_limited''
                     in (if dec_retry_after d > 0
                         then resp\<lparr>rs_headers := (''Retry-After'',
                                FormatInt (round_even (Seconds (dec_retry_after d)))) # rs_headers resp\<rparr>
                         else resp, w2))
                  else nxt r w2)))"


section \<open>Log redaction\<close>

text \<open>The pattern \<^verbatim>\<open>(?i)(authorization|api[_-]?key|token|secret|password|ssh[_-]?key|bearer)\<close>: one of
  these words occurs in the key, letter case aside. Case folding also identifies the Kelvin sign with
  k and the long s with s.\<close>

function fold_case :: "string \<Rightarrow> string" where
  "fold_case [] = []"
| "fold_case (c # cs) =
     (if HasPrefix (c # cs) [CHR 0xC5, CHR 0xBF] then CHR ''s'' # fold_case (drop 1 cs)
      else if HasPrefix (c # cs) [CHR 0xE2, CHR 0x84, CHR 0xAA] then CHR ''k'' # fold_case (drop 2 cs)
      else lower_byte c # fold_case cs)"
  by pat_completeness auto
termination
  by (relation "measure length") auto

definition secret_words :: "string list" where
  "secret_words = [''authorization'', ''apikey'', ''api_key'', ''api-key'', ''token'', ''secret'',
     ''password'', ''sshkey'', ''ssh_key'', ''ssh-key'', ''bearer'']"

definition RedactKey :: "string \<Rightarrow> bool" where
  "RedactKey k = list_ex (\<lambda>p. Contains (fold_case k) p) secret_words"

definition emit_fields :: "details \<Rightarrow> details" where
  "emit_fields fs = map (\<lambda>(k, v). if RedactKey k then (k, JStr ''[REDACTED]'') else (k, v)) fs"

definition sanitizePath :: "string \<Rightarrow> string" where
  "sanitizePath p = (case IndexByte p (CHR ''?'') of Some i \<Rightarrow> take i p | None \<Rightarrow> p)"


section \<open>Audit helpers of the handlers\<close>

definition writeAuditSafe :: "env \<Rightarrow> event \<Rightarrow> world \<Rightarrow> (audit_err + unit) \<times> world" where
  "writeAuditSafe e ev w = Write e ev w"

definition newAuditFlow :: "env \<Rightarrow> http_request \<Rightarrow> string \<Rightarrow> world \<Rightarrow> event \<times> world" where
  "newAuditFlow e r cap w =
     (case new_uuid e w of (mid, w1) \<Rightarrow>
      (zero_event\<lparr>ev_trace_id := hr_trace r, ev_message_id := mid, ev_endpoint := hr_path r,
         ev_app_id := (case hr_requester r of None \<Rightarrow> [] | Some i \<Rightarrow> rq_app_id i), ev_capability := cap,
         ev_capability_set_ver := (case hr_requester r of None \<Rightarrow> 0 | Some i \<Rightarrow> rq_capability_set_ver i)\<rparr>,
       w1))"

definition flow_event :: "event \<Rightarrow> string \<Rightarrow> event" where
  "flow_event base stage = base\<lparr>ev_stage := stage\<rparr>"

definition flow_received :: "env \<Rightarrow> event \<Rightarrow> world \<Rightarrow> world" where
  "flow_received e base w = snd (writeAuditSafe e (flow_event base StageReceived) w)"

definition flow_deny :: "env \<Rightarrow> event \<Rightarrow> string \<Rightarrow> int \<Rightarrow> world \<Rightarrow> response \<times> world" where
  "flow_deny e base code status w =
     (case writeAuditSafe e ((flow_event base StageDenied)\<lparr>ev_error_code := code\<rparr>) w of
        (_, w1) \<Rightarrow> (writeError status code, w1))"

definition flow_succeed :: "env \<Rightarrow> event \<Rightarrow> details \<Rightarrow> world \<Rightarrow> world" where
  "flow_succeed e base dets w =
     (let w1 = snd (writeAuditSafe e ((flow_event base StageValidated)\<lparr>ev_details := dets\<rparr>) w)
      in snd (writeAuditSafe e (flow_event base StageDelivered) w1))"

definition HealthHandler :: "env \<Rightarrow> handler" where
  "HealthHandler e r w =
     (case db_trip e w of (ok, w1) \<Rightarrow>
      if \<not> ok then (writeJSON 503 (J_ok False (Some ''db_unreachable'')), w1) else (writeJSON 200 (J_ok True None), w1))"


section \<open>Writing one row\<close>

text \<open>What a row says about its event, as far as the trail of a message is concerned.\<close>

definition row_key :: "audit_row \<Rightarrow> string \<times> string option \<times> int option" where
  "row_key r = (ar_stage r, ar_message_id r, ar_recipient_user_id r)"

definition event_key :: "event \<Rightarrow> string \<times> string option \<times> int option" where
  "event_key ev = (ev_stage ev, nullif_text (ev_message_id ev), nullif_int (ev_recipient_user_id ev))"

lemma row_key_chained [simp]: "row_key (chained_row e ev t d) = event_key ev"
  by (simp add: row_key_def event_key_def chained_row_def unhashed_row_def Let_def)

definition no_faults :: "env \<Rightarrow> bool" where
  "no_faults e = (\<forall>n. \<not> env_fault e n)"

lemma Write_Inr_row:
  assumes "fst (Write e ev w) = Inr ()"
  shows "\<exists>row. d_audit (w_db (snd (Write e ev w))) = d_audit (w_db w) @ [row] \<and> row_key row = event_key ev"
  using assms by (cases rule: Write_cases [of e ev w]) (auto simp: append_audit_def)

definition event_ok :: "event \<Rightarrow> bool" where
  "event_ok ev = (ev_stage ev \<in> set audit_stage_values \<and>
     (ev_delivery_channel ev = [] \<or> ev_delivery_channel ev \<in> set channel_values))"

lemma Write_no_faults:
  assumes "no_faults e" "event_ok ev"
  shows "fst (Write e ev w) = Inr ()"
  using assms
  by (auto simp: no_faults_def event_ok_def Write_eq Let_def insertChainedQuery_def nullif_text_def)

lemma Write_no_faults_keys:
  assumes "no_faults e" "event_ok ev"
  shows "map row_key (d_audit (w_db (snd (Write e ev w)))) = map row_key (d_audit (w_db w)) @ [event_key ev]"
  using Write_Inr_row [OF Write_no_faults [OF assms, of w]] by auto

lemma stages_ok [simp]:
  "StageReceived \<in> set audit_stage_values" "StageValidated \<in> set audit_stage_values"
  "StageDispatched \<in> set audit_stage_values" "StageDelivered \<in> set audit_stage_values"
  "StageDenied \<in> set audit_stage_values" "StageDeferred \<in> set audit_stage_values"
  by (simp_all add: stage_defs audit_stage_values_def)


section \<open>What only audits\<close>

text \<open>The effect of a step that writes audit rows and nothing else to the database: all other tables are
  the same, the log has grown at its end, and the chain is intact if it was.\<close>

definition only_audit :: "env \<Rightarrow> world \<Rightarrow> world \<Rightarrow> bool" where
  "only_audit e w w' = (same_but_audit (w_db w) (w_db w') \<and>
     (\<exists>rows. d_audit (w_db w') = d_audit (w_db w) @ rows) \<and>
     (audit_ok (w_db w) \<longrightarrow> audit_ok (w_db w')) \<and>
     (audit_ok (w_db w) \<and> chain_ok e (w_db w) \<longrightarrow> chain_ok e (w_db w')))"

lemma only_audit_refl [simp, intro]: "w_db w' = w_db w \<Longrightarrow> only_audit e w w'"
  by (simp add: only_audit_def)

lemma only_audit_trans [trans]: "only_audit e w w' \<Longrightarrow> only_audit e w' w'' \<Longrightarrow> only_audit e w w''"
  unfolding only_audit_def using same_but_audit_trans by (metis append_assoc)

lemma only_audit_Write [simp, intro]: "only_audit e w (snd (Write e ev w))"
  using pgw.write_appends [of e ev w] by (auto simp: only_audit_def Write_audit_ok Write_chain_ok)

lemma only_audit_fields:
  assumes "only_audit e w w'"
  shows "d_apps (w_db w') = d_apps (w_db w)" "d_caps (w_db w') = d_caps (w_db w)"
    "d_keys (w_db w') = d_keys (w_db w)" "d_users (w_db w') = d_users (w_db w)"
    "d_subs (w_db w') = d_subs (w_db w)" "d_topics (w_db w') = d_topics (w_db w)"
    "d_tokens (w_db w') = d_tokens (w_db w)" "d_policies (w_db w') = d_policies (w_db w)"
  using assms same_but_audit_fields unfolding only_audit_def by metis+

lemma only_audit_db_ok: "only_audit e w w' \<Longrightarrow> db_ok (w_db w) \<Longrightarrow> db_ok (w_db w')"
  unfolding only_audit_def using same_but_audit_db_ok by (metis db_ok_def)

lemma only_audit_step:
  "w_db w1 = w_db w \<Longrightarrow> only_audit e w1 w' \<Longrightarrow> only_audit e w w'"
  "only_audit e w w1 \<Longrightarrow> w_db w' = w_db w1 \<Longrightarrow> only_audit e w w'"
  by (simp_all add: only_audit_def)

lemma denyAndAudit_effect [simp]:
  "only_audit e w (snd (denyAndAudit e r code status w))" "w_tg (snd (denyAndAudit e r code status w)) = w_tg w"
  "w_buckets (snd (denyAndAudit e r code status w)) = w_buckets w"
  "fst (denyAndAudit e r code status w) = httpError status code"
  by (simp_all add: denyAndAudit_def split_beta)

lemma flow_deny_effect [simp]:
  "only_audit e w (snd (flow_deny e base code status w))" "w_tg (snd (flow_deny e base code status w)) = w_tg w"
  "fst (flow_deny e base code status w) = writeError status code"
  by (simp_all add: flow_deny_def writeAuditSafe_def split_beta)

lemma flow_received_effect [simp]:
  "only_audit e w (flow_received e base w)" "w_tg (flow_received e base w) = w_tg w"
  by (simp_all add: flow_received_def writeAuditSafe_def)

lemma flow_succeed_effect [simp]:
  "only_audit e w (flow_succeed e base dets w)" "w_tg (flow_succeed e base dets w) = w_tg w"
  unfolding flow_succeed_def writeAuditSafe_def Let_def by (auto intro: only_audit_trans)

lemma newAuditFlow_world [simp]: "snd (newAuditFlow e r cap w) = tick w"
  by (simp add: newAuditFlow_def split_beta)


section \<open>Gatekeeping\<close>

text \<open>The interface \<^verbatim>\<open>middleware.Resolver\<close>: resolving changes nothing, and the identity is one that
  the tables grant to the bearer.\<close>

locale resolver =
  fixes resolve :: "env \<Rightarrow> string \<Rightarrow> world \<Rightarrow> (auth_error + requester) \<times> world"
  assumes resolve_db: "w_db (snd (resolve e b w)) = w_db w"
    and resolve_tg: "w_tg (snd (resolve e b w)) = w_tg w" "w_buckets (snd (resolve e b w)) = w_buckets w"
    and resolve_grants: "fst (resolve e b w) = Inr i \<Longrightarrow> grants e (w_db w) b i"
begin

text \<open>Either the next handler runs for a granted identity, on unchanged tables, or the request is
  answered with 401 and at most one audit row is written.\<close>

lemma Auth_cases:
  obtains (passed) b i w1 where "Auth_mw e resolve nxt r w = nxt (r\<lparr>hr_requester := Some i\<rparr>) w1"
      "grants e (w_db w) b i" "w_db w1 = w_db w" "w_tg w1 = w_tg w" "w_buckets w1 = w_buckets w"
      "b = TrimSpace (drop 7 (hr_authorization r))"
    | (denied) code w1 where "Auth_mw e resolve nxt r w = denyAndAudit e r code 401 w1"
      "w_db w1 = w_db w" "w_tg w1 = w_tg w" "w_buckets w1 = w_buckets w"
proof (cases "HasPrefix (hr_authorization r) ''Bearer '' \<and> TrimSpace (drop 7 (hr_authorization r)) \<noteq> []")
  case True
  let ?b = "TrimSpace (drop 7 (hr_authorization r))"
  obtain x w1 where x: "resolve e ?b w = (x, w1)" by fastforce
  then have w1: "w_db w1 = w_db w" "w_tg w1 = w_tg w" "w_buckets w1 = w_buckets w"
    using resolve_db [of e ?b w] resolve_tg [of e ?b w] by simp_all
  show thesis
  proof (cases x)
    case (Inl err)
    with True x w1 denied show thesis by (auto simp: Auth_mw_def Let_def eval_nat_numeral)
  next
    case (Inr i)
    then have "grants e (w_db w) ?b i" using resolve_grants x by (metis fst_conv)
    with True x w1 Inr passed show thesis by (auto simp: Auth_mw_def Let_def eval_nat_numeral)
  qed
next
  case False
  then show thesis
    using denied [of "''missing_bearer''" w] denied [of "''empty_bearer''" w]
    by (cases "HasPrefix (hr_authorization r) ''Bearer ''") (auto simp: Auth_mw_def Let_def eval_nat_numeral)
qed

end

interpretation pgauth: resolver Resolve
proof
  fix e b w i
  show "w_buckets (snd (Resolve e b w)) = w_buckets w"
    by (auto simp: Resolve_def db_trip_def db_query_cases loadCapabilitiesTx_eq split: option.split prod.split)
  show "grants e (w_db w) b i" if "fst (Resolve e b w) = Inr i" using that by (rule Resolve_grants)
qed simp_all

end
