(* ===== verification/Registry.thy ===== *)
theory Registry
  imports Audit_Log
begin

text \<open>
  The stores of \<^verbatim>\<open>src/internal/registry\<close>: users (\<^verbatim>\<open>user.go\<close>), personal supergroups and
  their link tokens (\<^verbatim>\<open>personal_supergroup.go\<close>) and forum topics (\<^verbatim>\<open>user_topics.go\<close>). Each
  operation is one SQL statement; the lemmas show that each keeps the schema's constraints.
\<close>

section \<open>Users\<close>

record user =
  u_id :: int
  u_telegram_id :: int
  u_username :: string
  u_grade :: string
  u_preferred_lang :: string
  u_agreed_at :: "time option"
  u_supergroup :: "int option"
  u_linked_at :: "time option"
  u_bot_is_admin :: bool
  u_status :: string
  u_anonymized :: bool
  u_created_at :: time
  u_updated_at :: time

datatype registry_error = ErrUserNotFound | ErrTokenNotFound | ErrTokenExpired | ErrTopicNotFound
  | Invalid_status | Registry_db db_error

definition coalesce_text :: "string option \<Rightarrow> string" where
  "coalesce_text s = (case s of None \<Rightarrow> [] | Some s \<Rightarrow> s)"

text \<open>The columns that the queries return, as \<^verbatim>\<open>Scan\<close> puts them into the struct.\<close>

definition scan_user :: "user_row \<Rightarrow> user" where
  "scan_user u = \<lparr>u_id = usr_id u, u_telegram_id = usr_telegram_id u,
     u_username = coalesce_text (usr_username u), u_grade = usr_grade u,
     u_preferred_lang = coalesce_text (usr_preferred_lang u), u_agreed_at = usr_agreed_at u,
     u_supergroup = usr_chat_id u, u_linked_at = usr_linked_at u, u_bot_is_admin = usr_bot_is_admin u,
     u_status = usr_status u, u_anonymized = usr_anonymized u,
     u_created_at = usr_created_at u, u_updated_at = usr_updated_at u\<rparr>"

definition new_user_row :: "int \<Rightarrow> int \<Rightarrow> string \<Rightarrow> string \<Rightarrow> time \<Rightarrow> user_row" where
  "new_user_row i tg username lang t =
     \<lparr>usr_id = i, usr_telegram_id = tg, usr_username = nullif_text username, usr_grade = ''user'',
      usr_preferred_lang = nullif_text lang, usr_agreed_at = None, usr_chat_id = None,
      usr_linked_at = None, usr_bot_is_admin = False, usr_status = ''active'',
      usr_anonymized = False, usr_created_at = t, usr_updated_at = t\<rparr>"

definition update_users :: "(user_row \<Rightarrow> bool) \<Rightarrow> (user_row \<Rightarrow> user_row) \<Rightarrow> database \<Rightarrow> database" where
  "update_users p f d = d\<lparr>d_users := map (\<lambda>u. if p u then f u else u) (d_users d)\<rparr>"

text \<open>The number of rows that \<^verbatim>\<open>UPDATE ... WHERE p\<close> affects.\<close>

definition count_users :: "(user_row \<Rightarrow> bool) \<Rightarrow> database \<Rightarrow> nat" where
  "count_users p d = length (filter p (d_users d))"

definition upsert_user :: "int \<Rightarrow> string \<Rightarrow> string \<Rightarrow> user stmt" where
  "upsert_user tg username lang t d =
     (let d1 = d\<lparr>d_user_seq := d_user_seq d + 1\<rparr>
      in case find (\<lambda>u. usr_telegram_id u = tg) (d_users d) of
           None \<Rightarrow>
             (let u = new_user_row (d_user_seq d) tg username lang t
              in Inr (scan_user u, d1\<lparr>d_users := d_users d @ [u]\<rparr>))
         | Some u \<Rightarrow>
             (let f = (\<lambda>u. u\<lparr>usr_username := (case nullif_text username of None \<Rightarrow> usr_username u
                                             | Some n \<Rightarrow> Some n), usr_updated_at := t\<rparr>)
              in Inr (scan_user (f u), update_users (\<lambda>u. usr_telegram_id u = tg) f d1)))"

definition UpsertOnStart ::
  "env \<Rightarrow> int \<Rightarrow> string \<Rightarrow> string \<Rightarrow> world \<Rightarrow> (registry_error + user) \<times> world" where
  "UpsertOnStart e tg username lang w =
     (case db_exec e (upsert_user tg username lang) w of
        (Inl err, w1) \<Rightarrow> (Inl (Registry_db err), w1)
      | (Inr u, w1) \<Rightarrow> (Inr u, w1))"

definition GetByTelegramID :: "env \<Rightarrow> int \<Rightarrow> world \<Rightarrow> (registry_error + user) \<times> world" where
  "GetByTelegramID e tg w =
     (case db_query e (\<lambda>t d. find (\<lambda>u. usr_telegram_id u = tg) (d_users d)) w of
        (Inl err, w1) \<Rightarrow> (Inl (Registry_db err), w1)
      | (Inr None, w1) \<Rightarrow> (Inl ErrUserNotFound, w1)
      | (Inr (Some u), w1) \<Rightarrow> (Inr (scan_user u), w1))"

text \<open>Runs an \<^verbatim>\<open>UPDATE users\<close> and gives the number of affected rows.\<close>

definition exec_update ::
  "env \<Rightarrow> (user_row \<Rightarrow> bool) \<Rightarrow> (time \<Rightarrow> user_row \<Rightarrow> user_row) \<Rightarrow> world \<Rightarrow> (registry_error + nat) \<times> world" where
  "exec_update e p f w =
     (case db_exec e (\<lambda>t d. Inr (count_users p d, update_users p (f t) d)) w of
        (Inl err, w1) \<Rightarrow> (Inl (Registry_db err), w1)
      | (Inr n, w1) \<Rightarrow> (Inr n, w1))"

definition MarkAgreed :: "env \<Rightarrow> int \<Rightarrow> world \<Rightarrow> (registry_error + bool) \<times> world" where
  "MarkAgreed e uid w =
     (case exec_update e (\<lambda>u. usr_id u = uid \<and> usr_agreed_at u = None)
             (\<lambda>t u. u\<lparr>usr_agreed_at := Some t, usr_updated_at := t\<rparr>) w of
        (Inl err, w1) \<Rightarrow> (Inl err, w1)
      | (Inr n, w1) \<Rightarrow> (Inr (n = 1), w1))"

definition Anonymize :: "env \<Rightarrow> int \<Rightarrow> world \<Rightarrow> (registry_error + unit) \<times> world" where
  "Anonymize e uid w =
     (case exec_update e (\<lambda>u. usr_id u = uid)
             (\<lambda>t u. u\<lparr>usr_username := None, usr_preferred_lang := None, usr_chat_id := None,
                usr_linked_at := None, usr_bot_is_admin := False, usr_anonymized := True,
                usr_status := ''anonymized'', usr_updated_at := t\<rparr>) w of
        (Inl err, w1) \<Rightarrow> (Inl err, w1)
      | (Inr n, w1) \<Rightarrow> (Inr (), w1))"

definition SetStatus :: "env \<Rightarrow> int \<Rightarrow> string \<Rightarrow> world \<Rightarrow> (registry_error + unit) \<times> world" where
  "SetStatus e uid status w =
     (if status \<noteq> ''active'' \<and> status \<noteq> ''paused'' then (Inl Invalid_status, w)
      else (case exec_update e (\<lambda>u. usr_id u = uid \<and> usr_status u \<noteq> ''anonymized'')
                   (\<lambda>t u. u\<lparr>usr_status := status, usr_updated_at := t\<rparr>) w of
              (Inl err, w1) \<Rightarrow> (Inl err, w1)
            | (Inr n, w1) \<Rightarrow> (Inr (), w1)))"


section \<open>Personal supergroups\<close>

text \<open>\<^verbatim>\<open>now() + (int(ttl.Seconds()) || ' seconds')::interval\<close>; a conflict on the token does
  nothing, a new row needs its user.\<close>

definition issue_token :: "string \<Rightarrow> int \<Rightarrow> duration \<Rightarrow> unit stmt" where
  "issue_token token uid ttl t d =
     (if list_ex (\<lambda>k. tok_token k = token) (d_tokens d) then Inr ((), d)
      else if \<not> list_ex (\<lambda>u. usr_id u = uid) (d_users d) then Inl Fk_violation
      else Inr ((), d\<lparr>d_tokens := d_tokens d @ [\<lparr>tok_token = token, tok_user = uid,
              tok_expires_at = t + (ttl div second_ns) * second_ns\<rparr>]\<rparr>))"

definition IssueToken :: "env \<Rightarrow> string \<Rightarrow> int \<Rightarrow> duration \<Rightarrow> world \<Rightarrow> (registry_error + unit) \<times> world" where
  "IssueToken e token uid ttl w =
     (case db_exec e (issue_token token uid ttl) w of
        (Inl err, w1) \<Rightarrow> (Inl (Registry_db err), w1)
      | (Inr _, w1) \<Rightarrow> (Inr (), w1))"

definition delete_token :: "string \<Rightarrow> token_row option stmt" where
  "delete_token token t d =
     Inr (find (\<lambda>k. tok_token k = token) (d_tokens d),
          d\<lparr>d_tokens := filter (\<lambda>k. tok_token k \<noteq> token) (d_tokens d)\<rparr>)"

definition ConsumeToken :: "env \<Rightarrow> string \<Rightarrow> world \<Rightarrow> (registry_error + int) \<times> world" where
  "ConsumeToken e token w =
     (case db_exec e (delete_token token) w of
        (Inl err, w1) \<Rightarrow> (Inl (Registry_db err), w1)
      | (Inr None, w1) \<Rightarrow> (Inl ErrTokenNotFound, w1)
      | (Inr (Some k), w1) \<Rightarrow>
          (case read_clock e w1 of (now, w2) \<Rightarrow>
           if now > tok_expires_at k then (Inl ErrTokenExpired, w2) else (Inr (tok_user k), w2)))"

definition LinkSupergroup :: "env \<Rightarrow> int \<Rightarrow> int \<Rightarrow> world \<Rightarrow> (registry_error + unit) \<times> world" where
  "LinkSupergroup e uid chat w =
     (case exec_update e (\<lambda>u. usr_id u = uid \<and> usr_status u \<noteq> ''anonymized'')
             (\<lambda>t u. u\<lparr>usr_chat_id := Some chat, usr_linked_at := Some t, usr_bot_is_admin := False,
                usr_updated_at := t\<rparr>) w of
        (Inl err, w1) \<Rightarrow> (Inl err, w1)
      | (Inr n, w1) \<Rightarrow> (Inr (), w1))"

definition SetBotIsAdmin :: "env \<Rightarrow> int \<Rightarrow> bool \<Rightarrow> world \<Rightarrow> (registry_error + unit) \<times> world" where
  "SetBotIsAdmin e uid isAdmin w =
     (case exec_update e (\<lambda>u. usr_id u = uid)
             (\<lambda>t u. u\<lparr>usr_bot_is_admin := isAdmin, usr_updated_at := t\<rparr>) w of
        (Inl err, w1) \<Rightarrow> (Inl err, w1)
      | (Inr n, w1) \<Rightarrow> (Inr (), w1))"

definition ResetLink :: "env \<Rightarrow> int \<Rightarrow> world \<Rightarrow> (registry_error + unit) \<times> world" where
  "ResetLink e uid w =
     (case exec_update e (\<lambda>u. usr_id u = uid)
             (\<lambda>t u. u\<lparr>usr_chat_id := None, usr_linked_at := None, usr_bot_is_admin := False,
                usr_updated_at := t\<rparr>) w of
        (Inl err, w1) \<Rightarrow> (Inl err, w1)
      | (Inr n, w1) \<Rightarrow> (Inr (), w1))"

text \<open>The column has no unique constraint: with several users of a chat, the first row that comes.\<close>

definition FindUserByChatID :: "env \<Rightarrow> int \<Rightarrow> world \<Rightarrow> (registry_error + int) \<times> world" where
  "FindUserByChatID e chat w =
     (case db_query e (\<lambda>t d. unordered e (w_tick w)
             (map usr_id (filter (\<lambda>u. usr_chat_id u = Some chat) (d_users d)))) w of
        (Inl err, w1) \<Rightarrow> (Inl (Registry_db err), w1)
      | (Inr [], w1) \<Rightarrow> (Inl ErrUserNotFound, w1)
      | (Inr (uid # _), w1) \<Rightarrow> (Inr uid, w1))"


section \<open>Topics\<close>

definition add_topic :: "int \<Rightarrow> string \<Rightarrow> int \<Rightarrow> unit stmt" where
  "add_topic uid app topic t d =
     (if list_ex (\<lambda>r. top_user r = uid \<and> top_app r = app) (d_topics d) then Inr ((), d)
      else if \<not> list_ex (\<lambda>u. usr_id u = uid) (d_users d) \<or> \<not> list_ex (\<lambda>a. app_id a = app) (d_apps d)
      then Inl Fk_violation
      else Inr ((), d\<lparr>d_topics := d_topics d @ [\<lparr>top_user = uid, top_app = app, top_topic_id = topic\<rparr>]\<rparr>))"

definition AddTopic :: "env \<Rightarrow> int \<Rightarrow> string \<Rightarrow> int \<Rightarrow> world \<Rightarrow> (registry_error + unit) \<times> world" where
  "AddTopic e uid app topic w =
     (case db_exec e (add_topic uid app topic) w of
        (Inl err, w1) \<Rightarrow> (Inl (Registry_db err), w1)
      | (Inr _, w1) \<Rightarrow> (Inr (), w1))"

definition RemoveTopic :: "env \<Rightarrow> int \<Rightarrow> string \<Rightarrow> world \<Rightarrow> (registry_error + unit) \<times> world" where
  "RemoveTopic e uid app w =
     (case db_exec e (\<lambda>t d. Inr ((), d\<lparr>d_topics :=
             filter (\<lambda>r. \<not> (top_user r = uid \<and> top_app r = app)) (d_topics d)\<rparr>)) w of
        (Inl err, w1) \<Rightarrow> (Inl (Registry_db err), w1)
      | (Inr _, w1) \<Rightarrow> (Inr (), w1))"

definition GetTopicID :: "env \<Rightarrow> int \<Rightarrow> string \<Rightarrow> world \<Rightarrow> (registry_error + int) \<times> world" where
  "GetTopicID e uid app w =
     (case db_query e (\<lambda>t d. find (\<lambda>r. top_user r = uid \<and> top_app r = app) (d_topics d)) w of
        (Inl err, w1) \<Rightarrow> (Inl (Registry_db err), w1)
      | (Inr None, w1) \<Rightarrow> (Inl ErrTopicNotFound, w1)
      | (Inr (Some r), w1) \<Rightarrow> (Inr (top_topic_id r), w1))"

text \<open>Strings are ordered byte by byte (\<^verbatim>\<open>ORDER BY app_id\<close>).\<close>

fun text_le :: "string \<Rightarrow> string \<Rightarrow> bool" where
  "text_le [] ys = True"
| "text_le (x # xs) [] = False"
| "text_le (x # xs) (y # ys) =
     ((of_char x :: nat) < of_char y \<or> x = y \<and> text_le xs ys)"

fun insert_text :: "string \<Rightarrow> string list \<Rightarrow> string list" where
  "insert_text x [] = [x]"
| "insert_text x (y # ys) = (if text_le x y then x # y # ys else y # insert_text x ys)"

definition sort_text :: "string list \<Rightarrow> string list" where
  "sort_text xs = foldr insert_text xs []"

definition missing_topic_apps :: "int \<Rightarrow> database \<Rightarrow> string list" where
  "missing_topic_apps uid d =
     sort_text (map snd (filter (\<lambda>s. fst s = uid \<and>
        \<not> list_ex (\<lambda>r. top_user r = uid \<and> top_app r = snd s) (d_topics d)) (d_subs d)))"

definition ListSubscribedAppsWithoutTopic :: "env \<Rightarrow> int \<Rightarrow> world \<Rightarrow> (registry_error + string list) \<times> world" where
  "ListSubscribedAppsWithoutTopic e uid w =
     (case db_query e (\<lambda>t d. missing_topic_apps uid d) w of
        (Inl err, w1) \<Rightarrow> (Inl (Registry_db err), w1)
      | (Inr apps, w1) \<Rightarrow> (Inr apps, w1))"

lemma set_insert_text [simp]: "set (insert_text x xs) = insert x (set xs)"
  by (induction x xs rule: insert_text.induct) auto

lemma sort_text_simps [simp]: "sort_text [] = []" "sort_text (x # xs) = insert_text x (sort_text xs)"
  by (simp_all add: sort_text_def)

lemma set_sort_text [simp]: "set (sort_text xs) = set xs"
  by (induction xs) auto

lemma distinct_insert_text: "distinct (insert_text x xs) = (x \<notin> set xs \<and> distinct xs)"
  by (induction x xs rule: insert_text.induct) auto

lemma distinct_sort_text [simp]: "distinct (sort_text xs) = distinct xs"
  by (induction xs) (auto simp: distinct_insert_text)

section \<open>What every operation keeps\<close>

text \<open>The contract shared by the operations: the constraints of the schema hold afterwards, and the
  audit log, the subscriptions and Telegram are not touched, whether the operation succeeds or fails.\<close>

definition store_keeps :: "database \<Rightarrow> database \<Rightarrow> bool" where
  "store_keeps d d' = ((db_ok d \<longrightarrow> db_ok d') \<and> d_audit d' = d_audit d \<and> d_audit_seq d' = d_audit_seq d \<and>
     d_subs d' = d_subs d)"

locale registry_op =
  fixes run :: "env \<Rightarrow> world \<Rightarrow> 'r \<times> world"
  assumes keeps_db: "db_ok (w_db w) \<Longrightarrow> db_ok (w_db (snd (run e w)))"
    and keeps_audit: "d_audit (w_db (snd (run e w))) = d_audit (w_db w)"
      "d_audit_seq (w_db (snd (run e w))) = d_audit_seq (w_db w)"
    and keeps_subs: "d_subs (w_db (snd (run e w))) = d_subs (w_db w)"
    and keeps_tg: "w_tg (snd (run e w)) = w_tg w"
begin

lemma keeps_chain: "chain_ok e (w_db w) \<Longrightarrow> chain_ok e (w_db (snd (run e w)))"
  by (simp add: chain_ok_def keeps_audit)

end

lemma update_users_keeps:
  assumes "db_ok d"
    and "\<And>u. u \<in> set (d_users d) \<Longrightarrow> usr_id (f u) = usr_id u \<and> usr_telegram_id (f u) = usr_telegram_id u \<and>
      usr_grade (f u) \<in> set grade_values \<and> usr_status (f u) \<in> set status_values"
  shows "db_ok (update_users p f d)"
proof -
  let ?g = "\<lambda>u. if p u then f u else u"
  have ids: "map usr_id (map ?g (d_users d)) = map usr_id (d_users d)"
    "map usr_telegram_id (map ?g (d_users d)) = map usr_telegram_id (d_users d)"
    using assms(2) by (simp_all add: comp_def)
  have "users_ok (update_users p f d)"
  proof -
    have users: "d_users (update_users p f d) = map ?g (d_users d)" by (simp add: update_users_def)
    show ?thesis
      unfolding users_ok_def users ids
      using assms by (auto simp: db_ok_def users_ok_def list_all_iff update_users_def)
  qed
  moreover have "subs_ok (update_users p f d) = subs_ok d" "topics_ok (update_users p f d) = topics_ok d"
    "tokens_ok (update_users p f d) = tokens_ok d"
    using arg_cong [OF ids(1), of set]
    by (simp_all add: update_users_def subs_ok_def topics_ok_def tokens_ok_def)
  ultimately show ?thesis
    using assms(1) by (simp add: db_ok_def) (simp add: update_users_def)
qed

lemma d_users_update_users:
  "d_users (update_users p f d) = map (\<lambda>u. if p u then f u else u) (d_users d)"
  by (simp add: update_users_def)

lemma update_users_mem:
  "v \<in> set (d_users (update_users p f d)) \<longleftrightarrow> (\<exists>x \<in> set (d_users d). v = (if p x then f x else x))"
  unfolding d_users_update_users set_map image_iff by (rule refl)

lemma update_users_audit [simp]:
  "d_audit (update_users p f d) = d_audit d" "d_audit_seq (update_users p f d) = d_audit_seq d"
  "d_subs (update_users p f d) = d_subs d"
  by (simp_all add: update_users_def)

lemma exec_update_world:
  "snd (exec_update e p f w) =
     (if env_fault e (w_tick w) then tick w else (tick w)\<lparr>w_db := update_users p (f (env_now e (w_tick w))) (w_db w)\<rparr>)"
  by (simp add: exec_update_def db_exec_def)

lemma exec_update_keeps:
  assumes "\<And>t u. usr_id (f t u) = usr_id u \<and> usr_telegram_id (f t u) = usr_telegram_id u \<and>
      (usr_grade u \<in> set grade_values \<longrightarrow> usr_grade (f t u) \<in> set grade_values) \<and>
      (usr_status u \<in> set status_values \<longrightarrow> usr_status (f t u) \<in> set status_values)"
  shows "registry_op (\<lambda>e. exec_update e p f)"
proof
  fix e w
  show "db_ok (w_db (snd (exec_update e p f w)))" if "db_ok (w_db w)"
  proof -
    have "db_ok (update_users p (f (env_now e (w_tick w))) (w_db w))"
      using that assms by (intro update_users_keeps) (auto simp: db_ok_def users_ok_def list_all_iff)
    with that show ?thesis by (simp add: exec_update_world)
  qed
qed (simp_all add: exec_update_world)

lemma registry_op_post:
  assumes "registry_op run" "\<And>e w. snd (run' e w) = snd (run e w)"
  shows "registry_op run'"
  using assms unfolding registry_op_def by simp

lemma registry_op_exec:
  assumes "\<And>t d a d'. s t d = Inr (a, d') \<Longrightarrow>
      store_keeps d d'"
  shows "registry_op (\<lambda>e. db_exec e s)"
proof
  fix e w
  have "w_db (snd (db_exec e s w)) = w_db w \<or>
      (\<exists>a. s (env_now e (w_tick w)) (w_db w) = Inr (a, w_db (snd (db_exec e s w))))"
    by (auto simp: db_exec_def split: sum.splits)
  with assms show "db_ok (w_db w) \<Longrightarrow> db_ok (w_db (snd (db_exec e s w)))"
    "d_audit (w_db (snd (db_exec e s w))) = d_audit (w_db w)"
    "d_audit_seq (w_db (snd (db_exec e s w))) = d_audit_seq (w_db w)"
    "d_subs (w_db (snd (db_exec e s w))) = d_subs (w_db w)" unfolding store_keeps_def by metis+
qed simp

lemma find_telegram_None:
  "find (\<lambda>u. usr_telegram_id u = tg) us = None \<longleftrightarrow> tg \<notin> usr_telegram_id ` set us"
  by (auto simp: find_None_iff)

lemma upsert_user_keeps:
  assumes "upsert_user tg name lang t d = Inr (u, d')"
  shows "store_keeps d d'"
proof (cases "find (\<lambda>u. usr_telegram_id u = tg) (d_users d)")
  case None
  then have d': "d' = d\<lparr>d_user_seq := d_user_seq d + 1,
      d_users := d_users d @ [new_user_row (d_user_seq d) tg name lang t]\<rparr>"
    using assms by (simp add: upsert_user_def Let_def)
  have "db_ok d'" if "db_ok d"
    using that None unfolding d' find_telegram_None
    by (auto simp: db_ok_def users_ok_def subs_ok_def topics_ok_def tokens_ok_def new_user_row_def
        list_all_iff grade_values_def status_values_def)
  then show ?thesis by (simp add: d' store_keeps_def)
next
  case (Some v)
  then obtain f where d': "d' = update_users (\<lambda>u. usr_telegram_id u = tg) f (d\<lparr>d_user_seq := d_user_seq d + 1\<rparr>)"
    and f: "\<And>u. usr_id (f u) = usr_id u \<and> usr_telegram_id (f u) = usr_telegram_id u \<and>
      usr_grade (f u) = usr_grade u \<and> usr_status (f u) = usr_status u"
    using assms by (auto simp: upsert_user_def Let_def)
  have "db_ok (d\<lparr>d_user_seq := d_user_seq d + 1\<rparr>)" if "db_ok d"
    using that by (auto simp: db_ok_def users_ok_def list_all_iff)
  moreover have "usr_grade u \<in> set grade_values \<and> usr_status u \<in> set status_values"
    if "db_ok d" "u \<in> set (d_users d)" for u
    using that by (auto simp: db_ok_def users_ok_def list_all_iff)
  ultimately show ?thesis
    unfolding d' store_keeps_def using f by (auto intro: update_users_keeps)
qed

lemma issue_token_keeps:
  "issue_token token uid ttl t d = Inr (u, d') \<Longrightarrow>
     store_keeps d d'"
  by (auto simp: issue_token_def store_keeps_def db_ok_def tokens_ok_def list_all_iff list_ex_iff split: if_splits)

lemma delete_token_keeps:
  "delete_token token t d = Inr (u, d') \<Longrightarrow>
     store_keeps d d'"
  by (auto simp: delete_token_def store_keeps_def db_ok_def tokens_ok_def list_all_iff distinct_map_filter)

lemma add_topic_keeps:
  assumes "add_topic uid app topic t d = Inr (u, d')"
  shows "store_keeps d d'"
proof (cases "list_ex (\<lambda>r. top_user r = uid \<and> top_app r = app) (d_topics d)")
  case False
  then have "(uid, app) \<notin> (\<lambda>t. (top_user t, top_app t)) ` set (d_topics d)"
    by (auto simp: list_ex_iff)
  with False assms show ?thesis
    by (auto simp: add_topic_def store_keeps_def db_ok_def topics_ok_def list_ex_iff split: if_splits)
qed (use assms in \<open>simp add: add_topic_def store_keeps_def\<close>)

lemma snd_case_simps:
  "snd (case p of (Inl x, w1) \<Rightarrow> (f x, w1) | (Inr y, w1) \<Rightarrow> (g y, w1)) = snd p"
  by (auto split: prod.splits sum.splits)

interpretation upsert_op: registry_op "\<lambda>e. UpsertOnStart e tg name lang" for tg name lang
  by (rule registry_op_post [OF registry_op_exec [where s = "upsert_user tg name lang", OF upsert_user_keeps]])
    (simp_all add: UpsertOnStart_def split: prod.splits sum.splits)

interpretation agree_op: registry_op "\<lambda>e. MarkAgreed e uid" for uid
  by (rule registry_op_post [OF exec_update_keeps]) (simp_all add: MarkAgreed_def snd_case_simps)

interpretation anonymize_op: registry_op "\<lambda>e. Anonymize e uid" for uid
  by (rule registry_op_post [OF exec_update_keeps])
    (simp_all add: Anonymize_def snd_case_simps status_values_def)

interpretation issue_op: registry_op "\<lambda>e. IssueToken e token uid ttl" for token uid ttl
  by (rule registry_op_post [OF registry_op_exec [where s = "issue_token token uid ttl", OF issue_token_keeps]])
    (simp_all add: IssueToken_def split: prod.splits sum.splits)

lemma ConsumeToken_world:
  "\<exists>n. snd (ConsumeToken e token w) = (snd (db_exec e (delete_token token) w))\<lparr>w_tick := n\<rparr>"
  by (auto simp: ConsumeToken_def read_clock_def tick_def split: prod.splits sum.splits option.splits
      intro: exI [of _ "w_tick (snd (db_exec e (delete_token token) w))"])

interpretation consume_op: registry_op "\<lambda>e. ConsumeToken e token" for token
proof -
  have op: "registry_op (\<lambda>e. db_exec e (delete_token token))"
    by (rule registry_op_exec [OF delete_token_keeps])
  show "registry_op (\<lambda>e. ConsumeToken e token)"
  proof
    fix e w
    obtain n where "snd (ConsumeToken e token w) = (snd (db_exec e (delete_token token) w))\<lparr>w_tick := n\<rparr>"
      using ConsumeToken_world by blast
    with registry_op.keeps_db [OF op, of w e] registry_op.keeps_audit [OF op, of e w]
      registry_op.keeps_subs [OF op, of e w] registry_op.keeps_tg [OF op, of e w]
    show "db_ok (w_db w) \<Longrightarrow> db_ok (w_db (snd (ConsumeToken e token w)))"
      "d_audit (w_db (snd (ConsumeToken e token w))) = d_audit (w_db w)"
      "d_audit_seq (w_db (snd (ConsumeToken e token w))) = d_audit_seq (w_db w)"
      "d_subs (w_db (snd (ConsumeToken e token w))) = d_subs (w_db w)"
      "w_tg (snd (ConsumeToken e token w)) = w_tg w" by simp_all
  qed
qed

interpretation link_op: registry_op "\<lambda>e. LinkSupergroup e uid chat" for uid chat
  by (rule registry_op_post [OF exec_update_keeps]) (simp_all add: LinkSupergroup_def snd_case_simps)

interpretation admin_op: registry_op "\<lambda>e. SetBotIsAdmin e uid b" for uid b
  by (rule registry_op_post [OF exec_update_keeps]) (simp_all add: SetBotIsAdmin_def snd_case_simps)

interpretation reset_op: registry_op "\<lambda>e. ResetLink e uid" for uid
  by (rule registry_op_post [OF exec_update_keeps]) (simp_all add: ResetLink_def snd_case_simps)

interpretation status_op: registry_op "\<lambda>e. SetStatus e uid status" for uid status
proof -
  let ?p = "\<lambda>u. usr_id u = uid \<and> usr_status u \<noteq> ''anonymized''"
  let ?f = "\<lambda>t u. u\<lparr>usr_status := status, usr_updated_at := t\<rparr>"
  show "registry_op (\<lambda>e. SetStatus e uid status)"
  proof (cases "status = ''active'' \<or> status = ''paused''")
    case True
    have "registry_op (\<lambda>e. exec_update e ?p ?f)"
      using True by (intro exec_update_keeps) (auto simp: status_values_def)
    then show ?thesis
      by (rule registry_op_post) (use True in \<open>auto simp: SetStatus_def snd_case_simps\<close>)
  next
    case False
    then have "SetStatus e uid status w = (Inl Invalid_status, w)" for e w by (simp add: SetStatus_def)
    then show ?thesis by unfold_locales simp_all
  qed
qed

interpretation add_topic_op: registry_op "\<lambda>e. AddTopic e uid app topic" for uid app topic
  by (rule registry_op_post [OF registry_op_exec [where s = "add_topic uid app topic", OF add_topic_keeps]]) (simp_all add: AddTopic_def split: prod.splits sum.splits)

interpretation remove_topic_op: registry_op "\<lambda>e. RemoveTopic e uid app" for uid app
proof (rule registry_op_post [OF registry_op_exec])
  fix t d a d'
  assume "Inr ((), d\<lparr>d_topics := filter (\<lambda>r. \<not> (top_user r = uid \<and> top_app r = app)) (d_topics d)\<rparr>) =
    (Inr (a, d') :: db_error + unit \<times> database)"
  then show "store_keeps d d'"
    by (auto simp: store_keeps_def db_ok_def topics_ok_def list_all_iff distinct_map_filter)
qed (simp add: RemoveTopic_def snd_case_simps)


section \<open>Link tokens\<close>

text \<open>C18: A token is accepted only while it is in the table and not past its expiry, and gives the user
  it was issued to; once a consumption has reached the table, in success or expiry, the token is gone:
  consuming it again, at any later time, is refused.\<close>

theorem token_single_use:
  assumes "db_ok (w_db w)" "ConsumeToken e token w = (res, w')" "\<forall>err. res \<noteq> Inl (Registry_db err)"
    and "d_tokens (w_db w'') = d_tokens (w_db w')"
  shows "(\<forall>uid. res = Inr uid \<longrightarrow> (\<exists>k \<in> set (d_tokens (w_db w)). tok_token k = token \<and> tok_user k = uid \<and>
            env_now e (Suc (w_tick w)) \<le> tok_expires_at k)) \<and>
         (\<forall>e'. fst (ConsumeToken e' token w'') \<in> {Inl ErrTokenNotFound, Inl (Registry_db Db_fault)})"
proof -
  have gone: "find (\<lambda>k. tok_token k = token) (d_tokens (w_db w'')) = None"
    using assms(2-4) by (auto simp: ConsumeToken_def db_exec_def delete_token_def find_None_iff read_clock_def
        split: if_splits option.splits)
  have "fst (ConsumeToken e' token w'') \<in> {Inl ErrTokenNotFound, Inl (Registry_db Db_fault)}" for e'
    using gone by (simp add: ConsumeToken_def db_exec_def delete_token_def)
  moreover have "\<exists>k \<in> set (d_tokens (w_db w)). tok_token k = token \<and> tok_user k = uid \<and>
      env_now e (Suc (w_tick w)) \<le> tok_expires_at k" if "res = Inr uid" for uid
    using assms(2) that by (auto simp: ConsumeToken_def db_exec_def delete_token_def read_clock_def find_Some_iff
        split: if_splits option.splits)
  ultimately show ?thesis by blast
qed

definition demo_token_world :: world where
  "demo_token_world = empty_world\<lparr>w_db := empty_db\<lparr>d_users := [new_user_row 1 7 [] [] 0], d_user_seq := 2,
     d_tokens := [\<lparr>tok_token = ''tk'', tok_user = 1, tok_expires_at = unix_time 1999999999\<rparr>]\<rparr>\<rparr>"

theorem token_single_use_witness:
  "fst (ConsumeToken demo_env ''tk'' (snd (ConsumeToken demo_env ''tk'' demo_token_world)))
     \<in> {Inl ErrTokenNotFound, Inl (Registry_db Db_fault)}"
proof -
  have ok: "db_ok (w_db demo_token_world)"
    by (simp add: demo_token_world_def db_ok_defs empty_db_def new_user_row_def grade_values_def status_values_def)
  have "fst (ConsumeToken demo_env ''tk'' demo_token_world) = Inr 1"
    by (simp add: ConsumeToken_def demo_token_world_def empty_world_def db_exec_def delete_token_def read_clock_def
        unix_time_def)
  then have "ConsumeToken demo_env ''tk'' demo_token_world =
      (Inr 1, snd (ConsumeToken demo_env ''tk'' demo_token_world))" by (metis prod.collapse)
  from token_single_use [OF ok this, of "snd (ConsumeToken demo_env ''tk'' demo_token_world)"]
  show ?thesis by simp
qed


section \<open>Anonymised users\<close>

text \<open>The runs of the registry: any of its operations that write, each of which may fail, and steps of the
  rest of the program that leave the tables alone.\<close>

inductive registry_step :: "env \<Rightarrow> world \<Rightarrow> world \<Rightarrow> bool" for e where
  upsert: "registry_step e w (snd (UpsertOnStart e tg name lang w))"
| agree: "registry_step e w (snd (MarkAgreed e uid w))"
| anonymize: "registry_step e w (snd (Anonymize e uid w))"
| status: "registry_step e w (snd (SetStatus e uid s w))"
| issue: "registry_step e w (snd (IssueToken e token uid ttl w))"
| consume: "registry_step e w (snd (ConsumeToken e token w))"
| link: "registry_step e w (snd (LinkSupergroup e uid chat w))"
| bot_admin: "registry_step e w (snd (SetBotIsAdmin e uid isAdmin w))"
| reset: "registry_step e w (snd (ResetLink e uid w))"
| topic: "registry_step e w (snd (AddTopic e uid app tid w))"
| drop_topic: "registry_step e w (snd (RemoveTopic e uid app w))"
| idle: "w_db w' = w_db w \<Longrightarrow> registry_step e w w'"

text \<open>What stays of an anonymised row: who it was, its grade, and that it is inactive, unlinked and without a language.\<close>

definition stays_anonymous :: "user_row \<Rightarrow> user_row \<Rightarrow> bool" where
  "stays_anonymous u v = (usr_id v = usr_id u \<and> usr_telegram_id v = usr_telegram_id u \<and> usr_grade v = usr_grade u \<and>
     usr_status v = ''anonymized'' \<and> usr_anonymized v \<and> usr_chat_id v = None \<and> usr_linked_at v = None \<and>
     usr_preferred_lang v = None)"

definition anonymous_in :: "user_row \<Rightarrow> world \<Rightarrow> bool" where
  "anonymous_in u w = (\<exists>v \<in> set (d_users (w_db w)). stays_anonymous u v)"

lemma update_anonymous:
  assumes "anonymous_in u w" "\<And>t v. stays_anonymous u v \<Longrightarrow> p v \<Longrightarrow> stays_anonymous u (f t v)"
  shows "anonymous_in u (snd (exec_update e p f w))"
proof -
  obtain v where v: "v \<in> set (d_users (w_db w))" "stays_anonymous u v" using assms(1) by (auto simp: anonymous_in_def)
  let ?v = "if p v then f (env_now e (w_tick w)) v else v"
  have "?v \<in> set (d_users (update_users p (f (env_now e (w_tick w))) (w_db w)))"
    unfolding update_users_mem using v(1) by blast
  moreover have "stays_anonymous u ?v" using v(2) assms(2) by simp
  ultimately show ?thesis using assms(1) by (auto simp: anonymous_in_def exec_update_world)
qed

lemma upsert_anonymous:
  assumes "anonymous_in u w"
  shows "anonymous_in u (snd (UpsertOnStart e tg name lang w))"
proof -
  obtain v where v: "v \<in> set (d_users (w_db w))" "stays_anonymous u v" using assms by (auto simp: anonymous_in_def)
  show ?thesis
  proof (cases "env_fault e (w_tick w)")
    case False
    let ?t = "env_now e (w_tick w)"
    show ?thesis
    proof (cases "find (\<lambda>u. usr_telegram_id u = tg) (d_users (w_db w))")
      case None
      with v False show ?thesis
        by (auto simp: anonymous_in_def UpsertOnStart_def snd_case_simps db_exec_def upsert_user_def Let_def)
    next
      case (Some x)
      let ?f = "\<lambda>u. u\<lparr>usr_username := (case nullif_text name of None \<Rightarrow> usr_username u | Some n \<Rightarrow> Some n), usr_updated_at := ?t\<rparr>"
      let ?d = "(w_db w)\<lparr>d_user_seq := d_user_seq (w_db w) + 1\<rparr>" and ?v = "if usr_telegram_id v = tg then ?f v else v"
      have db: "w_db (snd (UpsertOnStart e tg name lang w)) = update_users (\<lambda>u. usr_telegram_id u = tg) ?f ?d"
        using False Some by (simp add: UpsertOnStart_def snd_case_simps db_exec_def upsert_user_def Let_def)
      have "?v \<in> set (d_users (update_users (\<lambda>u. usr_telegram_id u = tg) ?f ?d))"
        unfolding update_users_mem using v(1) by (intro bexI [of _ v]) simp_all
      moreover have "stays_anonymous u ?v" using v(2) by (simp add: stays_anonymous_def)
      ultimately show ?thesis unfolding anonymous_in_def db by (rule bexI [rotated])
    qed
  qed (use assms in \<open>simp add: anonymous_in_def UpsertOnStart_def snd_case_simps db_exec_def\<close>)
qed

lemma db_exec_users:
  assumes "\<And>t d a d'. s t d = Inr (a, d') \<Longrightarrow> d_users d' = d_users d"
  shows "d_users (w_db (snd (db_exec e s w))) = d_users (w_db w)"
  using assms by (auto simp: db_exec_def split: sum.split)

lemma ConsumeToken_db: "w_db (snd (ConsumeToken e token w)) = w_db (snd (db_exec e (delete_token token) w))"
  by (auto simp: ConsumeToken_def read_clock_def split: prod.split sum.split option.split)

lemma tokens_topics_users:
  "d_users (w_db (snd (IssueToken e token uid ttl w))) = d_users (w_db w)"
  "d_users (w_db (snd (ConsumeToken e token w))) = d_users (w_db w)"
  "d_users (w_db (snd (AddTopic e uid app tid w))) = d_users (w_db w)"
  "d_users (w_db (snd (RemoveTopic e uid app w))) = d_users (w_db w)"
  unfolding IssueToken_def AddTopic_def RemoveTopic_def snd_case_simps ConsumeToken_db
  by (rule db_exec_users; force simp: issue_token_def delete_token_def add_topic_def split: if_splits)+

lemma registry_step_anonymous:
  assumes "registry_step e w w'" "anonymous_in u w"
  shows "anonymous_in u w'"
  using assms(1)
proof cases
  case (upsert tg name lang)
  then show ?thesis using upsert_anonymous [OF assms(2)] by simp
next
  case (agree uid)
  show ?thesis unfolding agree MarkAgreed_def snd_case_simps
    by (rule update_anonymous [OF assms(2)]) (simp add: stays_anonymous_def)
next
  case (anonymize uid)
  show ?thesis unfolding anonymize Anonymize_def snd_case_simps
    by (rule update_anonymous [OF assms(2)]) (simp add: stays_anonymous_def)
next
  case (status uid s)
  have "anonymous_in u (snd (exec_update e (\<lambda>u. usr_id u = uid \<and> usr_status u \<noteq> ''anonymized'')
      (\<lambda>t u. u\<lparr>usr_status := s, usr_updated_at := t\<rparr>) w))"
    by (rule update_anonymous [OF assms(2)]) (simp add: stays_anonymous_def)
  then show ?thesis using assms(2) by (simp add: status SetStatus_def snd_case_simps)
next
  case (link uid chat)
  show ?thesis unfolding link LinkSupergroup_def snd_case_simps
    by (rule update_anonymous [OF assms(2)]) (simp add: stays_anonymous_def)
next
  case (bot_admin uid isAdmin)
  show ?thesis unfolding bot_admin SetBotIsAdmin_def snd_case_simps
    by (rule update_anonymous [OF assms(2)]) (simp add: stays_anonymous_def)
next
  case (reset uid)
  show ?thesis unfolding reset ResetLink_def snd_case_simps
    by (rule update_anonymous [OF assms(2)]) (simp add: stays_anonymous_def)
qed (use assms(2) in \<open>simp_all add: anonymous_in_def tokens_topics_users\<close>)

lemma registry_step_ok: "registry_step e w w' \<Longrightarrow> db_ok (w_db w) \<Longrightarrow> db_ok (w_db w')"
  by (induction rule: registry_step.induct)
    (simp_all add: upsert_op.keeps_db agree_op.keeps_db anonymize_op.keeps_db status_op.keeps_db issue_op.keeps_db
      consume_op.keeps_db link_op.keeps_db admin_op.keeps_db reset_op.keeps_db add_topic_op.keeps_db remove_topic_op.keeps_db)

lemma registry_run_anonymous:
  assumes "(registry_step e)\<^sup>*\<^sup>* w w'" "db_ok (w_db w)" "anonymous_in u w"
  shows "db_ok (w_db w')" "anonymous_in u w'"
  using assms by (induction rule: rtranclp_induct) (auto intro: registry_step_ok registry_step_anonymous)

lemma Anonymize_row:
  assumes "u \<in> set (d_users (w_db w))" "Anonymize e (usr_id u) w = (Inr (), w1)"
  obtains t where "u\<lparr>usr_username := None, usr_preferred_lang := None, usr_chat_id := None, usr_linked_at := None,
    usr_bot_is_admin := False, usr_anonymized := True, usr_status := ''anonymized'', usr_updated_at := t\<rparr> \<in> set (d_users (w_db w1))"
proof -
  have "\<not> env_fault e (w_tick w)" using assms(2) by (auto simp: Anonymize_def exec_update_def db_exec_def)
  then have "w_db w1 = update_users (\<lambda>v. usr_id v = usr_id u) (\<lambda>u. u\<lparr>usr_username := None, usr_preferred_lang := None, usr_chat_id := None,
      usr_linked_at := None, usr_bot_is_admin := False, usr_anonymized := True, usr_status := ''anonymized'',
      usr_updated_at := env_now e (w_tick w)\<rparr>) (w_db w)"
    using arg_cong [OF assms(2), of snd] by (auto simp: Anonymize_def snd_case_simps exec_update_world)
  then show thesis using assms(1) by (intro that) (auto simp: d_users_update_users)
qed

lemma one_row_per_user:
  "db_ok d \<Longrightarrow> u \<in> set (d_users d) \<Longrightarrow> v \<in> set (d_users d) \<Longrightarrow> usr_id u = usr_id v \<Longrightarrow> u = v"
  by (auto simp: db_ok_def users_ok_def dest: map_of_is_SomeI distinct_map [THEN iffD1, THEN conjunct2] inj_onD)


definition demo_user_world :: world where
  "demo_user_world = empty_world\<lparr>w_db := empty_db\<lparr>d_users := [new_user_row 1 7 ''ann'' ''en'' 0], d_user_seq := 2\<rparr>\<rparr>"


text \<open>The upsert of the start command is not a no-op on an existing row: a user who was anonymised
  and sends the command again with a user name has that name stored again, on a row that stays
  marked as anonymised.\<close>

theorem start_stores_name_of_anonymized:
  assumes "u \<in> set (d_users (w_db w))" "usr_telegram_id u = tg" "usr_anonymized u" "name \<noteq> []"
    and "fst (UpsertOnStart e tg name lang w) = Inr r"
  shows "\<exists>v \<in> set (d_users (w_db (snd (UpsertOnStart e tg name lang w)))).
    usr_id v = usr_id u \<and> usr_anonymized v \<and> usr_username v = Some name"
proof -
  obtain v where v: "find (\<lambda>u. usr_telegram_id u = tg) (d_users (w_db w)) = Some v"
    using assms(1,2) by (cases "find (\<lambda>u. usr_telegram_id u = tg) (d_users (w_db w))") (auto simp: find_None_iff)
  have "\<not> env_fault e (w_tick w)" using assms(5) by (auto simp: UpsertOnStart_def db_exec_def)
  with v assms(1-4) show ?thesis
    by (intro bexI [of _ "u\<lparr>usr_username := Some name, usr_updated_at := env_now e (w_tick w)\<rparr>"])
      (auto simp: UpsertOnStart_def snd_case_simps db_exec_def upsert_user_def update_users_def nullif_text_def)
qed

theorem start_stores_name_of_anonymized_witness:
  "\<exists>v \<in> set (d_users (w_db (snd (UpsertOnStart demo_env 7 ''ann'' [] (empty_world\<lparr>w_db := empty_db\<lparr>
      d_users := [(new_user_row 1 7 [] [] 0)\<lparr>usr_anonymized := True\<rparr>]\<rparr>\<rparr>))))).
    usr_id v = 1 \<and> usr_anonymized v \<and> usr_username v = Some ''ann''"
  using start_stores_name_of_anonymized [of "(new_user_row 1 7 [] [] 0)\<lparr>usr_anonymized := True\<rparr>"
      "empty_world\<lparr>w_db := empty_db\<lparr>d_users := [(new_user_row 1 7 [] [] 0)\<lparr>usr_anonymized := True\<rparr>]\<rparr>\<rparr>"
      7 "''ann''" demo_env "[]"]
  by (simp add: new_user_row_def UpsertOnStart_def db_exec_def upsert_user_def)

end
