(* ===== verification/Api_Admin.thy ===== *)
theory Api_Admin
  imports Http Registry
begin

text \<open>
  The administration endpoints that change tables: \<^verbatim>\<open>handlers/admin_apps.go\<close>,
  \<^verbatim>\<open>admin_users.go\<close> and \<^verbatim>\<open>admin_subscriptions.go\<close>. Each handler is set against a pure
  function on the tables, its effect: a request is refused and changes nothing but the audit log, or
  the tables change by exactly the effect of the request. The effects are what the later properties
  are about: which capabilities can be granted, what a deleted or purged application leaves behind.
\<close>

section \<open>Statements\<close>

type_synonym change = "database \<Rightarrow> db_error + database"

definition exec_change :: "env \<Rightarrow> change \<Rightarrow> world \<Rightarrow> (db_error + unit) \<times> world" where
  "exec_change e c = db_exec e (\<lambda>t d. case c d of Inl err \<Rightarrow> Inl err | Inr d' \<Rightarrow> Inr ((), d'))"

text \<open>Statements one after the other, up to the first that fails.\<close>

fun exec_all :: "env \<Rightarrow> change list \<Rightarrow> world \<Rightarrow> (db_error + unit) \<times> world" where
  "exec_all e [] w = (Inr (), w)"
| "exec_all e (c # cs) w =
     (case exec_change e c w of (Inl err, w1) \<Rightarrow> (Inl err, w1) | (Inr _, w1) \<Rightarrow> exec_all e cs w1)"

definition insert_app :: "app_row \<Rightarrow> change" where
  "insert_app a d =
     (if app_min_grade a \<notin> set grade_values then Inl Check_violation
      else if list_ex (\<lambda>b. app_id b = app_id a) (d_apps d) then Inl Unique_violation
      else Inr (d\<lparr>d_apps := d_apps d @ [a]\<rparr>))"

definition insert_cap :: "string \<Rightarrow> string \<Rightarrow> change" where
  "insert_cap app c d =
     (if (app, c) \<in> set (d_caps d) then Inr d
      else if \<not> list_ex (\<lambda>a. app_id a = app) (d_apps d) then Inl Fk_violation
      else Inr (d\<lparr>d_caps := d_caps d @ [(app, c)]\<rparr>))"

definition delete_cap :: "string \<Rightarrow> string \<Rightarrow> change" where
  "delete_cap app c d = Inr (d\<lparr>d_caps := filter (\<lambda>x. x \<noteq> (app, c)) (d_caps d)\<rparr>)"

definition update_app :: "string \<Rightarrow> (app_row \<Rightarrow> app_row) \<Rightarrow> database \<Rightarrow> database" where
  "update_app app f d = d\<lparr>d_apps := map (\<lambda>a. if app_id a = app then f a else a) (d_apps d)\<rparr>"

definition set_description :: "string \<Rightarrow> string \<Rightarrow> change" where
  "set_description app s d = Inr (update_app app (\<lambda>a. a\<lparr>app_description := s\<rparr>) d)"

definition set_min_grade :: "string \<Rightarrow> string \<Rightarrow> change" where
  "set_min_grade app g d =
     (if list_ex (\<lambda>a. app_id a = app) (d_apps d) \<and> g \<notin> set grade_values then Inl Check_violation
      else Inr (update_app app (\<lambda>a. a\<lparr>app_min_grade := g\<rparr>) d))"

definition set_active :: "string \<Rightarrow> bool \<Rightarrow> change" where
  "set_active app b d = Inr (update_app app (\<lambda>a. a\<lparr>app_active := b\<rparr>) d)"

text \<open>\<^verbatim>\<open>capability_set_version + 1\<close> in a \<^verbatim>\<open>BIGINT\<close> column.\<close>

definition version_full :: "string \<Rightarrow> database \<Rightarrow> bool" where
  "version_full app d = list_ex (\<lambda>a. app_id a = app \<and> app_capver a \<ge> int64_max) (d_apps d)"

definition bump_version :: "string \<Rightarrow> change" where
  "bump_version app d =
     (if version_full app d then Inl Out_of_range
      else Inr (update_app app (\<lambda>a. a\<lparr>app_capver := app_capver a + 1\<rparr>) d))"

text \<open>The statements that report how many rows they affected.\<close>

definition deactivate_app :: "string \<Rightarrow> nat stmt" where
  "deactivate_app app t d =
     (if version_full app d then Inl Out_of_range
      else Inr (length (filter (\<lambda>a. app_id a = app) (d_apps d)),
                update_app app (\<lambda>a. a\<lparr>app_active := False, app_capver := app_capver a + 1\<rparr>) d))"

text \<open>\<^verbatim>\<open>DELETE FROM apps\<close> with the cascades of the schema.\<close>

definition delete_app :: "string \<Rightarrow> nat stmt" where
  "delete_app app t d =
     Inr (length (filter (\<lambda>a. app_id a = app) (d_apps d)),
          d\<lparr>d_apps := filter (\<lambda>a. app_id a \<noteq> app) (d_apps d),
            d_caps := filter (\<lambda>c. fst c \<noteq> app) (d_caps d),
            d_keys := filter (\<lambda>k. key_app k \<noteq> app) (d_keys d),
            d_subs := filter (\<lambda>s. snd s \<noteq> app) (d_subs d),
            d_topics := filter (\<lambda>r. top_app r \<noteq> app) (d_topics d)\<rparr>)"

definition insert_sub :: "int \<Rightarrow> string \<Rightarrow> change" where
  "insert_sub uid app d =
     (if (uid, app) \<in> set (d_subs d) then Inr d
      else if \<not> list_ex (\<lambda>u. usr_id u = uid) (d_users d) \<or> \<not> list_ex (\<lambda>a. app_id a = app) (d_apps d)
      then Inl Fk_violation
      else Inr (d\<lparr>d_subs := d_subs d @ [(uid, app)]\<rparr>))"

definition delete_sub :: "int \<Rightarrow> string \<Rightarrow> nat stmt" where
  "delete_sub tg app t d =
     (let p = (\<lambda>s. list_ex (\<lambda>u. usr_telegram_id u = tg \<and> usr_id u = fst s) (d_users d) \<and> snd s = app)
      in Inr (length (filter p (d_subs d)), d\<lparr>d_subs := filter (\<lambda>s. \<not> p s) (d_subs d)\<rparr>))"


section \<open>Validation\<close>

definition allowedCapabilities :: "string list" where
  "allowedCapabilities = [''messages.direct.send'', ''messages.direct.dm'', ''messages.topic.send'',
     ''messages.broadcast.send'', ''noop.invoke'']"

definition forbiddenCapabilities :: "string list" where
  "forbiddenCapabilities = [''apps.register'', ''users.promote'', ''users.deactivate'',
     ''audit.search'', ''audit.freeze'']"

definition validGrades :: "string list" where
  "validGrades = [''user'', ''developer'', ''admin'']"

fun validateCapabilityGrant :: "string list \<Rightarrow> (string \<times> int) option" where
  "validateCapabilityGrant [] = None"
| "validateCapabilityGrant (c # cs) =
     (if c \<in> set forbiddenCapabilities then Some (''forbidden_capability'', 403)
      else if c \<notin> set allowedCapabilities then Some (''unknown_capability'', 400)
      else validateCapabilityGrant cs)"

text \<open>The pattern \<^verbatim>\<open>^[a-z0-9][a-z0-9_-]{2,63}$\<close>.\<close>

definition id_head_char :: "char \<Rightarrow> bool" where
  "id_head_char c = (c \<in> set ''abcdefghijklmnopqrstuvwxyz0123456789'')"

definition id_tail_char :: "char \<Rightarrow> bool" where
  "id_tail_char c = (id_head_char c \<or> c = CHR ''_'' \<or> c = CHR ''-'')"

fun appIDRegex :: "string \<Rightarrow> bool" where
  "appIDRegex [] = False"
| "appIDRegex (c # cs) = (id_head_char c \<and> list_all id_tail_char cs \<and> 2 \<le> length cs \<and> length cs \<le> 63)"

definition create_fault :: "create_app_request \<Rightarrow> (string \<times> int) option" where
  "create_fault req =
     (if ca_id req = [] \<or> ca_name req = [] then Some (''missing_required_fields'', 400)
      else if \<not> appIDRegex (ca_id req) then Some (''invalid_app_id'', 400)
      else if ca_min_grade req \<noteq> [] \<and> ca_min_grade req \<notin> set validGrades then Some (''invalid_min_grade'', 400)
      else validateCapabilityGrant (ca_capabilities req))"

definition patch_fault :: "patch_app_request \<Rightarrow> (string \<times> int) option" where
  "patch_fault req =
     (if (case pa_min_grade req of None \<Rightarrow> False | Some g \<Rightarrow> g \<notin> set validGrades)
      then Some (''invalid_min_grade'', 400)
      else validateCapabilityGrant (pa_add_capabilities req))"


section \<open>Applications\<close>

definition new_app :: "http_request \<Rightarrow> create_app_request \<Rightarrow> time \<Rightarrow> app_row" where
  "new_app r req t =
     \<lparr>app_id = ca_id req, app_name = ca_name req, app_description = ca_description req,
      app_min_grade = (if ca_min_grade req = [] then ''user'' else ca_min_grade req), app_active = True,
      app_created_at = t, app_capver = 1,
      app_created_by = (case hr_requester r of None \<Rightarrow> [] | Some i \<Rightarrow> rq_app_id i)\<rparr>"

text \<open>\<^verbatim>\<open>now()\<close> is the time of \<^verbatim>\<open>BEGIN\<close>.\<close>

definition Create :: "env \<Rightarrow> handler" where
  "Create e r w =
     (case newAuditFlow e r CapAppsRegister w of (base, w1) \<Rightarrow>
      (let w2 = flow_received e base w1
       in case hr_body r of
            Body_create req \<Rightarrow>
              (case create_fault req of
                 Some (code, status) \<Rightarrow> flow_deny e base code status w2
               | None \<Rightarrow>
                   (case db_trip e w2 of (begun, w3) \<Rightarrow>
                    if \<not> begun then flow_deny e base ''db_error'' 500 w3
                    else
                      (let a = new_app r req (env_now e (w_tick w2))
                       in case exec_change e (insert_app a) w3 of
                            (Inl _, w4) \<Rightarrow> flow_deny e base ''app_already_exists'' 409 (rollback_to w2 w4)
                          | (Inr _, w4) \<Rightarrow>
                              (case exec_all e (map (insert_cap (ca_id req)) (ca_capabilities req)) w4 of
                                 (Inl _, w5) \<Rightarrow> flow_deny e base ''db_error'' 500 (rollback_to w2 w5)
                               | (Inr _, w5) \<Rightarrow>
                                   (case db_trip e w5 of (committed, w6) \<Rightarrow>
                                    if \<not> committed then flow_deny e base ''db_error'' 500 (rollback_to w2 w6)
                                    else (writeJSON 201 (J_fields [(''id'', JStr (ca_id req))]),
                                          flow_succeed e base
                                            [(''created_app_id'', JStr (ca_id req)),
                                             (''created_by'', JStr (app_created_by a))] w6))))))
          | _ \<Rightarrow> flow_deny e base ''malformed_json'' 400 w2))"

text \<open>The statements of \<^verbatim>\<open>Patch\<close> in their order.\<close>

definition caps_changed :: "patch_app_request \<Rightarrow> bool" where
  "caps_changed req = (length (pa_add_capabilities req) > 0 \<or> length (pa_remove_capabilities req) > 0)"

definition patch_changes :: "string \<Rightarrow> patch_app_request \<Rightarrow> change list" where
  "patch_changes app req =
     (case pa_description req of None \<Rightarrow> [] | Some s \<Rightarrow> [set_description app s]) @
     (case pa_min_grade req of None \<Rightarrow> [] | Some g \<Rightarrow> [set_min_grade app g]) @
     (case pa_active req of None \<Rightarrow> [] | Some b \<Rightarrow> [set_active app b]) @
     map (insert_cap app) (pa_add_capabilities req) @
     map (delete_cap app) (pa_remove_capabilities req) @
     (if caps_changed req then [bump_version app] else [])"

definition Patch_app :: "env \<Rightarrow> handler" where
  "Patch_app e r w =
     (case newAuditFlow e r CapAppsRegister w of (base, w1) \<Rightarrow>
      (let app = get_value (hr_params r) ''id''; w2 = flow_received e base w1
       in case hr_body r of
            Body_patch req \<Rightarrow>
              (case patch_fault req of
                 Some (code, status) \<Rightarrow> flow_deny e base code status w2
               | None \<Rightarrow>
                   (case db_trip e w2 of (begun, w3) \<Rightarrow>
                    if \<not> begun then flow_deny e base ''db_error'' 500 w3
                    else
                      (case db_query e (\<lambda>t d. list_ex (\<lambda>a. app_id a = app) (d_apps d)) w3 of
                         (Inl _, w4) \<Rightarrow> flow_deny e base ''app_not_found'' 404 w4
                       | (Inr False, w4) \<Rightarrow> flow_deny e base ''app_not_found'' 404 w4
                       | (Inr True, w4) \<Rightarrow>
                           (case db_trip e w4 of (locked, w5) \<Rightarrow>
                            if \<not> locked then flow_deny e base ''db_error'' 500 w5
                            else
                              (case exec_all e (patch_changes app req) w5 of
                                 (Inl _, w6) \<Rightarrow> flow_deny e base ''db_error'' 500 (rollback_to w2 w6)
                               | (Inr _, w6) \<Rightarrow>
                                   (case db_trip e w6 of (committed, w7) \<Rightarrow>
                                    if \<not> committed then flow_deny e base ''db_error'' 500 (rollback_to w2 w7)
                                    else (writeJSON 200 (J_fields [(''id'', JStr app), (''updated'', JBool True)]),
                                          flow_succeed e base
                                            [(''patched_app_id'', JStr app),
                                             (''caps_changed'', JBool (caps_changed req))] w7)))))))
          | _ \<Rightarrow> flow_deny e base ''malformed_json'' 400 w2))"

text \<open>The common shape of \<^verbatim>\<open>Delete\<close> and \<^verbatim>\<open>Purge\<close>: lock the row, run the statement, report 404 when it
  affected no row, commit.\<close>

definition locked_change ::
  "env \<Rightarrow> http_request \<Rightarrow> nat stmt \<Rightarrow> details \<Rightarrow> reply \<Rightarrow> world \<Rightarrow> response \<times> world" where
  "locked_change e r s dets answer w =
     (case newAuditFlow e r CapAppsRegister w of (base, w1) \<Rightarrow>
      (let w2 = flow_received e base w1
       in case db_trip e w2 of (begun, w3) \<Rightarrow>
          if \<not> begun then flow_deny e base ''db_error'' 500 w3
          else
            (case db_trip e w3 of (locked, w4) \<Rightarrow>
             if \<not> locked then flow_deny e base ''db_error'' 500 w4
             else
               (case db_exec e s w4 of
                  (Inl _, w5) \<Rightarrow> flow_deny e base ''db_error'' 500 (rollback_to w2 w5)
                | (Inr n, w5) \<Rightarrow>
                    if n = 0 then flow_deny e base ''app_not_found'' 404 (rollback_to w2 w5)
                    else
                      (case db_trip e w5 of (committed, w6) \<Rightarrow>
                       if \<not> committed then flow_deny e base ''db_error'' 500 (rollback_to w2 w6)
                       else (writeJSON 200 answer, flow_succeed e base dets w6))))))"

definition Delete :: "env \<Rightarrow> handler" where
  "Delete e r w =
     (let app = get_value (hr_params r) ''id''
      in locked_change e r (deactivate_app app) [(''deleted_app_id'', JStr app)]
           (J_fields [(''id'', JStr app), (''active'', JBool False)]) w)"

definition Purge :: "env \<Rightarrow> handler" where
  "Purge e r w =
     (let app = get_value (hr_params r) ''id''
      in locked_change e r (delete_app app) [(''purged_app_id'', JStr app)]
           (J_fields [(''id'', JStr app), (''purged'', JBool True)]) w)"


section \<open>Users and subscriptions\<close>

definition Patch_user :: "env \<Rightarrow> handler" where
  "Patch_user e r w =
     (case newAuditFlow e r CapUsersPromote w of (base, w1) \<Rightarrow>
      (case ParseInt (get_value (hr_params r) ''telegram_id'') of
         None \<Rightarrow> flow_deny e base ''invalid_telegram_id'' 400 w1
       | Some tg \<Rightarrow>
           (let w2 = flow_received e base w1
            in case hr_body r of
                 Body_user req \<Rightarrow>
                   (if pu_grade req \<notin> set validGrades then flow_deny e base ''invalid_grade'' 400 w2
                    else
                      (case exec_update e (\<lambda>u. usr_telegram_id u = tg) (\<lambda>t u. u\<lparr>usr_grade := pu_grade req\<rparr>) w2 of
                         (Inl _, w3) \<Rightarrow> flow_deny e base ''db_error'' 500 w3
                       | (Inr n, w3) \<Rightarrow>
                           if n = 0 then flow_deny e base ''user_not_found'' 404 w3
                           else
                             (let out = [(''telegram_id'', JInt tg), (''grade'', JStr (pu_grade req))]
                              in (writeJSON 200 (J_fields out), flow_succeed e base out w3))))
               | _ \<Rightarrow> flow_deny e base ''malformed_json'' 400 w2)))"

definition Subscribe :: "env \<Rightarrow> handler" where
  "Subscribe e r w =
     (case newAuditFlow e r CapAppsRegister w of (base, w1) \<Rightarrow>
      (let app = get_value (hr_params r) ''app_id''
       in case ParseInt (get_value (hr_params r) ''telegram_id'') of
            None \<Rightarrow> flow_deny e base ''invalid_telegram_id'' 400 w1
          | Some tg \<Rightarrow>
              (let w2 = flow_received e base w1
               in case db_query e (\<lambda>t d. map_option app_active (find (\<lambda>a. app_id a = app) (d_apps d))) w2 of
                    (Inl _, w3) \<Rightarrow> flow_deny e base ''db_error'' 500 w3
                  | (Inr None, w3) \<Rightarrow> flow_deny e base ''app_not_found'' 404 w3
                  | (Inr (Some False), w3) \<Rightarrow> flow_deny e base ''app_inactive'' 400 w3
                  | (Inr (Some True), w3) \<Rightarrow>
                      (case db_query e (\<lambda>t d. map_option usr_id (find (\<lambda>u. usr_telegram_id u = tg) (d_users d))) w3 of
                         (Inr (Some uid), w4) \<Rightarrow>
                           (case exec_change e (insert_sub uid app) w4 of
                              (Inl _, w5) \<Rightarrow> flow_deny e base ''db_error'' 500 w5
                            | (Inr _, w5) \<Rightarrow>
                                (writeJSON 200 (J_fields [(''telegram_id'', JInt tg), (''app_id'', JStr app),
                                   (''subscribed'', JBool True)]),
                                 flow_succeed e base [(''telegram_id'', JInt tg), (''app_id'', JStr app)] w5))
                       | (_, w4) \<Rightarrow> flow_deny e base ''user_not_found'' 404 w4))))"

definition Unsubscribe :: "env \<Rightarrow> handler" where
  "Unsubscribe e r w =
     (case newAuditFlow e r CapAppsRegister w of (base, w1) \<Rightarrow>
      (let app = get_value (hr_params r) ''app_id''
       in case ParseInt (get_value (hr_params r) ''telegram_id'') of
            None \<Rightarrow> flow_deny e base ''invalid_telegram_id'' 400 w1
          | Some tg \<Rightarrow>
              (let w2 = flow_received e base w1
               in case db_exec e (delete_sub tg app) w2 of
                    (Inl _, w3) \<Rightarrow> flow_deny e base ''db_error'' 500 w3
                  | (Inr n, w3) \<Rightarrow>
                      if n = 0 then flow_deny e base ''subscription_not_found'' 404 w3
                      else
                        (writeJSON 200 (J_fields [(''telegram_id'', JInt tg), (''app_id'', JStr app),
                           (''subscribed'', JBool False)]),
                         flow_succeed e base [(''telegram_id'', JInt tg), (''app_id'', JStr app)] w3))))"


section \<open>Effects\<close>

text \<open>What a request means for the tables; \<^const>\<open>None\<close> when it is to be refused. New rows go to the
  end of a table unless they are there already.\<close>

definition add_new :: "'a list \<Rightarrow> 'a list \<Rightarrow> 'a list" where
  "add_new xs ys = foldl (\<lambda>xs y. if y \<in> set xs then xs else xs @ [y]) xs ys"

definition app_ids :: "database \<Rightarrow> string set" where
  "app_ids d = set (map app_id (d_apps d))"

definition create_effect :: "http_request \<Rightarrow> time \<Rightarrow> database \<Rightarrow> database option" where
  "create_effect r t d =
     (case hr_body r of
        Body_create req \<Rightarrow>
          (if create_fault req = None \<and> ca_id req \<notin> app_ids d
           then Some (d\<lparr>d_apps := d_apps d @ [new_app r req t],
                        d_caps := add_new (d_caps d) (map (Pair (ca_id req)) (ca_capabilities req))\<rparr>)
           else None)
      | _ \<Rightarrow> None)"

definition patch_row :: "patch_app_request \<Rightarrow> app_row \<Rightarrow> app_row" where
  "patch_row req a =
     a\<lparr>app_description := (case pa_description req of None \<Rightarrow> app_description a | Some s \<Rightarrow> s),
       app_min_grade := (case pa_min_grade req of None \<Rightarrow> app_min_grade a | Some g \<Rightarrow> g),
       app_active := (case pa_active req of None \<Rightarrow> app_active a | Some b \<Rightarrow> b),
       app_capver := app_capver a + (if caps_changed req then 1 else 0)\<rparr>"

definition patch_effect :: "http_request \<Rightarrow> time \<Rightarrow> database \<Rightarrow> database option" where
  "patch_effect r t d =
     (case hr_body r of
        Body_patch req \<Rightarrow>
          (let app = get_value (hr_params r) ''id''
           in if patch_fault req = None \<and> app \<in> app_ids d \<and> \<not> (caps_changed req \<and> version_full app d)
              then Some ((update_app app (patch_row req) d)\<lparr>d_caps :=
                     filter (\<lambda>x. x \<notin> Pair app ` set (pa_remove_capabilities req))
                       (add_new (d_caps d) (map (Pair app) (pa_add_capabilities req)))\<rparr>)
              else None)
      | _ \<Rightarrow> None)"

definition delete_effect :: "http_request \<Rightarrow> time \<Rightarrow> database \<Rightarrow> database option" where
  "delete_effect r t d =
     (let app = get_value (hr_params r) ''id''
      in if app \<in> app_ids d \<and> \<not> version_full app d
         then Some (update_app app (\<lambda>a. a\<lparr>app_active := False, app_capver := app_capver a + 1\<rparr>) d) else None)"

definition purge_effect :: "http_request \<Rightarrow> time \<Rightarrow> database \<Rightarrow> database option" where
  "purge_effect r t d =
     (let app = get_value (hr_params r) ''id''
      in if app \<in> app_ids d
         then Some (d\<lparr>d_apps := filter (\<lambda>a. app_id a \<noteq> app) (d_apps d),
                      d_caps := filter (\<lambda>c. fst c \<noteq> app) (d_caps d),
                      d_keys := filter (\<lambda>k. key_app k \<noteq> app) (d_keys d),
                      d_subs := filter (\<lambda>s. snd s \<noteq> app) (d_subs d),
                      d_topics := filter (\<lambda>r. top_app r \<noteq> app) (d_topics d)\<rparr>)
         else None)"

definition user_effect :: "http_request \<Rightarrow> time \<Rightarrow> database \<Rightarrow> database option" where
  "user_effect r t d =
     (case (ParseInt (get_value (hr_params r) ''telegram_id''), hr_body r) of
        (Some tg, Body_user req) \<Rightarrow>
          (if pu_grade req \<in> set validGrades \<and> tg \<in> set (map usr_telegram_id (d_users d))
           then Some (update_users (\<lambda>u. usr_telegram_id u = tg) (\<lambda>u. u\<lparr>usr_grade := pu_grade req\<rparr>) d) else None)
      | _ \<Rightarrow> None)"

definition subscribe_effect :: "http_request \<Rightarrow> time \<Rightarrow> database \<Rightarrow> database option" where
  "subscribe_effect r t d =
     (let app = get_value (hr_params r) ''app_id''
      in case ParseInt (get_value (hr_params r) ''telegram_id'') of
           None \<Rightarrow> None
         | Some tg \<Rightarrow>
             (case (find (\<lambda>a. app_id a = app) (d_apps d), find (\<lambda>u. usr_telegram_id u = tg) (d_users d)) of
                (Some a, Some u) \<Rightarrow>
                  (if app_active a then Some (d\<lparr>d_subs := add_new (d_subs d) [(usr_id u, app)]\<rparr>) else None)
              | _ \<Rightarrow> None))"

definition unsubscribe_effect :: "http_request \<Rightarrow> time \<Rightarrow> database \<Rightarrow> database option" where
  "unsubscribe_effect r t d =
     (let app = get_value (hr_params r) ''app_id''
      in case ParseInt (get_value (hr_params r) ''telegram_id'') of
           None \<Rightarrow> None
         | Some tg \<Rightarrow>
             (let mine = (\<lambda>s. snd s = app \<and> (\<exists>u \<in> set (d_users d). usr_telegram_id u = tg \<and> usr_id u = fst s))
              in if list_ex mine (d_subs d) then Some (d\<lparr>d_subs := filter (\<lambda>s. \<not> mine s) (d_subs d)\<rparr>) else None))"


section \<open>Statements and effects\<close>

lemma add_new_simps [simp]:
  "add_new xs [] = xs" "add_new xs (y # ys) = add_new (if y \<in> set xs then xs else xs @ [y]) ys"
  by (simp_all add: add_new_def)

lemma set_add_new [simp]: "set (add_new xs ys) = set xs \<union> set ys"
  by (induction ys arbitrary: xs) auto

lemma distinct_add_new [simp]: "distinct (add_new xs ys) = distinct xs"
  by (induction ys arbitrary: xs) auto

fun apply_all :: "change list \<Rightarrow> database \<Rightarrow> db_error + database" where
  "apply_all [] d = Inr d"
| "apply_all (c # cs) d = (case c d of Inl err \<Rightarrow> Inl err | Inr d1 \<Rightarrow> apply_all cs d1)"

lemma apply_all_append:
  "apply_all (xs @ ys) d = (case apply_all xs d of Inl err \<Rightarrow> Inl err | Inr d1 \<Rightarrow> apply_all ys d1)"
  by (induction xs arbitrary: d) (auto split: sum.split)

lemma exec_change_InrD: "exec_change e c w = (Inr u, w') \<Longrightarrow> c (w_db w) = Inr (w_db w')"
  unfolding exec_change_def by (drule db_exec_InrD) (auto split: sum.splits)

lemma exec_change_no_faults:
  "no_faults e \<Longrightarrow> c (w_db w) = Inr d \<Longrightarrow> exec_change e c w = (Inr (), (tick w)\<lparr>w_db := d\<rparr>)"
  by (simp add: exec_change_def db_exec_def no_faults_def)

lemma exec_change_tg [simp]: "w_tg (snd (exec_change e c w)) = w_tg w"
  by (simp add: exec_change_def)

lemma exec_all_InrD: "exec_all e cs w = (Inr u, w') \<Longrightarrow> apply_all cs (w_db w) = Inr (w_db w')"
proof (induction cs arbitrary: w)
  case (Cons c cs)
  then obtain w1 where "exec_change e c w = (Inr (), w1)" "exec_all e cs w1 = (Inr u, w')"
    by (auto split: prod.splits sum.splits)
  with Cons.IH exec_change_InrD show ?case by fastforce
qed simp

lemma exec_all_tg [simp]: "w_tg (snd (exec_all e cs w)) = w_tg w"
proof (induction cs arbitrary: w)
  case (Cons c cs)
  obtain x w1 where x: "exec_change e c w = (x, w1)" by fastforce
  then have "w_tg w1 = w_tg w" by (metis exec_change_tg snd_conv)
  with x Cons.IH show ?case by (cases x) simp_all
qed simp

lemma exec_all_no_faults:
  assumes "no_faults e" "apply_all cs (w_db w) = Inr d"
  shows "\<exists>w'. exec_all e cs w = (Inr (), w') \<and> w_db w' = d"
  using assms
proof (induction cs arbitrary: w)
  case (Cons c cs)
  then obtain d1 where c: "c (w_db w) = Inr d1" "apply_all cs d1 = Inr d" by (auto split: sum.splits)
  with Cons.IH [of "(tick w)\<lparr>w_db := d1\<rparr>"] Cons.prems(1) show ?case
    by (simp add: exec_change_no_faults [of e c w d1])
qed auto

lemma list_ex_app_ids: "list_ex (\<lambda>a. app_id a = app) (d_apps d) \<longleftrightarrow> app \<in> app_ids d"
  by (auto simp: list_ex_iff app_ids_def)

lemma apply_insert_caps:
  "app \<in> app_ids d \<Longrightarrow> apply_all (map (insert_cap app) cs) d = Inr (d\<lparr>d_caps := add_new (d_caps d) (map (Pair app) cs)\<rparr>)"
proof (induction cs arbitrary: d)
  case (Cons c cs)
  from Cons.IH [of "d\<lparr>d_caps := d_caps d @ [(app, c)]\<rparr>"] Cons.IH [of d] Cons.prems show ?case
    by (simp add: insert_cap_def list_ex_app_ids) (simp add: app_ids_def)
qed simp

lemma apply_delete_caps:
  "apply_all (map (delete_cap app) cs) d = Inr (d\<lparr>d_caps := filter (\<lambda>x. x \<notin> Pair app ` set cs) (d_caps d)\<rparr>)"
  by (induction cs arbitrary: d) (auto simp: delete_cap_def intro!: arg_cong [where f = "\<lambda>x. _\<lparr>d_caps := x\<rparr>"] filter_cong)

lemma app_ids_update_app [simp]:
  "(\<And>a. app_id (f a) = app_id a) \<Longrightarrow> app_ids (update_app app f d) = app_ids d"
  by (force simp: app_ids_def update_app_def)

lemma update_app_update_app:
  "(\<And>a. app_id (f a) = app_id a) \<Longrightarrow>
     update_app app g (update_app app f d) = update_app app (\<lambda>a. g (f a)) d"
  by (simp add: update_app_def comp_def if_distrib cong: if_cong)

lemma version_full_update_app:
  assumes "\<And>a. app_id (f a) = app_id a" "\<And>a. app_capver (f a) = app_capver a"
  shows "version_full app (update_app app f d) = version_full app d"
proof -
  have "list_ex (\<lambda>a. app_id a = app \<and> int64_max \<le> app_capver a) (map (\<lambda>a. if app_id a = app then f a else a) as) =
      list_ex (\<lambda>a. app_id a = app \<and> int64_max \<le> app_capver a) as" for as
    by (induction as) (simp_all add: assms)
  then show ?thesis by (simp add: version_full_def update_app_def)
qed

lemma version_full_frame [simp]:
  "version_full app (d\<lparr>d_caps := cs\<rparr>) = version_full app d"
  "update_app app f (d\<lparr>d_caps := cs\<rparr>) = (update_app app f d)\<lparr>d_caps := cs\<rparr>"
  by (simp_all add: version_full_def update_app_def)

lemma apply_patch_changes:
  assumes "app \<in> app_ids d" "patch_fault req = None"
  shows "apply_all (patch_changes app req) d =
    (if caps_changed req \<and> version_full app d then Inl Out_of_range
     else Inr ((update_app app (patch_row req) d)\<lparr>d_caps :=
       filter (\<lambda>x. x \<notin> Pair app ` set (pa_remove_capabilities req))
         (add_new (d_caps d) (map (Pair app) (pa_add_capabilities req)))\<rparr>))"
proof -
  let ?f1 = "\<lambda>a. a\<lparr>app_description := (case pa_description req of None \<Rightarrow> app_description a | Some s \<Rightarrow> s)\<rparr>"
  let ?f2 = "\<lambda>a. a\<lparr>app_min_grade := (case pa_min_grade req of None \<Rightarrow> app_min_grade a | Some s \<Rightarrow> s)\<rparr>"
  let ?f3 = "\<lambda>a. a\<lparr>app_active := (case pa_active req of None \<Rightarrow> app_active a | Some s \<Rightarrow> s)\<rparr>"
  let ?d1 = "update_app app ?f1 d"
  let ?d2 = "update_app app ?f2 ?d1"
  let ?d3 = "update_app app ?f3 ?d2"
  have 1: "apply_all (case pa_description req of None \<Rightarrow> [] | Some s \<Rightarrow> [set_description app s]) d = Inr ?d1"
    by (cases "pa_description req") (simp_all add: set_description_def update_app_def)
  have 2: "apply_all (case pa_min_grade req of None \<Rightarrow> [] | Some s \<Rightarrow> [set_min_grade app s]) ?d1 = Inr ?d2"
    using assms(2) by (cases "pa_min_grade req")
      (auto simp: set_min_grade_def update_app_def patch_fault_def validGrades_def grade_values_def split: if_splits)
  have 3: "apply_all (case pa_active req of None \<Rightarrow> [] | Some s \<Rightarrow> [set_active app s]) ?d2 = Inr ?d3"
    by (cases "pa_active req") (simp_all add: set_active_def update_app_def)
  have ids: "app \<in> app_ids ?d3" using assms(1) by simp
  have caps: "d_caps ?d3 = d_caps d" by (simp add: update_app_def)
  have full: "version_full app ?d3 = version_full app d" by (simp add: version_full_update_app)
  have row: "update_app app (\<lambda>a. a\<lparr>app_capver := app_capver a + 1\<rparr>) ?d3 = update_app app (patch_row req) d"
    if "caps_changed req"
    using that by (simp add: update_app_update_app patch_row_def [abs_def] cong: option.case_cong)
  have row0: "?d3 = update_app app (patch_row req) d" if "\<not> caps_changed req"
    using that by (simp add: update_app_update_app patch_row_def [abs_def] cong: option.case_cong)
  show ?thesis
    unfolding patch_changes_def apply_all_append 1 2 3 sum.case apply_insert_caps [OF ids] apply_delete_caps caps
    by (simp add: bump_version_def full row row0)
qed

lemma validGrades_eq: "set validGrades = set grade_values"
  by (simp add: validGrades_def grade_values_def)


section \<open>The contract of an administration endpoint\<close>

text \<open>
  \<open>effect\<close> says what a request does to the tables. A handler writes audit rows, may then apply
  the effect, and writes audit rows again: with an error status the effect was not applied, with a
  success status it was. When no round trip fails, a request that has an effect succeeds. An
  effect keeps the schema's constraints and neither reads nor changes the audit log.
\<close>

definition with_audit :: "database \<Rightarrow> database \<Rightarrow> database" where
  "with_audit d0 d = d\<lparr>d_audit := d_audit d0, d_audit_seq := d_audit_seq d0\<rparr>"

definition admin_outcome ::
  "(http_request \<Rightarrow> time \<Rightarrow> database \<Rightarrow> database option) \<Rightarrow> env \<Rightarrow> http_request \<Rightarrow> world \<Rightarrow> response \<times> world \<Rightarrow> bool" where
  "admin_outcome effect e r w out = (\<exists>w1. only_audit e w1 (snd out) \<and> w_tg (snd out) = w_tg w \<and>
     (no_faults e \<and> (\<exists>t. effect r t (w_db w) \<noteq> None) \<longrightarrow> rs_status (fst out) < 300) \<and>
     (400 \<le> rs_status (fst out) \<and> w_db w1 = w_db w \<or>
      rs_status (fst out) < 300 \<and> (\<exists>t. effect r t (w_db w) = Some (w_db w1))))"

locale admin_endpoint =
  fixes h :: "env \<Rightarrow> handler"
    and effect :: "http_request \<Rightarrow> time \<Rightarrow> database \<Rightarrow> database option"
  assumes outcome: "\<exists>w1. only_audit e w w1 \<and> w_tg w1 = w_tg w \<and> admin_outcome effect e r w1 (h e r w)"
    and effect_frame: "effect r t (with_audit d0 d) = map_option (with_audit d0) (effect r t d)"
    and effect_audit: "effect r t d = Some d' \<Longrightarrow> d_audit d' = d_audit d \<and> d_audit_seq d' = d_audit_seq d"
    and effect_ok: "effect r t d = Some d' \<Longrightarrow> db_ok d \<Longrightarrow> db_ok d'"
begin

lemma request_cases:
  obtains (refused) "400 \<le> rs_status (fst (h e r w))" "only_audit e w (snd (h e r w))"
    | (applied) t d' w1 where "rs_status (fst (h e r w)) < 300" "effect r t (w_db w) = Some d'"
      "only_audit e w1 (snd (h e r w))" "w_db w1 = with_audit (w_db w1) d'"
      "\<exists>rows. d_audit (w_db w1) = d_audit (w_db w) @ rows" "audit_ok (w_db w) \<longrightarrow> audit_ok (w_db w1)"
      "audit_ok (w_db w) \<and> chain_ok e (w_db w) \<longrightarrow> chain_ok e (w_db w1)" "db_ok (w_db w) \<longrightarrow> db_ok (w_db w1)"
proof -
  obtain w0 w1 where w0: "only_audit e w w0" and w1: "only_audit e w1 (snd (h e r w))"
    and cs: "400 \<le> rs_status (fst (h e r w)) \<and> w_db w1 = w_db w0 \<or>
      rs_status (fst (h e r w)) < 300 \<and> (\<exists>t. effect r t (w_db w0) = Some (w_db w1))"
    using outcome [of e w r] by (auto simp: admin_outcome_def)
  have d0: "w_db w0 = with_audit (w_db w0) (w_db w)"
    using w0 unfolding only_audit_def same_but_audit_def with_audit_def by metis
  from cs show thesis
  proof (elim disjE conjE exE)
    assume "400 \<le> rs_status (fst (h e r w))" "w_db w1 = w_db w0"
    with w0 w1 show thesis by (intro refused) (auto intro: only_audit_trans only_audit_step(2))
  next
    fix t assume st: "rs_status (fst (h e r w)) < 300" and eff: "effect r t (w_db w0) = Some (w_db w1)"
    then obtain d' where d': "effect r t (w_db w) = Some d'" "w_db w1 = with_audit (w_db w0) d'"
      using effect_frame [of r t "w_db w0" "w_db w"] d0 by (cases "effect r t (w_db w)") simp_all
    have au: "d_audit (w_db w1) = d_audit (w_db w0)" "d_audit_seq (w_db w1) = d_audit_seq (w_db w0)"
      using effect_audit [OF eff] by simp_all
    then have ok: "audit_ok (w_db w1) = audit_ok (w_db w0)" "chain_ok e (w_db w1) = chain_ok e (w_db w0)"
      by (simp_all add: audit_ok_def chain_ok_def)
    show thesis
    proof (rule applied [OF st d'(1) w1])
      show "w_db w1 = with_audit (w_db w1) d'" using d'(2) by (simp add: with_audit_def)
      show "db_ok (w_db w) \<longrightarrow> db_ok (w_db w1)" using effect_ok [OF eff] only_audit_db_ok [OF w0] by blast
    qed (use w0 au ok in \<open>auto simp: only_audit_def\<close>)
  qed
qed

lemma request_atomic:
  "400 \<le> rs_status (fst (h e r w)) \<and> same_but_audit (w_db w) (w_db (snd (h e r w))) \<or>
   rs_status (fst (h e r w)) < 300 \<and>
     (\<exists>t d'. effect r t (w_db w) = Some d' \<and> same_but_audit d' (w_db (snd (h e r w))))"
proof (cases rule: request_cases [of e r w])
  case (applied t d' w1)
  have "same_but_audit d' (w_db w1)"
    using applied(4) by (simp add: same_but_audit_def with_audit_def)
  then have "same_but_audit d' (w_db (snd (h e r w)))"
    using applied(3) same_but_audit_trans unfolding only_audit_def by blast
  with applied(1,2) show ?thesis by blast
qed (auto simp: only_audit_def)

lemma request_keeps:
  "db_ok (w_db w) \<Longrightarrow> db_ok (w_db (snd (h e r w)))"
  "\<exists>rows. d_audit (w_db (snd (h e r w))) = d_audit (w_db w) @ rows"
  "audit_ok (w_db w) \<Longrightarrow> chain_ok e (w_db w) \<Longrightarrow> chain_ok e (w_db (snd (h e r w)))"
proof -
  have "(db_ok (w_db w) \<longrightarrow> db_ok (w_db (snd (h e r w)))) \<and> (\<exists>rows. d_audit (w_db (snd (h e r w))) = d_audit (w_db w) @ rows) \<and>
    (audit_ok (w_db w) \<and> chain_ok e (w_db w) \<longrightarrow> chain_ok e (w_db (snd (h e r w))))"
  proof (cases rule: request_cases [of e r w])
    case refused
    with only_audit_db_ok show ?thesis unfolding only_audit_def by blast
  next
    case (applied t d' w1)
    from applied(3,5) have "\<exists>rows. d_audit (w_db (snd (h e r w))) = d_audit (w_db w) @ rows"
      unfolding only_audit_def by auto
    moreover from applied(3,6,7)
    have "audit_ok (w_db w) \<and> chain_ok e (w_db w) \<longrightarrow> chain_ok e (w_db (snd (h e r w)))"
      unfolding only_audit_def by blast
    ultimately show ?thesis using only_audit_db_ok [OF applied(3)] applied(8) by blast
  qed
  then show "db_ok (w_db w) \<Longrightarrow> db_ok (w_db (snd (h e r w)))"
    "\<exists>rows. d_audit (w_db (snd (h e r w))) = d_audit (w_db w) @ rows"
    "audit_ok (w_db w) \<Longrightarrow> chain_ok e (w_db w) \<Longrightarrow> chain_ok e (w_db (snd (h e r w)))" by blast+
qed

lemma request_accepted:
  assumes "no_faults e" "effect r t (w_db w) \<noteq> None"
  shows "rs_status (fst (h e r w)) < 300"
proof -
  obtain w1 where w1: "only_audit e w w1" "admin_outcome effect e r w1 (h e r w)" using outcome [of e w r] by blast
  then have "w_db w1 = with_audit (w_db w1) (w_db w)"
    unfolding only_audit_def same_but_audit_def with_audit_def by metis
  then have "effect r t (w_db w1) \<noteq> None" using effect_frame [of r t "w_db w1" "w_db w"] assms(2) by auto
  with w1(2) assms(1) show ?thesis unfolding admin_outcome_def by blast
qed

lemma request_tg: "w_tg (snd (h e r w)) = w_tg w"
  using outcome [of e w r] by (auto simp: admin_outcome_def)

end


section \<open>The endpoints meet the contract\<close>

lemma admin_denied:
  "w_db w3 = w_db w \<Longrightarrow> w_tg w3 = w_tg w \<Longrightarrow> 400 \<le> status \<Longrightarrow>
     (\<And>t d'. no_faults e \<Longrightarrow> effect r t (w_db w) = Some d' \<Longrightarrow> False) \<Longrightarrow>
     admin_outcome effect e r w (flow_deny e base code status w3)"
  unfolding admin_outcome_def by (intro exI [of _ w3]) (fastforce simp: writeError_def writeJSON_def)

lemma admin_applied:
  "\<exists>t. effect r t (w_db w) = Some (w_db w3) \<Longrightarrow> w_tg w3 = w_tg w \<Longrightarrow> status < 300 \<Longrightarrow>
     admin_outcome effect e r w (writeJSON status x, flow_succeed e base dets w3)"
  unfolding admin_outcome_def by (intro exI [of _ w3]) (auto simp: writeJSON_def)

lemma flow_start: "only_audit e w (flow_received e base (tick w))" "w_tg (flow_received e base (tick w)) = w_tg w"
  by (simp_all add: only_audit_step(1) [of "tick w"])

text \<open>The start of every handler: the base event, and the tables as they are after the first row.\<close>

lemma flow_begins:
  obtains base w2 where "newAuditFlow e r cap w = (base, tick w)" "flow_received e base (tick w) = w2"
    "only_audit e w w2" "w_tg w2 = w_tg w"
  using flow_start by (metis newAuditFlow_world prod.collapse)

lemma validateCapabilityGrant_status: "validateCapabilityGrant cs = Some (code, status) \<Longrightarrow> 400 \<le> status"
  by (induction cs) (auto split: if_splits)

lemma fault_status:
  "create_fault req = Some (code, status) \<Longrightarrow> 400 \<le> status"
  "patch_fault req' = Some (code, status) \<Longrightarrow> 400 \<le> status"
  by (auto simp: create_fault_def patch_fault_def validateCapabilityGrant_status split: if_splits)

lemma fault_free_grades:
  "create_fault req = None \<Longrightarrow> (if ca_min_grade req = [] then ''user'' else ca_min_grade req) \<in> set grade_values"
  by (auto simp: create_fault_def validGrades_eq grade_values_def split: if_splits)

lemma insert_app_new:
  "create_fault req = None \<Longrightarrow> insert_app (new_app r req t) d =
     (if ca_id req \<in> app_ids d then Inl Unique_violation else Inr (d\<lparr>d_apps := d_apps d @ [new_app r req t]\<rparr>))"
  using fault_free_grades [of req] by (auto simp: insert_app_def new_app_def list_ex_app_ids)

lemma create_effect_steps:
  assumes "hr_body r = Body_create req" "create_fault req = None"
  shows "create_effect r t d = (case insert_app (new_app r req t) d of Inl _ \<Rightarrow> None
    | Inr d1 \<Rightarrow> (case apply_all (map (insert_cap (ca_id req)) (ca_capabilities req)) d1 of Inl _ \<Rightarrow> None | Inr d2 \<Rightarrow> Some d2))"
proof -
  have "ca_id req \<in> app_ids (d\<lparr>d_apps := d_apps d @ [new_app r req t]\<rparr>)" by (simp add: app_ids_def new_app_def)
  from apply_insert_caps [OF this] assms show ?thesis by (simp add: create_effect_def insert_app_new)
qed

lemma Create_outcome: "\<exists>w1. only_audit e w w1 \<and> w_tg w1 = w_tg w \<and> admin_outcome create_effect e r w1 (Create e r w)"
proof -
  obtain base w2 where flow: "newAuditFlow e r CapAppsRegister w = (base, tick w)" "flow_received e base (tick w) = w2"
    and w2: "only_audit e w w2" "w_tg w2 = w_tg w" by (rule flow_begins)
  have "admin_outcome create_effect e r w2 (Create e r w)"
  proof (cases "\<exists>req. hr_body r = Body_create req \<and> create_fault req = None")
    case True
    then obtain req where req: "hr_body r = Body_create req" "create_fault req = None" by blast
    let ?a = "new_app r req (env_now e (w_tick w2))"
    obtain x w4 where x: "exec_change e (insert_app ?a) (tick w2) = (x, w4)" by fastforce
    obtain y w5 where y: "exec_all e (map (insert_cap (ca_id req)) (ca_capabilities req)) w4 = (y, w5)" by fastforce
    have tg: "w_tg w4 = w_tg w2" "w_tg w5 = w_tg w2"
      using exec_change_tg [of e "insert_app ?a" "tick w2"] exec_all_tg [of e _ w4] x y by (simp_all, metis snd_conv)
    have eff: "\<exists>t. create_effect r t (w_db w2) = Some (w_db w5)" if "x = Inr ()" "y = Inr ()"
      using that exec_change_InrD [of e "insert_app ?a" "tick w2"] exec_all_InrD x y
      by (intro exI [of _ "env_now e (w_tick w2)"]) (simp add: create_effect_steps [OF req])
    have ok: "x = Inr () \<and> y = Inr ()" if nf: "no_faults e" and "create_effect r t (w_db w2) = Some d'" for t d'
    proof -
      from that(2) req have new: "ca_id req \<notin> app_ids (w_db w2)" by (auto simp: create_effect_def split: if_splits)
      have "exec_change e (insert_app ?a) (tick w2) = (Inr (), (tick (tick w2))\<lparr>w_db := (w_db w2)\<lparr>d_apps := d_apps (w_db w2) @ [?a]\<rparr>\<rparr>)"
        by (rule exec_change_no_faults [OF nf]) (simp add: insert_app_new [OF req(2)] new)
      then have x: "x = Inr ()" "w_db w4 = (w_db w2)\<lparr>d_apps := d_apps (w_db w2) @ [?a]\<rparr>" using x by auto
      have "ca_id req \<in> app_ids (w_db w4)" by (simp add: x app_ids_def new_app_def)
      from exec_all_no_faults [OF nf apply_insert_caps [OF this, of "ca_capabilities req"]] y x show ?thesis by auto
    qed
    show ?thesis
      unfolding Create_def flow prod.case Let_def req body.case option.case db_trip_def
      by (cases x; cases y)
        (use eff ok in \<open>auto simp: x y tg no_faults_def intro!: admin_denied admin_applied\<close>)
  qed (auto simp: Create_def flow Let_def create_effect_def
      fault_status intro!: admin_denied split: body.split option.split)
  with w2 show ?thesis by blast
qed

lemma locked_change_outcome:
  assumes "\<And>t n d d'. s t d = Inr (n, d') \<Longrightarrow> n \<noteq> 0 \<Longrightarrow> effect r t d = Some d'"
    and "\<And>t t' d d'. effect r t d = Some d' \<Longrightarrow> \<exists>n. s t' d = Inr (Suc n, d')"
  shows "\<exists>w1. only_audit e w w1 \<and> w_tg w1 = w_tg w \<and> admin_outcome effect e r w1 (locked_change e r s dets answer w)"
proof -
  obtain base w2 where flow: "newAuditFlow e r CapAppsRegister w = (base, tick w)" "flow_received e base (tick w) = w2"
    and w2: "only_audit e w w2" "w_tg w2 = w_tg w" by (rule flow_begins)
  obtain x w5 where x: "db_exec e s (tick (tick w2)) = (x, w5)" by fastforce
  then have tg: "w_tg w5 = w_tg w2" using db_exec_tg(1) [of e s "tick (tick w2)"] by simp
  have eff: "\<exists>t. effect r t (w_db w2) = Some (w_db w5)" if "x = Inr n" "0 < n" for n
    using db_exec_InrD [of e s "tick (tick w2)" n w5] x that assms(1) by fastforce
  have ok: "\<exists>n. x = Inr (Suc n)" if "no_faults e" "effect r t (w_db w2) = Some d'" for t d'
    using assms(2) [OF that(2), of "env_now e (w_tick (tick (tick w2)))"] x that(1)
    by (auto simp: db_exec_def no_faults_def)
  have "admin_outcome effect e r w2 (locked_change e r s dets answer w)"
    unfolding locked_change_def flow prod.case Let_def db_trip_def x
    using eff ok tg by (cases x) (auto simp: no_faults_def intro!: admin_denied admin_applied)
  with w2 show ?thesis by blast
qed

lemma Patch_app_outcome:
  "\<exists>w1. only_audit e w w1 \<and> w_tg w1 = w_tg w \<and> admin_outcome patch_effect e r w1 (Patch_app e r w)"
proof -
  obtain base w2 where flow: "newAuditFlow e r CapAppsRegister w = (base, tick w)" "flow_received e base (tick w) = w2"
    and w2: "only_audit e w w2" "w_tg w2 = w_tg w" by (rule flow_begins)
  let ?app = "get_value (hr_params r) ''id''"
  have "admin_outcome patch_effect e r w2 (Patch_app e r w)"
  proof (cases "\<exists>req. hr_body r = Body_patch req \<and> patch_fault req = None")
    case True
    then obtain req where req: "hr_body r = Body_patch req" "patch_fault req = None" by blast
    let ?cs = "patch_changes ?app req" and ?w5 = "tick (tick (tick w2))"
    obtain x w6 where x: "exec_all e ?cs ?w5 = (x, w6)" by fastforce
    then have tg: "w_tg w6 = w_tg w2" using exec_all_tg [of e ?cs ?w5] by simp
    have none: "patch_effect r t (w_db w2) = None" if "?app \<notin> app_ids (w_db w2)" for t
      using that req by (simp add: patch_effect_def)
    have steps: "patch_effect r t (w_db w2) = (case apply_all ?cs (w_db w2) of Inl _ \<Rightarrow> None | Inr d \<Rightarrow> Some d)"
      if "?app \<in> app_ids (w_db w2)" for t
      using that req by (simp add: patch_effect_def apply_patch_changes Let_def)
    have eff: "\<exists>t. patch_effect r t (w_db w2) = Some (w_db w6)" if "x = Inr ()" "?app \<in> app_ids (w_db w2)"
      using that exec_all_InrD [of e ?cs ?w5 "()" w6] x by (simp add: steps)
    have ok: "x = Inr ()" if nf: "no_faults e" and "patch_effect r t (w_db w2) = Some d'" for t d'
    proof -
      have "?app \<in> app_ids (w_db w2)" using that(2) none by fastforce
      then have "apply_all ?cs (w_db ?w5) = Inr d'" using that(2) by (auto simp: steps split: sum.splits)
      from exec_all_no_faults [OF nf this] x show ?thesis by auto
    qed
    show ?thesis
      unfolding Patch_app_def flow prod.case Let_def req body.case option.case db_trip_def db_query_cases x list_ex_app_ids
        tick_simps
      using eff ok none tg by (cases x; cases "?app \<in> app_ids (w_db w2)")
        (auto simp: no_faults_def x intro!: admin_denied admin_applied)
  qed (auto simp: Patch_app_def flow Let_def patch_effect_def
      fault_status intro!: admin_denied split: body.split option.split)
  with w2 show ?thesis by blast
qed

lemma Patch_user_outcome:
  "\<exists>w1. only_audit e w w1 \<and> w_tg w1 = w_tg w \<and> admin_outcome user_effect e r w1 (Patch_user e r w)"
proof (cases "ParseInt (get_value (hr_params r) ''telegram_id'')")
  case None
  obtain base where flow: "newAuditFlow e r CapUsersPromote w = (base, tick w)" by (rule flow_begins)
  have "admin_outcome user_effect e r (tick w) (Patch_user e r w)"
    by (auto simp: Patch_user_def flow None user_effect_def intro!: admin_denied)
  then show ?thesis by (intro exI [of _ "tick w"]) simp
next
  case (Some tg)
  obtain base w2 where flow: "newAuditFlow e r CapUsersPromote w = (base, tick w)" "flow_received e base (tick w) = w2"
    and w2: "only_audit e w w2" "w_tg w2 = w_tg w" by (rule flow_begins)
  have count: "count_users (\<lambda>u. usr_telegram_id u = tg) d = 0 \<longleftrightarrow> tg \<notin> usr_telegram_id ` set (d_users d)" for d
    by (auto simp: count_users_def filter_empty_conv)
  have same: "update_users (\<lambda>u. usr_telegram_id u = tg) f d = d" if "tg \<notin> usr_telegram_id ` set (d_users d)" for f d
  proof -
    have "map (\<lambda>u. if usr_telegram_id u = tg then f u else u) (d_users d) = d_users d" using that by (intro map_idI) auto
    then show ?thesis by (simp add: update_users_def)
  qed
  have "admin_outcome user_effect e r w2 (Patch_user e r w)"
    by (auto simp: Patch_user_def flow Some Let_def user_effect_def exec_update_def db_exec_def count same no_faults_def
        intro!: admin_denied admin_applied split: body.split)
  with w2 show ?thesis by blast
qed

lemma find_app_ids: "find (\<lambda>a. app_id a = app) (d_apps d) = None \<longleftrightarrow> app \<notin> app_ids d"
  by (auto simp: find_None_iff app_ids_def)

lemma insert_sub_found:
  assumes "find (\<lambda>a. app_id a = app) (d_apps d) = Some a" "find (\<lambda>u. usr_telegram_id u = tg) (d_users d) = Some u"
  shows "insert_sub (usr_id u) app d = Inr (d\<lparr>d_subs := add_new (d_subs d) [(usr_id u, app)]\<rparr>)"
  using assms by (auto simp: insert_sub_def list_ex_iff find_Some_iff)

lemma Subscribe_outcome:
  "\<exists>w1. only_audit e w w1 \<and> w_tg w1 = w_tg w \<and> admin_outcome subscribe_effect e r w1 (Subscribe e r w)"
proof (cases "ParseInt (get_value (hr_params r) ''telegram_id'')")
  case None
  obtain base where flow: "newAuditFlow e r CapAppsRegister w = (base, tick w)" by (rule flow_begins)
  have "admin_outcome subscribe_effect e r (tick w) (Subscribe e r w)"
    by (auto simp: Subscribe_def flow None subscribe_effect_def intro!: admin_denied)
  then show ?thesis by (intro exI [of _ "tick w"]) simp
next
  case (Some tg)
  obtain base w2 where flow: "newAuditFlow e r CapAppsRegister w = (base, tick w)" "flow_received e base (tick w) = w2"
    and w2: "only_audit e w w2" "w_tg w2 = w_tg w" by (rule flow_begins)
  let ?app = "get_value (hr_params r) ''app_id''"
  have "admin_outcome subscribe_effect e r w2 (Subscribe e r w)"
  proof (cases "\<exists>a u. find (\<lambda>a. app_id a = ?app) (d_apps (w_db w2)) = Some a \<and> app_active a \<and>
      find (\<lambda>u. usr_telegram_id u = tg) (d_users (w_db w2)) = Some u")
    case True
    then obtain a u where found: "find (\<lambda>a. app_id a = ?app) (d_apps (w_db w2)) = Some a" "app_active a"
      "find (\<lambda>u. usr_telegram_id u = tg) (d_users (w_db w2)) = Some u" by blast
    show ?thesis
      by (auto simp: Subscribe_def flow Some Let_def subscribe_effect_def exec_change_def db_exec_def db_query_cases found
          insert_sub_found [OF found(1,3)] no_faults_def intro!: admin_denied admin_applied)
  next
    case False
    then show ?thesis
      by (cases "find (\<lambda>a. app_id a = ?app) (d_apps (w_db w2))")
        (auto simp: Subscribe_def flow Some Let_def subscribe_effect_def db_query_cases no_faults_def
          intro!: admin_denied split: bool.split option.splits)
  qed
  with w2 show ?thesis by blast
qed

lemma Unsubscribe_outcome:
  "\<exists>w1. only_audit e w w1 \<and> w_tg w1 = w_tg w \<and> admin_outcome unsubscribe_effect e r w1 (Unsubscribe e r w)"
proof (cases "ParseInt (get_value (hr_params r) ''telegram_id'')")
  case None
  obtain base where flow: "newAuditFlow e r CapAppsRegister w = (base, tick w)" by (rule flow_begins)
  have "admin_outcome unsubscribe_effect e r (tick w) (Unsubscribe e r w)"
    by (auto simp: Unsubscribe_def flow None unsubscribe_effect_def intro!: admin_denied)
  then show ?thesis by (intro exI [of _ "tick w"]) simp
next
  case (Some tg)
  obtain base w2 where flow: "newAuditFlow e r CapAppsRegister w = (base, tick w)" "flow_received e base (tick w) = w2"
    and w2: "only_audit e w w2" "w_tg w2 = w_tg w" by (rule flow_begins)
  let ?app = "get_value (hr_params r) ''app_id''"
  let ?mine = "\<lambda>s. list_ex (\<lambda>u. usr_telegram_id u = tg \<and> usr_id u = fst s) (d_users (w_db w2)) \<and> snd s = ?app"
  have eff: "unsubscribe_effect r t (w_db w2) = (if filter ?mine (d_subs (w_db w2)) = [] then None
      else Some ((w_db w2)\<lparr>d_subs := filter (\<lambda>s. \<not> ?mine s) (d_subs (w_db w2))\<rparr>))" for t
    unfolding unsubscribe_effect_def Let_def Some option.case list_ex_iff filter_empty_conv
    by (auto intro!: arg_cong [where f = "\<lambda>x. _\<lparr>d_subs := x\<rparr>"] filter_cong)
  have none: "(w_db w2)\<lparr>d_subs := filter (\<lambda>s. \<not> ?mine s) (d_subs (w_db w2))\<rparr> = w_db w2"
    if "filter ?mine (d_subs (w_db w2)) = []"
  proof -
    from that have "filter (\<lambda>s. \<not> ?mine s) (d_subs (w_db w2)) = d_subs (w_db w2)"
      unfolding filter_empty_conv filter_id_conv by blast
    then show ?thesis by simp
  qed
  have "admin_outcome unsubscribe_effect e r w2 (Unsubscribe e r w)"
    unfolding Unsubscribe_def flow Some Let_def prod.case option.case db_exec_def delete_sub_def sum.case length_0_conv
    using none by (auto simp: eff no_faults_def intro!: admin_denied admin_applied)
  with w2 show ?thesis by blast
qed


section \<open>What the effects keep\<close>

lemma db_ok_app_ids:
  "caps_ok d \<longleftrightarrow> distinct (d_caps d) \<and> fst ` set (d_caps d) \<subseteq> app_ids d"
  "keys_ok d \<longleftrightarrow> distinct (map key_prefix (d_keys d)) \<and> distinct (map key_id (d_keys d)) \<and>
     key_app ` set (d_keys d) \<subseteq> app_ids d \<and> list_all (\<lambda>k. key_id k < d_key_seq d) (d_keys d)"
  "subs_ok d \<longleftrightarrow> distinct (d_subs d) \<and> fst ` set (d_subs d) \<subseteq> usr_id ` set (d_users d) \<and> snd ` set (d_subs d) \<subseteq> app_ids d"
  "topics_ok d \<longleftrightarrow> distinct (map (\<lambda>t. (top_user t, top_app t)) (d_topics d)) \<and>
     top_user ` set (d_topics d) \<subseteq> usr_id ` set (d_users d) \<and> top_app ` set (d_topics d) \<subseteq> app_ids d"
  by (auto simp: caps_ok_def keys_ok_def subs_ok_def topics_ok_def list_all_iff app_ids_def)

lemma app_ids_frame [simp]:
  "app_ids (d\<lparr>d_caps := x1\<rparr>) = app_ids d" "app_ids (d\<lparr>d_subs := x4\<rparr>) = app_ids d"
  "app_ids (d\<lparr>d_keys := x2\<rparr>) = app_ids d" "app_ids (d\<lparr>d_topics := x5\<rparr>) = app_ids d"
  by (simp_all add: app_ids_def)

text \<open>More or the same applications: the tables that refer to them are still right.\<close>

lemma more_apps_ok:
  assumes "db_ok d" "app_ids d \<subseteq> app_ids (d\<lparr>d_apps := as\<rparr>)" "apps_ok (d\<lparr>d_apps := as\<rparr>)"
  shows "db_ok (d\<lparr>d_apps := as\<rparr>)"
  using assms unfolding db_ok_def db_ok_app_ids by auto

lemma update_app_ok:
  assumes "db_ok d" "\<And>a. app_id (f a) = app_id a" "\<And>a. a \<in> set (d_apps d) \<Longrightarrow> app_min_grade (f a) \<in> set grade_values"
  shows "db_ok (update_app app f d)"
proof -
  let ?as = "map (\<lambda>a. if app_id a = app then f a else a) (d_apps d)"
  have as: "d_apps (d\<lparr>d_apps := ?as\<rparr>) = ?as" by simp
  have ids: "map app_id ?as = map app_id (d_apps d)" using assms(2) by simp
  have "\<forall>a \<in> set ?as. app_min_grade a \<in> set grade_values"
    using assms(1,3) by (auto simp: db_ok_def apps_ok_def list_all_iff)
  then have "list_all (\<lambda>a. app_min_grade a \<in> set grade_values) ?as" by (simp only: list_all_iff)
  then have "apps_ok (d\<lparr>d_apps := ?as\<rparr>)"
    using assms(1) ids by (simp only: db_ok_def apps_ok_def as)
  moreover have "app_ids d \<subseteq> app_ids (d\<lparr>d_apps := ?as\<rparr>)"
    using app_ids_update_app [of f app d] assms(2) unfolding update_app_def by simp
  ultimately show ?thesis using more_apps_ok [OF assms(1)] by (simp add: update_app_def)
qed

lemma caps_change_ok: "db_ok d \<Longrightarrow> caps_ok (d\<lparr>d_caps := cs\<rparr>) \<Longrightarrow> db_ok (d\<lparr>d_caps := cs\<rparr>)"
  by (simp add: db_ok_def)

lemma create_effect_ok:
  assumes "create_effect r t d = Some d'" "db_ok d"
  shows "db_ok d'"
proof -
  from assms(1) obtain req where req: "create_fault req = None" "ca_id req \<notin> app_ids d"
    and d': "d' = d\<lparr>d_apps := d_apps d @ [new_app r req t],
      d_caps := add_new (d_caps d) (map (Pair (ca_id req)) (ca_capabilities req))\<rparr>"
    by (auto simp: create_effect_def split: body.splits if_splits)
  let ?d1 = "d\<lparr>d_apps := d_apps d @ [new_app r req t]\<rparr>"
  have ids: "app_ids ?d1 = insert (ca_id req) (app_ids d)" by (simp add: app_ids_def new_app_def)
  have "apps_ok ?d1" using assms(2) req fault_free_grades [OF req(1)]
    by (simp add: db_ok_def apps_ok_def new_app_def app_ids_def)
  then have "db_ok ?d1" by (intro more_apps_ok [OF assms(2)]) (auto simp: ids)
  moreover have "caps_ok (?d1\<lparr>d_caps := add_new (d_caps d) (map (Pair (ca_id req)) (ca_capabilities req))\<rparr>)"
    using assms(2) unfolding db_ok_def db_ok_app_ids app_ids_frame ids by auto
  ultimately have "db_ok (?d1\<lparr>d_caps := add_new (d_caps d) (map (Pair (ca_id req)) (ca_capabilities req))\<rparr>)"
    by (rule caps_change_ok)
  then show ?thesis by (simp add: d')
qed

lemma patch_effect_ok:
  assumes "patch_effect r t d = Some d'" "db_ok d"
  shows "db_ok d'"
proof -
  let ?app = "get_value (hr_params r) ''id''"
  from assms(1) obtain req where req: "patch_fault req = None" "?app \<in> app_ids d"
    and d': "d' = (update_app ?app (patch_row req) d)\<lparr>d_caps :=
      filter (\<lambda>x. x \<notin> Pair ?app ` set (pa_remove_capabilities req))
        (add_new (d_caps d) (map (Pair ?app) (pa_add_capabilities req)))\<rparr>"
    by (auto simp: patch_effect_def Let_def split: body.splits if_splits)
  have ids: "app_id (patch_row req a) = app_id a" for a by (simp add: patch_row_def)
  have "app_min_grade (patch_row req a) \<in> set grade_values" if "a \<in> set (d_apps d)" for a
    using that req(1) assms(2) by (auto simp: patch_row_def patch_fault_def validGrades_eq db_ok_def apps_ok_def list_all_iff
        split: option.splits if_splits)
  then have "db_ok (update_app ?app (patch_row req) d)" by (intro update_app_ok [OF assms(2)]) (simp_all add: ids)
  then show ?thesis unfolding d'
    by (rule caps_change_ok) (use assms(2) req(2) in \<open>auto simp: db_ok_def db_ok_app_ids ids\<close>)
qed

lemma grades_ok: "db_ok d \<Longrightarrow> a \<in> set (d_apps d) \<Longrightarrow> app_min_grade a \<in> set grade_values"
  by (auto simp: db_ok_def apps_ok_def list_all_iff)

lemma delete_effect_ok: "delete_effect r t d = Some d' \<Longrightarrow> db_ok d \<Longrightarrow> db_ok d'"
  by (auto simp: delete_effect_def Let_def grades_ok intro!: update_app_ok split: if_splits)

lemma purge_effect_ok:
  assumes "purge_effect r t d = Some d'" "db_ok d"
  shows "db_ok d'"
proof -
  let ?app = "get_value (hr_params r) ''id''"
  from assms(1) have d': "d' = d\<lparr>d_apps := filter (\<lambda>a. app_id a \<noteq> ?app) (d_apps d),
      d_caps := filter (\<lambda>c. fst c \<noteq> ?app) (d_caps d), d_keys := filter (\<lambda>k. key_app k \<noteq> ?app) (d_keys d),
      d_subs := filter (\<lambda>s. snd s \<noteq> ?app) (d_subs d), d_topics := filter (\<lambda>r. top_app r \<noteq> ?app) (d_topics d)\<rparr>"
    by (auto simp: purge_effect_def Let_def split: if_splits)
  have ids: "app_ids d' = app_ids d - {?app}" by (auto simp: d' app_ids_def)
  have "apps_ok d'" using assms(2) by (auto simp: d' db_ok_def apps_ok_def list_all_iff distinct_map_filter)
  moreover have "caps_ok d'" using assms(2) unfolding db_ok_def db_ok_app_ids ids by (auto simp: d')
  moreover have "keys_ok d'"
    using assms(2) unfolding db_ok_def db_ok_app_ids ids by (auto simp: d' distinct_map_filter list_all_iff)
  moreover have "subs_ok d'" using assms(2) unfolding db_ok_def db_ok_app_ids ids by (auto simp: d')
  moreover have "topics_ok d'"
    using assms(2) unfolding db_ok_def db_ok_app_ids ids by (auto simp: d' distinct_map_filter)
  moreover have "users_ok d' \<and> tokens_ok d' \<and> audit_ok d'"
    using assms(2) by (simp add: d' db_ok_def)
  ultimately show ?thesis by (simp add: db_ok_def)
qed

lemma user_rows_ok:
  "db_ok d \<Longrightarrow> u \<in> set (d_users d) \<Longrightarrow> usr_grade u \<in> set grade_values \<and> usr_status u \<in> set status_values"
  by (auto simp: db_ok_def users_ok_def list_all_iff)

lemma user_effect_ok: "user_effect r t d = Some d' \<Longrightarrow> db_ok d \<Longrightarrow> db_ok d'"
  by (auto simp: user_effect_def validGrades_eq user_rows_ok intro!: update_users_keeps
      split: option.splits body.splits if_splits)

lemma subscribe_effect_ok:
  assumes "subscribe_effect r t d = Some d'" "db_ok d"
  shows "db_ok d'"
proof -
  let ?app = "get_value (hr_params r) ''app_id''"
  from assms(1) obtain a u tg where found: "find (\<lambda>a. app_id a = ?app) (d_apps d) = Some a"
    "find (\<lambda>u. usr_telegram_id u = tg) (d_users d) = Some u" and d': "d' = d\<lparr>d_subs := add_new (d_subs d) [(usr_id u, ?app)]\<rparr>"
    by (auto simp: subscribe_effect_def Let_def simp del: add_new_simps split: option.splits if_splits)
  have "?app \<in> app_ids d" "usr_id u \<in> usr_id ` set (d_users d)"
    using found [THEN find_SomeD] by (auto simp: app_ids_def intro: rev_image_eqI)
  then have "subs_ok d'" using assms(2) unfolding db_ok_def db_ok_app_ids d' app_ids_frame by (auto simp: app_ids_def)
  with assms(2) show ?thesis by (simp add: db_ok_def d' del: add_new_simps)
qed

lemma unsubscribe_effect_ok: "unsubscribe_effect r t d = Some d' \<Longrightarrow> db_ok d \<Longrightarrow> db_ok d'"
  unfolding unsubscribe_effect_def Let_def
  by (fastforce simp: db_ok_def subs_ok_def list_all_iff split: option.splits if_splits)

section \<open>Interpretations\<close>

lemma with_audit_simps [simp]:
  "d_apps (with_audit d0 d) = d_apps d" "d_caps (with_audit d0 d) = d_caps d" "d_users (with_audit d0 d) = d_users d"
  "d_subs (with_audit d0 d) = d_subs d" "d_keys (with_audit d0 d) = d_keys d" "d_topics (with_audit d0 d) = d_topics d"
  "app_ids (with_audit d0 d) = app_ids d" "version_full app (with_audit d0 d) = version_full app d"
  "update_app app f (with_audit d0 d) = with_audit d0 (update_app app f d)"
  "update_users p g (with_audit d0 d) = with_audit d0 (update_users p g d)"
  by (simp_all add: with_audit_def app_ids_def version_full_def update_app_def update_users_def)

lemma update_app_audit [simp]:
  "d_audit (update_app app f d) = d_audit d" "d_audit_seq (update_app app f d) = d_audit_seq d"
  by (simp_all add: update_app_def)

lemma create_effect_frame:
  "create_effect r t (with_audit d0 d) = map_option (with_audit d0) (create_effect r t d)"
  "create_effect r t d = Some d' \<Longrightarrow> d_audit d' = d_audit d \<and> d_audit_seq d' = d_audit_seq d"
  by (auto simp: create_effect_def split: body.splits if_splits) (simp add: with_audit_def)

lemma patch_effect_frame:
  "patch_effect r t (with_audit d0 d) = map_option (with_audit d0) (patch_effect r t d)"
  "patch_effect r t d = Some d' \<Longrightarrow> d_audit d' = d_audit d \<and> d_audit_seq d' = d_audit_seq d"
  by (auto simp: patch_effect_def Let_def split: body.splits if_splits) (simp_all add: with_audit_def)

lemma delete_effect_frame:
  "delete_effect r t (with_audit d0 d) = map_option (with_audit d0) (delete_effect r t d)"
  "delete_effect r t d = Some d' \<Longrightarrow> d_audit d' = d_audit d \<and> d_audit_seq d' = d_audit_seq d"
  by (auto simp: delete_effect_def Let_def split: if_splits)

lemma purge_effect_frame:
  "purge_effect r t (with_audit d0 d) = map_option (with_audit d0) (purge_effect r t d)"
  "purge_effect r t d = Some d' \<Longrightarrow> d_audit d' = d_audit d \<and> d_audit_seq d' = d_audit_seq d"
  by (auto simp: purge_effect_def Let_def split: if_splits) (simp add: with_audit_def)

lemma user_effect_frame:
  "user_effect r t (with_audit d0 d) = map_option (with_audit d0) (user_effect r t d)"
  "user_effect r t d = Some d' \<Longrightarrow> d_audit d' = d_audit d \<and> d_audit_seq d' = d_audit_seq d"
  by (auto simp: user_effect_def split: option.splits body.splits if_splits)

lemma subscribe_effect_frame:
  "subscribe_effect r t (with_audit d0 d) = map_option (with_audit d0) (subscribe_effect r t d)"
  "subscribe_effect r t d = Some d' \<Longrightarrow> d_audit d' = d_audit d \<and> d_audit_seq d' = d_audit_seq d"
  by (auto simp: subscribe_effect_def Let_def split: option.splits if_splits) (simp_all add: with_audit_def)

lemma unsubscribe_effect_frame:
  "unsubscribe_effect r t (with_audit d0 d) = map_option (with_audit d0) (unsubscribe_effect r t d)"
  "unsubscribe_effect r t d = Some d' \<Longrightarrow> d_audit d' = d_audit d \<and> d_audit_seq d' = d_audit_seq d"
  by (auto simp: unsubscribe_effect_def Let_def split: option.splits if_splits) (simp_all add: with_audit_def)

lemma app_stmt_count:
  "filter (\<lambda>a. app_id a = app) (d_apps d) = [] \<longleftrightarrow> app \<notin> app_ids d"
  "app \<in> app_ids d \<Longrightarrow> \<exists>n. length (filter (\<lambda>a. app_id a = app) (d_apps d)) = Suc n"
proof -
  show "filter (\<lambda>a. app_id a = app) (d_apps d) = [] \<longleftrightarrow> app \<notin> app_ids d" for d
    by (auto simp: app_ids_def filter_empty_conv)
  then show "app \<in> app_ids d \<Longrightarrow> \<exists>n. length (filter (\<lambda>a. app_id a = app) (d_apps d)) = Suc n"
    by (metis length_0_conv not0_implies_Suc)
qed

lemma Delete_outcome:
  "\<exists>w1. only_audit e w w1 \<and> w_tg w1 = w_tg w \<and> admin_outcome delete_effect e r w1 (Delete e r w)"
  unfolding Delete_def Let_def
  by (rule locked_change_outcome)
    (auto simp: deactivate_app_def delete_effect_def Let_def app_stmt_count split: if_splits)

lemma Purge_outcome:
  "\<exists>w1. only_audit e w w1 \<and> w_tg w1 = w_tg w \<and> admin_outcome purge_effect e r w1 (Purge e r w)"
  unfolding Purge_def Let_def
  by (rule locked_change_outcome)
    (auto simp: delete_app_def purge_effect_def Let_def app_stmt_count split: if_splits)

interpretation create_ep: admin_endpoint Create create_effect
  by unfold_locales (fact Create_outcome create_effect_frame create_effect_ok)+

interpretation patch_ep: admin_endpoint Patch_app patch_effect
  by unfold_locales (fact Patch_app_outcome patch_effect_frame patch_effect_ok)+

interpretation delete_ep: admin_endpoint Delete delete_effect
  by unfold_locales (fact Delete_outcome delete_effect_frame delete_effect_ok)+

interpretation purge_ep: admin_endpoint Purge purge_effect
  by unfold_locales (fact Purge_outcome purge_effect_frame purge_effect_ok)+

interpretation user_ep: admin_endpoint Patch_user user_effect
  by unfold_locales (fact Patch_user_outcome user_effect_frame user_effect_ok)+

interpretation subscribe_ep: admin_endpoint Subscribe subscribe_effect
  by unfold_locales (fact Subscribe_outcome subscribe_effect_frame subscribe_effect_ok)+

interpretation unsubscribe_ep: admin_endpoint Unsubscribe unsubscribe_effect
  by unfold_locales (fact Unsubscribe_outcome unsubscribe_effect_frame unsubscribe_effect_ok)+


section \<open>Properties of the administration endpoints\<close>

text \<open>The handlers with their effects.\<close>

definition admin_routes ::
  "((env \<Rightarrow> handler) \<times> (http_request \<Rightarrow> time \<Rightarrow> database \<Rightarrow> database option)) list" where
  "admin_routes = [(Create, create_effect), (Patch_app, patch_effect), (Delete, delete_effect), (Purge, purge_effect),
     (Patch_user, user_effect), (Subscribe, subscribe_effect), (Unsubscribe, unsubscribe_effect)]"

lemma admin_routes_endpoint: "(h, eff) \<in> set admin_routes \<Longrightarrow> admin_endpoint h eff"
  using create_ep.admin_endpoint_axioms patch_ep.admin_endpoint_axioms delete_ep.admin_endpoint_axioms
    purge_ep.admin_endpoint_axioms user_ep.admin_endpoint_axioms subscribe_ep.admin_endpoint_axioms
    unsubscribe_ep.admin_endpoint_axioms
  by (auto simp: admin_routes_def)

text \<open>C11: An administration request is atomic and means what its effect says: with an error status
  only audit rows were written, with a success status the tables are exactly those of the effect
  plus audit rows; when no round trip fails, every request with an effect succeeds. Either way the
  schema's constraints hold afterwards, the log has only grown, its chain is intact and Telegram was not called.\<close>

theorem admin_request_atomic:
  assumes "(h, eff) \<in> set admin_routes" "h e r w = (resp, w')" "db_ok (w_db w)" "chain_ok e (w_db w)"
  shows "(400 \<le> rs_status resp \<and> same_but_audit (w_db w) (w_db w') \<or>
      rs_status resp < 300 \<and> (\<exists>t d'. eff r t (w_db w) = Some d' \<and> same_but_audit d' (w_db w'))) \<and>
    (no_faults e \<and> (\<exists>t. eff r t (w_db w) \<noteq> None) \<longrightarrow> rs_status resp < 300) \<and>
    db_ok (w_db w') \<and> chain_ok e (w_db w') \<and> (\<exists>rows. d_audit (w_db w') = d_audit (w_db w) @ rows) \<and> w_tg w' = w_tg w"
proof -
  from admin_routes_endpoint [OF assms(1)] have ep: "admin_endpoint h eff" .
  have "audit_ok (w_db w)" using assms(3) by (simp add: db_ok_def)
  then show ?thesis
    using admin_endpoint.request_atomic [OF ep, of e r w] admin_endpoint.request_accepted [OF ep, of e r _ w]
      admin_endpoint.request_keeps [OF ep, where e = e and r = r and w = w] admin_endpoint.request_tg [OF ep, of e r w] assms(2-4)
    by auto
qed

lemma validateCapabilityGrant_None:
  "validateCapabilityGrant cs = None \<Longrightarrow> set cs \<subseteq> set allowedCapabilities - set forbiddenCapabilities"
  by (induction cs) (auto split: if_splits)

lemma admin_routes_cases:
  assumes "(h, eff) \<in> set admin_routes"
  obtains (create) "eff = create_effect" | (patch) "eff = patch_effect"
    | (other) "eff \<in> {delete_effect, purge_effect, user_effect, subscribe_effect, unsubscribe_effect}"
  using assms by (auto simp: admin_routes_def)

lemma other_effect_caps:
  assumes "eff \<in> {delete_effect, purge_effect, user_effect, subscribe_effect, unsubscribe_effect}" "eff r t d = Some d'"
  shows "set (d_caps d') \<subseteq> set (d_caps d)" "app \<in> app_ids d' \<Longrightarrow> app_caps d' app = app_caps d app"
proof -
  have "set (d_caps d') \<subseteq> set (d_caps d) \<and> (app \<in> app_ids d' \<longrightarrow> app_caps d' app = app_caps d app)"
    using assms by (auto simp: delete_effect_def purge_effect_def user_effect_def subscribe_effect_def
        unsubscribe_effect_def update_app_def update_users_def Let_def app_caps_def app_ids_def
        split: body.splits option.splits if_splits)
  then show "set (d_caps d') \<subseteq> set (d_caps d)" "app \<in> app_ids d' \<Longrightarrow> app_caps d' app = app_caps d app" by auto
qed

lemma effect_grants:
  assumes "(h, eff) \<in> set admin_routes" "eff r t d = Some d'" "(app, c) \<in> set (d_caps d')" "(app, c) \<notin> set (d_caps d)"
  shows "c \<in> set allowedCapabilities - set forbiddenCapabilities"
  using assms(1)
proof (cases rule: admin_routes_cases)
  case create
  with assms obtain req where "create_fault req = None" "c \<in> set (ca_capabilities req)"
    by (auto simp: create_effect_def split: body.splits if_splits)
  then show ?thesis
    using validateCapabilityGrant_None [of "ca_capabilities req"] by (auto simp: create_fault_def split: if_splits)
next
  case patch
  with assms obtain req where "patch_fault req = None" "c \<in> set (pa_add_capabilities req)"
    by (auto simp: patch_effect_def Let_def split: body.splits if_splits)
  then show ?thesis
    using validateCapabilityGrant_None [of "pa_add_capabilities req"] by (auto simp: patch_fault_def split: if_splits)
next
  case other
  from other_effect_caps(1) [OF this assms(2)] assms(3,4) show ?thesis by auto
qed

lemma effect_version:
  assumes "(h, eff) \<in> set admin_routes" "eff r t d = Some d'" "db_ok d" "a \<in> set (d_apps d)" "a' \<in> set (d_apps d')"
    "app_id a' = app_id a" "app_caps d' (app_id a) \<noteq> app_caps d (app_id a)"
  shows "app_capver a' = app_capver a + 1"
  using assms(1)
proof (cases rule: admin_routes_cases)
  case create
  with assms(2,4,7) show ?thesis
    by (force simp: create_effect_def app_caps_def app_ids_def split: body.splits if_splits)
next
  case patch
  let ?app = "get_value (hr_params r) ''id''"
  from patch assms(2) obtain req where d': "d' = (update_app ?app (patch_row req) d)\<lparr>d_caps :=
      filter (\<lambda>x. x \<notin> Pair ?app ` set (pa_remove_capabilities req))
        (add_new (d_caps d) (map (Pair ?app) (pa_add_capabilities req)))\<rparr>"
    by (auto simp: patch_effect_def Let_def split: body.splits if_splits)
  have here: "app_id a = ?app" and ch: "caps_changed req"
    using assms(7) by (auto simp: d' app_caps_def caps_changed_def)
  from assms(5) obtain b where b: "b \<in> set (d_apps d)" "a' = (if app_id b = ?app then patch_row req b else b)"
    by (auto simp: d' update_app_def)
  have "app_id b = app_id a" using b(2) assms(6) by (simp add: patch_row_def split: if_splits)
  moreover have "inj_on app_id (set (d_apps d))" using assms(3) by (simp add: db_ok_def apps_ok_def distinct_map)
  ultimately have "b = a" using b(1) assms(4) by (auto dest: inj_onD)
  with b(2) here ch show ?thesis by (simp add: patch_row_def)
next
  case other
  have "app_id a \<in> app_ids d'" using assms(5,6) by (auto simp: app_ids_def intro: rev_image_eqI)
  from other_effect_caps(2) [OF other assms(2) this] assms(7) show ?thesis by simp
qed

text \<open>C6: No request of the administration API grants a management capability: whatever row a request
  adds to the capability table, its capability is one of the five grantable ones.\<close>

theorem grants_never_escalate:
  assumes "(h, eff) \<in> set admin_routes" "h e r w = (resp, w')"
    and "(app, c) \<in> set (d_caps (w_db w'))" "(app, c) \<notin> set (d_caps (w_db w))"
  shows "c \<in> set allowedCapabilities - set forbiddenCapabilities"
proof -
  have caps: "d_caps d' = d_caps d" if "same_but_audit d d'" for d d' using same_but_audit_fields [OF that] by simp
  from admin_endpoint.request_atomic [OF admin_routes_endpoint [OF assms(1)], of e r w] assms(2)
  consider "same_but_audit (w_db w) (w_db w')"
    | t d' where "eff r t (w_db w) = Some d'" "same_but_audit d' (w_db w')" by auto
  then show ?thesis
  proof cases
    case 2
    with assms caps effect_grants [OF assms(1) 2(1)] show ?thesis by auto
  qed (use assms caps in auto)
qed

text \<open>C22: Whenever an administration request changes the set of capabilities of an existing application,
  it also increments that application's capability version, so that no two different sets carry the same version in a row.\<close>

theorem capability_change_bumps_version:
  assumes "(h, eff) \<in> set admin_routes" "h e r w = (resp, w')" "db_ok (w_db w)"
    and "a \<in> set (d_apps (w_db w))" "a' \<in> set (d_apps (w_db w'))" "app_id a' = app_id a"
    and "app_caps (w_db w') (app_id a) \<noteq> app_caps (w_db w) (app_id a)"
  shows "app_capver a' = app_capver a + 1"
proof -
  have same: "d_apps d' = d_apps d \<and> app_caps d' = app_caps d" if "same_but_audit d d'" for d d'
    using same_but_audit_fields [OF that] by (auto simp: app_caps_def)
  from admin_endpoint.request_atomic [OF admin_routes_endpoint [OF assms(1)], of e r w] assms(2)
  consider "same_but_audit (w_db w) (w_db w')"
    | t d' where "eff r t (w_db w) = Some d'" "same_but_audit d' (w_db w')" by auto
  then show ?thesis
  proof cases
    case 2
    with same [OF 2(2)] assms effect_version [OF assms(1) 2(1) assms(3,4), of a'] show ?thesis by simp
  qed (use assms same in auto)
qed

text \<open>C23: Once a Delete or Purge of an application has succeeded, no bearer resolves to it any more, as long as
  the tables are not changed again.\<close>

theorem removed_app_is_locked_out:
  assumes "h \<in> {Delete, Purge}" "h e r w = (resp, w')" "rs_status resp < 300"
    and "w_db w2 = w_db w'"
  shows "\<forall>i. fst (Resolve e bearer w2) = Inr i \<longrightarrow> rq_app_id i \<noteq> get_value (hr_params r) ''id''"
proof -
  let ?app = "get_value (hr_params r) ''id''"
  define eff where "eff = (if h = Delete then delete_effect else purge_effect)"
  have route: "(h, eff) \<in> set admin_routes" using assms(1) by (auto simp: admin_routes_def eff_def)
  from admin_endpoint.request_atomic [OF admin_routes_endpoint [OF route], of e r w] assms(2,3)
  obtain t d' where d': "eff r t (w_db w) = Some d'" "same_but_audit d' (w_db w')" by auto
  have "\<not> app_active a" if "a \<in> set (d_apps d')" "app_id a = ?app" for a
    using d'(1) that assms(1) by (auto simp: eff_def delete_effect_def purge_effect_def update_app_def Let_def split: if_splits)
  then have "\<not> app_active a" if "a \<in> set (d_apps (w_db w2))" "app_id a = ?app" for a
    using that same_but_audit_fields [OF d'(2)] assms(4) by auto
  then show ?thesis using Resolve_grants by (fastforce simp: grants_def)
qed


section \<open>Concrete requests\<close>

definition demo_admin_request :: http_request where
  "demo_admin_request = \<lparr>hr_method = ''POST'', hr_path = ''/admin/apps'', hr_authorization = [],
     hr_trace_header = [], hr_remote = [], hr_query = [], hr_params = [(''id'', ''ops'')],
     hr_body = Body_create \<lparr>ca_id = ''abc'', ca_name = ''A'', ca_description = [], ca_min_grade = [],
       ca_capabilities = [''noop.invoke'']\<rparr>, hr_trace = ''t'', hr_requester = None\<rparr>"

definition demo_admin_world :: world where
  "demo_admin_world = empty_world\<lparr>w_db := demo_app_db\<rparr>"

definition demo_patch_request :: http_request where
  "demo_patch_request = demo_admin_request\<lparr>hr_body := Body_patch \<lparr>pa_description = None, pa_min_grade = None,
     pa_active = None, pa_add_capabilities = [''noop.invoke''], pa_remove_capabilities = []\<rparr>\<rparr>"

lemma demo_admin_ok: "db_ok (w_db demo_admin_world)" "chain_ok demo_env (w_db demo_admin_world)"
  by (simp_all add: demo_admin_world_def demo_app_db_def db_ok_defs empty_db_def grade_values_def chain_ok_def)

lemma demo_create_effect:
  "create_effect demo_admin_request t demo_app_db = Some (demo_app_db\<lparr>
     d_apps := d_apps demo_app_db @ [\<lparr>app_id = ''abc'', app_name = ''A'', app_description = [], app_min_grade = ''user'',
       app_active = True, app_created_at = t, app_capver = 1, app_created_by = []\<rparr>],
     d_caps := d_caps demo_app_db @ [(''abc'', ''noop.invoke'')]\<rparr>)"
  by (simp add: create_effect_def demo_admin_request_def create_fault_def id_head_char_def id_tail_char_def
      forbiddenCapabilities_def allowedCapabilities_def new_app_def app_ids_def demo_app_db_def cap_defs)

lemma demo_patch_effect:
  "patch_effect demo_patch_request t demo_app_db = Some (demo_app_db\<lparr>
     d_apps := map (\<lambda>a. a\<lparr>app_capver := 3\<rparr>) (d_apps demo_app_db),
     d_caps := d_caps demo_app_db @ [(''ops'', ''noop.invoke'')]\<rparr>)"
  by (simp add: patch_effect_def demo_patch_request_def demo_admin_request_def patch_fault_def get_value_def
      forbiddenCapabilities_def allowedCapabilities_def app_ids_def demo_app_db_def cap_defs version_full_def caps_changed_def
      update_app_def patch_row_def Let_def)

lemma demo_delete_effect: "delete_effect demo_admin_request t demo_app_db \<noteq> None"
  by (simp add: delete_effect_def demo_admin_request_def get_value_def app_ids_def demo_app_db_def version_full_def Let_def)

text \<open>What a request with an effect leaves in the demonstration tables.\<close>

lemma demo_admin_run:
  assumes "(h, eff) \<in> set admin_routes" "\<And>t. eff r t demo_app_db = Some (f t)"
  shows "rs_status (fst (h demo_env r demo_admin_world)) < 300 \<and>
    (\<exists>t. same_but_audit (f t) (w_db (snd (h demo_env r demo_admin_world))))"
proof -
  note ep = admin_routes_endpoint [OF assms(1)]
  have st: "rs_status (fst (h demo_env r demo_admin_world)) < 300"
    by (rule admin_endpoint.request_accepted [OF ep, where t = 0]) (simp_all add: no_faults_def demo_admin_world_def assms(2))
  with admin_endpoint.request_atomic [OF ep, of demo_env r demo_admin_world] assms(2) show ?thesis
    by (auto simp: demo_admin_world_def)
qed

theorem admin_request_atomic_witness:
  "rs_status (fst (Create demo_env demo_admin_request demo_admin_world)) < 300 \<and>
   db_ok (w_db (snd (Create demo_env demo_admin_request demo_admin_world)))"
  using admin_request_atomic [of Create create_effect demo_env demo_admin_request demo_admin_world
      "fst (Create demo_env demo_admin_request demo_admin_world)" "snd (Create demo_env demo_admin_request demo_admin_world)"]
    demo_admin_ok demo_create_effect
  by (simp add: admin_routes_def no_faults_def demo_admin_world_def)

theorem grants_never_escalate_witness:
  "(''abc'', ''noop.invoke'') \<in> set (d_caps (w_db (snd (Create demo_env demo_admin_request demo_admin_world)))) \<and>
   ''noop.invoke'' \<in> set allowedCapabilities - set forbiddenCapabilities"
proof -
  let ?w = "snd (Create demo_env demo_admin_request demo_admin_world)"
  have route: "(Create, create_effect) \<in> set admin_routes" by (simp add: admin_routes_def)
  have new: "(''abc'', ''noop.invoke'') \<in> set (d_caps (w_db ?w))"
    using demo_admin_run [OF route demo_create_effect] same_but_audit_fields(2) by fastforce
  moreover have "(''abc'', ''noop.invoke'') \<notin> set (d_caps (w_db demo_admin_world))"
    by (simp add: demo_admin_world_def demo_app_db_def)
  ultimately show ?thesis
    using grants_never_escalate [OF route, of demo_env demo_admin_request demo_admin_world
        "fst (Create demo_env demo_admin_request demo_admin_world)" ?w] by simp
qed

theorem capability_change_bumps_version_witness:
  "list_all (\<lambda>a. app_capver a = 2 + 1) (d_apps (w_db (snd (Patch_app demo_env demo_patch_request demo_admin_world))))"
  unfolding list_all_iff
proof
  let ?w = "snd (Patch_app demo_env demo_patch_request demo_admin_world)"
  have route: "(Patch_app, patch_effect) \<in> set admin_routes" by (simp add: admin_routes_def)
  from demo_admin_run [OF route demo_patch_effect]
  have same: "same_but_audit (demo_app_db\<lparr>d_apps := map (\<lambda>a. a\<lparr>app_capver := 3\<rparr>) (d_apps demo_app_db),
     d_caps := d_caps demo_app_db @ [(''ops'', ''noop.invoke'')]\<rparr>) (w_db ?w)" by blast
  fix a'
  assume a': "a' \<in> set (d_apps (w_db ?w))"
  obtain a where a: "d_apps (w_db demo_admin_world) = [a]" "app_id a = ''ops''" "app_capver a = 2"
    by (simp add: demo_admin_world_def demo_app_db_def)
  have "app_id a' = app_id a"
    using a' a same_but_audit_fields(1) [OF same] by (auto simp: demo_admin_world_def)
  moreover have "app_caps (w_db ?w) (app_id a) \<noteq> app_caps (w_db demo_admin_world) (app_id a)"
  proof -
    have "''noop.invoke'' \<in> app_caps (w_db ?w) ''ops''"
      unfolding app_caps_def same_but_audit_fields(2) [OF same] by simp
    moreover have "''noop.invoke'' \<notin> app_caps (w_db demo_admin_world) ''ops''"
      by (simp add: app_caps_def demo_admin_world_def demo_app_db_def cap_defs)
    ultimately show ?thesis unfolding a(2) by blast
  qed
  ultimately have "app_capver a' = app_capver a + 1"
    using a(1) by (intro capability_change_bumps_version [OF route _ demo_admin_ok(1) _ a']) (auto simp: prod_eq_iff)
  then show "app_capver a' = 2 + 1" using a(3) by simp
qed

theorem removed_app_is_locked_out_witness:
  "fst (Resolve demo_env ''tg_ab_cd'' (snd (Delete demo_env demo_admin_request demo_admin_world))) \<notin>
     Inr ` {i. rq_app_id i = ''ops''}"
proof -
  let ?run = "Delete demo_env demo_admin_request demo_admin_world"
  have f: "\<And>t. delete_effect demo_admin_request t demo_app_db = Some (the (delete_effect demo_admin_request t demo_app_db))"
    using demo_delete_effect by simp
  have "rs_status (fst ?run) < 300" using demo_admin_run [of Delete delete_effect, OF _ f] by (simp add: admin_routes_def)
  then show ?thesis
    using removed_app_is_locked_out [of Delete demo_env demo_admin_request demo_admin_world "fst ?run" "snd ?run" "snd ?run" "''tg_ab_cd''"]
    by (auto simp: demo_admin_request_def get_value_def)
qed

end
