(* ===== verification/Bot.thy ===== *)
theory Bot
  imports Bot_Texts Api_Admin Strategy
begin

text \<open>
  The Telegram bot: the topic provisioner and the poller of \<^verbatim>\<open>src/internal/bot\<close>, and its handlers
  \<^verbatim>\<open>startgroup\<close>, \<^verbatim>\<open>promote\<close>, \<^verbatim>\<open>intrusion\<close>, \<^verbatim>\<open>apps\<close> and \<^verbatim>\<open>start\<close>, in the order in which
  \<^verbatim>\<open>src/cmd/server/main.go\<close> registers them. The fields of an update are those that the handlers read.
  Log lines are not part of the state.
\<close>

section \<open>Updates\<close>

record tg_user =
  tu_id :: int
  tu_username :: string
  tu_first_name :: string
  tu_last_name :: string
  tu_language_code :: string

record tg_chat =
  tc_id :: int
  tc_type :: string

record tg_message =
  tm_from :: "tg_user option"
  tm_chat :: tg_chat
  tm_text :: string

text \<open>A \<^verbatim>\<open>telego.ChatMember\<close>; the rights are there when it is a \<^verbatim>\<open>*ChatMemberAdministrator\<close>.\<close>

record admin_rights =
  can_post_messages :: bool
  can_post_stories :: bool
  can_manage_topics :: bool
  can_restrict_members :: bool

record chat_member =
  cm_status :: string
  cm_user :: int
  cm_rights :: "admin_rights option"

record member_update =
  mu_chat :: tg_chat
  mu_new :: "chat_member option"

record update =
  up_message :: "tg_message option"
  up_my_chat_member :: "member_update option"
  up_chat_member :: "member_update option"

datatype bot_error = Bot_registry registry_error | Bot_db db_error | Bot_telegram string | Bot_random

type_synonym bot_handler = "update \<Rightarrow> world \<Rightarrow> (bool \<times> bot_error option) \<times> world"

record bot_config =
  bc_username :: string
  bc_token_ttl :: duration
  bc_bot_id :: int

definition send_text :: "env \<Rightarrow> int \<Rightarrow> string \<Rightarrow> world \<Rightarrow> bot_error option \<times> world" where
  "send_text e chat text w =
     (case tg_invoke e (SendMessage chat None text) w of
        (Tg_error m, w1) \<Rightarrow> (Some (Bot_telegram m), w1)
      | (_, w1) \<Rightarrow> (None, w1))"


section \<open>Topic provisioner\<close>

fun ensure_loop :: "env \<Rightarrow> int \<Rightarrow> int \<Rightarrow> string list \<Rightarrow> string list \<Rightarrow> world \<Rightarrow> string list \<times> world" where
  "ensure_loop e uid chat [] created w = (created, w)"
| "ensure_loop e uid chat (app # apps) created w =
     (case tg_invoke e (CreateForumTopic chat app) w of
        (Tg_error _, w1) \<Rightarrow> ensure_loop e uid chat apps created w1
      | (Tg_nil, w1) \<Rightarrow> ensure_loop e uid chat apps created w1
      | (Tg_ok topic, w1) \<Rightarrow>
          (case AddTopic e uid app topic w1 of
             (Inl _, w2) \<Rightarrow> ensure_loop e uid chat apps created w2
           | (Inr _, w2) \<Rightarrow> ensure_loop e uid chat apps (created @ [app]) w2))"

definition EnsureForSubscribedApps ::
  "env \<Rightarrow> int \<Rightarrow> int \<Rightarrow> world \<Rightarrow> (bot_error + string list) \<times> world" where
  "EnsureForSubscribedApps e uid chat w =
     (case ListSubscribedAppsWithoutTopic e uid w of
        (Inl err, w1) \<Rightarrow> (Inl (Bot_registry err), w1)
      | (Inr apps, w1) \<Rightarrow> (case ensure_loop e uid chat apps [] w1 of (created, w2) \<Rightarrow> (Inr created, w2)))"

definition Close :: "env \<Rightarrow> int \<Rightarrow> int \<Rightarrow> string \<Rightarrow> world \<Rightarrow> bot_error option \<times> world" where
  "Close e uid chat app w =
     (case GetTopicID e uid app w of
        (Inl err, w1) \<Rightarrow> (Some (Bot_registry err), w1)
      | (Inr topic, w1) \<Rightarrow>
          (case tg_invoke e (CloseForumTopic chat topic) w1 of
             (Tg_error m, w2) \<Rightarrow> (Some (Bot_telegram m), w2)
           | (_, w2) \<Rightarrow>
               (case RemoveTopic e uid app w2 of
                  (Inl err, w3) \<Rightarrow> (Some (Bot_registry err), w3)
                | (Inr _, w3) \<Rightarrow> (None, w3))))"


section \<open>Start\<close>

definition startgroupTokenTTL :: duration where "startgroupTokenTTL = 30 * 60 * second_ns"
definition startgroupTokenLen :: nat where "startgroupTokenLen = 16"

definition ttl :: "bot_config \<Rightarrow> duration" where
  "ttl c = (if bc_token_ttl c > 0 then bc_token_ttl c else startgroupTokenTTL)"

definition newToken :: "env \<Rightarrow> world \<Rightarrow> string option \<times> world" where
  "newToken e w =
     (case rand_read e startgroupTokenLen w of
        (None, w1) \<Rightarrow> (None, w1)
      | (Some buf, w1) \<Rightarrow> (Some (hex_encode buf), w1))"

definition displayName :: "tg_user \<Rightarrow> string" where
  "displayName u = (if tu_username u \<noteq> [] then tu_username u
     else TrimSpace (tu_first_name u @ '' '' @ tu_last_name u))"

definition issueStartgroupDeeplink :: "env \<Rightarrow> bot_config \<Rightarrow> int \<Rightarrow> int \<Rightarrow> world \<Rightarrow> bot_error option \<times> world" where
  "issueStartgroupDeeplink e c uid chat w =
     (if bc_username c = [] then send_text e chat msg_no_username w
      else
        (case newToken e w of
           (None, w1) \<Rightarrow> (Some Bot_random, w1)
         | (Some token, w1) \<Rightarrow>
             (case IssueToken e token uid (ttl c) w1 of
                (Inl err, w2) \<Rightarrow> (Some (Bot_registry err), w2)
              | (Inr _, w2) \<Rightarrow>
                  (let url = ''https://t.me/'' @ bc_username c @ ''?startgroup='' @ token
                   in send_text e chat (msg_deeplink_1 @ url @ msg_deeplink_2) w2))))"

definition handleStart :: "env \<Rightarrow> bot_config \<Rightarrow> tg_user \<Rightarrow> int \<Rightarrow> world \<Rightarrow> bot_error option \<times> world" where
  "handleStart e c from chat w =
     (case UpsertOnStart e (tu_id from) (displayName from) (tu_language_code from) w of
        (Inl err, w1) \<Rightarrow> (Some (Bot_registry err), w1)
      | (Inr user, w1) \<Rightarrow>
          if u_supergroup user \<noteq> None \<and> u_bot_is_admin user then send_text e chat msg_registered w1
          else if u_agreed_at user = None then send_text e chat msg_welcome w1
          else issueStartgroupDeeplink e c (u_id user) chat w1)"

definition handleAgree :: "env \<Rightarrow> bot_config \<Rightarrow> tg_user \<Rightarrow> int \<Rightarrow> world \<Rightarrow> bot_error option \<times> world" where
  "handleAgree e c from chat w =
     (case (case GetByTelegramID e (tu_id from) w of
              (Inl ErrUserNotFound, w1) \<Rightarrow>
                UpsertOnStart e (tu_id from) (displayName from) (tu_language_code from) w1
            | (res, w1) \<Rightarrow> (res, w1)) of
        (Inl err, w2) \<Rightarrow> (Some (Bot_registry err), w2)
      | (Inr user, w2) \<Rightarrow>
          (case MarkAgreed e (u_id user) w2 of
             (Inl err, w3) \<Rightarrow> (Some (Bot_registry err), w3)
           | (Inr transitioned, w3) \<Rightarrow>
               (let w4 = (if transitioned
                          then snd (Write e (zero_event\<lparr>ev_stage := StageValidated, ev_endpoint := ''/agree'',
                                 ev_details := [(''telegram_id'', JInt (tu_id from)), (''user_id'', JInt (u_id user))]\<rparr>) w3)
                          else w3)
                in issueStartgroupDeeplink e c (u_id user) chat w4)))"

definition StartHandler :: "env \<Rightarrow> bot_config \<Rightarrow> bot_handler" where
  "StartHandler e c u w =
     (case up_message u of
        None \<Rightarrow> ((False, None), w)
      | Some m \<Rightarrow>
          (case tm_from m of
             None \<Rightarrow> ((False, None), w)
           | Some from \<Rightarrow>
               (let text = TrimSpace (tm_text m); chat = tc_id (tm_chat m)
                in if text = ''/start'' \<or> HasPrefix text ''/start '' then
                     (case handleStart e c from chat w of (err, w1) \<Rightarrow> ((True, err), w1))
                   else if text = ''/agree'' then
                     (case handleAgree e c from chat w of (err, w1) \<Rightarrow> ((True, err), w1))
                   else ((False, None), w))))"


section \<open>Startgroup\<close>

definition StartgroupHandler :: "env \<Rightarrow> bot_handler" where
  "StartgroupHandler e u w =
     (case up_message u of
        None \<Rightarrow> ((False, None), w)
      | Some m \<Rightarrow>
          (let chatType = tc_type (tm_chat m); text = TrimSpace (tm_text m);
               token = TrimSpace (TrimPrefix text ''/start '')
           in if chatType \<noteq> ''group'' \<and> chatType \<noteq> ''supergroup'' then ((False, None), w)
              else if \<not> HasPrefix text ''/start '' then ((False, None), w)
              else if token = [] then ((False, None), w)
              else
                (let chat = tc_id (tm_chat m)
                 in case ConsumeToken e token w of
                      (Inl ErrTokenNotFound, w1) \<Rightarrow>
                        (case send_text e chat msg_bad_token w1 of (err, w2) \<Rightarrow> ((True, err), w2))
                    | (Inl ErrTokenExpired, w1) \<Rightarrow>
                        (case send_text e chat msg_bad_token w1 of (err, w2) \<Rightarrow> ((True, err), w2))
                    | (Inl err, w1) \<Rightarrow> ((True, Some (Bot_registry err)), w1)
                    | (Inr uid, w1) \<Rightarrow>
                        (case LinkSupergroup e uid chat w1 of
                           (Inl err, w2) \<Rightarrow> ((True, Some (Bot_registry err)), w2)
                         | (Inr _, w2) \<Rightarrow>
                             (case send_text e chat msg_linked w2 of (err, w3) \<Rightarrow> ((True, err), w3))))))"


section \<open>Promote\<close>

definition classifyMyChatMember :: "chat_member option \<Rightarrow> string \<times> bool" where
  "classifyMyChatMember member =
     (case member of
        None \<Rightarrow> ([], False)
      | Some m \<Rightarrow>
          (cm_status m,
           case cm_rights m of
             None \<Rightarrow> False
           | Some r \<Rightarrow> (can_post_messages r \<or> can_post_stories r) \<and> can_manage_topics r \<and> can_restrict_members r))"

definition markNotAdmin :: "env \<Rightarrow> int \<Rightarrow> int \<Rightarrow> string \<Rightarrow> world \<Rightarrow> bot_error option \<times> world" where
  "markNotAdmin e uid chat errorCode w =
     (case SetBotIsAdmin e uid False w of
        (Inl err, w1) \<Rightarrow> (Some (Bot_registry err), w1)
      | (Inr _, w1) \<Rightarrow>
          (None, snd (Write e (zero_event\<lparr>ev_stage := StageBotNotAdmin, ev_endpoint := ''my_chat_member'',
             ev_route_strategy := ''bot'', ev_delivery_channel := ChannelSupergroup,
             ev_recipient_user_id := uid, ev_recipient_chat_id := chat, ev_error_code := errorCode\<rparr>) w1)))"

definition ready_text :: "string list \<Rightarrow> string" where
  "ready_text created =
     (if length created > 0
      then msg_ready_1 @ FormatInt (int (length created)) @ msg_ready_2 @ format_list created
      else msg_ready)"

definition PromoteHandler :: "env \<Rightarrow> bot_handler" where
  "PromoteHandler e u w =
     (case up_my_chat_member u of
        None \<Rightarrow> ((False, None), w)
      | Some mu \<Rightarrow>
          (let chat = tc_id (mu_chat mu); ctype = tc_type (mu_chat mu)
           in if ctype \<noteq> ''supergroup'' \<and> ctype \<noteq> ''group'' then ((True, None), w)
              else
                (case FindUserByChatID e chat w of
                   (Inl _, w1) \<Rightarrow> ((True, None), w1)
                 | (Inr uid, w1) \<Rightarrow>
                     (case classifyMyChatMember (mu_new mu) of (newStatus, hasAllAdminRights) \<Rightarrow>
                      if newStatus = ''administrator'' then
                        (if \<not> hasAllAdminRights then
                           (let w2 = snd (send_text e chat msg_missing_rights w1)
                            in case markNotAdmin e uid chat ''intrusion_unmitigated'' w2 of
                                 (err, w3) \<Rightarrow> ((True, err), w3))
                         else
                           (case SetBotIsAdmin e uid True w1 of
                              (Inl err, w2) \<Rightarrow> ((True, Some (Bot_registry err)), w2)
                            | (Inr _, w2) \<Rightarrow>
                                (case EnsureForSubscribedApps e uid chat w2 of (res, w3) \<Rightarrow>
                                 ((True, None),
                                  snd (send_text e chat
                                    (ready_text (case res of Inl _ \<Rightarrow> [] | Inr created \<Rightarrow> created)) w3)))))
                      else if newStatus \<in> {''member'', ''restricted'', ''left'', ''kicked''} then
                        (case markNotAdmin e uid chat ''bot_not_admin'' w1 of (err, w2) \<Rightarrow> ((True, err), w2))
                      else ((True, None), w1)))))"


section \<open>Intrusion\<close>

definition intrusion_event :: "string \<Rightarrow> int \<Rightarrow> int \<Rightarrow> event" where
  "intrusion_event stage uid chat =
     zero_event\<lparr>ev_stage := stage, ev_endpoint := ''chat_member'', ev_route_strategy := ''bot'',
       ev_delivery_channel := ChannelSupergroup, ev_recipient_user_id := uid, ev_recipient_chat_id := chat\<rparr>"

definition IntrusionHandler :: "env \<Rightarrow> bot_config \<Rightarrow> bot_handler" where
  "IntrusionHandler e c u w =
     (case up_chat_member u of
        None \<Rightarrow> ((False, None), w)
      | Some mu \<Rightarrow>
          (let chat = tc_id (mu_chat mu); ctype = tc_type (mu_chat mu)
           in if ctype \<noteq> ''supergroup'' \<and> ctype \<noteq> ''group'' then ((True, None), w)
              else
                (case FindUserByChatID e chat w of
                   (Inl _, w1) \<Rightarrow> ((True, None), w1)
                 | (Inr uid, w1) \<Rightarrow>
                     (case mu_new mu of
                        None \<Rightarrow> ((True, None), w1)
                      | Some m \<Rightarrow>
                          (let intruder = cm_user m; status = cm_status m
                           in if bc_bot_id c \<noteq> 0 \<and> intruder = bc_bot_id c then ((True, None), w1)
                              else if status \<noteq> ''member'' \<and> status \<noteq> ''restricted'' then ((True, None), w1)
                              else
                                (case tg_invoke e (BanChatMember chat intruder) w1 of
                                   (Tg_error msg, w2) \<Rightarrow>
                                     ((True, Some (Bot_telegram msg)),
                                      snd (Write e ((intrusion_event StageIntrusionUnmitigated uid chat)\<lparr>
                                        ev_error_code := ''ban_failed'',
                                        ev_details := [(''intruder_id'', JInt intruder), (''error'', JStr msg)]\<rparr>) w2))
                                 | (_, w2) \<Rightarrow>
                                     ((True, None),
                                      snd (Write e ((intrusion_event StageIntrusionKick uid chat)\<lparr>
                                        ev_details := [(''intruder_id'', JInt intruder)]\<rparr>) w2))))))))"


section \<open>Apps\<close>

record app_entry =
  ae_id :: string
  ae_name :: string
  ae_min_grade :: string
  ae_subscribed :: bool

fun insert_entry :: "app_entry \<Rightarrow> app_entry list \<Rightarrow> app_entry list" where
  "insert_entry x [] = [x]"
| "insert_entry x (y # ys) = (if text_le (ae_id x) (ae_id y) then x # y # ys else y # insert_entry x ys)"

definition app_entries :: "int \<Rightarrow> database \<Rightarrow> app_entry list" where
  "app_entries uid d = map (\<lambda>a. \<lparr>ae_id = app_id a, ae_name = app_name a, ae_min_grade = app_min_grade a,
       ae_subscribed = ((uid, app_id a) \<in> set (d_subs d))\<rparr>) (filter app_active (d_apps d))"

definition visible_line :: "app_entry \<Rightarrow> string" where
  "visible_line x =
     (if ae_subscribed x
      then msg_full_box @ '' '' @ ae_id x @ '' ('' @ ae_name x @ '')'' @ [CHR 0x0A] @ ''   /unsubscribe '' @ ae_id x
      else msg_box @ '' '' @ ae_id x @ '' ('' @ ae_name x @ '')'' @ [CHR 0x0A] @ ''   /subscribe '' @ ae_id x) @ [CHR 0x0A]"

definition locked_line :: "app_entry \<Rightarrow> string" where
  "locked_line x = ''  - '' @ ae_id x @ '' ('' @ ae_name x @ '', requires '' @ ae_min_grade x @ '')'' @ [CHR 0x0A]"

definition catalogue :: "string \<Rightarrow> app_entry list \<Rightarrow> string" where
  "catalogue grade entries =
     (let fits = (\<lambda>x. gradeRank (ae_min_grade x) \<le> gradeRank grade);
          visible = foldr insert_entry (filter fits entries) [];
          locked = foldr insert_entry (filter (\<lambda>x. \<not> fits x) entries) []
      in msg_list_head @ concat (map visible_line visible) @
         (if length locked > 0 then msg_locked_head @ concat (map locked_line locked) else []))"

definition apps_list :: "env \<Rightarrow> tg_user \<Rightarrow> int \<Rightarrow> world \<Rightarrow> bot_error option \<times> world" where
  "apps_list e from chat w =
     (case GetByTelegramID e (tu_id from) w of
        (Inl _, w1) \<Rightarrow> send_text e chat msg_list_first w1
      | (Inr user, w1) \<Rightarrow>
          (case db_query e (\<lambda>t d. app_entries (u_id user) d) w1 of
             (Inl err, w2) \<Rightarrow> (Some (Bot_db err), w2)
           | (Inr entries, w2) \<Rightarrow> send_text e chat (catalogue (u_grade user) entries) w2))"

definition toggle :: "env \<Rightarrow> tg_user \<Rightarrow> int \<Rightarrow> string \<Rightarrow> bool \<Rightarrow> world \<Rightarrow> bot_error option \<times> world" where
  "toggle e from chat app subscribe w =
     (let about = (\<lambda>text. msg_app @ Quote (env_is_print e) app @ text)
      in if app = [] then send_text e chat msg_usage w
         else
           (case GetByTelegramID e (tu_id from) w of
              (Inl _, w1) \<Rightarrow> send_text e chat msg_toggle_first w1
            | (Inr user, w1) \<Rightarrow>
                (case db_query e (\<lambda>t d. find (\<lambda>a. app_id a = app) (d_apps d)) w1 of
                   (Inr (Some a), w2) \<Rightarrow>
                     (if \<not> app_active a then send_text e chat (about msg_inactive) w2
                      else if gradeRank (u_grade user) < gradeRank (app_min_grade a) then send_text e chat msg_grade w2
                      else if subscribe then
                        (case exec_change e (insert_sub (u_id user) app) w2 of
                           (Inl err, w3) \<Rightarrow> (Some (Bot_db err), w3)
                         | (Inr _, w3) \<Rightarrow>
                             (let w4 = (case u_supergroup user of
                                          Some sg \<Rightarrow> if u_bot_is_admin user
                                                     then snd (EnsureForSubscribedApps e (u_id user) sg w3) else w3
                                        | None \<Rightarrow> w3)
                              in send_text e chat (about msg_subscribed) w4))
                      else
                        (let w3 = (case u_supergroup user of
                                     Some sg \<Rightarrow> if u_bot_is_admin user then snd (Close e (u_id user) sg app w2) else w2
                                   | None \<Rightarrow> w2)
                         in case exec_change e (\<lambda>d. Inr (d\<lparr>d_subs := filter (\<lambda>s. s \<noteq> (u_id user, app)) (d_subs d)\<rparr>)) w3 of
                              (Inl err, w4) \<Rightarrow> (Some (Bot_db err), w4)
                            | (Inr _, w4) \<Rightarrow> send_text e chat (about msg_unsubscribed) w4))
                 | (_, w2) \<Rightarrow> send_text e chat (about msg_not_found) w2)))"

definition AppsHandler :: "env \<Rightarrow> bot_handler" where
  "AppsHandler e u w =
     (case up_message u of
        None \<Rightarrow> ((False, None), w)
      | Some m \<Rightarrow>
          (case tm_from m of
             None \<Rightarrow> ((False, None), w)
           | Some from \<Rightarrow>
               if tc_type (tm_chat m) \<noteq> ''private'' then ((False, None), w)
               else
                 (let text = TrimSpace (tm_text m); chat = tc_id (tm_chat m)
                  in if text = ''/apps'' then
                       (case apps_list e from chat w of (err, w1) \<Rightarrow> ((True, err), w1))
                     else if HasPrefix text ''/subscribe '' then
                       (case toggle e from chat (TrimSpace (TrimPrefix text ''/subscribe '')) True w of
                          (err, w1) \<Rightarrow> ((True, err), w1))
                     else if HasPrefix text ''/unsubscribe '' then
                       (case toggle e from chat (TrimSpace (TrimPrefix text ''/unsubscribe '')) False w of
                          (err, w1) \<Rightarrow> ((True, err), w1))
                     else ((False, None), w))))"


section \<open>Poller\<close>

fun dispatch :: "bot_handler list \<Rightarrow> update \<Rightarrow> world \<Rightarrow> world" where
  "dispatch [] u w = w"
| "dispatch (h # hs) u w =
     (case h u w of ((handled, err), w1) \<Rightarrow>
      if err \<noteq> None then w1 else if handled then w1 else dispatch hs u w1)"

definition poller_handlers :: "env \<Rightarrow> bot_config \<Rightarrow> bot_handler list" where
  "poller_handlers e c = [StartgroupHandler e, PromoteHandler e, IntrusionHandler e c, AppsHandler e, StartHandler e c]"

text \<open>\<^verbatim>\<open>for update := range updates\<close>\<close>

definition poller_run :: "env \<Rightarrow> bot_config \<Rightarrow> update list \<Rightarrow> world \<Rightarrow> world" where
  "poller_run e c us w = foldl (\<lambda>w u. dispatch (poller_handlers e c) u w) w us"


section \<open>What the bot keeps\<close>

text \<open>Two things a handler does only for a reason: banning a member and adding a subscription. An
  allowance says which of them a step may do.\<close>

record allowance =
  al_ban :: "int \<Rightarrow> int \<Rightarrow> bool"
  al_sub :: "int \<times> string \<Rightarrow> bool"

text \<open>From one state to a later one: the schema's constraints and the audit chain hold if they held,
  audit rows and calls to Telegram have only been added, and new bans and subscriptions are allowed.\<close>

definition keeps :: "env \<Rightarrow> allowance \<Rightarrow> world \<Rightarrow> world \<Rightarrow> bool" where
  "keeps e al w w' = ((db_ok (w_db w) \<longrightarrow> db_ok (w_db w')) \<and> (audit_ok (w_db w) \<longrightarrow> audit_ok (w_db w')) \<and>
     (audit_ok (w_db w) \<and> chain_ok e (w_db w) \<longrightarrow> chain_ok e (w_db w')) \<and>
     (\<exists>rows. d_audit (w_db w') = d_audit (w_db w) @ rows) \<and>
     (\<exists>cs. w_tg w' = w_tg w @ cs \<and> (\<forall>chat x. BanChatMember chat x \<in> set cs \<longrightarrow> al_ban al chat x)) \<and>
     (\<forall>s \<in> set (d_subs (w_db w')). s \<in> set (d_subs (w_db w)) \<or> al_sub al s))"

lemma keeps_refl [simp]: "w_db w' = w_db w \<Longrightarrow> w_tg w' = w_tg w \<Longrightarrow> keeps e al w w'"
  by (simp add: keeps_def)

lemma keeps_trans [trans]: "keeps e al w w' \<Longrightarrow> keeps e al w' w'' \<Longrightarrow> keeps e al w w''"
proof -
  assume "keeps e al w w'" "keeps e al w' w''"
  moreover from this obtain cs cs' where "w_tg w' = w_tg w @ cs" "w_tg w'' = w_tg w' @ cs'"
    "\<forall>chat x. BanChatMember chat x \<in> set cs \<longrightarrow> al_ban al chat x" "\<forall>chat x. BanChatMember chat x \<in> set cs' \<longrightarrow> al_ban al chat x"
    unfolding keeps_def by blast
  then have "\<exists>cs. w_tg w'' = w_tg w @ cs \<and> (\<forall>chat x. BanChatMember chat x \<in> set cs \<longrightarrow> al_ban al chat x)"
    by (intro exI [of _ "cs @ cs'"]) auto
  ultimately show ?thesis unfolding keeps_def by auto
qed

text \<open>Running one operation and going on with its result.\<close>

lemma keeps_bind:
  "keeps e al w (snd p) \<Longrightarrow> (\<And>x w1. p = (x, w1) \<Longrightarrow> keeps e al w1 (snd (f x w1))) \<Longrightarrow>
     keeps e al w (snd (case p of (x, w1) \<Rightarrow> f x w1))"
  by (cases p) (auto intro: keeps_trans)

lemma keeps_registry:
  assumes "registry_op run"
  shows "keeps e al w (snd (run e w))"
proof -
  note op = registry_op.keeps_db [OF assms, of w e] registry_op.keeps_audit [OF assms, of e w] registry_op.keeps_tg [OF assms, of e w]
    registry_op.keeps_subs [OF assms, of e w]
  show ?thesis unfolding keeps_def audit_ok_def chain_ok_def using op by simp
qed

lemma keeps_stores [simp, intro]:
  "keeps e al w (snd (UpsertOnStart e tg name lang w))" "keeps e al w (snd (MarkAgreed e uid w))"
  "keeps e al w (snd (IssueToken e token uid dur w))" "keeps e al w (snd (ConsumeToken e token w))"
  "keeps e al w (snd (LinkSupergroup e uid chat w))" "keeps e al w (snd (SetBotIsAdmin e uid b w))"
  "keeps e al w (snd (AddTopic e uid app topic w))" "keeps e al w (snd (RemoveTopic e uid app w))"
  by (rule keeps_registry [OF upsert_op.registry_op_axioms] keeps_registry [OF agree_op.registry_op_axioms]
      keeps_registry [OF issue_op.registry_op_axioms] keeps_registry [OF consume_op.registry_op_axioms]
      keeps_registry [OF link_op.registry_op_axioms] keeps_registry [OF admin_op.registry_op_axioms]
      keeps_registry [OF add_topic_op.registry_op_axioms] keeps_registry [OF remove_topic_op.registry_op_axioms])+

lemma keeps_queries [simp, intro]:
  "keeps e al w (snd (GetByTelegramID e tg w))" "keeps e al w (snd (FindUserByChatID e chat w))"
  "keeps e al w (snd (GetTopicID e uid app w))" "keeps e al w (snd (ListSubscribedAppsWithoutTopic e uid w))"
  "keeps e al w (snd (db_query e q w))" "keeps e al w (snd (rand_read e n w))"
  by (auto simp: GetByTelegramID_def FindUserByChatID_def GetTopicID_def ListSubscribedAppsWithoutTopic_def db_query_cases
      split: option.splits list.splits)

lemma keeps_Write [simp, intro]: "keeps e al w (snd (Write e ev w))"
  using pgw.write_appends [of e ev w] same_but_audit_fields(5) [OF Write_same, of e ev w]
  by (auto simp: keeps_def Write_audit_ok Write_chain_ok Write_db_ok)

lemma keeps_ban: "(\<And>chat x. c = BanChatMember chat x \<Longrightarrow> al_ban al chat x) \<Longrightarrow> keeps e al w (snd (tg_invoke e c w))"
  by (auto simp: tg_invoke_def keeps_def)

lemma keeps_invoke [simp, intro]:
  "keeps e al w (snd (tg_invoke e (SendMessage chat thread msg) w))"
  "keeps e al w (snd (tg_invoke e (CreateForumTopic chat name) w))"
  "keeps e al w (snd (tg_invoke e (CloseForumTopic chat topic) w))"
  by (rule keeps_ban, simp)+

lemma keeps_send [simp, intro]: "keeps e al w (snd (send_text e chat text w))"
  unfolding send_text_def by (rule keeps_bind) (auto split: tg_reply.split)

lemma keeps_ensure_loop [simp, intro]: "keeps e al w (snd (ensure_loop e uid chat apps created w))"
proof (induction apps arbitrary: created w)
  case (Cons app apps)
  have add: "keeps e al w1 (snd (case AddTopic e uid app topic w1 of
      (Inl _, w2) \<Rightarrow> ensure_loop e uid chat apps created w2
    | (Inr _, w2) \<Rightarrow> ensure_loop e uid chat apps (created @ [app]) w2))" for w1 topic
    by (rule keeps_bind) (auto simp: Cons.IH split: sum.split)
  show ?case unfolding ensure_loop.simps
    by (rule keeps_bind) (auto simp: Cons.IH add split: tg_reply.split)
qed simp

lemma keeps_ensure [simp, intro]: "keeps e al w (snd (EnsureForSubscribedApps e uid chat w))"
  unfolding EnsureForSubscribedApps_def by (rule keeps_bind) (auto split: sum.split intro!: keeps_bind)

lemma keeps_Close [simp, intro]: "keeps e al w (snd (Close e uid chat app w))"
  unfolding Close_def
  by (rule keeps_bind) (auto split: sum.split tg_reply.split intro!: keeps_bind)

lemma keeps_change:
  assumes "\<And>d'. c (w_db w) = Inr d' \<Longrightarrow> (db_ok (w_db w) \<longrightarrow> db_ok d') \<and> d_audit d' = d_audit (w_db w) \<and>
      d_audit_seq d' = d_audit_seq (w_db w) \<and> (\<forall>s \<in> set (d_subs d'). s \<in> set (d_subs (w_db w)) \<or> al_sub al s)"
  shows "keeps e al w (snd (exec_change e c w))"
proof -
  have "snd (exec_change e c w) = tick w \<or> (\<exists>d'. c (w_db w) = Inr d' \<and> snd (exec_change e c w) = (tick w)\<lparr>w_db := d'\<rparr>)"
    by (auto simp: exec_change_def db_exec_def split: sum.split)
  then show ?thesis using assms by (auto simp: keeps_def audit_ok_def chain_ok_def)
qed

lemma keeps_insert_sub: "al_sub al (uid, app) \<Longrightarrow> keeps e al w (snd (exec_change e (insert_sub uid app) w))"
  by (rule keeps_change) (fastforce simp: insert_sub_def db_ok_def subs_ok_def list_ex_iff list_all_iff split: if_splits)

lemma keeps_delete_sub [simp, intro]:
  "keeps e al w (snd (exec_change e (\<lambda>d. Inr (d\<lparr>d_subs := filter p (d_subs d)\<rparr>)) w))"
  by (rule keeps_change) (fastforce simp: db_ok_def subs_ok_def list_all_iff)

lemma keeps_newToken [simp, intro]: "keeps e al w (snd (newToken e w))"
  unfolding newToken_def by (rule keeps_bind) (auto split: option.split)

lemma keeps_deeplink [simp, intro]: "keeps e al w (snd (issueStartgroupDeeplink e c uid chat w))"
proof -
  have issue: "keeps e al w1 (snd (case IssueToken e token uid (ttl c) w1 of
      (Inl err, w2) \<Rightarrow> (Some (Bot_registry err), w2)
    | (Inr _, w2) \<Rightarrow> send_text e chat (f w2) w2))" for w1 token f
    by (rule keeps_bind) (auto split: sum.split)
  have "keeps e al w (snd (case newToken e w of
      (None, w1) \<Rightarrow> (Some Bot_random, w1)
    | (Some token, w1) \<Rightarrow> (case IssueToken e token uid (ttl c) w1 of
        (Inl err, w2) \<Rightarrow> (Some (Bot_registry err), w2)
      | (Inr _, w2) \<Rightarrow> send_text e chat (f token) w2)))" for f
    by (rule keeps_bind) (auto split: option.split intro: issue)
  then show ?thesis unfolding issueStartgroupDeeplink_def Let_def by simp
qed

lemma keeps_start [simp, intro]: "keeps e al w (snd (handleStart e c from chat w))"
  unfolding handleStart_def by (rule keeps_bind) (auto split: sum.split)

lemma keeps_agree [simp, intro]: "keeps e al w (snd (handleAgree e c from chat w))"
  unfolding handleAgree_def Let_def
proof (rule keeps_bind, goal_cases)
  case 1
  show ?case by (rule keeps_bind) (auto split: sum.split registry_error.split)
next
  case (2 x w1)
  have mark: "keeps e al w2 (snd (case MarkAgreed e (u_id user) w2 of
      (Inl err, w3) \<Rightarrow> (Some (Bot_registry err), w3)
    | (Inr transitioned, w3) \<Rightarrow> issueStartgroupDeeplink e c (u_id user) chat (if transitioned then snd (Write e ev w3) else w3)))"
    for w2 user ev
    by (rule keeps_bind) (auto split: sum.split intro: keeps_trans)
  show ?case by (auto split: sum.split intro: mark)
qed

lemma keeps_markNotAdmin [simp, intro]: "keeps e al w (snd (markNotAdmin e uid chat code w))"
  unfolding markNotAdmin_def by (rule keeps_bind) (auto split: sum.split)

lemma keeps_list [simp, intro]: "keeps e al w (snd (apps_list e from chat w))"
proof -
  have "keeps e al w1 (snd (case db_query e q w1 of (Inl err, w2) \<Rightarrow> (Some (Bot_db err), w2) | (Inr x, w2) \<Rightarrow> send_text e chat (f x) w2))"
    for w1 q f by (rule keeps_bind) (auto split: sum.split)
  then show ?thesis unfolding apps_list_def by (intro keeps_bind) (auto split: sum.split)
qed

text \<open>Whom the subscription commands serve: a known user whose grade suffices for an active application.\<close>

definition may_subscribe :: "database \<Rightarrow> int \<Rightarrow> int \<times> string \<Rightarrow> bool" where
  "may_subscribe d tg s = list_ex (\<lambda>u. usr_telegram_id u = tg \<and> usr_id u = fst s \<and>
     list_ex (\<lambda>a. app_id a = snd s \<and> app_active a \<and> gradeRank (app_min_grade a) \<le> gradeRank (usr_grade u)) (d_apps d))
     (d_users d)"

lemma may_subscribeI:
  assumes "GetByTelegramID e tg w = (Inr user, w1)"
    and "db_query e (\<lambda>t d. find (\<lambda>a. app_id a = app) (d_apps d)) w1 = (Inr (Some a), w2)"
    and "app_active a" "\<not> gradeRank (u_grade user) < gradeRank (app_min_grade a)"
  shows "may_subscribe (w_db w) tg (u_id user, app)"
proof -
  obtain u where u: "u \<in> set (d_users (w_db w))" "usr_telegram_id u = tg" "user = scan_user u" "w_db w1 = w_db w"
    using assms(1) by (auto simp: GetByTelegramID_def db_query_cases split: if_splits option.splits
        dest!: find_SomeD)
  moreover have "a \<in> set (d_apps (w_db w1))" "app_id a = app"
    using assms(2) by (auto simp: db_query_cases find_Some_iff split: if_splits)
  ultimately show ?thesis
    using assms(3,4) by (auto simp: may_subscribe_def list_ex_iff scan_user_def intro!: bexI [of _ u] bexI [of _ a])
qed

lemma keeps_toggle:
  assumes "\<And>uid. subscribe \<Longrightarrow> may_subscribe (w_db w) (tu_id from) (uid, app) \<Longrightarrow> al_sub al (uid, app)"
  shows "keeps e al w (snd (toggle e from chat app subscribe w))"
proof -
  have sub: "keeps e al w2 (snd (case exec_change e (insert_sub uid app) w2 of (Inl err, w3) \<Rightarrow> (Some (Bot_db err), w3)
    | (Inr _, w3) \<Rightarrow> send_text e chat msg
        (case sg of Some sg \<Rightarrow> if adm then snd (EnsureForSubscribedApps e uid sg w3) else w3 | None \<Rightarrow> w3)))"
    if "al_sub al (uid, app)" for w2 uid msg sg adm
    using that by (intro keeps_bind keeps_insert_sub) (auto split: sum.split option.split intro: keeps_trans)
  have unsub: "keeps e al w2 (snd (case exec_change e (\<lambda>d. Inr (d\<lparr>d_subs := filter p (d_subs d)\<rparr>))
        (case sg of Some sg \<Rightarrow> if adm then snd (Close e uid sg app w2) else w2 | None \<Rightarrow> w2) of
      (Inl err, w4) \<Rightarrow> (Some (Bot_db err), w4) | (Inr _, w4) \<Rightarrow> send_text e chat msg w4))" for w2 p msg sg adm uid
  proof (rule keeps_bind)
    have "keeps e al w2 (case sg of Some sg \<Rightarrow> if adm then snd (Close e uid sg app w2) else w2 | None \<Rightarrow> w2)"
      by (auto split: option.split)
    then show "keeps e al w2 (snd (exec_change e (\<lambda>d. Inr (d\<lparr>d_subs := filter p (d_subs d)\<rparr>))
        (case sg of Some sg \<Rightarrow> if adm then snd (Close e uid sg app w2) else w2 | None \<Rightarrow> w2)))"
      by (rule keeps_trans) simp
  qed (auto split: sum.split)
  show ?thesis
  proof (cases "app = []")
    case False
    show ?thesis
      unfolding toggle_def Let_def if_not_P [OF False]
    proof (rule keeps_bind, simp, goal_cases)
      case (1 x w1)
      show ?case
      proof (cases x)
        case (Inr user)
        note got = 1 [unfolded Inr]
        show ?thesis unfolding Inr sum.case
        proof (rule keeps_bind, simp, goal_cases)
          case (1 y w2)
          note query = 1
          show ?case
          proof (cases "\<exists>a. y = Inr (Some a)")
            case True
            then obtain a where a: "y = Inr (Some a)" by blast
            show ?thesis unfolding a sum.case option.case
              using may_subscribeI [OF got query [unfolded a]] assms by (auto simp: unsub intro!: sub)
          qed (auto split: sum.split option.split)
        qed
      qed simp
    qed
  qed (simp add: toggle_def)
qed

section \<open>Handlers of the poller\<close>

text \<open>What an update may cause: a ban of the member that just joined a linked chat as an ordinary member
  and is not the bot, and a subscription of the sender of a private message.\<close>

definition may_ban :: "bot_config \<Rightarrow> database \<Rightarrow> update \<Rightarrow> int \<Rightarrow> int \<Rightarrow> bool" where
  "may_ban c d u chat x =
     (case up_chat_member u of
        None \<Rightarrow> False
      | Some mu \<Rightarrow>
          tc_id (mu_chat mu) = chat \<and> list_ex (\<lambda>v. usr_chat_id v = Some chat) (d_users d) \<and>
          (case mu_new mu of
             None \<Rightarrow> False
           | Some m \<Rightarrow> cm_user m = x \<and> cm_status m \<in> {''member'', ''restricted''} \<and>
               \<not> (bc_bot_id c \<noteq> 0 \<and> x = bc_bot_id c)))"

definition subscribes :: "database \<Rightarrow> update \<Rightarrow> int \<times> string \<Rightarrow> bool" where
  "subscribes d u s =
     (case up_message u of
        None \<Rightarrow> False
      | Some m \<Rightarrow> tc_type (tm_chat m) = ''private'' \<and>
          (case tm_from m of
             None \<Rightarrow> False
           | Some from \<Rightarrow> may_subscribe d (tu_id from) s))"

abbreviation allowed :: "bot_config \<Rightarrow> database \<Rightarrow> update \<Rightarrow> allowance" where
  "allowed c d u \<equiv> \<lparr>al_ban = may_ban c d u, al_sub = subscribes d u\<rparr>"

text \<open>The interface \<^verbatim>\<open>bot.Handler\<close>: a handler keeps the invariants and does what the update
  allows, whatever it answers; one that does not handle an update leaves the state as it is.\<close>

locale polled_handler =
  fixes e :: env and c :: bot_config and h :: bot_handler
  assumes handler_keeps: "orders_rows e \<Longrightarrow> keeps e (allowed c (w_db w) u) w (snd (h u w))"
    and unhandled: "h u w = ((False, None), w') \<Longrightarrow> w' = w"

lemma keeps_post: "keeps e al w (snd p) \<Longrightarrow> keeps e al w (snd (case p of (err, w1) \<Rightarrow> ((True, err), w1)))"
  by (cases p) simp

interpretation start_handler: polled_handler e c "StartHandler e c" for e c
proof
  fix u w w'
  show "keeps e (allowed c (w_db w) u) w (snd (StartHandler e c u w))"
    by (auto simp: StartHandler_def Let_def split: option.split intro!: keeps_post)
  show "StartHandler e c u w = ((False, None), w') \<Longrightarrow> w' = w"
    by (auto simp: StartHandler_def Let_def split: option.splits prod.splits if_splits)
qed

interpretation apps_handler: polled_handler e c "AppsHandler e" for e c
proof
  fix u w w'
  show "keeps e (allowed c (w_db w) u) w (snd (AppsHandler e u w))"
    by (auto simp: AppsHandler_def Let_def subscribes_def split: option.split intro!: keeps_post keeps_toggle)
  show "AppsHandler e u w = ((False, None), w') \<Longrightarrow> w' = w"
    by (auto simp: AppsHandler_def Let_def split: option.splits prod.splits if_splits)
qed

interpretation startgroup_handler: polled_handler e c "StartgroupHandler e" for e c
proof
  fix u w w'
  have link: "keeps e al w1 (snd (case LinkSupergroup e uid chat w1 of
      (Inl err, w2) \<Rightarrow> ((True, Some (Bot_registry err)), w2)
    | (Inr _, w2) \<Rightarrow> (case send_text e chat msg_linked w2 of (err, w3) \<Rightarrow> ((True, err), w3))))" for al w1 uid chat
    by (rule keeps_bind) (auto split: sum.split intro: keeps_post)
  show "keeps e (allowed c (w_db w) u) w (snd (StartgroupHandler e u w))"
    unfolding StartgroupHandler_def Let_def
    by (auto split: option.split sum.split registry_error.split intro!: keeps_bind link)
  show "StartgroupHandler e u w = ((False, None), w') \<Longrightarrow> w' = w"
    by (auto simp: StartgroupHandler_def Let_def split: option.splits prod.splits if_splits sum.splits registry_error.splits)
qed

interpretation promote_handler: polled_handler e c "PromoteHandler e" for e c
proof
  fix u w w'
  have admin: "keeps e al w1 (snd (case SetBotIsAdmin e uid True w1 of
      (Inl err, w2) \<Rightarrow> ((True, Some (Bot_registry err)), w2)
    | (Inr _, w2) \<Rightarrow> (case EnsureForSubscribedApps e uid chat w2 of (res, w3) \<Rightarrow>
         ((True, None), snd (send_text e chat (f res) w3)))))" for al w1 uid chat f
    by (rule keeps_bind) (auto split: sum.split intro!: keeps_bind)
  have warn: "keeps e al w1 (snd (case markNotAdmin e uid chat code (snd (send_text e chat msg w1)) of (err, w3) \<Rightarrow> ((True, err), w3)))"
    for al w1 uid chat code msg
    by (rule keeps_trans [OF keeps_send [of e al w1 chat msg]]) (simp add: keeps_post)
  have known: "keeps e al w1 (snd (case classifyMyChatMember m of (newStatus, allRights) \<Rightarrow>
      if newStatus = ''administrator'' then
        (if \<not> allRights then
           (case markNotAdmin e uid chat ''intrusion_unmitigated'' (snd (send_text e chat msg_missing_rights w1)) of
              (err, w3) \<Rightarrow> ((True, err), w3))
         else
           (case SetBotIsAdmin e uid True w1 of
              (Inl err, w2) \<Rightarrow> ((True, Some (Bot_registry err)), w2)
            | (Inr _, w2) \<Rightarrow>
                (case EnsureForSubscribedApps e uid chat w2 of (res, w3) \<Rightarrow>
                 ((True, None), snd (send_text e chat
                    (ready_text (case res of Inl _ \<Rightarrow> [] | Inr created \<Rightarrow> created)) w3)))))
      else if newStatus \<in> {''member'', ''restricted'', ''left'', ''kicked''} then
        (case markNotAdmin e uid chat ''bot_not_admin'' w1 of (err, w2) \<Rightarrow> ((True, err), w2))
      else ((True, None), w1)))" for al w1 uid chat m
    by (cases "classifyMyChatMember m") (simp add: admin warn keeps_post)
  show "PromoteHandler e u w = ((False, None), w') \<Longrightarrow> w' = w"
    by (auto simp: PromoteHandler_def Let_def split: option.splits prod.splits if_splits sum.splits)
  show "keeps e (allowed c (w_db w) u) w (snd (PromoteHandler e u w))"
  proof (cases "up_my_chat_member u")
    case (Some mu)
    show ?thesis
      unfolding PromoteHandler_def Let_def Some option.case
      by (cases "tc_type (mu_chat mu) \<noteq> ''supergroup'' \<and> tc_type (mu_chat mu) \<noteq> ''group''")
        (simp, simp only: if_not_P not_not simp_thms, rule keeps_bind, simp, auto split: sum.split intro: known)
  qed (simp add: PromoteHandler_def)
qed

lemma FindUserByChatID_linked:
  assumes "orders_rows e" "FindUserByChatID e chat w = (Inr uid, w1)"
  shows "list_ex (\<lambda>v. usr_chat_id v = Some chat) (d_users (w_db w))"
  using assms(2) set_unordered [OF assms(1), of "w_tick w" "map usr_id (filter (\<lambda>u. usr_chat_id u = Some chat) (d_users (w_db w)))"]
  by (auto simp: FindUserByChatID_def db_query_cases list_ex_iff split: if_splits list.splits)

interpretation intrusion_handler: polled_handler e c "IntrusionHandler e c" for e c
proof
  fix u w w'
  have ban: "keeps e al w1 (snd (case tg_invoke e (BanChatMember chat x) w1 of
      (Tg_error msg, w2) \<Rightarrow> ((True, Some (Bot_telegram msg)), snd (Write e (ev1 msg) w2))
    | (_, w2) \<Rightarrow> ((True, None), snd (Write e ev2 w2))))" if "al_ban al chat x" for al w1 chat x ev1 ev2
    using that by (intro keeps_bind keeps_ban) (auto split: tg_reply.split)
  assume "orders_rows e"
  note linked = FindUserByChatID_linked [OF this]
  show "keeps e (allowed c (w_db w) u) w (snd (IntrusionHandler e c u w))"
    unfolding IntrusionHandler_def Let_def
    by (auto split: option.split sum.split intro!: keeps_bind ban simp: may_ban_def) (erule linked)+
next
  fix u w w'
  show "IntrusionHandler e c u w = ((False, None), w') \<Longrightarrow> w' = w"
    by (auto simp: IntrusionHandler_def Let_def split: option.splits prod.splits if_splits sum.splits tg_reply.splits)
qed

lemma dispatch_keeps:
  "orders_rows e \<Longrightarrow> list_all (polled_handler e c) hs \<Longrightarrow> keeps e (allowed c (w_db w) u) w (dispatch hs u w)"
proof (induction hs)
  case (Cons h hs)
  obtain handled err w1 where h: "h u w = ((handled, err), w1)" by (metis prod.collapse)
  have "keeps e (allowed c (w_db w) u) w w1"
    using polled_handler.handler_keeps [of e c h w u] Cons.prems h by simp
  moreover have "w1 = w" if "err = None" "\<not> handled"
    using polled_handler.unhandled [of e c h u w w1] Cons.prems h that by simp
  ultimately show ?case using Cons h by auto
qed simp

lemma poller_keeps: "orders_rows e \<Longrightarrow> keeps e (allowed c (w_db w) u) w (dispatch (poller_handlers e c) u w)"
  by (rule dispatch_keeps) (simp_all add: poller_handlers_def startgroup_handler.polled_handler_axioms
      promote_handler.polled_handler_axioms intrusion_handler.polled_handler_axioms apps_handler.polled_handler_axioms
      start_handler.polled_handler_axioms)

end
