(* ===== verification/Bot_Properties.thy ===== *)
theory Bot_Properties
  imports Bot
begin

text \<open>
  What the bot promises: it keeps the invariants of the shared state over any sequence of updates, it
  bans exactly the strangers that enter a linked chat, it subscribes only users whose grade suffices, its
  deep links lead a chat back to the user they were made for, and its topic provisioning is complete and idempotent.
\<close>

section \<open>Invariants\<close>

lemma poller_run_simps [simp]:
  "poller_run e c [] w = w"
  "poller_run e c (u # us) w = poller_run e c us (dispatch (poller_handlers e c) u w)"
  by (simp_all add: poller_run_def)

text \<open>Whatever updates arrive and whatever the database and Telegram answer, the bot keeps the
  constraints of the schema and the hash chain, and never removes an audit row.\<close>

theorem bot_keeps_invariants:
  assumes "orders_rows e" "db_ok (w_db w)" "chain_ok e (w_db w)"
  shows "db_ok (w_db (poller_run e c us w)) \<and> chain_ok e (w_db (poller_run e c us w)) \<and>
    (\<exists>rows. d_audit (w_db (poller_run e c us w)) = d_audit (w_db w) @ rows)"
  using assms(2,3)
proof (induction us arbitrary: w)
  case (Cons u us)
  let ?w = "dispatch (poller_handlers e c) u w"
  have "keeps e (allowed c (w_db w) u) w ?w" by (rule poller_keeps [OF assms(1)])
  moreover have "audit_ok (w_db w)" using Cons.prems by (simp add: db_ok_def)
  ultimately have "db_ok (w_db ?w)" "chain_ok e (w_db ?w)" and rows: "\<exists>rows. d_audit (w_db ?w) = d_audit (w_db w) @ rows"
    using Cons.prems unfolding keeps_def by blast+
  from Cons.IH [OF this(1,2)] rows show ?case by auto
qed simp

definition demo_from :: tg_user where
  "demo_from = \<lparr>tu_id = 7, tu_username = ''ann'', tu_first_name = [], tu_last_name = [], tu_language_code = ''ko''\<rparr>"

definition private_text :: "string \<Rightarrow> update" where
  "private_text s = \<lparr>up_message = Some \<lparr>tm_from = Some demo_from, tm_chat = \<lparr>tc_id = 7, tc_type = ''private''\<rparr>, tm_text = s\<rparr>,
     up_my_chat_member = None, up_chat_member = None\<rparr>"

definition demo_bot :: bot_config where
  "demo_bot = \<lparr>bc_username = ''notify_bot'', bc_token_ttl = 0, bc_bot_id = 99\<rparr>"

theorem bot_keeps_invariants_witness:
  "db_ok (w_db (poller_run demo_env demo_bot [private_text ''/start'', private_text ''/agree''] empty_world))"
  using bot_keeps_invariants [of demo_env empty_world demo_bot "[private_text ''/start'', private_text ''/agree'']"]
  by (simp add: empty_world_def empty_db_def db_ok_defs chain_ok_def)


section \<open>Subscriptions\<close>

text \<open>C26: A subscription that an update adds is one of the sender of a private message, who is a
  registered user, to an active application whose minimal grade the user has.\<close>

theorem subscribe_respects_grade:
  assumes "orders_rows e" "s \<in> set (d_subs (w_db (dispatch (poller_handlers e c) u w)))" "s \<notin> set (d_subs (w_db w))"
  shows "\<exists>m from v a. up_message u = Some m \<and> tc_type (tm_chat m) = ''private'' \<and> tm_from m = Some from \<and>
    v \<in> set (d_users (w_db w)) \<and> usr_telegram_id v = tu_id from \<and> a \<in> set (d_apps (w_db w)) \<and> app_active a \<and>
    s = (usr_id v, app_id a) \<and> gradeRank (app_min_grade a) \<le> gradeRank (usr_grade v)"
proof -
  have "subscribes (w_db w) u s"
    using poller_keeps [OF assms(1), of c w u] assms(2,3) by (auto simp: keeps_def)
  then show ?thesis
    by (cases s) (auto simp: subscribes_def may_subscribe_def list_ex_iff split: option.splits; blast)
qed

definition demo_bot_world :: world where
  "demo_bot_world = empty_world\<lparr>w_db := empty_db\<lparr>
     d_apps := [\<lparr>app_id = ''ops'', app_name = ''Ops'', app_description = [], app_min_grade = ''user'', app_active = True,
       app_created_at = 0, app_capver = 1, app_created_by = []\<rparr>],
     d_users := [(new_user_row 1 7 ''ann'' ''ko'' 0)\<lparr>usr_chat_id := Some (- 5)\<rparr>], d_user_seq := 2\<rparr>\<rparr>"

theorem subscribe_respects_grade_witness:
  "(1, ''ops'') \<in> set (d_subs (w_db (dispatch (poller_handlers demo_env demo_bot) (private_text ''/subscribe ops'') demo_bot_world))) \<and>
   (\<exists>v a. v \<in> set (d_users (w_db demo_bot_world)) \<and> a \<in> set (d_apps (w_db demo_bot_world)) \<and> (1, ''ops'') = (usr_id v, app_id a) \<and>
      gradeRank (app_min_grade a) \<le> gradeRank (usr_grade v))"
proof -
  let ?w = "dispatch (poller_handlers demo_env demo_bot) (private_text ''/subscribe ops'') demo_bot_world"
  have parse: "TrimSpace ''/subscribe ops'' = ''/subscribe ops''" "HasPrefix ''/subscribe ops'' ''/subscribe ''"
    "TrimSpace (TrimPrefix ''/subscribe ops'' ''/subscribe '') = ''ops''" "\<not> HasPrefix ''/subscribe ops'' ''/start ''"
    by code_simp+
  have rank: "\<not> gradeRank ''user'' < gradeRank ''user''" by simp
  have "(1, ''ops'') \<in> set (d_subs (w_db ?w))"
    using parse rank
    by (simp add: poller_handlers_def StartgroupHandler_def PromoteHandler_def IntrusionHandler_def AppsHandler_def private_text_def
        demo_from_def toggle_def GetByTelegramID_def db_query_cases demo_bot_world_def new_user_row_def scan_user_def
        exec_change_def db_exec_def insert_sub_def send_text_def tg_invoke_def split: prod.splits)
  moreover have "(1, ''ops'') \<notin> set (d_subs (w_db demo_bot_world))"
    by (simp add: demo_bot_world_def empty_db_def)
  ultimately show ?thesis
    using subscribe_respects_grade [of demo_env "(1, ''ops'')" demo_bot "private_text ''/subscribe ops''" demo_bot_world] by auto
qed


section \<open>Deep links\<close>

text \<open>A token is plain text: trimming leaves it and the command that carries it as they are.\<close>

lemma space_ends:
  "c \<in> set ''/0123456789abcdef'' \<Longrightarrow> list_all (\<lambda>p. p = [] \<or> hd p \<noteq> c) space_runes \<and>
     list_all (\<lambda>p. p = [] \<or> hd p \<noteq> c) (map rev space_runes)"
  by (auto simp: space_runes_def)

lemma TrimSpace_id:
  assumes "s \<noteq> []" "hd s \<in> set ''/0123456789abcdef''" "last s \<in> set ''/0123456789abcdef''"
  shows "TrimSpace s = s"
  using assms space_ends [OF assms(2)] space_ends [OF assms(3)]
  by (simp add: TrimSpace_def strip_seqs_id hd_rev)

lemma token_text:
  assumes "buf \<noteq> []"
  shows "TrimSpace (''/start '' @ hex_encode buf) = ''/start '' @ hex_encode buf"
    "TrimSpace (TrimPrefix (''/start '' @ hex_encode buf) ''/start '') = hex_encode buf"
    "hex_encode buf \<noteq> []" "HasPrefix (''/start '' @ hex_encode buf) ''/start ''"
proof -
  show ne: "hex_encode buf \<noteq> []" using assms by (cases buf) auto
  have ends: "hd (hex_encode buf) \<in> set ''/0123456789abcdef''" "last (hex_encode buf) \<in> set ''/0123456789abcdef''"
    using set_hex_encode [of buf] hd_in_set [OF ne] last_in_set [OF ne] by auto
  have "TrimPrefix (''/start '' @ hex_encode buf) ''/start '' = hex_encode buf"
    by (simp add: TrimPrefix_def HasPrefix_def)
  then show "TrimSpace (TrimPrefix (''/start '' @ hex_encode buf) ''/start '') = hex_encode buf"
    by (simp only:) (rule TrimSpace_id [OF ne ends])
  show "TrimSpace (''/start '' @ hex_encode buf) = ''/start '' @ hex_encode buf"
    by (rule TrimSpace_id) (use ne ends in auto)
  show "HasPrefix (''/start '' @ hex_encode buf) ''/start ''" by (simp add: HasPrefix_def)
qed

lemma deeplink_issued:
  assumes "no_faults e" "bc_username c \<noteq> []" "env_rand e (w_tick w) startgroupTokenLen = Some buf"
    and "list_ex (\<lambda>v. usr_id v = uid) (d_users (w_db w))" "\<not> list_ex (\<lambda>k. tok_token k = hex_encode buf) (d_tokens (w_db w))"
    and "issueStartgroupDeeplink e c uid chat w = (res, w1)"
  shows "w_tg w1 = w_tg w @ [SendMessage chat None
      (msg_deeplink_1 @ ''https://t.me/'' @ bc_username c @ ''?startgroup='' @ hex_encode buf @ msg_deeplink_2)]"
    "w_db w1 = (w_db w)\<lparr>d_tokens := d_tokens (w_db w) @ [\<lparr>tok_token = hex_encode buf, tok_user = uid,
       tok_expires_at = env_now e (Suc (w_tick w)) + ttl c div second_ns * second_ns\<rparr>]\<rparr>"
  using assms by (auto simp: issueStartgroupDeeplink_def newToken_def rand_read_def IssueToken_def db_exec_def issue_token_def
      no_faults_def send_text_def tg_invoke_def Let_def split: tg_reply.splits)

lemma token_consumed:
  assumes "no_faults e" "find (\<lambda>k. tok_token k = token) (d_tokens (w_db w)) = Some k"
    and "env_now e (Suc (w_tick w)) \<le> tok_expires_at k"
  shows "ConsumeToken e token w = (Inr (tok_user k),
    (tick (tick w))\<lparr>w_db := (w_db w)\<lparr>d_tokens := filter (\<lambda>k. tok_token k \<noteq> token) (d_tokens (w_db w))\<rparr>\<rparr>)"
  using assms by (simp add: ConsumeToken_def db_exec_def delete_token_def no_faults_def read_clock_def tick_def)

lemma supergroup_linked:
  assumes "no_faults e"
  shows "LinkSupergroup e uid chat w = (Inr (), (tick w)\<lparr>w_db :=
    update_users (\<lambda>v. usr_id v = uid \<and> usr_status v \<noteq> ''anonymized'')
      (\<lambda>v. v\<lparr>usr_chat_id := Some chat, usr_linked_at := Some (env_now e (w_tick w)), usr_bot_is_admin := False,
         usr_updated_at := env_now e (w_tick w)\<rparr>) (w_db w)\<rparr>)"
  using assms by (simp add: LinkSupergroup_def exec_update_def db_exec_def no_faults_def)

lemma send_text_db [simp]: "w_db (snd (send_text e chat text w)) = w_db w"
  by (simp add: send_text_def tg_invoke_def split: tg_reply.split)

lemma startgroup_links:
  assumes "no_faults e" "find (\<lambda>k. tok_token k = hex_encode buf) (d_tokens (w_db w)) = Some k" "buf \<noteq> []"
    and "env_now e (Suc (w_tick w)) \<le> tok_expires_at k"
    and "up_message u = Some m" "tm_text m = ''/start '' @ hex_encode buf" "tc_type (tm_chat m) \<in> {''group'', ''supergroup''}"
  shows "\<exists>t. w_db (dispatch (poller_handlers e c) u w) =
    update_users (\<lambda>v. usr_id v = tok_user k \<and> usr_status v \<noteq> ''anonymized'')
      (\<lambda>v. v\<lparr>usr_chat_id := Some (tc_id (tm_chat m)), usr_linked_at := Some t, usr_bot_is_admin := False, usr_updated_at := t\<rparr>)
      ((w_db w)\<lparr>d_tokens := filter (\<lambda>k. tok_token k \<noteq> hex_encode buf) (d_tokens (w_db w))\<rparr>)"
proof -
  let ?s = "tm_text m"
  have parse: "TrimSpace ?s = ?s" "TrimSpace (TrimPrefix ?s ''/start '') = hex_encode buf" "hex_encode buf \<noteq> []"
    "HasPrefix ?s ''/start ''" unfolding assms(6) by (rule token_text [OF assms(3)])+
  have ctype: "\<not> (tc_type (tm_chat m) \<noteq> ''group'' \<and> tc_type (tm_chat m) \<noteq> ''supergroup'')" using assms(7) by blast
  note consumed = token_consumed [OF assms(1,2,4)]
  obtain x w1 where linked: "send_text e (tc_id (tm_chat m)) msg_linked
      (snd (LinkSupergroup e (tok_user k) (tc_id (tm_chat m)) (snd (ConsumeToken e (hex_encode buf) w)))) = (x, w1)"
    by (metis prod.collapse)
  have handler: "StartgroupHandler e u w = ((True, x), w1)"
    using linked by (simp only: StartgroupHandler_def assms(5) option.case Let_def parse if_not_P [OF ctype] consumed
        supergroup_linked [OF assms(1)] prod.case sum.case snd_conv fst_conv simp_thms if_False not_False_eq_True not_True_eq_False)
  have "w_db w1 = update_users (\<lambda>v. usr_id v = tok_user k \<and> usr_status v \<noteq> ''anonymized'')
      (\<lambda>v. v\<lparr>usr_chat_id := Some (tc_id (tm_chat m)), usr_linked_at := Some (env_now e (Suc (Suc (w_tick w)))),
         usr_bot_is_admin := False, usr_updated_at := env_now e (Suc (Suc (w_tick w)))\<rparr>)
      ((w_db w)\<lparr>d_tokens := filter (\<lambda>k. tok_token k \<noteq> hex_encode buf) (d_tokens (w_db w))\<rparr>)"
    using arg_cong [OF linked, of "\<lambda>p. w_db (snd p)"] by (simp add: consumed supergroup_linked [OF assms(1)])
  moreover have "dispatch (poller_handlers e c) u w = w1" by (simp add: poller_handlers_def handler)
  ultimately show ?thesis by auto
qed

text \<open>C27: A deep link leads back to the user it was made for: the link the bot sends carries a fresh
  token, and when the bot sees that token in a group before it expires, exactly this user is linked to
  the group, not yet with the bot as administrator, every other user is unchanged, and the token is gone.\<close>

theorem deeplink_roundtrip:
  assumes "no_faults e" "bc_username c \<noteq> []" "env_rand e (w_tick w) startgroupTokenLen = Some buf" "buf \<noteq> []"
    and "v \<in> set (d_users (w_db w))" "usr_status v \<noteq> ''anonymized''"
    and "\<not> list_ex (\<lambda>k. tok_token k = hex_encode buf) (d_tokens (w_db w))"
    and "issueStartgroupDeeplink e c (usr_id v) chat w = (res, w1)"
    and "w_db w2 = w_db w1" "env_now e (Suc (w_tick w2)) \<le> env_now e (Suc (w_tick w)) + ttl c div second_ns * second_ns"
    and "up_message u = Some m" "tm_text m = ''/start '' @ hex_encode buf" "tc_type (tm_chat m) \<in> {''group'', ''supergroup''}"
    and "w' = dispatch (poller_handlers e c) u w2"
  shows "w_tg w1 = w_tg w @ [SendMessage chat None
      (msg_deeplink_1 @ ''https://t.me/'' @ bc_username c @ ''?startgroup='' @ hex_encode buf @ msg_deeplink_2)] \<and>
    (\<exists>t. d_users (w_db w') = map (\<lambda>x. if usr_id x = usr_id v \<and> usr_status x \<noteq> ''anonymized''
        then x\<lparr>usr_chat_id := Some (tc_id (tm_chat m)), usr_linked_at := Some t, usr_bot_is_admin := False, usr_updated_at := t\<rparr>
        else x) (d_users (w_db w))) \<and>
    d_tokens (w_db w') = d_tokens (w_db w)"
proof -
  have "list_ex (\<lambda>x. usr_id x = usr_id v) (d_users (w_db w))" using assms(5) by (auto simp: list_ex_iff)
  note issued = deeplink_issued [OF assms(1-3) this assms(7,8)]
  let ?k = "\<lparr>tok_token = hex_encode buf, tok_user = usr_id v,
      tok_expires_at = env_now e (Suc (w_tick w)) + ttl c div second_ns * second_ns\<rparr>"
  have fresh: "find (\<lambda>k. tok_token k = hex_encode buf) (d_tokens (w_db w)) = None"
    "filter (\<lambda>k. tok_token k \<noteq> hex_encode buf) (d_tokens (w_db w)) = d_tokens (w_db w)"
    using assms(7) by (auto simp: find_None_iff list_ex_iff filter_id_conv)
  have found: "find (\<lambda>k. tok_token k = hex_encode buf) (d_tokens (w_db w2)) = Some ?k"
    using fresh(1) by (simp add: assms(9) issued(2) find_None_append)
  obtain t where "w_db w' = update_users (\<lambda>x. usr_id x = usr_id v \<and> usr_status x \<noteq> ''anonymized'')
      (\<lambda>x. x\<lparr>usr_chat_id := Some (tc_id (tm_chat m)), usr_linked_at := Some t, usr_bot_is_admin := False, usr_updated_at := t\<rparr>)
      ((w_db w2)\<lparr>d_tokens := filter (\<lambda>k. tok_token k \<noteq> hex_encode buf) (d_tokens (w_db w2))\<rparr>)"
    using startgroup_links [OF assms(1) found assms(4) _ assms(11-13), of c] assms(10) by (auto simp: assms(14))
  then show ?thesis using fresh(2) issued(1) by (auto simp: update_users_def assms(9) issued(2))
qed


definition group_text :: "string \<Rightarrow> update" where
  "group_text s = \<lparr>up_message = Some \<lparr>tm_from = Some demo_from, tm_chat = \<lparr>tc_id = - 8, tc_type = ''group''\<rparr>, tm_text = s\<rparr>,
     up_my_chat_member = None, up_chat_member = None\<rparr>"

theorem deeplink_roundtrip_witness:
  "\<exists>t. d_users (w_db (dispatch (poller_handlers demo_env demo_bot) (group_text (''/start '' @ hex_encode (replicate 16 (CHR 0x00))))
       (snd (issueStartgroupDeeplink demo_env demo_bot 1 7 demo_bot_world)))) =
     [(new_user_row 1 7 ''ann'' ''ko'' 0)\<lparr>usr_chat_id := Some (- 8), usr_linked_at := Some t, usr_updated_at := t\<rparr>]"
proof -
  let ?w1 = "snd (issueStartgroupDeeplink demo_env demo_bot 1 7 demo_bot_world)"
  let ?v = "(new_user_row 1 7 ''ann'' ''ko'' 0)\<lparr>usr_chat_id := Some (- 5)\<rparr>"
  let ?u = "group_text (''/start '' @ hex_encode (replicate 16 (CHR 0x00)))"
  have tick: "w_tick ?w1 = 2"
    by (simp add: issueStartgroupDeeplink_def newToken_def rand_read_def demo_bot_def IssueToken_def db_exec_def issue_token_def
        demo_bot_world_def empty_world_def empty_db_def new_user_row_def send_text_def tg_invoke_def tick_def)
  have char0: "char_of (0 :: nat) = CHR 0x00" by code_simp
  have rand: "env_rand demo_env (w_tick demo_bot_world) startgroupTokenLen = Some (replicate 16 (CHR 0x00))"
    by (simp add: demo_bot_world_def empty_world_def startgroupTokenLen_def char0)
  have issue: "issueStartgroupDeeplink demo_env demo_bot (usr_id ?v) 7 demo_bot_world =
      (fst (issueStartgroupDeeplink demo_env demo_bot 1 7 demo_bot_world), ?w1)"
    by (simp add: new_user_row_def)
  have "env_now demo_env (Suc (w_tick ?w1)) \<le> env_now demo_env (Suc (w_tick demo_bot_world)) + ttl demo_bot div second_ns * second_ns"
    unfolding tick by (simp add: demo_bot_world_def empty_world_def ttl_def demo_bot_def startgroupTokenTTL_def unix_time_def)
  from deeplink_roundtrip [OF _ _ rand _ _ _ _ issue refl this, of ?u "the (up_message ?u)", OF _ _ _ _ _ _ _ _ _ refl]
  show ?thesis
    by (simp add: demo_bot_def no_faults_def demo_bot_world_def empty_db_def new_user_row_def group_text_def)
qed



section \<open>Intruders\<close>

text \<open>Whom a change of membership makes an intruder.\<close>

definition intruder :: "bot_config \<Rightarrow> database \<Rightarrow> member_update \<Rightarrow> int option" where
  "intruder c d mu =
     (if tc_type (mu_chat mu) \<in> {''group'', ''supergroup''} \<and> list_ex (\<lambda>v. usr_chat_id v = Some (tc_id (mu_chat mu))) (d_users d)
      then (case mu_new mu of
              None \<Rightarrow> None
            | Some m \<Rightarrow> if cm_status m \<in> {''member'', ''restricted''} \<and> (bc_bot_id c = 0 \<or> cm_user m \<noteq> bc_bot_id c)
                        then Some (cm_user m) else None)
      else None)"

lemma FindUserByChatID_eq:
  assumes "no_faults e" "orders_rows e"
  shows "\<exists>uid. FindUserByChatID e chat w =
      ((if list_ex (\<lambda>v. usr_chat_id v = Some chat) (d_users (w_db w)) then Inr uid else Inl ErrUserNotFound), tick w) \<and>
    (list_ex (\<lambda>v. usr_chat_id v = Some chat) (d_users (w_db w)) \<longrightarrow>
      list_ex (\<lambda>v. usr_id v = uid \<and> usr_chat_id v = Some chat) (d_users (w_db w)))"
proof -
  let ?rows = "map usr_id (filter (\<lambda>u. usr_chat_id u = Some chat) (d_users (w_db w)))"
  let ?ids = "unordered e (w_tick w) ?rows"
  have ids: "set ?ids = set ?rows" by (rule set_unordered [OF assms(2)])
  show ?thesis
  proof (cases ?ids)
    case Nil
    then have "\<not> list_ex (\<lambda>v. usr_chat_id v = Some chat) (d_users (w_db w))"
      using ids by (auto simp: list_ex_iff filter_empty_conv)
    with Nil assms(1) show ?thesis by (simp add: FindUserByChatID_def db_query_cases no_faults_def)
  next
    case (Cons uid uids)
    then have "uid \<in> set ?rows" using ids by (metis list.set_intros(1))
    then have "list_ex (\<lambda>v. usr_id v = uid \<and> usr_chat_id v = Some chat) (d_users (w_db w))"
      "list_ex (\<lambda>v. usr_chat_id v = Some chat) (d_users (w_db w))" by (auto simp: list_ex_iff)
    with Cons assms(1) show ?thesis by (intro exI [of _ uid]) (simp add: FindUserByChatID_def db_query_cases no_faults_def)
  qed
qed

text \<open>The event that follows a ban, by Telegram's answer.\<close>

definition ban_stage :: "tg_reply \<Rightarrow> string" where
  "ban_stage reply = (case reply of Tg_error _ \<Rightarrow> StageIntrusionUnmitigated | _ \<Rightarrow> StageIntrusionKick)"

definition ban_event :: "tg_reply \<Rightarrow> int \<Rightarrow> int \<Rightarrow> int \<Rightarrow> event" where
  "ban_event reply uid chat x =
     (case reply of
        Tg_error msg \<Rightarrow> (intrusion_event StageIntrusionUnmitigated uid chat)\<lparr>ev_error_code := ''ban_failed'',
          ev_details := [(''intruder_id'', JInt x), (''error'', JStr msg)]\<rparr>
      | _ \<Rightarrow> (intrusion_event StageIntrusionKick uid chat)\<lparr>ev_details := [(''intruder_id'', JInt x)]\<rparr>)"

lemma ban_event_ok: "event_ok (ban_event reply uid chat x)"
  "event_key (ban_event reply uid chat x) = (ban_stage reply, None, nullif_int uid)"
  by (simp_all add: ban_event_def ban_stage_def intrusion_event_def event_ok_def event_key_def zero_event_def nullif_text_def
      channel_defs channel_values_def audit_stage_values_def stage_defs split: tg_reply.split)

lemma intrusion_bans:
  assumes "up_chat_member u = Some mu" "mu_new mu = Some m" "tc_type (mu_chat mu) \<in> {''group'', ''supergroup''}"
    and "FindUserByChatID e (tc_id (mu_chat mu)) w = (Inr uid, w1)"
    and "cm_status m \<in> {''member'', ''restricted''}" "bc_bot_id c = 0 \<or> cm_user m \<noteq> bc_bot_id c"
  shows "snd (IntrusionHandler e c u w) =
    (let ban = BanChatMember (tc_id (mu_chat mu)) (cm_user m)
     in snd (Write e (ban_event (env_tg e (w_tg w1) ban) uid (tc_id (mu_chat mu)) (cm_user m)) (w1\<lparr>w_tg := w_tg w1 @ [ban]\<rparr>)))"
proof -
  have guards: "(tc_type (mu_chat mu) \<noteq> ''supergroup'' \<and> tc_type (mu_chat mu) \<noteq> ''group'') = False"
    "(bc_bot_id c \<noteq> 0 \<and> cm_user m = bc_bot_id c) = False" "(cm_status m \<noteq> ''member'' \<and> cm_status m \<noteq> ''restricted'') = False"
    using assms(3,5,6) by auto
  show ?thesis
    unfolding IntrusionHandler_def assms(1,2,4) option.case Let_def guards if_False prod.case sum.case tg_invoke_def
    by (simp add: ban_event_def split: tg_reply.split)
qed

text \<open>C28: When nothing fails in the database, a change of membership leads to a ban exactly when it shows an intruder: a
  member, restricted or not, of a group that is some user's personal supergroup, and not the bot. Then
  there is one call, the ban, and one audit row for a user of that chat, whose stage says whether Telegram accepted
  the ban; otherwise nothing changes. The owner of the group is no exception: the code, unlike its comment and the planning
  documents, does not compare the member with the owner, and in the witness it is the owner who comes back and is banned.\<close>

theorem intruders_are_banned:
  assumes "no_faults e" "orders_rows e"
    and "up_message u = None" "up_my_chat_member u = None" "up_chat_member u = Some mu"
    and "w' = dispatch (poller_handlers e c) u w"
  shows "case intruder c (w_db w) mu of
      None \<Rightarrow> w_db w' = w_db w \<and> w_tg w' = w_tg w
    | Some x \<Rightarrow>
        (let ban = BanChatMember (tc_id (mu_chat mu)) x;
             stage = ban_stage (env_tg e (w_tg w) ban)
         in w_tg w' = w_tg w @ [ban] \<and> same_but_audit (w_db w) (w_db w') \<and>
            (\<exists>v \<in> set (d_users (w_db w)). usr_chat_id v = Some (tc_id (mu_chat mu)) \<and>
               map row_key (d_audit (w_db w')) = map row_key (d_audit (w_db w)) @ [(stage, None, nullif_int (usr_id v))]))"
proof -
  let ?chat = "tc_id (mu_chat mu)"
  obtain uid where find: "FindUserByChatID e ?chat w =
      ((if list_ex (\<lambda>v. usr_chat_id v = Some ?chat) (d_users (w_db w)) then Inr uid else Inl ErrUserNotFound), tick w)"
    and uid: "list_ex (\<lambda>v. usr_chat_id v = Some ?chat) (d_users (w_db w)) \<Longrightarrow>
      list_ex (\<lambda>v. usr_id v = uid \<and> usr_chat_id v = Some ?chat) (d_users (w_db w))"
    using FindUserByChatID_eq [OF assms(1,2), of ?chat w] by blast
  have w': "w' = snd (IntrusionHandler e c u w)"
    using assms(3-6) by (auto simp: poller_handlers_def StartgroupHandler_def PromoteHandler_def AppsHandler_def StartHandler_def
        split: prod.splits)
  show ?thesis
  proof (cases "intruder c (w_db w) mu")
    case None
    then show ?thesis unfolding w' using find assms(5)
      by (auto simp: IntrusionHandler_def intruder_def Let_def split: if_splits option.splits)
  next
    case (Some x)
    then obtain m where m: "mu_new mu = Some m" "x = cm_user m" "cm_status m \<in> {''member'', ''restricted''}"
      "bc_bot_id c = 0 \<or> cm_user m \<noteq> bc_bot_id c" "tc_type (mu_chat mu) \<in> {''group'', ''supergroup''}"
      and ex: "list_ex (\<lambda>v. usr_chat_id v = Some ?chat) (d_users (w_db w))"
      by (auto simp: intruder_def split: if_splits option.splits)
    obtain v where v: "v \<in> set (d_users (w_db w))" "usr_id v = uid" "usr_chat_id v = Some ?chat"
      using uid [OF ex] by (auto simp: list_ex_iff)
    have "FindUserByChatID e ?chat w = (Inr uid, tick w)" by (simp add: find ex)
    note ban = intrusion_bans [OF assms(5) m(1,5) this m(3,4)]
    let ?w1 = "(tick w)\<lparr>w_tg := w_tg w @ [BanChatMember ?chat x]\<rparr>"
    let ?ev = "ban_event (env_tg e (w_tg w) (BanChatMember ?chat x)) uid ?chat x"
    have run: "w' = snd (Write e ?ev ?w1)" unfolding w' by (simp add: ban m(2) Let_def)
    show ?thesis unfolding Some option.case Let_def
      using Write_no_faults_keys [OF assms(1) ban_event_ok(1), of _ uid ?chat x ?w1] Write_same [of ?w1 e ?ev] v
      by (auto simp: run ban_event_ok(2))
  qed
qed


theorem intruders_are_banned_witness:
  "map (\<lambda>v. (usr_telegram_id v, usr_chat_id v)) (d_users (w_db demo_bot_world)) = [(7, Some (- 5))] \<and>
   w_tg (dispatch (poller_handlers demo_env demo_bot) \<lparr>up_message = None, up_my_chat_member = None, up_chat_member =
      Some \<lparr>mu_chat = \<lparr>tc_id = - 5, tc_type = ''supergroup''\<rparr>, mu_new = Some \<lparr>cm_status = ''member'', cm_user = 7, cm_rights = None\<rparr>\<rparr>\<rparr>
      demo_bot_world) = [BanChatMember (- 5) 7]"
  using intruders_are_banned [of demo_env "\<lparr>up_message = None, up_my_chat_member = None, up_chat_member =
      Some \<lparr>mu_chat = \<lparr>tc_id = - 5, tc_type = ''supergroup''\<rparr>, mu_new = Some \<lparr>cm_status = ''member'', cm_user = 7, cm_rights = None\<rparr>\<rparr>\<rparr>",
      OF _ _ _ _ _ refl, of _ demo_bot demo_bot_world]
  by (simp add: no_faults_def intruder_def demo_bot_world_def demo_bot_def empty_db_def empty_world_def new_user_row_def Let_def)


section \<open>Topic provisioning\<close>

definition topic_keys :: "database \<Rightarrow> (int \<times> string) list" where
  "topic_keys d = map (\<lambda>r. (top_user r, top_app r)) (d_topics d)"

lemma AddTopic_new:
  assumes "no_faults e" "(uid, app) \<notin> set (topic_keys (w_db w))" "uid \<in> usr_id ` set (d_users (w_db w))"
    and "app \<in> app_id ` set (d_apps (w_db w))"
  shows "AddTopic e uid app topic w = (Inr (), (tick w)\<lparr>w_db := (w_db w)\<lparr>d_topics := d_topics (w_db w) @
    [\<lparr>top_user = uid, top_app = app, top_topic_id = topic\<rparr>]\<rparr>\<rparr>)"
proof -
  have "\<not> list_ex (\<lambda>r. top_user r = uid \<and> top_app r = app) (d_topics (w_db w))"
    using assms(2) by (force simp: topic_keys_def list_ex_iff)
  with assms(1,3,4) show ?thesis by (auto simp: AddTopic_def db_exec_def add_topic_def no_faults_def list_ex_iff)
qed

text \<open>Telegram accepts every new forum topic of the chat.\<close>

definition opens_topics :: "env \<Rightarrow> int \<Rightarrow> bool" where
  "opens_topics e chat = (\<forall>cs app. \<exists>topic. env_tg e cs (CreateForumTopic chat app) = Tg_ok topic)"

lemma ensure_loop_complete:
  assumes "no_faults e" "opens_topics e chat"
  shows "distinct apps \<Longrightarrow> set (map (Pair uid) apps) \<inter> set (topic_keys (w_db w)) = {} \<Longrightarrow>
    uid \<in> usr_id ` set (d_users (w_db w)) \<Longrightarrow> set apps \<subseteq> app_id ` set (d_apps (w_db w)) \<Longrightarrow>
    \<exists>w' rows. ensure_loop e uid chat apps created w = (created @ apps, w') \<and>
      w_tg w' = w_tg w @ map (CreateForumTopic chat) apps \<and> w_db w' = (w_db w)\<lparr>d_topics := d_topics (w_db w) @ rows\<rparr> \<and>
      map (\<lambda>r. (top_user r, top_app r)) rows = map (Pair uid) apps"
proof (induction apps arbitrary: created w)
  case (Cons app apps)
  obtain topic where reply: "env_tg e (w_tg w) (CreateForumTopic chat app) = Tg_ok topic"
    using assms(2) by (auto simp: opens_topics_def)
  let ?w1 = "w\<lparr>w_tg := w_tg w @ [CreateForumTopic chat app]\<rparr>"
  let ?w2 = "(tick ?w1)\<lparr>w_db := (w_db w)\<lparr>d_topics := d_topics (w_db w) @
    [\<lparr>top_user = uid, top_app = app, top_topic_id = topic\<rparr>]\<rparr>\<rparr>"
  have add: "AddTopic e uid app topic ?w1 = (Inr (), ?w2)"
    using AddTopic_new [OF assms(1), of uid app ?w1 topic] Cons.prems by auto
  have "\<exists>w' rows. ensure_loop e uid chat apps (created @ [app]) ?w2 = ((created @ [app]) @ apps, w') \<and>
      w_tg w' = w_tg ?w2 @ map (CreateForumTopic chat) apps \<and> w_db w' = (w_db ?w2)\<lparr>d_topics := d_topics (w_db ?w2) @ rows\<rparr> \<and>
      map (\<lambda>r. (top_user r, top_app r)) rows = map (Pair uid) apps"
    by (rule Cons.IH) (use Cons.prems in \<open>auto simp: topic_keys_def\<close>)
  then obtain w' rows where "ensure_loop e uid chat apps (created @ [app]) ?w2 = ((created @ [app]) @ apps, w')"
    "w_tg w' = w_tg ?w2 @ map (CreateForumTopic chat) apps" "w_db w' = (w_db ?w2)\<lparr>d_topics := d_topics (w_db ?w2) @ rows\<rparr>"
    "map (\<lambda>r. (top_user r, top_app r)) rows = map (Pair uid) apps" by blast
  with reply add show ?case
    by (intro exI [of _ w'] exI [of _ "\<lparr>top_user = uid, top_app = app, top_topic_id = topic\<rparr> # rows"]) (simp add: tg_invoke_def)
qed (simp add: exI [of _ "[]"])

lemma set_missing_topic_apps:
  "set (missing_topic_apps uid d) = {app. (uid, app) \<in> set (d_subs d) \<and> (uid, app) \<notin> set (topic_keys d)}"
  by (force simp: missing_topic_apps_def topic_keys_def list_ex_iff)

lemma distinct_missing_topic_apps: "distinct (d_subs d) \<Longrightarrow> distinct (missing_topic_apps uid d)"
  by (auto simp: missing_topic_apps_def distinct_map inj_on_def)

text \<open>C29: When the database works and Telegram opens topics, provisioning creates one forum topic, in
  the order of the application names, for each subscribed application that has none, and records it; then
  no subscription lacks a topic, no other table has changed, and provisioning again calls nothing.\<close>

theorem topics_provisioned:
  assumes "no_faults e" "opens_topics e chat" "db_ok (w_db w)" "EnsureForSubscribedApps e uid chat w = (res, w')"
  shows "res = Inr (missing_topic_apps uid (w_db w)) \<and>
    w_tg w' = w_tg w @ map (CreateForumTopic chat) (missing_topic_apps uid (w_db w)) \<and>
    topic_keys (w_db w') = topic_keys (w_db w) @ map (Pair uid) (missing_topic_apps uid (w_db w)) \<and>
    (w_db w')\<lparr>d_topics := d_topics (w_db w)\<rparr> = w_db w \<and>
    EnsureForSubscribedApps e uid chat w' = (Inr [], tick w')"
proof -
  let ?apps = "missing_topic_apps uid (w_db w)"
  have "\<exists>w' rows. ensure_loop e uid chat ?apps [] (tick w) = ([] @ ?apps, w') \<and>
      w_tg w' = w_tg (tick w) @ map (CreateForumTopic chat) ?apps \<and>
      w_db w' = (w_db (tick w))\<lparr>d_topics := d_topics (w_db (tick w)) @ rows\<rparr> \<and>
      map (\<lambda>r. (top_user r, top_app r)) rows = map (Pair uid) ?apps"
  proof (cases "?apps = []")
    case False
    then obtain app where "app \<in> set ?apps" by (meson last_in_set)
    then have "uid \<in> usr_id ` set (d_users (w_db (tick w)))"
      using assms(3) by (force simp: set_missing_topic_apps db_ok_def subs_ok_def list_all_iff)
    then show ?thesis
      using assms(3) by (intro ensure_loop_complete [OF assms(1,2)])
        (auto simp: set_missing_topic_apps db_ok_def subs_ok_def list_all_iff distinct_missing_topic_apps)
  qed (simp add: exI [of _ "[]"])
  then obtain rows where run: "ensure_loop e uid chat ?apps [] (tick w) = (?apps, w')" "res = Inr ?apps"
    and w': "w_tg w' = w_tg w @ map (CreateForumTopic chat) ?apps" "w_db w' = (w_db w)\<lparr>d_topics := d_topics (w_db w) @ rows\<rparr>"
      "map (\<lambda>r. (top_user r, top_app r)) rows = map (Pair uid) ?apps"
    using assms(1,4) by (auto simp: EnsureForSubscribedApps_def ListSubscribedAppsWithoutTopic_def db_query_cases no_faults_def)
  have keys: "topic_keys (w_db w') = topic_keys (w_db w) @ map (Pair uid) ?apps" using w' by (simp add: topic_keys_def)
  then have "set (missing_topic_apps uid (w_db w')) = {}"
    unfolding set_missing_topic_apps using w'(2) by (auto simp: set_missing_topic_apps)
  then have "missing_topic_apps uid (w_db w') = []" by simp
  then have "EnsureForSubscribedApps e uid chat w' = (Inr [], tick w')"
    using assms(1) by (simp add: EnsureForSubscribedApps_def ListSubscribedAppsWithoutTopic_def db_query_cases no_faults_def)
  with run(2) w'(1,2) keys show ?thesis by simp
qed

theorem topics_provisioned_witness:
  "fst (EnsureForSubscribedApps demo_env 1 (- 5) (demo_bot_world\<lparr>w_db := (w_db demo_bot_world)\<lparr>d_subs := [(1, ''ops'')]\<rparr>\<rparr>)) = Inr [''ops'']"
proof -
  let ?w = "demo_bot_world\<lparr>w_db := (w_db demo_bot_world)\<lparr>d_subs := [(1, ''ops'')]\<rparr>\<rparr>"
  have "db_ok (w_db ?w)"
    by (simp add: demo_bot_world_def db_ok_defs empty_db_def new_user_row_def grade_values_def status_values_def)
  moreover have "missing_topic_apps 1 (w_db ?w) = [''ops'']"
    by (simp add: missing_topic_apps_def demo_bot_world_def empty_db_def)
  ultimately show ?thesis
    using topics_provisioned [of demo_env "- 5" ?w 1, OF _ _ _ surjective_pairing] by (simp add: no_faults_def opens_topics_def)
qed

end
