(* ===== verification/Ui_Texts.thy ===== *)
theory Ui_Texts
  imports Go_Text
begin

text \<open>The texts of the admin UI's pages (\<^verbatim>\<open>src/internal/adminui\<close>), as the bytes of their UTF-8 encoding.\<close>

definition t_login_title :: string where
  "t_login_title = utf8
    [236, 154, 180, 236, 152, 129, 236, 158, 144, 32, 235, 161, 156, 234, 183, 184, 236, 157, 184]"

definition t_login_error :: string where
  "t_login_error = utf8
    [235, 185, 132, 235, 176, 128, 235, 178, 136, 237, 152, 184, 234, 176, 128, 32, 236, 152, 172, 235,
     176, 148, 235, 165, 180, 236, 167, 128, 32, 236, 149, 138, 236, 138, 181, 235, 139, 136, 235, 139,
     164]"

definition t_grade_user :: string where
  "t_grade_user = utf8
    [236, 157, 188, 235, 176, 152, 32, 236, 130, 172, 236, 154, 169, 236, 158, 144]"

definition t_grade_developer :: string where
  "t_grade_developer = utf8
    [234, 176, 156, 235, 176, 156, 236, 158, 144]"

definition t_grade_admin :: string where
  "t_grade_admin = utf8
    [234, 180, 128, 235, 166, 172, 236, 158, 144]"

definition t_key_revoked :: string where
  "t_key_revoked = utf8
    [237, 130, 164, 234, 176, 128, 32, 237, 143, 144, 234, 184, 176, 235, 144, 152, 236, 151, 136, 236,
     138, 181, 235, 139, 136, 235, 139, 164]"

definition t_key_labeled :: string where
  "t_key_labeled = utf8
    [235, 157, 188, 235, 178, 168, 236, 157, 180, 32, 235, 179, 128, 234, 178, 189, 235, 144, 152, 236,
     151, 136, 236, 138, 181, 235, 139, 136, 235, 139, 164]"

definition t_bad_app_id :: string where
  "t_bad_app_id = utf8
    [236, 149, 177, 32, 73, 68, 32, 237, 152, 149, 236, 139, 157, 236, 157, 180, 32, 236, 152, 172, 235,
     176, 148, 235, 165, 180, 236, 167, 128, 32, 236, 149, 138, 236, 138, 181, 235, 139, 136, 235, 139,
     164]"

definition t_bad_prefix :: string where
  "t_bad_prefix = utf8
    [112, 114, 101, 102, 105, 120, 235, 138, 148, 32, 236, 152, 129, 236, 134, 140, 235, 172, 184, 236,
     158, 144, 47, 236, 136, 171, 236, 158, 144, 32, 52, 126, 49, 54, 236, 158, 144, 236, 151, 172, 236,
     149, 188, 32, 237, 149, 169, 235, 139, 136, 235, 139, 164]"

definition t_label_too_long :: string where
  "t_label_too_long = utf8
    [108, 97, 98, 101, 108, 236, 157, 128, 32, 49, 48, 48, 236, 158, 144, 32, 236, 157, 180, 237, 149,
     152, 236, 151, 172, 236, 149, 188, 32, 237, 149, 169, 235, 139, 136, 235, 139, 164]"

definition t_keys_need_db :: string where
  "t_keys_need_db = utf8
    [237, 130, 164, 32, 234, 180, 128, 235, 166, 172, 235, 138, 148, 32, 68, 66, 32, 236, 151, 176, 234,
     178, 176, 236, 157, 180, 32, 237, 149, 132, 236, 154, 148, 237, 149, 169, 235, 139, 136, 235, 139,
     164]"

definition t_key_maybe_issued :: string where
  "t_key_maybe_issued = utf8
    [237, 130, 164, 234, 176, 128, 32, 236, 131, 157, 236, 132, 177, 235, 144, 152, 236, 151, 136, 236,
     157, 132, 32, 236, 136, 152, 32, 236, 158, 136, 236, 138, 181, 235, 139, 136, 235, 139, 164, 32,
     226, 128, 148, 32, 237, 130, 164, 32, 235, 170, 169, 235, 161, 157, 236, 157, 132, 32, 237, 153,
     149, 236, 157, 184, 237, 149, 152, 234, 179, 160, 32, 235, 182, 136, 237, 149, 132, 236, 154, 148,
     237, 149, 152, 235, 169, 180, 32, 237, 143, 144, 234, 184, 176, 237, 149, 152, 236, 132, 184, 236,
     154, 148]"

definition t_keys_title :: string where
  "t_keys_title = utf8
    [65, 80, 73, 32, 237, 130, 164]"

definition t_issued_subtitle :: string where
  "t_issued_subtitle = utf8
    [235, 176, 156, 234, 184, 137, 32, 236, 153, 132, 235, 163, 140]"

definition t_app_not_found :: string where
  "t_app_not_found = utf8
    [236, 149, 177, 236, 157, 132, 32, 236, 176, 190, 236, 157, 132, 32, 236, 136, 152, 32, 236, 151,
     134, 236, 138, 181, 235, 139, 136, 235, 139, 164]"

definition t_app_inactive :: string where
  "t_app_inactive = utf8
    [235, 185, 132, 237, 153, 156, 236, 132, 177, 237, 153, 148, 235, 144, 156, 32, 236, 149, 177, 236,
     151, 144, 235, 138, 148, 32, 237, 130, 164, 235, 165, 188, 32, 235, 176, 156, 234, 184, 137, 237,
     149, 160, 32, 236, 136, 152, 32, 236, 151, 134, 236, 138, 181, 235, 139, 136, 235, 139, 164]"

definition t_prefix_taken :: string where
  "t_prefix_taken = utf8
    [236, 157, 180, 235, 175, 184, 32, 236, 130, 172, 236, 154, 169, 32, 236, 164, 145, 236, 157, 184,
     32, 112, 114, 101, 102, 105, 120, 236, 158, 133, 235, 139, 136, 235, 139, 164]"

definition t_issue_failed :: string where
  "t_issue_failed = utf8
    [237, 130, 164, 32, 235, 176, 156, 234, 184, 137, 236, 151, 144, 32, 236, 139, 164, 237, 140, 168,
     237, 150, 136, 236, 138, 181, 235, 139, 136, 235, 139, 164]"

definition t_prefix_format :: string where
  "t_prefix_format = utf8
    [112, 114, 101, 102, 105, 120, 32, 237, 152, 149, 236, 139, 157, 236, 157, 180, 32, 236, 152, 172,
     235, 176, 148, 235, 165, 180, 236, 167, 128, 32, 236, 149, 138, 236, 138, 181, 235, 139, 136, 235,
     139, 164]"

definition t_revoke_unconfirmed :: string where
  "t_revoke_unconfirmed = utf8
    [237, 143, 144, 234, 184, 176, 237, 149, 152, 235, 160, 164, 235, 169, 180, 32, 237, 153, 149, 236,
     157, 184, 32, 235, 139, 168, 234, 179, 132, 235, 165, 188, 32, 234, 177, 176, 236, 179, 144, 236,
     149, 188, 32, 237, 149, 169, 235, 139, 136, 235, 139, 164]"

definition t_key_gone :: string where
  "t_key_gone = utf8
    [236, 157, 180, 235, 175, 184, 32, 237, 143, 144, 234, 184, 176, 235, 144, 152, 236, 151, 136, 234,
     177, 176, 235, 130, 152, 32, 236, 161, 180, 236, 158, 172, 237, 149, 152, 236, 167, 128, 32, 236,
     149, 138, 235, 138, 148, 32, 237, 130, 164, 236, 158, 133, 235, 139, 136, 235, 139, 164]"

definition t_revoke_failed :: string where
  "t_revoke_failed = utf8
    [237, 130, 164, 32, 237, 143, 144, 234, 184, 176, 236, 151, 144, 32, 236, 139, 164, 237, 140, 168,
     237, 150, 136, 236, 138, 181, 235, 139, 136, 235, 139, 164]"

definition t_label_failed :: string where
  "t_label_failed = utf8
    [235, 157, 188, 235, 178, 168, 32, 235, 179, 128, 234, 178, 189, 236, 151, 144, 32, 236, 139, 164,
     237, 140, 168, 237, 150, 136, 236, 138, 181, 235, 139, 136, 235, 139, 164]"

definition t_keys_unreadable :: string where
  "t_keys_unreadable = utf8
    [237, 130, 164, 32, 235, 170, 169, 235, 161, 157, 236, 157, 132, 32, 235, 182, 136, 235, 159, 172,
     236, 152, 164, 236, 167, 128, 32, 235, 170, 187, 237, 150, 136, 236, 138, 181, 235, 139, 136, 235,
     139, 164]"

definition t_api_malformed_json :: string where
  "t_api_malformed_json = utf8
    [236, 154, 148, 236, 178, 173, 32, 237, 152, 149, 236, 139, 157, 236, 157, 180, 32, 236, 152, 172,
     235, 176, 148, 235, 165, 180, 236, 167, 128, 32, 236, 149, 138, 236, 138, 181, 235, 139, 136, 235,
     139, 164]"

definition t_api_missing_fields :: string where
  "t_api_missing_fields = utf8
    [237, 149, 132, 236, 136, 152, 32, 237, 149, 173, 235, 170, 169, 236, 157, 180, 32, 235, 136, 132,
     235, 157, 189, 235, 144, 152, 236, 151, 136, 236, 138, 181, 235, 139, 136, 235, 139, 164]"

definition t_api_invalid_app_id :: string where
  "t_api_invalid_app_id = utf8
    [236, 149, 177, 32, 73, 68, 32, 237, 152, 149, 236, 139, 157, 236, 157, 180, 32, 236, 152, 172, 235,
     176, 148, 235, 165, 180, 236, 167, 128, 32, 236, 149, 138, 236, 138, 181, 235, 139, 136, 235, 139,
     164, 32, 40, 236, 152, 129, 236, 134, 140, 235, 172, 184, 236, 158, 144, 47, 236, 136, 171, 236,
     158, 144, 47, 45, 47, 95, 44, 32, 51, 126, 54, 52, 236, 158, 144, 41]"

definition t_api_invalid_grade :: string where
  "t_api_invalid_grade = utf8
    [235, 147, 177, 234, 184, 137, 32, 234, 176, 146, 236, 157, 180, 32, 236, 152, 172, 235, 176, 148,
     235, 165, 180, 236, 167, 128, 32, 236, 149, 138, 236, 138, 181, 235, 139, 136, 235, 139, 164]"

definition t_api_unknown_capability :: string where
  "t_api_unknown_capability = utf8
    [236, 149, 140, 32, 236, 136, 152, 32, 236, 151, 134, 235, 138, 148, 32, 99, 97, 112, 97, 98, 105,
     108, 105, 116, 121, 236, 158, 133, 235, 139, 136, 235, 139, 164]"

definition t_api_forbidden_capability :: string where
  "t_api_forbidden_capability = utf8
    [235, 182, 128, 236, 151, 172, 237, 149, 160, 32, 236, 136, 152, 32, 236, 151, 134, 235, 138, 148,
     32, 99, 97, 112, 97, 98, 105, 108, 105, 116, 121, 236, 158, 133, 235, 139, 136, 235, 139, 164]"

definition t_api_app_exists :: string where
  "t_api_app_exists = utf8
    [236, 157, 180, 235, 175, 184, 32, 236, 161, 180, 236, 158, 172, 237, 149, 152, 235, 138, 148, 32,
     236, 149, 177, 32, 73, 68, 236, 158, 133, 235, 139, 136, 235, 139, 164]"

definition t_api_app_inactive :: string where
  "t_api_app_inactive = utf8
    [235, 185, 132, 237, 153, 156, 236, 132, 177, 237, 153, 148, 235, 144, 156, 32, 236, 149, 177, 236,
     158, 133, 235, 139, 136, 235, 139, 164]"

definition t_api_user_not_found :: string where
  "t_api_user_not_found = utf8
    [236, 130, 172, 236, 154, 169, 236, 158, 144, 235, 165, 188, 32, 236, 176, 190, 236, 157, 132, 32,
     236, 136, 152, 32, 236, 151, 134, 236, 138, 181, 235, 139, 136, 235, 139, 164]"

definition t_api_invalid_telegram_id :: string where
  "t_api_invalid_telegram_id = utf8
    [237, 133, 148, 235, 160, 136, 234, 183, 184, 235, 158, 168, 32, 73, 68, 32, 237, 152, 149, 236,
     139, 157, 236, 157, 180, 32, 236, 152, 172, 235, 176, 148, 235, 165, 180, 236, 167, 128, 32, 236,
     149, 138, 236, 138, 181, 235, 139, 136, 235, 139, 164]"

definition t_api_no_subscription :: string where
  "t_api_no_subscription = utf8
    [234, 181, 172, 235, 143, 133, 32, 236, 160, 149, 235, 179, 180, 235, 165, 188, 32, 236, 176, 190,
     236, 157, 132, 32, 236, 136, 152, 32, 236, 151, 134, 236, 138, 181, 235, 139, 136, 235, 139, 164]"

definition t_api_forbidden :: string where
  "t_api_forbidden = utf8
    [236, 157, 180, 32, 237, 130, 164, 236, 151, 144, 32, 234, 182, 140, 237, 149, 156, 236, 157, 180,
     32, 236, 151, 134, 236, 138, 181, 235, 139, 136, 235, 139, 164]"

definition t_api_unauthenticated :: string where
  "t_api_unauthenticated = utf8
    [236, 157, 184, 236, 166, 157, 235, 144, 152, 236, 167, 128, 32, 236, 149, 138, 236, 149, 152, 236,
     138, 181, 235, 139, 136, 235, 139, 164]"

definition t_api_rate_limited :: string where
  "t_api_rate_limited = utf8
    [236, 154, 148, 236, 178, 173, 236, 157, 180, 32, 235, 132, 136, 235, 172, 180, 32, 235, 167, 142,
     236, 138, 181, 235, 139, 136, 235, 139, 164, 46, 32, 236, 158, 160, 236, 139, 156, 32, 237, 155,
     132, 32, 235, 139, 164, 236, 139, 156, 32, 236, 139, 156, 235, 143, 132, 237, 149, 152, 236, 132,
     184, 236, 154, 148]"

definition t_api_db_error :: string where
  "t_api_db_error = utf8
    [236, 132, 156, 235, 178, 132, 32, 235, 130, 180, 235, 182, 128, 32, 236, 152, 164, 235, 165, 152,
     234, 176, 128, 32, 235, 176, 156, 236, 131, 157, 237, 150, 136, 236, 138, 181, 235, 139, 136, 235,
     139, 164]"

definition t_api_invalid_limit :: string where
  "t_api_invalid_limit = utf8
    [108, 105, 109, 105, 116, 236, 157, 128, 32, 49, 126, 53, 48, 48, 32, 236, 130, 172, 236, 157, 180,
     32, 236, 136, 171, 236, 158, 144, 236, 151, 172, 236, 149, 188, 32, 237, 149, 169, 235, 139, 136,
     235, 139, 164]"

definition t_api_invalid_before_id :: string where
  "t_api_invalid_before_id = utf8
    [237, 142, 152, 236, 157, 180, 236, 167, 128, 32, 236, 187, 164, 236, 132, 156, 40, 98, 101, 102,
     111, 114, 101, 95, 105, 100, 41, 234, 176, 128, 32, 236, 152, 172, 235, 176, 148, 235, 165, 180,
     236, 167, 128, 32, 236, 149, 138, 236, 138, 181, 235, 139, 136, 235, 139, 164]"

definition t_api_invalid_since :: string where
  "t_api_invalid_since = utf8
    [115, 105, 110, 99, 101, 235, 138, 148, 32, 82, 70, 67, 51, 51, 51, 57, 32, 237, 152, 149, 236, 139,
     157, 236, 157, 180, 236, 150, 180, 236, 149, 188, 32, 237, 149, 169, 235, 139, 136, 235, 139, 164,
     32, 40, 236, 152, 136, 58, 32, 50, 48, 50, 54, 45, 48, 55, 45, 48, 54, 84, 48, 48, 58, 48, 48, 58,
     48, 48, 90, 41]"

definition t_api_invalid_until :: string where
  "t_api_invalid_until = utf8
    [117, 110, 116, 105, 108, 236, 157, 128, 32, 82, 70, 67, 51, 51, 51, 57, 32, 237, 152, 149, 236,
     139, 157, 236, 157, 180, 236, 150, 180, 236, 149, 188, 32, 237, 149, 169, 235, 139, 136, 235, 139,
     164, 32, 40, 236, 152, 136, 58, 32, 50, 48, 50, 54, 45, 48, 55, 45, 48, 54, 84, 48, 48, 58, 48, 48,
     58, 48, 48, 90, 41]"

definition t_api_invalid_stage :: string where
  "t_api_invalid_stage = utf8
    [115, 116, 97, 103, 101, 32, 234, 176, 146, 236, 157, 180, 32, 236, 152, 172, 235, 176, 148, 235,
     165, 180, 236, 167, 128, 32, 236, 149, 138, 236, 138, 181, 235, 139, 136, 235, 139, 164]"

definition t_api_unreachable :: string where
  "t_api_unreachable = utf8
    [235, 140, 128, 236, 131, 129, 32, 236, 132, 156, 235, 178, 132, 236, 151, 144, 32, 236, 151, 176,
     234, 178, 176, 237, 149, 160, 32, 236, 136, 152, 32, 236, 151, 134, 236, 138, 181, 235, 139, 136,
     235, 139, 164]"

definition t_apps_title :: string where
  "t_apps_title = utf8
    [236, 149, 177, 32, 234, 180, 128, 235, 166, 172]"

definition t_purged_1 :: string where
  "t_purged_1 = utf8
    [236, 149, 177, 32, 39]"

definition t_purged_2 :: string where
  "t_purged_2 = utf8
    [39, 236, 157, 180, 40, 234, 176, 128, 41, 32, 236, 153, 132, 236, 160, 132, 237, 158, 136, 32, 236,
     130, 173, 236, 160, 156, 235, 144, 152, 236, 151, 136, 236, 138, 181, 235, 139, 136, 235, 139, 164]"

definition t_apps_unreadable :: string where
  "t_apps_unreadable = utf8
    [236, 149, 177, 32, 235, 170, 169, 235, 161, 157, 236, 157, 132, 32, 235, 182, 136, 235, 159, 172,
     236, 152, 164, 236, 167, 128, 32, 235, 170, 187, 237, 150, 136, 236, 138, 181, 235, 139, 136, 235,
     139, 164]"

definition t_app_new :: string where
  "t_app_new = utf8
    [236, 131, 136, 32, 236, 149, 177, 32, 235, 147, 177, 235, 161, 157]"

definition t_app_unreadable :: string where
  "t_app_unreadable = utf8
    [236, 149, 177, 32, 236, 160, 149, 235, 179, 180, 235, 165, 188, 32, 235, 182, 136, 235, 159, 172,
     236, 152, 164, 236, 167, 128, 32, 235, 170, 187, 237, 150, 136, 236, 138, 181, 235, 139, 136, 235,
     139, 164]"

definition t_app_saved :: string where
  "t_app_saved = utf8
    [236, 160, 128, 236, 158, 165, 235, 144, 152, 236, 151, 136, 236, 138, 181, 235, 139, 136, 235, 139,
     164]"

definition t_app_deactivated :: string where
  "t_app_deactivated = utf8
    [235, 185, 132, 237, 153, 156, 236, 132, 177, 237, 153, 148, 235, 144, 152, 236, 151, 136, 236, 138,
     181, 235, 139, 136, 235, 139, 164]"

definition t_caps_need_db :: string where
  "t_caps_need_db = utf8
    [99, 97, 112, 97, 98, 105, 108, 105, 116, 121, 32, 235, 179, 128, 234, 178, 189, 236, 157, 128, 32,
     68, 66, 32, 236, 151, 176, 234, 178, 176, 236, 157, 180, 32, 237, 149, 132, 236, 154, 148, 237,
     149, 169, 235, 139, 136, 235, 139, 164]"

definition t_delete_unconfirmed :: string where
  "t_delete_unconfirmed = utf8
    [237, 153, 149, 236, 157, 184, 32, 236, 158, 133, 235, 160, 165, 236, 157, 180, 32, 236, 149, 177,
     32, 73, 68, 236, 153, 128, 32, 236, 157, 188, 236, 185, 152, 237, 149, 152, 236, 167, 128, 32, 236,
     149, 138, 236, 149, 132, 32, 236, 130, 173, 236, 160, 156, 237, 149, 152, 236, 167, 128, 32, 236,
     149, 138, 236, 149, 152, 236, 138, 181, 235, 139, 136, 235, 139, 164]"

definition t_users_title :: string where
  "t_users_title = utf8
    [236, 130, 172, 236, 154, 169, 236, 158, 144]"

definition t_users_subtitle :: string where
  "t_users_subtitle = utf8
    [234, 182, 140, 237, 149, 156, 32, 194, 183, 32, 234, 181, 172, 235, 143, 133]"

definition t_grade_saved :: string where
  "t_grade_saved = utf8
    [235, 147, 177, 234, 184, 137, 236, 157, 180, 32, 235, 179, 128, 234, 178, 189, 235, 144, 152, 236,
     151, 136, 236, 138, 181, 235, 139, 136, 235, 139, 164]"

definition t_sub_saved :: string where
  "t_sub_saved = utf8
    [234, 181, 172, 235, 143, 133, 236, 157, 180, 32, 236, 182, 148, 234, 176, 128, 235, 144, 152, 236,
     151, 136, 236, 138, 181, 235, 139, 136, 235, 139, 164]"

definition t_unsub_saved :: string where
  "t_unsub_saved = utf8
    [234, 181, 172, 235, 143, 133, 236, 157, 180, 32, 237, 149, 180, 236, 160, 156, 235, 144, 152, 236,
     151, 136, 236, 138, 181, 235, 139, 136, 235, 139, 164]"

definition t_users_unreadable :: string where
  "t_users_unreadable = utf8
    [236, 130, 172, 236, 154, 169, 236, 158, 144, 32, 235, 170, 169, 235, 161, 157, 236, 157, 132, 32,
     235, 182, 136, 235, 159, 172, 236, 152, 164, 236, 167, 128, 32, 235, 170, 187, 237, 150, 136, 236,
     138, 181, 235, 139, 136, 235, 139, 164]"

definition t_test_default :: string where
  "t_test_default = utf8
    [97, 100, 109, 105, 110, 117, 105, 32, 237, 133, 140, 236, 138, 164, 237, 138, 184, 32, 235, 176,
     156, 236, 134, 161]"

definition t_test_no_key :: string where
  "t_test_no_key = utf8
    [237, 133, 140, 236, 138, 164, 237, 138, 184, 237, 149, 160, 32, 65, 80, 73, 32, 237, 130, 164, 235,
     165, 188, 32, 236, 158, 133, 235, 160, 165, 237, 149, 152, 236, 132, 184, 236, 154, 148]"

definition t_test_bad_recipient :: string where
  "t_test_bad_recipient = utf8
    [236, 136, 152, 236, 139, 160, 236, 158, 144, 32, 116, 101, 108, 101, 103, 114, 97, 109, 95, 105,
     100, 235, 138, 148, 32, 236, 150, 145, 236, 157, 152, 32, 236, 160, 149, 236, 136, 152, 236, 151,
     172, 236, 149, 188, 32, 237, 149, 169, 235, 139, 136, 235, 139, 164]"

definition t_test_no_text :: string where
  "t_test_no_text = utf8
    [235, 169, 148, 236, 139, 156, 236, 167, 128, 32, 237, 133, 141, 236, 138, 164, 237, 138, 184, 235,
     165, 188, 32, 236, 158, 133, 235, 160, 165, 237, 149, 152, 236, 132, 184, 236, 154, 148]"

definition t_test_long_1 :: string where
  "t_test_long_1 = utf8
    [235, 169, 148, 236, 139, 156, 236, 167, 128, 32, 237, 133, 141, 236, 138, 164, 237, 138, 184, 235,
     138, 148, 32]"

definition t_test_long_2 :: string where
  "t_test_long_2 = utf8
    [236, 158, 144, 32, 236, 157, 180, 237, 149, 152, 236, 151, 172, 236, 149, 188, 32, 237, 149, 169,
     235, 139, 136, 235, 139, 164]"

definition t_test_unreachable :: string where
  "t_test_unreachable = utf8
    [235, 140, 128, 236, 131, 129, 32, 236, 132, 156, 235, 178, 132, 32, 237, 152, 184, 236, 182, 156,
     236, 151, 144, 32, 236, 139, 164, 237, 140, 168, 237, 150, 136, 236, 138, 181, 235, 139, 136, 235,
     139, 164, 32, 226, 128, 148, 32, 236, 132, 156, 235, 178, 132, 32, 236, 163, 188, 236, 134, 140,
     47, 234, 184, 176, 235, 143, 153, 32, 236, 131, 129, 237, 131, 156, 235, 165, 188, 32, 237, 153,
     149, 236, 157, 184, 237, 149, 152, 236, 132, 184, 236, 154, 148]"

definition t_test_title :: string where
  "t_test_title = utf8
    [237, 133, 140, 236, 138, 164, 237, 138, 184, 32, 235, 176, 156, 236, 134, 161]"

definition t_test_subtitle :: string where
  "t_test_subtitle = utf8
    [80, 79, 83, 84, 32, 47, 118, 49, 47, 109, 101, 115, 115, 97, 103, 101, 115, 47, 100, 105, 114, 101,
     99, 116, 32, 194, 183, 32, 235, 182, 153, 236, 151, 172, 235, 132, 163, 236, 157, 128, 32, 237,
     130, 164, 235, 161, 156, 32, 237, 152, 184, 236, 182, 156]"

definition t_audit_title :: string where
  "t_audit_title = utf8
    [235, 161, 156, 234, 183, 184]"

definition t_verify_needs_db :: string where
  "t_verify_needs_db = utf8
    [235, 172, 180, 234, 178, 176, 236, 132, 177, 32, 234, 178, 128, 236, 166, 157, 236, 157, 128, 32,
     68, 66, 32, 236, 151, 176, 234, 178, 176, 236, 157, 180, 32, 237, 149, 132, 236, 154, 148, 237,
     149, 169, 235, 139, 136, 235, 139, 164]"

definition t_verify_failed :: string where
  "t_verify_failed = utf8
    [235, 172, 180, 234, 178, 176, 236, 132, 177, 32, 234, 178, 128, 236, 166, 157, 32, 236, 191, 188,
     235, 166, 172, 236, 151, 144, 32, 236, 139, 164, 237, 140, 168, 237, 150, 136, 236, 138, 181, 235,
     139, 136, 235, 139, 164, 32, 226, 128, 148, 32, 68, 66, 32, 236, 131, 129, 237, 131, 156, 235, 165,
     188, 32, 237, 153, 149, 236, 157, 184, 237, 149, 152, 236, 132, 184, 236, 154, 148]"

definition t_dash_title :: string where
  "t_dash_title = utf8
    [235, 140, 128, 236, 139, 156, 235, 179, 180, 235, 147, 156]"

definition t_dash_subtitle :: string where
  "t_dash_subtitle = utf8
    [236, 154, 180, 236, 152, 129, 32, 237, 152, 132, 237, 153, 169, 32, 194, 183, 32, 236, 181, 156,
     234, 183, 188, 32, 50, 52, 236, 139, 156, 234, 176, 132]"

definition t_range_day :: string where
  "t_range_day = utf8
    [236, 157, 188]"

definition t_range_week :: string where
  "t_range_week = utf8
    [236, 163, 188]"

definition t_range_month :: string where
  "t_range_month = utf8
    [236, 155, 148]"

definition t_range_year :: string where
  "t_range_year = utf8
    [236, 151, 176]"

definition t_title_day :: string where
  "t_title_day = utf8
    [236, 181, 156, 234, 183, 188, 32, 50, 52, 236, 139, 156, 234, 176, 132, 32, 194, 183, 32, 236, 139,
     156, 234, 176, 132, 235, 179, 132]"

definition t_title_week :: string where
  "t_title_week = utf8
    [236, 181, 156, 234, 183, 188, 32, 55, 236, 157, 188, 32, 194, 183, 32, 236, 157, 188, 235, 179,
     132]"

definition t_title_month :: string where
  "t_title_month = utf8
    [236, 181, 156, 234, 183, 188, 32, 51, 48, 236, 157, 188, 32, 194, 183, 32, 236, 157, 188, 235, 179,
     132]"

definition t_title_year :: string where
  "t_title_year = utf8
    [236, 181, 156, 234, 183, 188, 32, 49, 50, 234, 176, 156, 236, 155, 148, 32, 194, 183, 32, 236, 155,
     148, 235, 179, 132]"

definition t_dash :: string where
  "t_dash = utf8
    [226, 128, 148]"

definition t_rest :: string where
  "t_rest = utf8
    [234, 184, 176, 237, 131, 128, 32]"

definition t_kinds :: string where
  "t_kinds = utf8
    [236, 162, 133]"

definition t_pie_label :: string where
  "t_pie_label = utf8
    [236, 139, 164, 237, 140, 168, 32, 236, 155, 144, 236, 157, 184, 32, 235, 182, 132, 237, 143, 172]"

definition t_dot :: string where
  "t_dot = utf8
    [32, 194, 183, 32]"

definition t_times :: string where
  "t_times = utf8
    [234, 177, 180]"

definition t_pie_center :: string where
  "t_pie_center = utf8
    [236, 139, 164, 237, 140, 168, 32, 194, 183, 32, 50, 52, 104]"

definition t_strip_label :: string where
  "t_strip_label = utf8
    [236, 160, 132, 235, 139, 172, 32, 236, 167, 128, 236, 151, 176, 32, 236, 138, 164, 237, 138, 184,
     235, 166, 189, 32, 237, 148, 140, 235, 161, 175]"

definition t_arrow :: string where
  "t_arrow = utf8
    [32, 226, 134, 146]"

definition t_hour :: string where
  "t_hour = utf8
    [236, 139, 156]"

definition t_month :: string where
  "t_month = utf8
    [236, 155, 148]"

definition t_day :: string where
  "t_day = utf8
    [236, 157, 188, 32]"

definition t_year :: string where
  "t_year = utf8
    [235, 133, 132, 32]"

definition t_sun :: string where
  "t_sun = utf8
    [236, 157, 188]"

definition t_mon :: string where
  "t_mon = utf8
    [236, 155, 148]"

definition t_tue :: string where
  "t_tue = utf8
    [237, 153, 148]"

definition t_wed :: string where
  "t_wed = utf8
    [236, 136, 152]"

definition t_thu :: string where
  "t_thu = utf8
    [235, 170, 169]"

definition t_fri :: string where
  "t_fri = utf8
    [234, 184, 136]"

definition t_sat :: string where
  "t_sat = utf8
    [237, 134, 160]"

definition t_chart_label :: string where
  "t_chart_label = utf8
    [236, 149, 177, 235, 179, 132, 32, 236, 154, 148, 236, 178, 173, 32, 236, 136, 152, 32, 40]"

definition t_pieces :: string where
  "t_pieces = utf8
    [234, 176, 156]"

definition t_delivery_title :: string where
  "t_delivery_title = utf8
    [236, 160, 132, 235, 139, 172, 32, 237, 152, 132, 237, 153, 169]"

definition t_delivery_subtitle :: string where
  "t_delivery_subtitle = utf8
    [32, 194, 183, 32, 97, 117, 100, 105, 116, 95, 108, 111, 103, 32, 236, 167, 145, 234, 179, 132]"

definition t_window_1d :: string where
  "t_window_1d = utf8
    [49, 236, 157, 188]"

definition t_window_7d :: string where
  "t_window_7d = utf8
    [55, 236, 157, 188]"

definition t_window_1m :: string where
  "t_window_1m = utf8
    [49, 234, 176, 156, 236, 155, 148]"

definition t_window_3m :: string where
  "t_window_3m = utf8
    [51, 234, 176, 156, 236, 155, 148]"

definition t_window_6m :: string where
  "t_window_6m = utf8
    [54, 234, 176, 156, 236, 155, 148]"

definition t_window_1y :: string where
  "t_window_1y = utf8
    [49, 235, 133, 132]"

definition t_recent :: string where
  "t_recent = utf8
    [236, 181, 156, 234, 183, 188, 32]"

definition t_view_failures :: string where
  "t_view_failures = utf8
    [236, 181, 156, 234, 183, 188, 32, 236, 139, 164, 237, 140, 168]"

definition t_view_trend :: string where
  "t_view_trend = utf8
    [236, 160, 132, 235, 139, 172, 32, 236, 182, 148, 236, 157, 180]"

definition t_view_funnel :: string where
  "t_view_funnel = utf8
    [237, 141, 188, 235, 132, 144]"

definition t_failed :: string where
  "t_failed = utf8
    [236, 139, 164, 237, 140, 168]"

definition t_trend_label :: string where
  "t_trend_label = utf8
    [236, 160, 132, 235, 139, 172, 32, 236, 182, 148, 236, 157, 180, 32, 40]"

definition t_days :: string where
  "t_days = utf8
    [236, 157, 188, 41]"

end
