(* ===== verification/Ui_Views.thy ===== *)
theory Ui_Views
  imports Http Ui_Texts
begin

text \<open>
  What the pages of the admin UI show: the struct \<^verbatim>\<open>pageData\<close> of \<^verbatim>\<open>src/internal/adminui/handlers.go\<close> and the
  view structs it holds. The templates turn it into HTML. An inline SVG drawing is the list of its elements; the attributes
  that are the same in every drawing (widths of lines, fonts) are left out. Coordinates are the exact ones, before they are printed
  with one decimal.
\<close>

section \<open>Drawings\<close>

text \<open>A tooltip has a position, an anchor and an escaped text.\<close>

type_synonym svg_tip = "rat \<times> rat \<times> string \<times> string"

text \<open>A point has a centre, the radius of its transparent hover circle and of its visible dot; a slice of a ring has the centre,
  the radius and the width of the ring, and its share and start as fractions of the circumference.\<close>

datatype svg_element =
    El_line rat rat rat rat
  | El_text rat rat string string
  | El_polyline "(rat \<times> rat) list" string
  | El_point rat rat rat rat string svg_tip
  | El_slice rat rat rat rat string rat rat svg_tip

record svg =
  sv_width :: rat
  sv_height :: rat
  sv_label :: string
  sv_elements :: "svg_element list"

record legend_item =
  lg_label :: string
  lg_color :: string

record line_chart =
  lc_svg :: svg
  lc_legend :: "legend_item list"


section \<open>Dashboard\<close>

record dashboard_stats =
  st_total_apps :: nat
  st_active_apps :: nat
  st_active_keys :: nat
  st_users :: nat

record kpi_view =
  kp_received :: nat
  kp_delivered :: nat
  kp_failed :: nat
  kp_rate :: string

record pipeline_stage =
  pn_name :: string
  pn_count :: nat
  pn_drop :: string
  pn_alert :: bool

record pie_legend_item =
  pl_code :: string
  pl_count :: nat
  pl_pct :: string
  pl_color :: string

record failure_pie_view =
  fp_svg :: svg
  fp_legend :: "pie_legend_item list"
  fp_total :: nat

record latency_strip_view =
  lv_svg :: svg
  lv_count :: nat
  lv_shown :: nat
  lv_p50 :: string
  lv_p95 :: string
  lv_max :: string

record dashboard_view =
  dv_kpi :: "kpi_view option"
  dv_kpi_err :: bool
  dv_pipeline :: "pipeline_stage list option"
  dv_pipeline_err :: bool
  dv_pie :: "failure_pie_view option"
  dv_pie_err :: bool
  dv_strip :: "latency_strip_view option"
  dv_strip_err :: bool

record chart_range_link =
  cl_key :: string
  cl_label :: string
  cl_on :: bool


section \<open>Audit log and deliveries\<close>

record audit_filters =
  fl_limit :: string
  fl_since :: string
  fl_until :: string
  fl_trace :: string
  fl_app :: string
  fl_stage :: string
  fl_before :: string

record audit_display_row =
  ad_id :: int
  ad_at :: string
  ad_stage :: string
  ad_badge :: string
  ad_app :: string
  ad_endpoint :: string
  ad_channel :: string
  ad_recipient :: string
  ad_error :: string
  ad_trace :: string

record audit_verify_break =
  wb_id :: int
  wb_at :: string
  wb_stage :: string
  wb_column :: string
  wb_expected :: string
  wb_stored :: string

record audit_verify_view =
  vv_ok :: bool
  vv_partial :: bool
  vv_rows :: nat
  vv_elapsed :: string
  vv_break :: "audit_verify_break option"

record funnel_bar =
  fb_stage :: string
  fb_count :: nat
  fb_width :: string

record app_funnel =
  fu_app :: string
  fu_received :: nat
  fu_delivered :: nat
  fu_denied :: nat
  fu_retried :: nat
  fu_deferred :: nat
  fu_rate :: string
  fu_bars :: "funnel_bar list"

record delivery_window_option =
  dw_key :: string
  dw_label :: string
  dw_on :: bool

record delivery_view_option =
  do_key :: string
  do_label :: string
  do_url :: string
  do_on :: bool

record delivery_view =
  dy_window :: string
  dy_window_label :: string
  dy_windows :: "delivery_window_option list"
  dy_view :: string
  dy_views :: "delivery_view_option list"
  dy_app :: string
  dy_stage :: string
  dy_error :: string
  dy_app_options :: "string list"
  dy_stage_options :: "string list"
  dy_error_options :: "string list"
  dy_filtered :: bool
  dy_trend :: "line_chart option"
  dy_trend_err :: bool
  dy_funnels :: "app_funnel list"
  dy_funnels_err :: bool
  dy_failures :: "audit_display_row list"
  dy_failures_err :: bool


section \<open>Test console\<close>

record test_send_result =
  tr_status :: string
  tr_ok :: bool
  tr_body :: bytes
  tr_truncated :: bool
  tr_trace :: string

record test_send_view =
  tv_app :: string
  tv_recipient :: string
  tv_text :: string
  tv_result :: "test_send_result option"


section \<open>Applications, keys and users\<close>

record app_view =
  vw_id :: string
  vw_name :: string
  vw_description :: string
  vw_min_grade :: string
  vw_active :: bool
  vw_capabilities :: "string list"
  vw_created_at :: time
  vw_created_by :: string

record key_view =
  kv_app :: string
  kv_prefix :: string
  kv_label :: string
  kv_created_at :: time
  kv_revoked_at :: "time option"

record key_group =
  kg_app :: string
  kg_keys :: "key_view list"

record keys_view =
  ks_group :: string
  ks_status :: string
  ks_app :: string
  ks_show_new :: bool
  ks_form_app :: string
  ks_form_prefix :: string
  ks_form_label :: string

record user_display =
  ud_telegram_id :: int
  ud_username :: string
  ud_grade :: string
  ud_label :: string
  ud_badge :: string
  ud_subscriptions :: "string list"

record users_view =
  uv_grade :: string
  uv_app :: string
  uv_query :: string
  uv_users :: "user_display list"
  uv_count :: nat
  uv_selected :: "user_display option"


section \<open>Page data\<close>

record page =
  pg_title :: string
  pg_subtitle :: string
  pg_active :: string
  pg_authenticated :: bool
  pg_csrf :: string
  pg_error :: string
  pg_success :: string
  pg_remaining :: string
  pg_apps :: "app_view list"
  pg_app :: "app_view option"
  pg_app_id :: string
  pg_db_unavailable :: bool
  pg_grantable :: "string list"
  pg_telegram_id :: string
  pg_unsub_app :: string
  pg_status_filter :: string
  pg_keys :: "key_view list"
  pg_groups :: "key_group list"
  pg_keys_view :: keys_view
  pg_plaintext :: string
  pg_issued_prefix :: string
  pg_issued_label :: string
  pg_users :: users_view
  pg_server_url :: string
  pg_stats :: "dashboard_stats option"
  pg_line_chart :: "line_chart option"
  pg_chart_err :: bool
  pg_chart_ranges :: "chart_range_link list"
  pg_chart_title :: string
  pg_dash :: "dashboard_view option"
  pg_health_ok :: bool
  pg_health_db :: string
  pg_uptime :: string
  pg_delivery :: "delivery_view option"
  pg_test_send :: "test_send_view option"
  pg_audit_filters :: audit_filters
  pg_audit_stages :: "string list"
  pg_audit_limits :: "string list"
  pg_audit_apps :: "string list"
  pg_audit_rows :: "audit_display_row list"
  pg_audit_next :: string
  pg_audit_first :: string
  pg_audit_verify :: "audit_verify_view option"

definition zero_keys_view :: keys_view where
  "zero_keys_view = \<lparr>ks_group = [], ks_status = [], ks_app = [], ks_show_new = False, ks_form_app = [],
     ks_form_prefix = [], ks_form_label = []\<rparr>"

definition zero_users_view :: users_view where
  "zero_users_view = \<lparr>uv_grade = [], uv_app = [], uv_query = [], uv_users = [], uv_count = 0, uv_selected = None\<rparr>"

definition zero_audit_filters :: audit_filters where
  "zero_audit_filters = \<lparr>fl_limit = [], fl_since = [], fl_until = [], fl_trace = [], fl_app = [], fl_stage = [], fl_before = []\<rparr>"

definition zero_page :: page where
  "zero_page = \<lparr>pg_title = [], pg_subtitle = [], pg_active = [], pg_authenticated = False, pg_csrf = [], pg_error = [],
     pg_success = [], pg_remaining = [], pg_apps = [], pg_app = None, pg_app_id = [], pg_db_unavailable = False,
     pg_grantable = [], pg_telegram_id = [], pg_unsub_app = [], pg_status_filter = [], pg_keys = [], pg_groups = [],
     pg_keys_view = zero_keys_view, pg_plaintext = [], pg_issued_prefix = [], pg_issued_label = [],
     pg_users = zero_users_view, pg_server_url = [], pg_stats = None, pg_line_chart = None, pg_chart_err = False,
     pg_chart_ranges = [], pg_chart_title = [], pg_dash = None, pg_health_ok = False, pg_health_db = [], pg_uptime = [],
     pg_delivery = None, pg_test_send = None, pg_audit_filters = zero_audit_filters, pg_audit_stages = [],
     pg_audit_limits = [], pg_audit_apps = [], pg_audit_rows = [], pg_audit_next = [], pg_audit_first = [],
     pg_audit_verify = None\<rparr>"

end
