(* ===== verification/Ui_Session.thy ===== *)
theory Ui_Session
  imports Ui_Views
begin

text \<open>
  The operator's session in the admin UI (\<^verbatim>\<open>src/internal/adminui\<close>): signed cookies with a revocation set
  (\<^verbatim>\<open>session.go\<close>), tokens against cross-site requests (\<^verbatim>\<open>csrf.go\<close>), the two brakes on
  password guessing, and the login and logout handlers (\<^verbatim>\<open>handlers.go\<close>). HMAC is the construction of
  RFC 2104 over the parameter SHA-256. The UI has a memory of its own, \<open>ui_state\<close>, beside the shared
  \<open>world\<close>; each operation holds the mutex of its part for its whole run, so that the operations
  happen one after the other.
\<close>

section \<open>State, requests and responses\<close>

record session_manager =
  sm_secret :: bytes
  sm_secure :: bool
  sm_revoked :: "string \<rightharpoonup> time"

record login_bucket =
  lb_tokens :: rat
  lb_lastFill :: time

type_synonym login_limiter = "string \<rightharpoonup> login_bucket"

record global_backoff =
  gb_failures :: int
  gb_lastFailure :: time
  gb_blockedUntil :: time

record ui_state =
  ui_w :: world
  ui_sm :: session_manager
  ui_limiter :: login_limiter
  ui_backoff :: global_backoff

text \<open>The settings the handlers read. The store, the key store and the audit writer are there when the UI has a
  database; \<open>uc_parses\<close> says whether a page template parses. \<open>uc_walk n\<close> is how a walk over the audit log that
  starts at interaction \<open>n\<close> breaks off: after how many rows, and whether by its deadline. \<open>uc_wire\<close> gives the
  bytes of the body of a response, \<open>uc_indent\<close> is \<^verbatim>\<open>json.Indent\<close> (\<^const>\<open>None\<close> its error), \<open>uc_started\<close> the start of the process and
  \<open>uc_zone\<close> the offset of its time zone in seconds.\<close>

record ui_config =
  uc_store :: bool
  uc_keys :: bool
  uc_audit :: bool
  uc_password :: string
  uc_api_key :: string
  uc_server_url :: string
  uc_parses :: "string \<Rightarrow> bool"
  uc_walk :: "nat \<Rightarrow> (nat \<times> bool) option"
  uc_wire :: "response \<Rightarrow> bytes"
  uc_indent :: "bytes \<Rightarrow> bytes option"
  uc_started :: time
  uc_zone :: "time \<Rightarrow> int"

text \<open>The form is what \<^verbatim>\<open>ParseForm\<close> gives, \<^const>\<open>None\<close> its error, the values of the body before those of the
  query string; the form of the body alone is \<open>ur_post_form\<close>; nonce and expiry are the
  values the session middleware puts into the context (empty and the zero time without it).\<close>

record ui_request =
  ur_method :: string
  ur_path :: string
  ur_cookies :: "(string \<times> string) list"
  ur_form :: "(string \<times> string) list option"
  ur_post_form :: "(string \<times> string) list"
  ur_raw_query :: string
  ur_query :: "(string \<times> string) list"
  ur_params :: "(string \<times> string) list"
  ur_remote :: string
  ur_trace_header :: string
  ur_trace :: string
  ur_nonce :: string
  ur_expiry :: time

definition PostFormValue :: "ui_request \<Rightarrow> string \<Rightarrow> string" where
  "PostFormValue r k = get_value (ur_post_form r) k"

definition FormValue :: "ui_request \<Rightarrow> string \<Rightarrow> string" where
  "FormValue r k = (case ur_form r of None \<Rightarrow> [] | Some kvs \<Rightarrow> get_value kvs k)"

record cookie =
  ck_name :: string
  ck_value :: string
  ck_path :: string
  ck_httpOnly :: bool
  ck_secure :: bool
  ck_strict :: bool
  ck_expires :: time
  ck_maxAge :: int

text \<open>Reading the clock.\<close>

definition ui_now :: "env \<Rightarrow> ui_state \<Rightarrow> time \<times> ui_state" where
  "ui_now e u = (case read_clock e (ui_w u) of (now, w) \<Rightarrow> (now, u\<lparr>ui_w := w\<rparr>))"


section \<open>HMAC-SHA256\<close>

definition byte_xor :: "nat \<Rightarrow> char \<Rightarrow> char" where
  "byte_xor n c = char_of (Bit_Operations.xor n (of_char c))"

definition hmac_sha256 :: "env \<Rightarrow> bytes \<Rightarrow> bytes \<Rightarrow> bytes" where
  "hmac_sha256 e key msg =
     (let k = (if length key > 64 then env_sha256 e key else key);
          k = k @ replicate (64 - length k) (CHR 0x00)
      in env_sha256 e (map (byte_xor 0x5C) k @ env_sha256 e (map (byte_xor 0x36) k @ msg)))"


section \<open>Sessions\<close>

definition sessionCookieName :: string where "sessionCookieName = ''adminui_session''"
definition sessionTTL :: duration where "sessionTTL = 12 * hour_ns"

definition randomHex :: "env \<Rightarrow> nat \<Rightarrow> ui_state \<Rightarrow> string option \<times> ui_state" where
  "randomHex e n u =
     (case rand_read e n (ui_w u) of
        (None, w) \<Rightarrow> (None, u\<lparr>ui_w := w\<rparr>)
      | (Some b, w) \<Rightarrow> (Some (hex_encode b), u\<lparr>ui_w := w\<rparr>))"

definition NewSessionManager :: "env \<Rightarrow> bool \<Rightarrow> world \<Rightarrow> session_manager option \<times> world" where
  "NewSessionManager e secureCookies w =
     (case rand_read e 32 w of
        (None, w1) \<Rightarrow> (None, w1)
      | (Some secret, w1) \<Rightarrow> (Some \<lparr>sm_secret = secret, sm_secure = secureCookies, sm_revoked = Map.empty\<rparr>, w1))"

definition sweep_revoked :: "time \<Rightarrow> (string \<rightharpoonup> time) \<Rightarrow> string \<rightharpoonup> time" where
  "sweep_revoked now rs = (\<lambda>n. case rs n of None \<Rightarrow> None | Some sweepAfter \<Rightarrow> if now > sweepAfter then None else Some sweepAfter)"

definition Revoke :: "env \<Rightarrow> string \<Rightarrow> ui_state \<Rightarrow> ui_state" where
  "Revoke e nonce u =
     (if nonce = [] then u
      else (case ui_now e u of (now, u1) \<Rightarrow>
        u1\<lparr>ui_sm := (ui_sm u1)\<lparr>sm_revoked := (sweep_revoked now (sm_revoked (ui_sm u1)))(nonce \<mapsto> now + sessionTTL)\<rparr>\<rparr>))"

definition isRevoked :: "string \<Rightarrow> session_manager \<Rightarrow> bool" where
  "isRevoked nonce sm = (sm_revoked sm nonce \<noteq> None)"

definition session_payload :: "string \<Rightarrow> string \<Rightarrow> string" where
  "session_payload expiry nonce = expiry @ ''|'' @ nonce"

definition signature :: "env \<Rightarrow> session_manager \<Rightarrow> string \<Rightarrow> string" where
  "signature e sm payload = hex_encode (hmac_sha256 e (sm_secret sm) payload)"

definition sign :: "env \<Rightarrow> session_manager \<Rightarrow> int \<Rightarrow> string \<Rightarrow> string" where
  "sign e sm expiry nonce =
     (let payload = session_payload (FormatInt expiry) nonce
      in payload @ ''|'' @ signature e sm payload)"

definition verify :: "env \<Rightarrow> string \<Rightarrow> ui_state \<Rightarrow> (string \<times> time) option \<times> ui_state" where
  "verify e val u =
     (let parts = SplitN val (CHR ''|'') 3
      in if length parts \<noteq> 3 then (None, u)
         else
           (let expiryStr = parts ! 0; nonce = parts ! 1; sig = parts ! 2
            in case ParseInt expiryStr of
                 None \<Rightarrow> (None, u)
               | Some expiryUnix \<Rightarrow>
                   if sig \<noteq> signature e (ui_sm u) (session_payload expiryStr nonce) then (None, u)
                   else (case ui_now e u of (now, u1) \<Rightarrow>
                     if time_unix now > expiryUnix then (None, u1)
                     else if isRevoked nonce (ui_sm u1) then (None, u1)
                     else (Some (nonce, unix_time expiryUnix), u1))))"

definition Issue :: "env \<Rightarrow> ui_state \<Rightarrow> (string \<times> cookie) option \<times> ui_state" where
  "Issue e u =
     (case randomHex e 16 u of
        (None, u1) \<Rightarrow> (None, u1)
      | (Some nonce, u1) \<Rightarrow>
          (case ui_now e u1 of (now, u2) \<Rightarrow>
            (let expiry = time_unix (now + sessionTTL)
             in (Some (nonce, \<lparr>ck_name = sessionCookieName, ck_value = sign e (ui_sm u2) expiry nonce, ck_path = ''/'',
                   ck_httpOnly = True, ck_secure = sm_secure (ui_sm u2), ck_strict = True,
                   ck_expires = unix_time expiry, ck_maxAge = 0\<rparr>), u2))))"

definition Clear :: "session_manager \<Rightarrow> cookie" where
  "Clear sm = \<lparr>ck_name = sessionCookieName, ck_value = [], ck_path = ''/'', ck_httpOnly = True, ck_secure = sm_secure sm,
     ck_strict = True, ck_expires = 0, ck_maxAge = - 1\<rparr>"


section \<open>Tokens against cross-site requests\<close>

definition csrfCookieName :: string where "csrfCookieName = ''adminui_csrf''"
definition csrfCookieMaxAge :: int where "csrfCookieMaxAge = 600"

definition CSRFToken :: "env \<Rightarrow> session_manager \<Rightarrow> string \<Rightarrow> string" where
  "CSRFToken e sm nonce = signature e sm (''csrf|'' @ nonce)"

definition IssueCSRFCookie :: "env \<Rightarrow> ui_state \<Rightarrow> (string \<times> cookie) option \<times> ui_state" where
  "IssueCSRFCookie e u =
     (case randomHex e 16 u of
        (None, u1) \<Rightarrow> (None, u1)
      | (Some nonce, u1) \<Rightarrow>
          (Some (CSRFToken e (ui_sm u1) nonce, \<lparr>ck_name = csrfCookieName, ck_value = nonce, ck_path = ''/'',
             ck_httpOnly = True, ck_secure = sm_secure (ui_sm u1), ck_strict = True, ck_expires = 0,
             ck_maxAge = csrfCookieMaxAge\<rparr>), u1))"

definition csrfNonce :: "ui_request \<Rightarrow> string" where
  "csrfNonce r = (if ur_nonce r \<noteq> [] then ur_nonce r else get_value (ur_cookies r) csrfCookieName)"

definition VerifyCSRF :: "env \<Rightarrow> session_manager \<Rightarrow> ui_request \<Rightarrow> bool" where
  "VerifyCSRF e sm r =
     (let nonce = csrfNonce r; token = FormValue r ''csrf_token''
      in if nonce = [] \<or> token = [] then False else token = CSRFToken e sm nonce)"


section \<open>Responses\<close>

datatype ui_reply = U_error int string | U_redirect string | U_page string page

record ui_response =
  ux_reply :: ui_reply
  ux_cookies :: "cookie list"
  ux_headers :: "(string \<times> string) list"

type_synonym ui_handler = "ui_request \<Rightarrow> ui_state \<Rightarrow> ui_response \<times> ui_state"

definition ui_answer :: "ui_reply \<Rightarrow> ui_response" where
  "ui_answer x = \<lparr>ux_reply = x, ux_cookies = [], ux_headers = []\<rparr>"

definition ui_error :: "int \<Rightarrow> string \<Rightarrow> ui_response" where "ui_error status code = ui_answer (U_error status code)"
definition ui_redirect :: "string \<Rightarrow> ui_response" where "ui_redirect url = ui_answer (U_redirect url)"

definition render :: "ui_config \<Rightarrow> string \<Rightarrow> page \<Rightarrow> ui_response" where
  "render c page data = (if uc_parses c page then ui_answer (U_page page data) else ui_error 500 ''internal_error'')"


section \<open>Middlewares\<close>

definition Session_mw :: "env \<Rightarrow> ui_handler \<Rightarrow> ui_handler" where
  "Session_mw e nxt r u =
     (case map_of (ur_cookies r) sessionCookieName of
        None \<Rightarrow> (ui_redirect ''/login'', u)
      | Some val \<Rightarrow>
          (case verify e val u of
             (None, u1) \<Rightarrow> (ui_redirect ''/login'', u1)
           | (Some (nonce, expiry), u1) \<Rightarrow> nxt (r\<lparr>ur_nonce := nonce, ur_expiry := expiry\<rparr>) u1))"

definition RequireCSRF :: "env \<Rightarrow> ui_handler \<Rightarrow> ui_handler" where
  "RequireCSRF e nxt r u =
     (if ur_form r = None then (ui_error 400 ''bad_form'', u)
      else if \<not> VerifyCSRF e (ui_sm u) r then (ui_error 403 ''csrf_invalid'', u)
      else nxt r u)"

definition apostrophed :: "string \<Rightarrow> string" where "apostrophed s = CHR 0x27 # s @ [CHR 0x27]"

definition contentPolicy :: string where
  "contentPolicy = ''default-src '' @ apostrophed ''none'' @ ''; style-src '' @ apostrophed ''unsafe-inline'' @
     ''; img-src '' @ apostrophed ''self'' @ ''; form-action '' @ apostrophed ''self'' @ ''; base-uri '' @ apostrophed ''none'' @
     ''; frame-ancestors '' @ apostrophed ''none''"

definition securityHeaders :: "ui_handler \<Rightarrow> ui_handler" where
  "securityHeaders nxt r u =
     (case nxt r u of (resp, u1) \<Rightarrow>
      (resp\<lparr>ux_headers := [(''X-Frame-Options'', ''DENY''), (''X-Content-Type-Options'', ''nosniff''),
         (''Referrer-Policy'', ''no-referrer''), (''Content-Security-Policy'', contentPolicy),
         (''Cache-Control'', ''no-store'')] @ ux_headers resp\<rparr>, u1))"


section \<open>Brakes on guessing\<close>

definition loginRateLimit :: rat where "loginRateLimit = 5"
definition loginRateWindow :: duration where "loginRateWindow = minute_ns"

definition login_refill :: "time \<Rightarrow> login_bucket \<Rightarrow> rat" where
  "login_refill now b = f_mul (Seconds (time_sub now (lb_lastFill b))) (f_div loginRateLimit (Seconds loginRateWindow))"

definition sweep_buckets :: "string \<Rightarrow> time \<Rightarrow> login_limiter \<Rightarrow> login_limiter" where
  "sweep_buckets key now l =
     (\<lambda>k. if k = key then l k
          else (case l k of
                  None \<Rightarrow> None
                | Some b \<Rightarrow> if f_add (lb_tokens b) (login_refill now b) \<ge> loginRateLimit then None else Some b))"

text \<open>The bucket of a key brought up to date, and a token taken from it.\<close>

definition fill_bucket :: "time \<Rightarrow> login_bucket option \<Rightarrow> login_bucket" where
  "fill_bucket now b =
     (case b of
        None \<Rightarrow> \<lparr>lb_tokens = loginRateLimit, lb_lastFill = now\<rparr>
      | Some b \<Rightarrow> \<lparr>lb_tokens = min loginRateLimit (f_add (lb_tokens b) (login_refill now b)), lb_lastFill = now\<rparr>)"

definition take_login :: "string \<Rightarrow> time \<Rightarrow> login_limiter \<Rightarrow> bool \<times> login_limiter" where
  "take_login key now l =
     (let b = fill_bucket now (l key)
      in if lb_tokens b < 1 then (False, l(key \<mapsto> b)) else (True, l(key \<mapsto> b\<lparr>lb_tokens := f_sub (lb_tokens b) 1\<rparr>)))"

definition login_Allow :: "string \<Rightarrow> time \<Rightarrow> login_limiter \<Rightarrow> bool \<times> login_limiter" where
  "login_Allow key now l = take_login key now (sweep_buckets key now l)"

definition globalBackoffThreshold :: int where "globalBackoffThreshold = 20"
definition globalBackoffDelay :: duration where "globalBackoffDelay = 30 * second_ns"
definition globalBackoffDecay :: duration where "globalBackoffDecay = 10 * minute_ns"

definition backoff_Allow :: "time \<Rightarrow> global_backoff \<Rightarrow> bool" where
  "backoff_Allow now g = (\<not> now < gb_blockedUntil g)"

definition RecordFailure :: "time \<Rightarrow> global_backoff \<Rightarrow> global_backoff" where
  "RecordFailure now g =
     (let g1 = (if gb_lastFailure g \<noteq> 0 \<and> time_sub now (gb_lastFailure g) \<ge> globalBackoffDecay
                then g\<lparr>gb_failures := 0\<rparr> else g);
          g2 = g1\<lparr>gb_lastFailure := now, gb_failures := gb_failures g1 + 1\<rparr>
      in if gb_failures g2 \<ge> globalBackoffThreshold then g2\<lparr>gb_blockedUntil := now + globalBackoffDelay\<rparr> else g2)"

definition RecordSuccess :: "global_backoff \<Rightarrow> global_backoff" where
  "RecordSuccess g = g\<lparr>gb_failures := 0, gb_blockedUntil := 0\<rparr>"


section \<open>Login and logout\<close>

text \<open>\<^verbatim>\<open>net.SplitHostPort\<close>; \<^const>\<open>None\<close> is its error.\<close>

definition SplitHostPort :: "string \<Rightarrow> (string \<times> string) option" where
  "SplitHostPort s =
     (case IndexByte (rev s) (CHR '':'') of
        None \<Rightarrow> None
      | Some j \<Rightarrow>
          (let i = length s - Suc j; port = drop (Suc i) s
           in if hd s = CHR ''['' then
                (case IndexByte s (CHR '']'') of
                   None \<Rightarrow> None
                 | Some fin \<Rightarrow>
                     if Suc fin \<noteq> i then None
                     else if CHR ''['' \<in> set (drop 1 s) \<or> CHR '']'' \<in> set (drop (Suc fin) s) then None
                     else Some (drop 1 (take fin s), port))
              else
                (let host = take i s
                 in if CHR '':'' \<in> set host \<or> CHR ''['' \<in> set s \<or> CHR '']'' \<in> set s then None
                    else Some (host, port))))"

definition clientIP :: "ui_request \<Rightarrow> string" where
  "clientIP r = (case SplitHostPort (ur_remote r) of None \<Rightarrow> ur_remote r | Some (host, _) \<Rightarrow> host)"

definition handleLoginPage :: "env \<Rightarrow> ui_config \<Rightarrow> ui_handler" where
  "handleLoginPage e c r u =
     (if \<not> uc_parses c ''login.html'' then (ui_error 500 ''internal_error'', u)
      else
        (case IssueCSRFCookie e u of
           (None, u1) \<Rightarrow> (ui_error 500 ''internal_error'', u1)
         | (Some (token, ck), u1) \<Rightarrow>
             (let data = zero_page\<lparr>pg_title := t_login_title, pg_csrf := token\<rparr>;
                  data = (if get_value (ur_query r) ''error'' \<noteq> [] then data\<lparr>pg_error := t_login_error\<rparr> else data)
              in ((ui_answer (U_page ''login.html'' data))\<lparr>ux_cookies := [ck]\<rparr>, u1))))"

definition handleLoginSubmit :: "env \<Rightarrow> ui_config \<Rightarrow> ui_handler" where
  "handleLoginSubmit e c r u =
     (case ui_now e u of (now, u1) \<Rightarrow>
      case login_Allow (clientIP r) now (ui_limiter u1) of (ok, l) \<Rightarrow>
      let u2 = u1\<lparr>ui_limiter := l\<rparr>
      in if \<not> ok then (ui_error 429 ''rate_limited'', u2)
         else
           (case ui_now e u2 of (now, u3) \<Rightarrow>
            if \<not> backoff_Allow now (ui_backoff u3) then (ui_error 429 ''rate_limited'', u3)
            else if FormValue r ''password'' \<noteq> uc_password c then
              (case ui_now e u3 of (now, u4) \<Rightarrow>
                 (ui_redirect ''/login?error=1'', u4\<lparr>ui_backoff := RecordFailure now (ui_backoff u4)\<rparr>))
            else
              (let u4 = u3\<lparr>ui_backoff := RecordSuccess (ui_backoff u3)\<rparr>
               in case Issue e u4 of
                    (None, u5) \<Rightarrow> (ui_error 500 ''internal_error'', u5)
                  | (Some (nonce, ck), u5) \<Rightarrow> ((ui_redirect ''/'')\<lparr>ux_cookies := [ck]\<rparr>, u5))))"

definition handleLogout :: "env \<Rightarrow> ui_handler" where
  "handleLogout e r u =
     (let u1 = Revoke e (ur_nonce r) u
      in ((ui_redirect ''/login'')\<lparr>ux_cookies := [Clear (ui_sm u1)]\<rparr>, u1))"

text \<open>\<^verbatim>\<open>Duration.Round(time.Second)\<close> of a positive duration, in seconds.\<close>

definition round_seconds :: "duration \<Rightarrow> int" where
  "round_seconds d = (d + second_ns div 2) div second_ns"

definition sessionRemaining :: "time \<Rightarrow> time \<Rightarrow> string" where
  "sessionRemaining now expiry =
     (if expiry = 0 then []
      else
        (let d = time_sub expiry now
         in if d \<le> 0 then ''0s''
            else
              (let s = round_seconds d; h = s div 3600; m = s div 60 mod 60; sec = s mod 60
               in if h > 0 then FormatInt h @ ''h '' @ FormatInt m @ ''m''
                  else FormatInt m @ ''m '' @ FormatInt sec @ ''s'')))"

definition basePageData :: "env \<Rightarrow> ui_request \<Rightarrow> string \<Rightarrow> string \<Rightarrow> ui_state \<Rightarrow> page \<times> ui_state" where
  "basePageData e r title active u =
     (case (if ur_expiry r = 0 then (0, u) else ui_now e u) of (now, u1) \<Rightarrow>
      (zero_page\<lparr>pg_title := title, pg_active := active, pg_authenticated := True,
         pg_csrf := CSRFToken e (ui_sm u1) (ur_nonce r), pg_remaining := sessionRemaining now (ur_expiry r)\<rparr>, u1))"

end
