(* ===== verification/Ui_Store.thy ===== *)
theory Ui_Store
  imports Ui_Session Registry Api_Admin
begin

text \<open>
  The admin UI's access to the database: the reads behind the applications and users pages
  (\<^verbatim>\<open>src/internal/adminui/store.go\<close>) and the key store (\<^verbatim>\<open>keystore.go\<close>), its only writes. The
  deadline of a query makes its round trip fail. An identifier that a failed insert takes from its sequence
  is not recorded: identifiers only have to be unique.
\<close>

section \<open>Reads\<close>

fun insert_app_view :: "app_view \<Rightarrow> app_view list \<Rightarrow> app_view list" where
  "insert_app_view x [] = [x]"
| "insert_app_view x (y # ys) = (if text_le (vw_id x) (vw_id y) then x # y # ys else y # insert_app_view x ys)"

text \<open>A row with its capabilities; \<^verbatim>\<open>array_agg\<close> without \<^verbatim>\<open>ORDER BY\<close> gives them in any order.\<close>

definition app_view_of :: "env \<Rightarrow> nat \<Rightarrow> database \<Rightarrow> app_row \<Rightarrow> app_view" where
  "app_view_of e n d a = \<lparr>vw_id = app_id a, vw_name = app_name a, vw_description = app_description a,
     vw_min_grade = app_min_grade a, vw_active = app_active a,
     vw_capabilities = unordered e n (map snd (filter (\<lambda>c. fst c = app_id a) (d_caps d))),
     vw_created_at = app_created_at a, vw_created_by = app_created_by a\<rparr>"

definition ListApps :: "env \<Rightarrow> world \<Rightarrow> (db_error + app_view list) \<times> world" where
  "ListApps e w = db_query e (\<lambda>t d. foldr insert_app_view (map (app_view_of e (w_tick w) d) (d_apps d)) []) w"

datatype store_error = ErrAppNotFound | Store_db db_error

definition GetApp :: "env \<Rightarrow> string \<Rightarrow> world \<Rightarrow> (store_error + app_view) \<times> world" where
  "GetApp e app w =
     (case db_query e (\<lambda>t d. map_option (app_view_of e (w_tick w) d) (find (\<lambda>a. app_id a = app) (d_apps d))) w of
        (Inl err, w1) \<Rightarrow> (Inl (Store_db err), w1)
      | (Inr None, w1) \<Rightarrow> (Inl ErrAppNotFound, w1)
      | (Inr (Some a), w1) \<Rightarrow> (Inr a, w1))"

record ui_user =
  uu_telegram_id :: int
  uu_username :: string
  uu_grade :: string
  uu_subscriptions :: "string list"

fun insert_ui_user :: "ui_user \<Rightarrow> ui_user list \<Rightarrow> ui_user list" where
  "insert_ui_user x [] = [x]"
| "insert_ui_user x (y # ys) = (if uu_telegram_id x \<le> uu_telegram_id y then x # y # ys else y # insert_ui_user x ys)"

definition ui_user_of :: "database \<Rightarrow> user_row \<Rightarrow> ui_user" where
  "ui_user_of d u = \<lparr>uu_telegram_id = usr_telegram_id u, uu_username = coalesce_text (usr_username u), uu_grade = usr_grade u,
     uu_subscriptions = sort_text (map snd (filter (\<lambda>s. fst s = usr_id u) (d_subs d)))\<rparr>"

definition ListUsers :: "env \<Rightarrow> world \<Rightarrow> (db_error + ui_user list) \<times> world" where
  "ListUsers e w = db_query e (\<lambda>t d. foldr insert_ui_user (map (ui_user_of d) (d_users d)) []) w"


section \<open>Keys\<close>

datatype key_error = Key_app_not_found | ErrAppInactive | ErrPrefixTaken | ErrUiKeyNotFound | Key_db db_error

text \<open>\<^verbatim>\<open>ORDER BY created_at DESC, id DESC\<close>\<close>

fun insert_newest :: "key_row \<Rightarrow> key_row list \<Rightarrow> key_row list" where
  "insert_newest x [] = [x]"
| "insert_newest x (y # ys) =
     (if key_created_at y < key_created_at x \<or> key_created_at y = key_created_at x \<and> key_id y \<le> key_id x
      then x # y # ys else y # insert_newest x ys)"

definition key_view_of :: "key_row \<Rightarrow> key_view" where
  "key_view_of k = \<lparr>kv_app = key_app k, kv_prefix = key_prefix k, kv_label = key_label k,
     kv_created_at = key_created_at k, kv_revoked_at = key_revoked_at k\<rparr>"

definition ListKeys :: "env \<Rightarrow> string \<Rightarrow> world \<Rightarrow> (db_error + key_view list) \<times> world" where
  "ListKeys e app w =
     db_query e (\<lambda>t d. map key_view_of (foldr insert_newest (filter (\<lambda>k. app = [] \<or> key_app k = app) (d_keys d)) [])) w"

definition insert_key :: "string \<Rightarrow> string \<Rightarrow> string \<Rightarrow> string \<Rightarrow> time \<Rightarrow> change" where
  "insert_key app prefix hash label t d =
     (if list_ex (\<lambda>k. key_prefix k = prefix) (d_keys d) then Inl Unique_violation
      else if \<not> list_ex (\<lambda>a. app_id a = app) (d_apps d) then Inl Fk_violation
      else Inr (d\<lparr>d_keys := d_keys d @ [\<lparr>key_id = d_key_seq d, key_app = app, key_hash = hash, key_prefix = prefix,
               key_label = label, key_created_at = t, key_revoked_at = None\<rparr>],
             d_key_seq := d_key_seq d + 1\<rparr>))"

definition IssueKey ::
  "env \<Rightarrow> string \<Rightarrow> string \<Rightarrow> string \<Rightarrow> string \<Rightarrow> world \<Rightarrow> (key_error + unit) \<times> world" where
  "IssueKey e app prefix hash label w =
     (case db_trip e w of (begun, w1) \<Rightarrow>
      if \<not> begun then (Inl (Key_db Db_fault), w1)
      else
        (case db_query e (\<lambda>t d. map_option app_active (find (\<lambda>a. app_id a = app) (d_apps d))) w1 of
           (Inl err, w2) \<Rightarrow> (Inl (Key_db err), w2)
         | (Inr None, w2) \<Rightarrow> (Inl Key_app_not_found, w2)
         | (Inr (Some active), w2) \<Rightarrow>
             if \<not> active then (Inl ErrAppInactive, w2)
             else
               (case db_query e (\<lambda>t d. list_ex (\<lambda>k. key_prefix k = prefix) (d_keys d)) w2 of
                  (Inl err, w3) \<Rightarrow> (Inl (Key_db err), w3)
                | (Inr taken, w3) \<Rightarrow>
                    if taken then (Inl ErrPrefixTaken, w3)
                    else
                      (case exec_change e (insert_key app prefix hash label (env_now e (w_tick w))) w3 of
                         (Inl Unique_violation, w4) \<Rightarrow> (Inl ErrPrefixTaken, w4)
                       | (Inl err, w4) \<Rightarrow> (Inl (Key_db err), w4)
                       | (Inr _, w4) \<Rightarrow>
                           (case db_trip e w4 of (committed, w5) \<Rightarrow>
                            if \<not> committed then (Inl (Key_db Db_fault), rollback_to w w5) else (Inr (), w5))))))"

text \<open>\<^verbatim>\<open>UPDATE app_keys ... WHERE key_prefix = $1 AND app_id = $2 AND revoked_at IS NULL\<close> and the number of rows.\<close>

definition live_key :: "string \<Rightarrow> string \<Rightarrow> key_row \<Rightarrow> bool" where
  "live_key app prefix k = (key_prefix k = prefix \<and> key_app k = app \<and> key_revoked_at k = None)"

definition update_keys :: "env \<Rightarrow> string \<Rightarrow> string \<Rightarrow> (time \<Rightarrow> key_row \<Rightarrow> key_row) \<Rightarrow> world \<Rightarrow> (key_error + unit) \<times> world" where
  "update_keys e app prefix f w =
     (case db_exec e (\<lambda>t d. Inr (length (filter (live_key app prefix) (d_keys d)),
             d\<lparr>d_keys := map (\<lambda>k. if live_key app prefix k then f t k else k) (d_keys d)\<rparr>)) w of
        (Inl err, w1) \<Rightarrow> (Inl (Key_db err), w1)
      | (Inr n, w1) \<Rightarrow> if n = 0 then (Inl ErrUiKeyNotFound, w1) else (Inr (), w1))"

definition RevokeKey :: "env \<Rightarrow> string \<Rightarrow> string \<Rightarrow> world \<Rightarrow> (key_error + unit) \<times> world" where
  "RevokeKey e app prefix = update_keys e app prefix (\<lambda>t k. k\<lparr>key_revoked_at := Some t\<rparr>)"

definition UpdateKeyLabel :: "env \<Rightarrow> string \<Rightarrow> string \<Rightarrow> string \<Rightarrow> world \<Rightarrow> (key_error + unit) \<times> world" where
  "UpdateKeyLabel e app prefix label = update_keys e app prefix (\<lambda>t k. k\<lparr>key_label := label\<rparr>)"


section \<open>What the key store keeps\<close>

lemma keys_ok_insert:
  assumes "insert_key app prefix hash label t d = Inr d'" "db_ok d"
  shows "db_ok d'"
  using assms by (auto simp: insert_key_def db_ok_def keys_ok_def list_ex_iff list_all_iff split: if_splits) (force, force intro: less_imp_le)

lemma IssueKey_outcomes:
  obtains (refused) err where "fst (IssueKey e app prefix hash label w) = Inl err"
      "w_db (snd (IssueKey e app prefix hash label w)) = w_db w"
  | (issued) "fst (IssueKey e app prefix hash label w) = Inr ()"
      "insert_key app prefix hash label (env_now e (w_tick w)) (w_db w) = Inr (w_db (snd (IssueKey e app prefix hash label w)))"
      "\<exists>a \<in> set (d_apps (w_db w)). app_id a = app \<and> app_active a"
proof -
  let ?a = "find (\<lambda>a. app_id a = app) (d_apps (w_db w))"
  show ?thesis
  proof (cases "fst (IssueKey e app prefix hash label w)")
    case (Inl err)
    moreover have "w_db (snd (IssueKey e app prefix hash label w)) = w_db w"
      using Inl by (auto simp: IssueKey_def db_trip_def db_query_cases exec_change_def db_exec_def
          split: if_splits option.splits sum.splits db_error.splits)
    ultimately show ?thesis by (rule refused)
  next
    case (Inr x)
    then obtain a where "?a = Some a" "app_active a"
      and "insert_key app prefix hash label (env_now e (w_tick w)) (w_db w) = Inr (w_db (snd (IssueKey e app prefix hash label w)))"
      by (auto simp: IssueKey_def db_trip_def db_query_cases exec_change_def db_exec_def
          split: if_splits option.splits sum.splits db_error.splits)
    with Inr show ?thesis using issued find_SomeD [of _ "d_apps (w_db w)" a] by auto
  qed
qed

lemma update_keys_db:
  "w_db (snd (update_keys e app prefix f w)) =
     (if env_fault e (w_tick w) then w_db w
      else (w_db w)\<lparr>d_keys := map (\<lambda>k. if live_key app prefix k then f (env_now e (w_tick w)) k else k) (d_keys (w_db w))\<rparr>)"
  by (simp add: update_keys_def db_exec_def)

lemma keys_ok_map:
  assumes "\<And>k. key_id (g k) = key_id k \<and> key_prefix (g k) = key_prefix k \<and> key_app (g k) = key_app k"
  shows "keys_ok (d\<lparr>d_keys := map g (d_keys d)\<rparr>) = keys_ok d"
  using assms by (simp add: keys_ok_def comp_def list.pred_map)

lemma update_keys_ok:
  assumes "\<And>t k. key_id (f t k) = key_id k \<and> key_prefix (f t k) = key_prefix k \<and> key_app (f t k) = key_app k" "db_ok (w_db w)"
  shows "db_ok (w_db (snd (update_keys e app prefix f w)))"
  using assms by (simp add: update_keys_db db_ok_def keys_ok_map)

end
