(* ===== verification/Ui_Keys.thy ===== *)
theory Ui_Keys
  imports Ui_Store
begin

text \<open>
  The key pages of the admin UI (\<^verbatim>\<open>src/internal/adminui/keys.go\<close>): issuing, revoking and relabelling
  API keys, and the list of keys. The theorems follow a key through its life across the components: the
  plaintext shown once to the operator is the one that authenticates at the API, and after a revocation no
  bearer with that prefix does.
\<close>

section \<open>Handlers\<close>

text \<open>An operation of the shared state run from the UI.\<close>

definition ui_do :: "(world \<Rightarrow> 'a \<times> world) \<Rightarrow> ui_state \<Rightarrow> 'a \<times> ui_state" where
  "ui_do f u = (case f (ui_w u) of (x, w) \<Rightarrow> (x, u\<lparr>ui_w := w\<rparr>))"

definition keyPrefixPattern :: "string \<Rightarrow> bool" where
  "keyPrefixPattern s = (list_all id_head_char s \<and> 4 \<le> length s \<and> length s \<le> 16)"

definition keySecretBytes :: nat where "keySecretBytes = 24"
definition keyLabelMaxLen :: nat where "keyLabelMaxLen = 100"

abbreviation appIDPattern :: "string \<Rightarrow> bool" where "appIDPattern \<equiv> appIDRegex"

definition filterKeysByStatus :: "key_view list \<Rightarrow> string \<Rightarrow> key_view list" where
  "filterKeysByStatus keys status =
     (if status = ''all'' then keys
      else (let wantRevoked = (status = ''revoked'') in filter (\<lambda>k. (kv_revoked_at k \<noteq> None) = wantRevoked) keys))"

fun add_to_group :: "key_view \<Rightarrow> key_group list \<Rightarrow> key_group list" where
  "add_to_group k [] = [\<lparr>kg_app = kv_app k, kg_keys = [k]\<rparr>]"
| "add_to_group k (g # gs) =
     (if kg_app g = kv_app k then g\<lparr>kg_keys := kg_keys g @ [k]\<rparr> # gs else g # add_to_group k gs)"

definition groupKeysByApp :: "key_view list \<Rightarrow> key_group list" where
  "groupKeysByApp keys = foldl (\<lambda>gs k. add_to_group k gs) [] keys"

definition parse_keys_view :: "ui_request \<Rightarrow> keys_view" where
  "parse_keys_view r =
     (let q = get_value (ur_query r); app = q ''app''
      in zero_keys_view\<lparr>ks_group := (if q ''group'' \<noteq> ''app'' then ''key'' else ''app''),
           ks_status := (if q ''status'' \<noteq> ''revoked'' \<and> q ''status'' \<noteq> ''all'' then ''active'' else q ''status''),
           ks_app := (if app \<noteq> [] \<and> \<not> appIDPattern app then [] else app),
           ks_show_new := (q ''new'' \<noteq> [])\<rparr>)"

definition keysPageData :: "env \<Rightarrow> ui_config \<Rightarrow> ui_request \<Rightarrow> ui_state \<Rightarrow> page \<times> ui_state" where
  "keysPageData e c r u =
     (let view = parse_keys_view r
      in case basePageData e r t_keys_title ''keys'' u of (data, u1) \<Rightarrow>
         let data = data\<lparr>pg_subtitle := ks_app view, pg_keys_view := view\<rparr>
         in if \<not> uc_keys c then (data\<lparr>pg_db_unavailable := True\<rparr>, u1)
            else
              (case ui_do (ListKeys e (ks_app view)) u1 of
                 (Inl _, u2) \<Rightarrow> (data\<lparr>pg_error := t_keys_unreadable\<rparr>, u2)
               | (Inr keys, u2) \<Rightarrow>
                   (let keys = filterKeysByStatus keys (ks_status view);
                        data = data\<lparr>pg_keys := keys\<rparr>;
                        data = (if ks_group view = ''app'' then data\<lparr>pg_groups := groupKeysByApp keys\<rparr> else data)
                    in if uc_store c then
                         (case ui_do (ListApps e) u2 of
                            (Inl _, u3) \<Rightarrow> (data, u3)
                          | (Inr apps, u3) \<Rightarrow> (data\<lparr>pg_apps := apps\<rparr>, u3))
                       else (data, u2))))"

definition handleKeysPage :: "env \<Rightarrow> ui_config \<Rightarrow> ui_handler" where
  "handleKeysPage e c r u =
     (case keysPageData e c r u of (data, u1) \<Rightarrow>
      let q = get_value (ur_query r);
          data = (if q ''revoked'' \<noteq> [] then data\<lparr>pg_success := t_key_revoked\<rparr>
                  else if q ''labeled'' \<noteq> [] then data\<lparr>pg_success := t_key_labeled\<rparr> else data)
      in (render c ''keys.html'' data, u1))"

definition handleKeysLegacyRedirect :: "ui_handler" where
  "handleKeysLegacyRedirect r u = (ui_redirect (''/keys?app='' @ QueryEscape (get_value (ur_params r) ''id'')), u)"

definition renderKeysError :: "env \<Rightarrow> ui_config \<Rightarrow> ui_request \<Rightarrow> string \<Rightarrow> ui_state \<Rightarrow> ui_response \<times> ui_state" where
  "renderKeysError e c r message u =
     (case keysPageData e c r u of (data, u1) \<Rightarrow> (render c ''keys.html'' (data\<lparr>pg_error := message\<rparr>), u1))"

definition renderIssueError ::
  "env \<Rightarrow> ui_config \<Rightarrow> ui_request \<Rightarrow> string \<Rightarrow> string \<Rightarrow> string \<Rightarrow> string \<Rightarrow> ui_state \<Rightarrow> ui_response \<times> ui_state" where
  "renderIssueError e c r message appID prefix label u =
     (case keysPageData e c r u of (data, u1) \<Rightarrow>
      let view = (pg_keys_view data)\<lparr>ks_show_new := True, ks_form_app := appID, ks_form_prefix := prefix, ks_form_label := label\<rparr>
      in (render c ''keys.html'' (data\<lparr>pg_error := message, pg_keys_view := view\<rparr>), u1))"

definition issueErrorMessage :: "key_error \<Rightarrow> string" where
  "issueErrorMessage err =
     (case err of
        Key_app_not_found \<Rightarrow> t_app_not_found
      | ErrAppInactive \<Rightarrow> t_app_inactive
      | ErrPrefixTaken \<Rightarrow> t_prefix_taken
      | _ \<Rightarrow> t_issue_failed)"

definition key_event :: "ui_request \<Rightarrow> string \<Rightarrow> string \<Rightarrow> string \<Rightarrow> event" where
  "key_event r stage appID prefix =
     zero_event\<lparr>ev_trace_id := ur_trace r, ev_stage := stage, ev_app_id := appID, ev_details := [(''key_prefix'', JStr prefix)]\<rparr>"

definition writeKeyAudit :: "env \<Rightarrow> ui_config \<Rightarrow> ui_request \<Rightarrow> string \<Rightarrow> string \<Rightarrow> string \<Rightarrow> ui_state \<Rightarrow> ui_state" where
  "writeKeyAudit e c r stage appID prefix u =
     (if \<not> uc_audit c then u else snd (ui_do (Write e (key_event r stage appID prefix)) u))"

definition handleKeyIssue :: "env \<Rightarrow> ui_config \<Rightarrow> ui_handler" where
  "handleKeyIssue e c r u =
     (let appID = TrimSpace (FormValue r ''app_id''); prefix = TrimSpace (FormValue r ''prefix'');
          label = TrimSpace (FormValue r ''label'')
      in if \<not> appIDPattern appID then renderIssueError e c r t_bad_app_id appID prefix label u
         else if \<not> keyPrefixPattern prefix then renderIssueError e c r t_bad_prefix appID prefix label u
         else if rune_count label > keyLabelMaxLen then renderIssueError e c r t_label_too_long appID prefix label u
         else if \<not> uc_keys c then renderIssueError e c r t_keys_need_db appID prefix label u
         else
           (case randomHex e keySecretBytes u of
              (None, u1) \<Rightarrow> (ui_error 500 ''internal_error'', u1)
            | (Some secret, u1) \<Rightarrow>
                (let plaintext = ''tg_'' @ prefix @ ''_'' @ secret
                 in case ui_do (HashAPIKey e plaintext) u1 of
                      (Inl _, u2) \<Rightarrow> (ui_error 500 ''internal_error'', u2)
                    | (Inr hash, u2) \<Rightarrow>
                        (case ui_do (IssueKey e appID prefix hash label) u2 of
                           (Inl err, u3) \<Rightarrow> renderIssueError e c r (issueErrorMessage err) appID prefix label u3
                         | (Inr _, u3) \<Rightarrow>
                             (let u4 = writeKeyAudit e c r StageKeyIssued appID prefix u3
                              in if \<not> uc_parses c ''key_issued.html'' then (ui_error 500 t_key_maybe_issued, u4)
                                 else
                                   (case basePageData e r t_keys_title ''keys'' u4 of (data, u5) \<Rightarrow>
                                    (ui_answer (U_page ''key_issued.html'' (data\<lparr>pg_subtitle := t_issued_subtitle,
                                       pg_app_id := appID, pg_issued_prefix := prefix, pg_issued_label := label,
                                       pg_plaintext := plaintext\<rparr>)), u5)))))))"

definition handleKeyRevoke :: "env \<Rightarrow> ui_config \<Rightarrow> ui_handler" where
  "handleKeyRevoke e c r u =
     (let appID = get_value (ur_params r) ''app''; prefix = get_value (ur_params r) ''prefix''
      in if \<not> appIDPattern appID then renderKeysError e c r t_bad_app_id u
         else if \<not> keyPrefixPattern prefix then renderKeysError e c r t_prefix_format u
         else if FormValue r ''confirm'' \<noteq> ''1'' then renderKeysError e c r t_revoke_unconfirmed u
         else if \<not> uc_keys c then renderKeysError e c r t_keys_need_db u
         else
           (case ui_do (RevokeKey e appID prefix) u of
              (Inl err, u1) \<Rightarrow> renderKeysError e c r (if err = ErrUiKeyNotFound then t_key_gone else t_revoke_failed) u1
            | (Inr _, u1) \<Rightarrow>
                (ui_redirect ''/keys?revoked=1'', writeKeyAudit e c r StageKeyRevoked appID prefix u1)))"

definition handleKeyLabel :: "env \<Rightarrow> ui_config \<Rightarrow> ui_handler" where
  "handleKeyLabel e c r u =
     (let appID = get_value (ur_params r) ''app''; prefix = get_value (ur_params r) ''prefix'';
          label = TrimSpace (FormValue r ''label'')
      in if \<not> appIDPattern appID then renderKeysError e c r t_bad_app_id u
         else if \<not> keyPrefixPattern prefix then renderKeysError e c r t_prefix_format u
         else if rune_count label > keyLabelMaxLen then renderKeysError e c r t_label_too_long u
         else if \<not> uc_keys c then renderKeysError e c r t_keys_need_db u
         else
           (case ui_do (UpdateKeyLabel e appID prefix label) u of
              (Inl err, u1) \<Rightarrow> renderKeysError e c r (if err = ErrUiKeyNotFound then t_key_gone else t_label_failed) u1
            | (Inr _, u1) \<Rightarrow> (ui_redirect ''/keys?labeled=1'', u1)))"


section \<open>Pages only read\<close>

lemma ui_do_simps [simp]:
  "fst (ui_do f u) = fst (f (ui_w u))" "snd (ui_do f u) = u\<lparr>ui_w := snd (f (ui_w u))\<rparr>"
  by (simp_all add: ui_do_def split: prod.split)

text \<open>From one state of the UI to another in which only the interaction counter has moved.\<close>

definition only_reads :: "ui_state \<Rightarrow> ui_state \<Rightarrow> bool" where
  "only_reads u u' = (\<exists>n. u' = u\<lparr>ui_w := (ui_w u)\<lparr>w_tick := n\<rparr>\<rparr>)"

lemma only_reads_refl [simp]: "only_reads u u"
  unfolding only_reads_def by (rule exI [of _ "w_tick (ui_w u)"]) simp

lemma only_reads_trans [trans]: "only_reads u u' \<Longrightarrow> only_reads u' u'' \<Longrightarrow> only_reads u u''"
  by (auto simp: only_reads_def)

lemma only_reads_tick [simp]: "only_reads u (u\<lparr>ui_w := tick (ui_w u)\<rparr>)"
  by (auto simp: only_reads_def tick_def)

lemma only_reads_fields:
  assumes "only_reads u u'"
  shows "w_db (ui_w u') = w_db (ui_w u)" "ui_sm u' = ui_sm u" "w_tg (ui_w u') = w_tg (ui_w u)"
  using assms by (auto simp: only_reads_def)

lemma basePageData_reads [simp]: "only_reads u (snd (basePageData e r title active u))"
  by (simp add: basePageData_def ui_now_def read_clock_def split: prod.split)

lemma keysPageData_reads [simp]: "only_reads u (snd (keysPageData e c r u))"
proof -
  obtain data u1 where b: "basePageData e r t_keys_title ''keys'' u = (data, u1)" by (cases "basePageData e r t_keys_title ''keys'' u")
  have "only_reads u u1" using basePageData_reads [of u e r] b by (metis snd_conv)
  moreover have "only_reads u1 (snd (keysPageData e c r u))"
    by (auto simp: keysPageData_def b Let_def ui_do_def ListKeys_def ListApps_def db_query_cases tick_def only_reads_def
        split: prod.splits sum.splits if_splits intro: exI [of _ "w_tick (ui_w u1)"])
  ultimately show ?thesis by (rule only_reads_trans)
qed

lemma renderKeysError_reads [simp]:
  "only_reads u (snd (renderKeysError e c r msg u))" "only_reads u (snd (renderIssueError e c r msg app prefix label u))"
  using keysPageData_reads [of u e c r]
  by (auto simp: renderKeysError_def renderIssueError_def Let_def simp del: keysPageData_reads split: prod.splits)


section \<open>The life of a key\<close>

lemma prefix_no_bar: "keyPrefixPattern s \<Longrightarrow> CHR ''_'' \<notin> set s \<and> s \<noteq> []"
proof -
  have "\<not> id_head_char (CHR ''_'')" by (simp add: id_head_char_def)
  then show "keyPrefixPattern s \<Longrightarrow> CHR ''_'' \<notin> set s \<and> s \<noteq> []" by (auto simp: keyPrefixPattern_def list_all_iff)
qed

text \<open>A random source that works gives as many bytes as it is asked for.\<close>

definition randoms :: "env \<Rightarrow> bool" where
  "randoms e = (\<forall>n k. \<exists>b. env_rand e n k = Some b \<and> length b = k)"

lemma IssueKey_no_faults:
  assumes "no_faults e" "db_ok (w_db w)" "a \<in> set (d_apps (w_db w))" "app_active a"
    and "prefix \<notin> key_prefix ` set (d_keys (w_db w))"
  shows "fst (IssueKey e (app_id a) prefix hash label w) = Inr ()"
proof -
  have "find (\<lambda>b. app_id b = app_id a) (d_apps (w_db w)) = Some a"
    using assms(2,3) by (intro find_distinct) (auto simp: db_ok_def apps_ok_def)
  moreover have "\<not> list_ex (\<lambda>k. key_prefix k = prefix) (d_keys (w_db w))" using assms(5) by (auto simp: list_ex_iff)
  moreover have "list_ex (\<lambda>b. app_id b = app_id a) (d_apps (w_db w))" using assms(3) by (auto simp: list_ex_iff)
  ultimately show ?thesis
    using assms(1,4) by (simp add: IssueKey_def db_trip_def db_query_cases exec_change_def db_exec_def insert_key_def no_faults_def)
qed

text \<open>With one live key of a prefix and one application of its identifier, the prefix decides the application.\<close>

lemma resolve_prefix_app:
  assumes "no_faults e" "db_ok (w_db w)" "k \<in> set (d_keys (w_db w))" "a \<in> set (d_apps (w_db w))"
    and "key_app k = app_id a" "app_active a" "key_revoked_at k = None" "ParseBearer bearer = Some (key_prefix k)"
    and "VerifyAPIKey e bearer (key_hash k) = Inr True"
  shows "fst (Resolve e bearer w) = Inr \<lparr>rq_app_id = app_id a, rq_capabilities = app_caps (w_db w) (app_id a),
    rq_capability_set_ver = app_capver a, rq_key_prefix = key_prefix k\<rparr>"
proof -
  have "grants e (w_db w) bearer \<lparr>rq_app_id = app_id a, rq_capabilities = app_caps (w_db w) (app_id a),
      rq_capability_set_ver = app_capver a, rq_key_prefix = key_prefix k\<rparr>"
    unfolding grants_def using assms by (intro bexI [of _ k] bexI [of _ a]) auto
  then obtain i where i: "fst (Resolve e bearer w) = Inr i"
    using Resolve_complete [of e w bearer] assms(1) unfolding no_faults_def by blast
  then obtain k' a' where k': "k' \<in> set (d_keys (w_db w))" "a' \<in> set (d_apps (w_db w))" "key_prefix k' = key_prefix k"
    "app_id a' = key_app k'"
    "i = \<lparr>rq_app_id = app_id a', rq_capabilities = app_caps (w_db w) (app_id a'),
      rq_capability_set_ver = app_capver a', rq_key_prefix = key_prefix k'\<rparr>"
    using Resolve_grants [OF i] assms(8) unfolding grants_def by auto
  have "k' = k" using k'(1,3) assms(2,3) by (auto simp: db_ok_def keys_ok_def distinct_map dest: inj_onD)
  moreover have "a' = a" using calculation k'(2,4) assms(2,4,5) by (auto simp: db_ok_def apps_ok_def distinct_map dest: inj_onD)
  ultimately show ?thesis using i k'(5) by simp
qed

lemma writeKeyAudit_fields:
  "same_but_audit (w_db (ui_w u)) (w_db (ui_w (writeKeyAudit e c r stage app prefix u)))"
  by (simp add: writeKeyAudit_def)

lemma writeKeyAudit_db_ok: "db_ok (w_db (ui_w u)) \<Longrightarrow> db_ok (w_db (ui_w (writeKeyAudit e c r stage app prefix u)))"
  by (simp add: writeKeyAudit_def Write_db_ok)

lemma key_event_ok: "event_ok (key_event r StageKeyIssued app prefix)" "event_ok (key_event r StageKeyRevoked app prefix)"
  "event_key (key_event r stage app prefix) = (stage, None, None)"
  by (simp_all add: key_event_def event_ok_def event_key_def zero_event_def stage_defs audit_stage_values_def nullif_text_def
      nullif_int_def)

lemma writeKeyAudit_keys:
  assumes "no_faults e" "event_ok (key_event r stage app prefix)" "uc_audit c"
  shows "map row_key (d_audit (w_db (ui_w (writeKeyAudit e c r stage app prefix u)))) =
    map row_key (d_audit (w_db (ui_w u))) @ [(stage, None, None)]"
  using Write_no_faults_keys [OF assms(1,2)] assms(3) by (simp add: writeKeyAudit_def key_event_ok)

text \<open>The form of a request to issue a key, as the handler reads it.\<close>

definition issue_form_ok :: "ui_config \<Rightarrow> ui_request \<Rightarrow> bool" where
  "issue_form_ok c r = (uc_keys c \<and> uc_parses c ''key_issued.html'' \<and> appIDPattern (TrimSpace (FormValue r ''app_id'')) \<and>
     keyPrefixPattern (TrimSpace (FormValue r ''prefix'')) \<and> rune_count (TrimSpace (FormValue r ''label'')) \<le> keyLabelMaxLen)"

lemma handleKeyIssue_run:
  assumes "issue_form_ok c r" "randoms e"
    and "\<And>hash w. w_db w = w_db (ui_w u) \<Longrightarrow> fst (IssueKey e (TrimSpace (FormValue r ''app_id'')) (TrimSpace (FormValue r ''prefix'')) hash
           (TrimSpace (FormValue r ''label'')) w) = Inr ()"
  obtains secret salt data w where "handleKeyIssue e c r u = (ui_answer (U_page ''key_issued.html'' data), snd (handleKeyIssue e c r u))"
    and "pg_plaintext data = ''tg_'' @ TrimSpace (FormValue r ''prefix'') @ ''_'' @ hex_encode secret" "secret \<noteq> []"
    and "pg_app_id data = TrimSpace (FormValue r ''app_id'')" "pg_issued_prefix data = TrimSpace (FormValue r ''prefix'')"
    and "w_db w = w_db (ui_w u)"
    and "w_db (ui_w (snd (handleKeyIssue e c r u))) = w_db (ui_w (writeKeyAudit e c r StageKeyIssued (pg_app_id data) (pg_issued_prefix data)
      (u\<lparr>ui_w := snd (IssueKey e (pg_app_id data) (pg_issued_prefix data) (encodeArgon2id e (pg_plaintext data) salt)
         (TrimSpace (FormValue r ''label'')) w)\<rparr>)))"
proof -
  let ?app = "TrimSpace (FormValue r ''app_id'')" and ?prefix = "TrimSpace (FormValue r ''prefix'')"
  let ?label = "TrimSpace (FormValue r ''label'')"
  obtain secret where secret: "env_rand e (w_tick (ui_w u)) keySecretBytes = Some secret" "length secret = keySecretBytes"
    using assms(2) by (auto simp: randoms_def)
  obtain salt where salt: "env_rand e (Suc (w_tick (ui_w u))) Argon2SaltLen = Some salt"
    using assms(2) unfolding randoms_def by blast
  let ?plain = "''tg_'' @ ?prefix @ ''_'' @ hex_encode secret" and ?w = "tick (tick (ui_w u))"
  let ?u3 = "u\<lparr>ui_w := snd (IssueKey e ?app ?prefix (encodeArgon2id e ?plain salt) ?label ?w)\<rparr>"
  let ?u4 = "writeKeyAudit e c r StageKeyIssued ?app ?prefix ?u3"
  let ?page = "(fst (basePageData e r t_keys_title ''keys'' ?u4))\<lparr>pg_subtitle := t_issued_subtitle, pg_app_id := ?app,
    pg_issued_prefix := ?prefix, pg_issued_label := ?label, pg_plaintext := ?plain\<rparr>"
  have rand: "randomHex e keySecretBytes u = (Some (hex_encode secret), u\<lparr>ui_w := tick (ui_w u)\<rparr>)"
    using secret by (simp add: randomHex_def rand_read_def)
  have hash: "ui_do (HashAPIKey e ?plain) (u\<lparr>ui_w := tick (ui_w u)\<rparr>) = (Inr (encodeArgon2id e ?plain salt), u\<lparr>ui_w := ?w\<rparr>)"
    using salt by (simp add: ui_do_def HashAPIKey_def rand_read_def)
  have issue: "ui_do (IssueKey e ?app ?prefix (encodeArgon2id e ?plain salt) ?label) (u\<lparr>ui_w := ?w\<rparr>) = (Inr (), ?u3)"
    using assms(3) [of ?w "encodeArgon2id e ?plain salt"] by (intro prod_eqI) simp_all
  note form = assms(1) [unfolded issue_form_ok_def]
  have run: "handleKeyIssue e c r u = (ui_answer (U_page ''key_issued.html'' ?page), snd (basePageData e r t_keys_title ''keys'' ?u4))"
    unfolding handleKeyIssue_def Let_def rand option.case prod.case hash sum.case issue using form
    by (simp split: prod.split)
  show ?thesis
  proof (rule that [where data = ?page and secret = secret and salt = salt and w = ?w])
    show "handleKeyIssue e c r u = (ui_answer (U_page ''key_issued.html'' ?page), snd (handleKeyIssue e c r u))" by (simp add: run)
    show "secret \<noteq> []" using secret(2) by (auto simp: keySecretBytes_def)
    show "w_db (ui_w (snd (handleKeyIssue e c r u))) = w_db (ui_w (writeKeyAudit e c r StageKeyIssued (pg_app_id ?page) (pg_issued_prefix ?page)
      (u\<lparr>ui_w := snd (IssueKey e (pg_app_id ?page) (pg_issued_prefix ?page) (encodeArgon2id e (pg_plaintext ?page) salt) ?label ?w)\<rparr>)))"
      using only_reads_fields(1) [OF basePageData_reads, of e r t_keys_title "''keys''" ?u4] by (simp only: run snd_conv) simp
  qed simp_all
qed

text \<open>C30: A key that the UI issues works at the API. When the database and the random source work, a well-formed
  request for an active application and an unused prefix shows the operator a plaintext of the form
  \<^verbatim>\<open>tg_<prefix>_<secret>\<close>; this plaintext, and not its stored hash, resolves to that application with
  exactly its capabilities, and the audit log has one more row for it, when there is a writer.\<close>

theorem issued_key_authenticates:
  assumes "no_faults e" "randoms e" "\<And>pw s t m p n. length (env_idkey e pw s t m p n) = n"
    and "issue_form_ok c r" "db_ok (w_db (ui_w u))"
    and "a \<in> set (d_apps (w_db (ui_w u)))" "app_active a" "app_id a = TrimSpace (FormValue r ''app_id'')"
    and "TrimSpace (FormValue r ''prefix'') \<notin> key_prefix ` set (d_keys (w_db (ui_w u)))"
    and "handleKeyIssue e c r u = (resp, u')"
  shows "\<exists>data k. ux_reply resp = U_page ''key_issued.html'' data \<and>
    fst (Resolve e (pg_plaintext data) (ui_w u')) = Inr \<lparr>rq_app_id = app_id a, rq_capabilities = app_caps (w_db (ui_w u')) (app_id a),
      rq_capability_set_ver = app_capver a, rq_key_prefix = TrimSpace (FormValue r ''prefix'')\<rparr> \<and>
    d_keys (w_db (ui_w u')) = d_keys (w_db (ui_w u)) @ [k] \<and> key_hash k \<noteq> pg_plaintext data \<and>
    (uc_audit c \<longrightarrow> map row_key (d_audit (w_db (ui_w u'))) = map row_key (d_audit (w_db (ui_w u))) @ [(StageKeyIssued, None, None)])"
proof -
  let ?app = "TrimSpace (FormValue r ''app_id'')" and ?prefix = "TrimSpace (FormValue r ''prefix'')"
  have ok: "w_db w = w_db (ui_w u) \<Longrightarrow> fst (IssueKey e ?app ?prefix hash label w) = Inr ()" for hash label w
    using IssueKey_no_faults [OF assms(1), of w a ?prefix hash label] assms(5-9) by simp
  obtain secret salt data w where run: "handleKeyIssue e c r u = (ui_answer (U_page ''key_issued.html'' data), snd (handleKeyIssue e c r u))"
    and plain: "pg_plaintext data = ''tg_'' @ ?prefix @ ''_'' @ hex_encode secret" "secret \<noteq> []"
    and names: "pg_app_id data = ?app" "pg_issued_prefix data = ?prefix" and w: "w_db w = w_db (ui_w u)"
    and tables: "w_db (ui_w (snd (handleKeyIssue e c r u))) = w_db (ui_w (writeKeyAudit e c r StageKeyIssued (pg_app_id data) (pg_issued_prefix data)
      (u\<lparr>ui_w := snd (IssueKey e (pg_app_id data) (pg_issued_prefix data) (encodeArgon2id e (pg_plaintext data) salt)
         (TrimSpace (FormValue r ''label'')) w)\<rparr>)))"
    by (rule handleKeyIssue_run [OF assms(4,2) ok]) (assumption, rule that)
  have reply: "resp = ui_answer (U_page ''key_issued.html'' data)" using run assms(10) by simp
  note u' = tables [unfolded names assms(10) snd_conv]
  let ?hash = "encodeArgon2id e (pg_plaintext data) salt" and ?label = "TrimSpace (FormValue r ''label'')"
  let ?d = "w_db (snd (IssueKey e ?app ?prefix ?hash ?label w))"
  let ?k = "\<lparr>key_id = d_key_seq (w_db (ui_w u)), key_app = ?app, key_hash = ?hash, key_prefix = ?prefix, key_label = ?label,
    key_created_at = env_now e (w_tick w), key_revoked_at = None\<rparr>"
  have ins: "insert_key ?app ?prefix ?hash ?label (env_now e (w_tick w)) (w_db (ui_w u)) = Inr ?d"
    using ok [OF w] by (cases rule: IssueKey_outcomes [of e ?app ?prefix ?hash ?label w]) (simp_all add: w)
  then have d: "?d = (w_db (ui_w u))\<lparr>d_keys := d_keys (w_db (ui_w u)) @ [?k], d_key_seq := d_key_seq (w_db (ui_w u)) + 1\<rparr>"
    by (auto simp: insert_key_def split: if_splits)
  have same: "same_but_audit ?d (w_db (ui_w u'))"
    using writeKeyAudit_fields [of "u\<lparr>ui_w := snd (IssueKey e ?app ?prefix ?hash ?label w)\<rparr>" e c r] by (simp add: u')
  have fields: "d_keys (w_db (ui_w u')) = d_keys (w_db (ui_w u)) @ [?k]" "d_apps (w_db (ui_w u')) = d_apps (w_db (ui_w u))"
    using same_but_audit_fields(1,3) [OF same] by (simp_all add: d)
  have "db_ok (w_db (ui_w u'))" unfolding u' using keys_ok_insert [OF ins assms(5)] by (intro writeKeyAudit_db_ok) simp
  moreover have "ParseBearer (pg_plaintext data) = Some ?prefix"
  proof -
    have "hex_encode secret \<noteq> []" using plain(2) by (cases secret) auto
    then show ?thesis
      using ParseBearer_compose [of ?prefix "hex_encode secret"] prefix_no_bar assms(4) unfolding plain(1) bearerPrefix_def issue_form_ok_def by blast
  qed
  moreover have "VerifyAPIKey e (pg_plaintext data) ?hash = Inr True" by (simp add: VerifyAPIKey_encoded [OF assms(3)])
  ultimately have "fst (Resolve e (pg_plaintext data) (ui_w u')) = Inr \<lparr>rq_app_id = app_id a,
      rq_capabilities = app_caps (w_db (ui_w u')) (app_id a), rq_capability_set_ver = app_capver a, rq_key_prefix = ?prefix\<rparr>"
    using resolve_prefix_app [OF assms(1), of "ui_w u'" ?k a "pg_plaintext data"] assms(6-8) by (simp add: fields)
  moreover have "key_hash ?k \<noteq> pg_plaintext data" by (simp add: plain(1) encodeArgon2id_def Let_def)
  moreover have "map row_key (d_audit (w_db (ui_w u'))) = map row_key (d_audit (w_db (ui_w u))) @ [(StageKeyIssued, None, None)]"
    if "uc_audit c" using writeKeyAudit_keys [OF assms(1) key_event_ok(1) that] by (simp add: u' d)
  ultimately show ?thesis using fields(1) reply by (intro exI [of _ data] exI [of _ ?k]) (simp add: ui_answer_def)
qed

definition demo_ui_config :: ui_config where
  "demo_ui_config = \<lparr>uc_store = True, uc_keys = True, uc_audit = True, uc_password = ''pw'', uc_api_key = ''tg_ab_cd'',
     uc_server_url = ''http://127.0.0.1:8080'', uc_parses = (\<lambda>_. True),
     uc_walk = (\<lambda>_. None), uc_wire = (\<lambda>_. []), uc_indent = Some, uc_started = 0, uc_zone = (\<lambda>_. 0)\<rparr>"

definition demo_key_ui :: ui_state where
  "demo_key_ui = \<lparr>ui_w = empty_world\<lparr>w_db := demo_app_db\<rparr>, ui_sm = \<lparr>sm_secret = ''k'', sm_secure = True, sm_revoked = Map.empty\<rparr>,
     ui_limiter = Map.empty, ui_backoff = \<lparr>gb_failures = 0, gb_lastFailure = 0, gb_blockedUntil = 0\<rparr>\<rparr>"

definition demo_ui_request :: ui_request where
  "demo_ui_request = \<lparr>ur_method = ''POST'', ur_path = ''/keys'', ur_cookies = [],
     ur_form = Some [(''app_id'', ''ops''), (''prefix'', ''abcd''), (''confirm'', ''1'')], ur_post_form = [], ur_raw_query = [], ur_query = [],
     ur_params = [(''app'', ''ops''), (''prefix'', ''abcd'')], ur_remote = [], ur_trace_header = [], ur_trace = ''t1'', ur_nonce = ''n'', ur_expiry = 0\<rparr>"

lemma demo_form:
  "TrimSpace (FormValue demo_ui_request ''app_id'') = ''ops''" "TrimSpace (FormValue demo_ui_request ''prefix'') = ''abcd''"
  "TrimSpace (FormValue demo_ui_request ''label'') = []" "issue_form_ok demo_ui_config demo_ui_request"
proof -
  show "TrimSpace (FormValue demo_ui_request ''app_id'') = ''ops''" "TrimSpace (FormValue demo_ui_request ''prefix'') = ''abcd''"
    "TrimSpace (FormValue demo_ui_request ''label'') = []" by code_simp+
  then show "issue_form_ok demo_ui_config demo_ui_request"
    by (simp add: issue_form_ok_def demo_ui_config_def keyPrefixPattern_def id_head_char_def id_tail_char_def keyLabelMaxLen_def)
qed

lemma demo_key_ui_ok: "db_ok (w_db (ui_w demo_key_ui))" "randoms demo_env"
  by (simp_all add: demo_key_ui_def demo_app_db_def db_ok_defs empty_db_def grade_values_def randoms_def)

theorem issued_key_authenticates_witness:
  "\<exists>data. ux_reply (fst (handleKeyIssue demo_env demo_ui_config demo_ui_request demo_key_ui)) = U_page ''key_issued.html'' data \<and>
    (\<exists>i. fst (Resolve demo_env (pg_plaintext data) (ui_w (snd (handleKeyIssue demo_env demo_ui_config demo_ui_request demo_key_ui)))) = Inr i \<and>
      rq_app_id i = ''ops'')"
proof -
  let ?a = "\<lparr>app_id = ''ops'', app_name = ''ops'', app_description = [], app_min_grade = ''user'',
       app_active = True, app_created_at = 0, app_capver = 2, app_created_by = ''seed''\<rparr>"
  let ?run = "handleKeyIssue demo_env demo_ui_config demo_ui_request demo_key_ui"
  have "?run = (fst ?run, snd ?run)" by simp
  moreover have "?a \<in> set (d_apps (w_db (ui_w demo_key_ui)))" "app_active ?a" "no_faults demo_env"
    "app_id ?a = TrimSpace (FormValue demo_ui_request ''app_id'')" "length (env_idkey demo_env pw s t m p n) = n"
    "TrimSpace (FormValue demo_ui_request ''prefix'') \<notin> key_prefix ` set (d_keys (w_db (ui_w demo_key_ui)))" for pw s t m p n
    by (simp_all only: demo_form) (simp_all add: demo_key_ui_def demo_app_db_def no_faults_def)
  ultimately have "\<exists>data k. ux_reply (fst ?run) = U_page ''key_issued.html'' data \<and>
    fst (Resolve demo_env (pg_plaintext data) (ui_w (snd ?run))) = Inr \<lparr>rq_app_id = app_id ?a,
      rq_capabilities = app_caps (w_db (ui_w (snd ?run))) (app_id ?a), rq_capability_set_ver = app_capver ?a,
      rq_key_prefix = TrimSpace (FormValue demo_ui_request ''prefix'')\<rparr> \<and>
    d_keys (w_db (ui_w (snd ?run))) = d_keys (w_db (ui_w demo_key_ui)) @ [k] \<and> key_hash k \<noteq> pg_plaintext data \<and>
    (uc_audit demo_ui_config \<longrightarrow> map row_key (d_audit (w_db (ui_w (snd ?run)))) =
      map row_key (d_audit (w_db (ui_w demo_key_ui))) @ [(StageKeyIssued, None, None)])"
    by (intro issued_key_authenticates [OF _ demo_key_ui_ok(2) _ demo_form(4) demo_key_ui_ok(1)])
  then show ?thesis by (metis requester.select_convs(1) app_row.select_convs(1))
qed

text \<open>C31: A revocation is effective at once and touches nothing else: when the UI reports that it revoked a key,
  no bearer with its prefix resolves any more, whatever the application, every other key is as it was, and the
  audit log has one more row when its writer works.\<close>

theorem revoked_key_is_dead:
  assumes "handleKeyRevoke e c r u = (resp, u')" "ux_reply resp = U_redirect ''/keys?revoked=1''" "db_ok (w_db (ui_w u))"
    and "prefix = get_value (ur_params r) ''prefix''"
  shows "(ParseBearer bearer = Some prefix \<longrightarrow> w_db w = w_db (ui_w u') \<longrightarrow> fst (Resolve e' bearer w) \<noteq> Inr i) \<and>
    filter (\<lambda>k. key_prefix k \<noteq> prefix) (d_keys (w_db (ui_w u'))) = filter (\<lambda>k. key_prefix k \<noteq> prefix) (d_keys (w_db (ui_w u))) \<and>
    (no_faults e \<longrightarrow> uc_audit c \<longrightarrow>
      map row_key (d_audit (w_db (ui_w u'))) = map row_key (d_audit (w_db (ui_w u))) @ [(StageKeyRevoked, None, None)])"
proof -
  let ?app = "get_value (ur_params r) ''app''" and ?now = "env_now e (w_tick (ui_w u))"
  let ?f = "\<lambda>k. if live_key ?app prefix k then k\<lparr>key_revoked_at := Some ?now\<rparr> else k"
  let ?u1 = "u\<lparr>ui_w := snd (RevokeKey e ?app prefix (ui_w u))\<rparr>"
  have no_page: "ux_reply (fst (renderKeysError e c r msg v)) \<noteq> U_redirect ''/keys?revoked=1''" for msg v
    by (simp add: renderKeysError_def render_def ui_answer_def ui_error_def split: prod.split)
  have run: "fst (RevokeKey e ?app prefix (ui_w u)) = Inr () \<and> u' = writeKeyAudit e c r StageKeyRevoked ?app prefix ?u1"
    using assms(1,2) no_page unfolding handleKeyRevoke_def Let_def assms(4) [symmetric]
    by (auto simp: ui_do_def split: if_splits prod.splits sum.splits) (metis fst_conv)+
  have "\<exists>k \<in> set (d_keys (w_db (ui_w u))). live_key ?app prefix k" and fault: "\<not> env_fault e (w_tick (ui_w u))"
    using run by (auto simp: RevokeKey_def update_keys_def db_exec_def filter_empty_conv split: if_splits)
  then obtain k where k: "k \<in> set (d_keys (w_db (ui_w u)))" "live_key ?app prefix k" by blast
  have keys: "d_keys (w_db (ui_w u')) = map ?f (d_keys (w_db (ui_w u)))"
    using same_but_audit_fields(3) [OF writeKeyAudit_fields] fault run
    by (simp add: RevokeKey_def update_keys_db)
  have dead: "key_revoked_at k' \<noteq> None" if "k' \<in> set (d_keys (w_db (ui_w u')))" "key_prefix k' = prefix" for k'
  proof -
    obtain k0 where k0: "k0 \<in> set (d_keys (w_db (ui_w u)))" "k' = ?f k0" using \<open>k' \<in> _\<close> keys by auto
    then have "key_prefix k0 = key_prefix k" using that(2) k(2) by (auto simp: live_key_def split: if_splits)
    then have "k0 = k" using k0(1) k(1) assms(3) by (auto simp: db_ok_def keys_ok_def distinct_map dest: inj_onD)
    with k0(2) k(2) show ?thesis by simp
  qed
  have "fst (Resolve e' bearer w) \<noteq> Inr i" if "ParseBearer bearer = Some prefix" "w_db w = w_db (ui_w u')"
    using Resolve_grants [of e' bearer w i] dead that unfolding grants_def by (metis option.inject)
  moreover have "filter (\<lambda>k. key_prefix k \<noteq> prefix) (map ?f ks) = filter (\<lambda>k. key_prefix k \<noteq> prefix) ks" for ks
    by (induction ks) (auto simp: live_key_def)
  moreover have "map row_key (d_audit (w_db (ui_w u'))) = map row_key (d_audit (w_db (ui_w u))) @ [(StageKeyRevoked, None, None)]"
    if "no_faults e" "uc_audit c"
    using writeKeyAudit_keys [OF that(1) key_event_ok(2) that(2)] run fault by (simp add: RevokeKey_def update_keys_db)
  ultimately show ?thesis using keys by simp
qed

theorem revoked_key_is_dead_witness:
  "\<nexists>i. fst (Resolve demo_env ''tg_abcd_x'' (ui_w (snd (handleKeyRevoke demo_env demo_ui_config demo_ui_request
     (demo_key_ui\<lparr>ui_w := empty_world\<lparr>w_db := demo_app_db\<lparr>d_keys := map (\<lambda>k. k\<lparr>key_prefix := ''abcd''\<rparr>) (d_keys demo_app_db)\<rparr>\<rparr>\<rparr>))))) = Inr i"
proof -
  let ?u = "demo_key_ui\<lparr>ui_w := empty_world\<lparr>w_db := demo_app_db\<lparr>d_keys := map (\<lambda>k. k\<lparr>key_prefix := ''abcd''\<rparr>) (d_keys demo_app_db)\<rparr>\<rparr>\<rparr>"
  let ?run = "handleKeyRevoke demo_env demo_ui_config demo_ui_request ?u"
  have reply: "ux_reply (fst ?run) = U_redirect ''/keys?revoked=1''"
    by (simp add: handleKeyRevoke_def Let_def demo_ui_request_def get_value_def id_head_char_def id_tail_char_def keyPrefixPattern_def
        FormValue_def demo_ui_config_def ui_do_def RevokeKey_def update_keys_def db_exec_def demo_key_ui_def demo_app_db_def
        live_key_def ui_redirect_def ui_answer_def)
  have ok: "db_ok (w_db (ui_w ?u))"
    by (simp add: demo_app_db_def db_ok_defs empty_db_def grade_values_def)
  have "ParseBearer ''tg_abcd_x'' = Some (get_value (ur_params demo_ui_request) ''prefix'')"
    by (simp add: demo_ui_request_def get_value_def ParseBearer_def HasPrefix_def bearerPrefix_def)
  then show ?thesis
    using revoked_key_is_dead [OF surjective_pairing reply ok refl, THEN conjunct1] by blast
qed

end
