(* ===== verification/Ui_Apps.thy ===== *)
theory Ui_Apps
  imports Ui_Keys Strategy
begin

text \<open>
  The application and user pages of the admin UI (\<^verbatim>\<open>apps.go\<close>, \<^verbatim>\<open>users.go\<close>) and the client of the
  administration API they call (\<^verbatim>\<open>apiclient/admin.go\<close>). The server behind the client is an argument, \<open>api\<close>:
  it takes a request and the shared state, and gives a response or, when the request cannot be sent or
  answered, nothing. \<^verbatim>\<open>Ui_Server\<close> puts the router of the API in its place.
\<close>

type_synonym api = "http_request \<Rightarrow> world \<Rightarrow> response option \<times> world"


section \<open>The client\<close>

datatype client_error = APIError string int | Client_failed

text \<open>A request without a body carries none that decodes.\<close>

definition admin_request :: "ui_config \<Rightarrow> string \<Rightarrow> string \<Rightarrow> string \<Rightarrow> body \<Rightarrow> http_request" where
  "admin_request c trace meth path body =
     \<lparr>hr_method = meth, hr_path = path, hr_authorization = ''Bearer '' @ uc_api_key c, hr_trace_header = trace,
      hr_remote = [], hr_query = [], hr_params = [], hr_body = body, hr_trace = [], hr_requester = None\<rparr>"

definition error_code :: "response \<Rightarrow> string" where
  "error_code resp = (case rs_reply resp of J_error code \<Rightarrow> code | _ \<Rightarrow> [])"

definition doAdmin ::
  "api \<Rightarrow> ui_config \<Rightarrow> string \<Rightarrow> string \<Rightarrow> string \<Rightarrow> body \<Rightarrow> ui_state \<Rightarrow> client_error option \<times> ui_state" where
  "doAdmin api c trace meth path body u =
     (case ui_do (api (admin_request c trace meth path body)) u of
        (None, u1) \<Rightarrow> (Some Client_failed, u1)
      | (Some resp, u1) \<Rightarrow>
          if rs_status resp \<ge> 200 \<and> rs_status resp < 300 then (None, u1)
          else (Some (APIError (if error_code resp = [] then ''unknown_error'' else error_code resp) (rs_status resp)), u1))"

definition client_CreateApp :: "api \<Rightarrow> ui_config \<Rightarrow> string \<Rightarrow> create_app_request \<Rightarrow> ui_state \<Rightarrow> client_error option \<times> ui_state" where
  "client_CreateApp api c trace req = doAdmin api c trace ''POST'' ''/admin/apps'' (Body_create req)"

definition client_PatchApp ::
  "api \<Rightarrow> ui_config \<Rightarrow> string \<Rightarrow> string \<Rightarrow> patch_app_request \<Rightarrow> ui_state \<Rightarrow> client_error option \<times> ui_state" where
  "client_PatchApp api c trace app req = doAdmin api c trace ''PATCH'' (''/admin/apps/'' @ PathEscape app) (Body_patch req)"

definition client_DeleteApp :: "api \<Rightarrow> ui_config \<Rightarrow> string \<Rightarrow> string \<Rightarrow> ui_state \<Rightarrow> client_error option \<times> ui_state" where
  "client_DeleteApp api c trace app = doAdmin api c trace ''DELETE'' (''/admin/apps/'' @ PathEscape app) Bad_body"

definition client_PurgeApp :: "api \<Rightarrow> ui_config \<Rightarrow> string \<Rightarrow> string \<Rightarrow> ui_state \<Rightarrow> client_error option \<times> ui_state" where
  "client_PurgeApp api c trace app = doAdmin api c trace ''DELETE'' (''/admin/apps/'' @ PathEscape app @ ''/purge'') Bad_body"

definition client_PatchUserGrade ::
  "api \<Rightarrow> ui_config \<Rightarrow> string \<Rightarrow> int \<Rightarrow> string \<Rightarrow> ui_state \<Rightarrow> client_error option \<times> ui_state" where
  "client_PatchUserGrade api c trace tg grade =
     doAdmin api c trace ''PATCH'' (''/admin/users/'' @ FormatInt tg) (Body_user \<lparr>pu_grade = grade\<rparr>)"

definition subscription_path :: "int \<Rightarrow> string \<Rightarrow> string" where
  "subscription_path tg app = ''/admin/users/'' @ FormatInt tg @ ''/subscriptions/'' @ PathEscape app"

definition client_Subscribe :: "api \<Rightarrow> ui_config \<Rightarrow> string \<Rightarrow> int \<Rightarrow> string \<Rightarrow> ui_state \<Rightarrow> client_error option \<times> ui_state" where
  "client_Subscribe api c trace tg app = doAdmin api c trace ''POST'' (subscription_path tg app) Bad_body"

definition client_Unsubscribe :: "api \<Rightarrow> ui_config \<Rightarrow> string \<Rightarrow> int \<Rightarrow> string \<Rightarrow> ui_state \<Rightarrow> client_error option \<times> ui_state" where
  "client_Unsubscribe api c trace tg app = doAdmin api c trace ''DELETE'' (subscription_path tg app) Bad_body"


section \<open>Applications\<close>

definition grantableCapabilities :: "string list" where
  "grantableCapabilities =
     [''messages.direct.send'', ''messages.direct.dm'', ''messages.topic.send'', ''messages.broadcast.send'', ''noop.invoke'']"

definition filterGrantable :: "string list \<Rightarrow> string list" where
  "filterGrantable vals = filter (\<lambda>v. v \<in> set grantableCapabilities) vals"

definition apiErrorMessages :: "(string \<times> string) list" where
  "apiErrorMessages =
     [(''malformed_json'', t_api_malformed_json), (''missing_required_fields'', t_api_missing_fields),
      (''invalid_app_id'', t_api_invalid_app_id), (''invalid_min_grade'', t_api_invalid_grade),
      (''invalid_grade'', t_api_invalid_grade), (''unknown_capability'', t_api_unknown_capability),
      (''forbidden_capability'', t_api_forbidden_capability), (''app_already_exists'', t_api_app_exists),
      (''app_not_found'', t_app_not_found), (''app_inactive'', t_api_app_inactive),
      (''user_not_found'', t_api_user_not_found), (''invalid_telegram_id'', t_api_invalid_telegram_id),
      (''subscription_not_found'', t_api_no_subscription), (''forbidden'', t_api_forbidden),
      (''unauthenticated'', t_api_unauthenticated), (''rate_limited'', t_api_rate_limited), (''db_error'', t_api_db_error),
      (''invalid_limit'', t_api_invalid_limit), (''invalid_before_id'', t_api_invalid_before_id),
      (''invalid_since'', t_api_invalid_since), (''invalid_until'', t_api_invalid_until), (''invalid_stage'', t_api_invalid_stage)]"

definition friendlyAPIError :: "client_error \<Rightarrow> string" where
  "friendlyAPIError err =
     (case err of
        APIError code _ \<Rightarrow> (case map_of apiErrorMessages code of Some msg \<Rightarrow> msg | None \<Rightarrow> code)
      | Client_failed \<Rightarrow> t_api_unreachable)"

definition filterApps :: "app_view list \<Rightarrow> bool \<Rightarrow> app_view list" where
  "filterApps apps active = filter (\<lambda>a. vw_active a = active) apps"

definition handleAppsList :: "env \<Rightarrow> ui_config \<Rightarrow> ui_handler" where
  "handleAppsList e c r u =
     (case basePageData e r t_apps_title ''apps'' u of (data, u1) \<Rightarrow>
      let q = get_value (ur_query r); status = (if q ''status'' \<noteq> ''active'' \<and> q ''status'' \<noteq> ''inactive'' then ''all'' else q ''status'');
          data = data\<lparr>pg_subtitle := ''/admin/apps'', pg_status_filter := status\<rparr>;
          data = (if q ''purged'' \<noteq> [] then data\<lparr>pg_success := t_purged_1 @ q ''purged'' @ t_purged_2\<rparr> else data)
      in if \<not> uc_store c then (render c ''apps_list.html'' (data\<lparr>pg_db_unavailable := True\<rparr>), u1)
         else
           (case ui_do (ListApps e) u1 of
              (Inl _, u2) \<Rightarrow> (render c ''apps_list.html'' (data\<lparr>pg_error := t_apps_unreadable\<rparr>), u2)
            | (Inr apps, u2) \<Rightarrow>
                (let apps = (if status = ''active'' then filterApps apps True
                             else if status = ''inactive'' then filterApps apps False else apps)
                 in (render c ''apps_list.html'' (data\<lparr>pg_apps := apps\<rparr>), u2))))"

definition new_app_page :: "page \<Rightarrow> page" where
  "new_app_page data = data\<lparr>pg_subtitle := t_app_new, pg_grantable := grantableCapabilities\<rparr>"

definition handleAppNewForm :: "env \<Rightarrow> ui_config \<Rightarrow> ui_handler" where
  "handleAppNewForm e c r u =
     (case basePageData e r t_apps_title ''apps'' u of (data, u1) \<Rightarrow> (render c ''app_new.html'' (new_app_page data), u1))"

definition form_values :: "ui_request \<Rightarrow> string \<Rightarrow> string list" where
  "form_values r k = (case ur_form r of None \<Rightarrow> [] | Some kvs \<Rightarrow> map snd (filter (\<lambda>kv. fst kv = k) kvs))"

definition form_has :: "ui_request \<Rightarrow> string \<Rightarrow> bool" where
  "form_has r k = (case ur_form r of None \<Rightarrow> False | Some kvs \<Rightarrow> list_ex (\<lambda>kv. fst kv = k) kvs)"

definition handleAppCreate :: "env \<Rightarrow> api \<Rightarrow> ui_config \<Rightarrow> ui_handler" where
  "handleAppCreate e api c r u =
     (let req = \<lparr>ca_id = FormValue r ''id'', ca_name = FormValue r ''name'', ca_description = FormValue r ''description'',
                 ca_min_grade = FormValue r ''min_grade'', ca_capabilities = filterGrantable (form_values r ''capabilities'')\<rparr>
      in case client_CreateApp api c (ur_trace r) req u of
           (Some err, u1) \<Rightarrow>
             (case basePageData e r t_apps_title ''apps'' u1 of (data, u2) \<Rightarrow>
              (render c ''app_new.html'' ((new_app_page data)\<lparr>pg_error := friendlyAPIError err\<rparr>), u2))
         | (None, u1) \<Rightarrow> (ui_redirect (''/apps/'' @ PathEscape (ca_id req)), u1))"

definition detail_page :: "string \<Rightarrow> page \<Rightarrow> page" where
  "detail_page app data = data\<lparr>pg_subtitle := app, pg_app_id := app, pg_grantable := grantableCapabilities\<rparr>"

definition handleAppDetail :: "env \<Rightarrow> ui_config \<Rightarrow> ui_handler" where
  "handleAppDetail e c r u =
     (let app = get_value (ur_params r) ''id''
      in case basePageData e r t_apps_title ''apps'' u of (data, u1) \<Rightarrow>
         let data = detail_page app data
         in if \<not> uc_store c then (render c ''app_detail.html'' (data\<lparr>pg_db_unavailable := True\<rparr>), u1)
            else
              (case ui_do (GetApp e app) u1 of
                 (Inl ErrAppNotFound, u2) \<Rightarrow> (ui_error 404 ''404 page not found'', u2)
               | (Inl _, u2) \<Rightarrow> (render c ''app_detail.html'' (data\<lparr>pg_error := t_app_unreadable\<rparr>), u2)
               | (Inr a, u2) \<Rightarrow>
                   (let data = data\<lparr>pg_app := Some a\<rparr>; q = get_value (ur_query r);
                        data = (if q ''saved'' \<noteq> [] then data\<lparr>pg_success := t_app_saved\<rparr>
                                else if q ''deactivated'' \<noteq> [] then data\<lparr>pg_success := t_app_deactivated\<rparr> else data)
                    in (render c ''app_detail.html'' data, u2))))"

definition renderAppDetailError :: "env \<Rightarrow> ui_config \<Rightarrow> ui_request \<Rightarrow> string \<Rightarrow> string \<Rightarrow> ui_state \<Rightarrow> ui_response \<times> ui_state" where
  "renderAppDetailError e c r app message u =
     (case basePageData e r t_apps_title ''apps'' u of (data, u1) \<Rightarrow>
      let data = (detail_page app data)\<lparr>pg_error := message\<rparr>
      in if uc_store c then
           (case ui_do (GetApp e app) u1 of
              (Inl _, u2) \<Rightarrow> (render c ''app_detail.html'' data, u2)
            | (Inr a, u2) \<Rightarrow> (render c ''app_detail.html'' (data\<lparr>pg_app := Some a\<rparr>), u2))
         else (render c ''app_detail.html'' (data\<lparr>pg_db_unavailable := True\<rparr>), u1))"

text \<open>The difference between the wanted and the held capabilities.\<close>

definition capability_diff :: "string list \<Rightarrow> string list \<Rightarrow> string list \<times> string list" where
  "capability_diff wanted held =
     (let desired = filterGrantable wanted; current = filterGrantable held
      in (filter (\<lambda>c. c \<notin> set current) desired, filter (\<lambda>c. c \<notin> set desired) current))"

definition patch_form :: "ui_request \<Rightarrow> patch_app_request" where
  "patch_form r =
     \<lparr>pa_description = (if form_has r ''description'' then Some (FormValue r ''description'') else None),
      pa_min_grade = (if form_has r ''min_grade'' then Some (FormValue r ''min_grade'') else None),
      pa_active = (let v = FormValue r ''set_active'' in if v \<noteq> [] then Some (v = ''1'') else None),
      pa_add_capabilities = [], pa_remove_capabilities = []\<rparr>"

definition send_patch :: "env \<Rightarrow> api \<Rightarrow> ui_config \<Rightarrow> ui_request \<Rightarrow> string \<Rightarrow> patch_app_request \<Rightarrow> ui_state \<Rightarrow> ui_response \<times> ui_state" where
  "send_patch e api c r app req u =
     (case client_PatchApp api c (ur_trace r) app req u of
        (Some err, u1) \<Rightarrow> renderAppDetailError e c r app (friendlyAPIError err) u1
      | (None, u1) \<Rightarrow> (ui_redirect (''/apps/'' @ app @ ''?saved=1''), u1))"

definition handleAppPatch :: "env \<Rightarrow> api \<Rightarrow> ui_config \<Rightarrow> ui_handler" where
  "handleAppPatch e api c r u =
     (let app = get_value (ur_params r) ''id''
      in if ur_form r = None then renderAppDetailError e c r app t_api_malformed_json u
         else if form_has r ''capabilities'' \<or> form_has r ''min_grade'' then
           (if \<not> uc_store c then renderAppDetailError e c r app t_caps_need_db u
            else
              (case ui_do (GetApp e app) u of
                 (Inl _, u1) \<Rightarrow> renderAppDetailError e c r app t_app_unreadable u1
               | (Inr a, u1) \<Rightarrow>
                   (case capability_diff (form_values r ''capabilities'') (vw_capabilities a) of (add, remove) \<Rightarrow>
                    send_patch e api c r app ((patch_form r)\<lparr>pa_add_capabilities := add, pa_remove_capabilities := remove\<rparr>) u1)))
         else send_patch e api c r app (patch_form r) u)"

definition handleAppDelete :: "env \<Rightarrow> api \<Rightarrow> ui_config \<Rightarrow> ui_handler" where
  "handleAppDelete e api c r u =
     (let app = get_value (ur_params r) ''id''
      in if FormValue r ''confirm_id'' \<noteq> app then renderAppDetailError e c r app t_delete_unconfirmed u
         else
           (case client_PurgeApp api c (ur_trace r) app u of
              (Some err, u1) \<Rightarrow> renderAppDetailError e c r app (friendlyAPIError err) u1
            | (None, u1) \<Rightarrow> (ui_redirect (''/apps?purged='' @ QueryEscape app), u1)))"

definition handleAppDeactivate :: "env \<Rightarrow> api \<Rightarrow> ui_config \<Rightarrow> ui_handler" where
  "handleAppDeactivate e api c r u =
     (let app = get_value (ur_params r) ''id''
      in case client_DeleteApp api c (ur_trace r) app u of
           (Some err, u1) \<Rightarrow> renderAppDetailError e c r app (friendlyAPIError err) u1
         | (None, u1) \<Rightarrow> (ui_redirect (''/apps/'' @ app @ ''?deactivated=1''), u1))"


section \<open>Users\<close>

definition gradeLabels :: "(string \<times> string) list" where
  "gradeLabels = [(''user'', t_grade_user), (''developer'', t_grade_developer), (''admin'', t_grade_admin)]"

definition gradeBadges :: "(string \<times> string) list" where
  "gradeBadges = [(''user'', ''badge-blue''), (''developer'', ''badge-teal''), (''admin'', ''badge-purple'')]"

definition gradeLabel :: "string \<Rightarrow> string" where
  "gradeLabel g = (case map_of gradeLabels g of Some l \<Rightarrow> l | None \<Rightarrow> g)"

definition gradeBadge :: "string \<Rightarrow> string" where
  "gradeBadge g = (case map_of gradeBadges g of Some b \<Rightarrow> b | None \<Rightarrow> ''badge-gray'')"

definition user_display_of :: "ui_user \<Rightarrow> user_display" where
  "user_display_of v = \<lparr>ud_telegram_id = uu_telegram_id v, ud_username = uu_username v, ud_grade = uu_grade v,
     ud_label = gradeLabel (uu_grade v), ud_badge = gradeBadge (uu_grade v), ud_subscriptions = uu_subscriptions v\<rparr>"

text \<open>The loop over the users: the last one whose identifier is the selected text is selected.\<close>

definition select_users :: "(ui_user \<Rightarrow> bool) \<Rightarrow> string \<Rightarrow> ui_user list \<Rightarrow> users_view \<Rightarrow> users_view" where
  "select_users shown selected users view =
     (let ds = map user_display_of (filter shown users)
      in view\<lparr>uv_users := ds, uv_count := length ds,
           uv_selected := (case filter (\<lambda>d. selected = FormatInt (ud_telegram_id d)) ds of [] \<Rightarrow> None | x # xs \<Rightarrow> Some (last (x # xs)))\<rparr>)"

definition user_shown :: "users_view \<Rightarrow> ui_user \<Rightarrow> bool" where
  "user_shown view v =
     (\<not> (uv_grade view \<noteq> [] \<and> uu_grade v \<noteq> uv_grade view) \<and>
      \<not> (uv_app view \<noteq> [] \<and> uv_app view \<notin> set (uu_subscriptions v)) \<and>
      \<not> (uv_query view \<noteq> [] \<and> \<not> Contains (FormatInt (uu_telegram_id v)) (uv_query view) \<and> \<not> Contains (uu_username v) (uv_query view)))"

definition legacyUsersLookup :: "(string \<Rightarrow> string) \<Rightarrow> page \<Rightarrow> page" where
  "legacyUsersLookup q data =
     (let raw = q ''telegram_id'';
          data = (if raw \<noteq> [] then (if ParseInt raw = None then data\<lparr>pg_error := t_api_invalid_telegram_id\<rparr>
                                     else data\<lparr>pg_telegram_id := raw\<rparr>) else data);
          app = q ''app_id''
      in if app \<noteq> [] \<and> pg_telegram_id data \<noteq> [] then
           (if \<not> appIDPattern app then data\<lparr>pg_error := t_bad_app_id\<rparr> else data\<lparr>pg_unsub_app := app\<rparr>)
         else data)"

definition with_apps :: "env \<Rightarrow> page \<Rightarrow> ui_state \<Rightarrow> page \<times> ui_state" where
  "with_apps e data u =
     (case ui_do (ListApps e) u of (Inl _, u1) \<Rightarrow> (data, u1) | (Inr apps, u1) \<Rightarrow> (data\<lparr>pg_apps := apps\<rparr>, u1))"

definition handleUsersPage :: "env \<Rightarrow> ui_config \<Rightarrow> ui_handler" where
  "handleUsersPage e c r u =
     (case basePageData e r t_users_title ''users'' u of (data, u1) \<Rightarrow>
      let q = get_value (ur_query r); data = data\<lparr>pg_subtitle := t_users_subtitle\<rparr>;
          data = (if q ''saved'' = ''grade'' then data\<lparr>pg_success := t_grade_saved\<rparr>
                  else if q ''saved'' = ''sub'' then data\<lparr>pg_success := t_sub_saved\<rparr>
                  else if q ''saved'' = ''unsub'' then data\<lparr>pg_success := t_unsub_saved\<rparr> else data)
      in if \<not> uc_store c then (render c ''users.html'' (legacyUsersLookup q (data\<lparr>pg_db_unavailable := True\<rparr>)), u1)
         else
           (case ui_do (ListUsers e) u1 of
              (Inl _, u2) \<Rightarrow> (render c ''users.html'' (data\<lparr>pg_error := t_users_unreadable\<rparr>), u2)
            | (Inr users, u2) \<Rightarrow>
                (let view = zero_users_view\<lparr>uv_grade := (if map_of gradeLabels (q ''grade'') = None then [] else q ''grade''),
                       uv_app := (if q ''app'' \<noteq> [] \<and> \<not> appIDPattern (q ''app'') then [] else q ''app''),
                       uv_query := TrimSpace (q ''q'')\<rparr>;
                     view = select_users (user_shown view) (q ''selected'') users view
                 in case with_apps e (data\<lparr>pg_users := view\<rparr>) u2 of (data, u3) \<Rightarrow> (render c ''users.html'' data, u3))))"

definition renderUsersError :: "env \<Rightarrow> ui_config \<Rightarrow> ui_request \<Rightarrow> string \<Rightarrow> string \<Rightarrow> ui_state \<Rightarrow> ui_response \<times> ui_state" where
  "renderUsersError e c r telegramID message u =
     (case basePageData e r t_users_title ''users'' u of (data, u1) \<Rightarrow>
      let data = data\<lparr>pg_subtitle := t_users_subtitle, pg_error := message\<rparr>
      in if \<not> uc_store c then (render c ''users.html'' (data\<lparr>pg_db_unavailable := True, pg_telegram_id := telegramID\<rparr>), u1)
         else
           (case ui_do (ListUsers e) u1 of
              (Inl _, u2) \<Rightarrow> (render c ''users.html'' data, u2)
            | (Inr users, u2) \<Rightarrow>
                (let view = select_users (\<lambda>_. True) telegramID users zero_users_view
                 in case with_apps e (data\<lparr>pg_users := view\<rparr>) u2 of (data, u3) \<Rightarrow> (render c ''users.html'' data, u3))))"

text \<open>What the three user actions share: the identifier from the path, one call of the client, and a redirect
  that names what was saved.\<close>

definition user_action ::
  "env \<Rightarrow> ui_config \<Rightarrow> (int \<Rightarrow> ui_state \<Rightarrow> client_error option \<times> ui_state) \<Rightarrow> string \<Rightarrow> ui_handler" where
  "user_action e c call saved r u =
     (let idStr = get_value (ur_params r) ''id''
      in case ParseInt idStr of
           None \<Rightarrow> (ui_error 400 ''invalid_telegram_id'', u)
         | Some tg \<Rightarrow>
             (case call tg u of
                (Some err, u1) \<Rightarrow> renderUsersError e c r idStr (friendlyAPIError err) u1
              | (None, u1) \<Rightarrow> (ui_redirect (''/users?selected='' @ idStr @ ''&saved='' @ saved), u1)))"

definition handleUserGrade :: "env \<Rightarrow> api \<Rightarrow> ui_config \<Rightarrow> ui_handler" where
  "handleUserGrade e api c r =
     user_action e c (\<lambda>tg. client_PatchUserGrade api c (ur_trace r) tg (FormValue r ''grade'')) ''grade'' r"

definition handleUserSubscribe :: "env \<Rightarrow> api \<Rightarrow> ui_config \<Rightarrow> ui_handler" where
  "handleUserSubscribe e api c r =
     user_action e c (\<lambda>tg. client_Subscribe api c (ur_trace r) tg (FormValue r ''app_id'')) ''sub'' r"

definition handleUserUnsubscribe :: "env \<Rightarrow> api \<Rightarrow> ui_config \<Rightarrow> ui_handler" where
  "handleUserUnsubscribe e api c r =
     user_action e c (\<lambda>tg. client_Unsubscribe api c (ur_trace r) tg (get_value (ur_params r) ''app'')) ''unsub'' r"

end
