(* ===== verification/Go_Time.thy ===== *)
theory Go_Time
  imports Go_Encoding
begin

text \<open>
  \<^verbatim>\<open>time.Parse(time.RFC3339, s)\<close> and \<^verbatim>\<open>t.UTC().Format(time.RFC3339)\<close>, with the
  proleptic Gregorian calendar of package \<^verbatim>\<open>time\<close>. Parsing is as lenient as the library: a one-digit
  hour, a fraction of a second after a point or a comma (nine digits of it count), zone offsets up to
  24:60.
\<close>

section \<open>Calendar\<close>

definition leap_year :: "int \<Rightarrow> bool" where
  "leap_year y = (y mod 4 = 0 \<and> (y mod 100 \<noteq> 0 \<or> y mod 400 = 0))"

definition month_days :: "int \<Rightarrow> int list" where
  "month_days y = [31, if leap_year y then 29 else 28, 31, 30, 31, 30, 31, 31, 30, 31, 30, 31]"

definition days_in :: "int \<Rightarrow> int \<Rightarrow> int" where
  "days_in y m = month_days y ! nat (m - 1)"

text \<open>Days before the first of January of a year, and of a date, counted from 1 January of year 1.\<close>

definition year_start :: "int \<Rightarrow> int" where
  "year_start y = 365 * (y - 1) + (y - 1) div 4 - (y - 1) div 100 + (y - 1) div 400"

definition date_days :: "int \<Rightarrow> int \<Rightarrow> int \<Rightarrow> int" where
  "date_days y m d = year_start y + sum_list (take (nat (m - 1)) (month_days y)) + (d - 1)"

definition days_year :: "int \<Rightarrow> int" where
  "days_year n =
     (let c400 = n div 146097; r = n mod 146097;
          c100 = min 3 (r div 36524); r = r - c100 * 36524;
          c4 = r div 1461; r = r mod 1461;
          c1 = min 3 (r div 365)
      in 400 * c400 + 100 * c100 + 4 * c4 + c1 + 1)"

fun find_month :: "int list \<Rightarrow> int \<Rightarrow> int \<Rightarrow> int \<times> int" where
  "find_month [] m n = (m, n + 1)"
| "find_month (k # ks) m n = (if n < k then (m, n + 1) else find_month ks (m + 1) (n - k))"

definition days_date :: "int \<Rightarrow> int \<times> int \<times> int" where
  "days_date n = (let y = days_year n in (y, find_month (month_days y) 1 (n - year_start y)))"


section \<open>Formatting\<close>

definition pad_int :: "nat \<Rightarrow> int \<Rightarrow> string" where
  "pad_int k i =
     (let s = nat_dec (nat \<bar>i\<bar>)
      in (if i < 0 then ''-'' else []) @ replicate (k - length s) (CHR ''0'') @ s)"

definition Format_RFC3339 :: "time \<Rightarrow> string" where
  "Format_RFC3339 t =
     (let s = t div second_ns
      in case days_date (s div 86400) of (y, m, d) \<Rightarrow>
         (let r = s mod 86400
          in pad_int 4 y @ ''-'' @ pad_int 2 m @ ''-'' @ pad_int 2 d @ ''T'' @
             pad_int 2 (r div 3600) @ '':'' @ pad_int 2 (r mod 3600 div 60) @ '':'' @ pad_int 2 (r mod 60) @ ''Z''))"


section \<open>Parsing\<close>

text \<open>\<^verbatim>\<open>getnum\<close>: one or two digits, exactly two when \<open>fixed\<close>.\<close>

fun getnum :: "bool \<Rightarrow> string \<Rightarrow> (int \<times> string) option" where
  "getnum fixed (c # c' # s) =
     (if \<not> is_digit_char c then None
      else if is_digit_char c' then Some (int (10 * digit_val c + digit_val c'), s)
      else if fixed then None else Some (int (digit_val c), c' # s))"
| "getnum fixed [c] = (if is_digit_char c \<and> \<not> fixed then Some (int (digit_val c), []) else None)"
| "getnum fixed [] = None"

fun skip_char :: "char \<Rightarrow> string \<Rightarrow> string option" where
  "skip_char c (x # s) = (if x = c then Some s else None)"
| "skip_char c [] = None"

definition take_year :: "string \<Rightarrow> (int \<times> string) option" where
  "take_year s =
     (if length s < 4 then None
      else map_option (\<lambda>n. (int n, drop 4 s)) (if list_all is_digit_char (take 4 s) then dec_val 0 (take 4 s) else None))"

definition take_fraction :: "string \<Rightarrow> int \<times> string" where
  "take_fraction s =
     (if length s \<ge> 2 \<and> (hd s = CHR ''.'' \<or> hd s = CHR '','') \<and> is_digit_char (s ! 1)
      then (let ds = takeWhile is_digit_char (tl s); ds9 = take 9 ds
            in (int (case dec_val 0 ds9 of Some n \<Rightarrow> n | None \<Rightarrow> 0) * 10 ^ (9 - length ds9), drop (length ds) (tl s)))
      else (0, s))"

text \<open>The zone: its offset in seconds.\<close>

definition take_zone :: "string \<Rightarrow> (int \<times> string) option" where
  "take_zone s =
     (if s \<noteq> [] \<and> hd s = CHR ''Z'' then Some (0, tl s)
      else if length s < 6 \<or> s ! 3 \<noteq> CHR '':'' then None
      else (case (getnum True (take 2 (drop 1 s)), getnum True (take 2 (drop 4 s))) of
              (Some (hr, _), Some (mm, _)) \<Rightarrow>
                (if hr > 24 \<or> mm > 60 then None
                 else if hd s = CHR ''+'' then Some ((hr * 60 + mm) * 60, drop 6 s)
                 else if hd s = CHR ''-'' then Some (- ((hr * 60 + mm) * 60), drop 6 s)
                 else None)
            | _ \<Rightarrow> None))"

definition take_range :: "bool \<Rightarrow> int \<Rightarrow> int \<Rightarrow> string \<Rightarrow> (int \<times> string) option" where
  "take_range fixed lo hi s =
     (case getnum fixed s of None \<Rightarrow> None | Some (n, s1) \<Rightarrow> if lo \<le> n \<and> n \<le> hi then Some (n, s1) else None)"

definition Parse_RFC3339 :: "string \<Rightarrow> time option" where
  "Parse_RFC3339 s =
     Option.bind (take_year s) (\<lambda>(y, s).
     Option.bind (skip_char (CHR ''-'') s) (\<lambda>s.
     Option.bind (take_range True 1 12 s) (\<lambda>(m, s).
     Option.bind (skip_char (CHR ''-'') s) (\<lambda>s.
     Option.bind (getnum True s) (\<lambda>(d, s).
     Option.bind (skip_char (CHR ''T'') s) (\<lambda>s.
     Option.bind (take_range False 0 23 s) (\<lambda>(hh, s).
     Option.bind (skip_char (CHR '':'') s) (\<lambda>s.
     Option.bind (take_range True 0 59 s) (\<lambda>(mi, s).
     Option.bind (skip_char (CHR '':'') s) (\<lambda>s.
     Option.bind (take_range True 0 59 s) (\<lambda>(sec, s).
     (case take_fraction s of (nsec, s) \<Rightarrow>
     Option.bind (take_zone s) (\<lambda>(off, s).
       if s \<noteq> [] \<or> d < 1 \<or> d > days_in y m then None
       else Some ((date_days y m d * 86400 + hh * 3600 + mi * 60 + sec - off) * second_ns + nsec))))))))))))))"

end
