(* ===== verification/Api_Audit.thy ===== *)
theory Api_Audit
  imports Http Go_Time "HOL-Library.Sublist"
begin

text \<open>
  The audit search, \<^verbatim>\<open>handlers/admin_audit.go\<close>: the parsing of its query string, the dynamic
  \<^verbatim>\<open>WHERE\<close> clause, and keyset pagination. The properties say that a search shows exactly the
  matching rows, newest first, and that the pages of a walk join without gap or repetition although every
  search itself appends rows to the log it reads.
\<close>

section \<open>The handler\<close>

record audit_filter =
  af_limit :: int
  af_since :: "time option"
  af_until :: "time option"
  af_before_id :: int
  af_trace_id :: string
  af_app_id :: string
  af_stage :: string

definition validAuditStages :: "string list" where
  "validAuditStages = [StageReceived, StageValidated, StageDispatched, StageDelivered, StageDenied, StageRetried,
     StageDeferred, StageIntrusionKick, StageIntrusionUnmitigated, StageBotNotAdmin, StageTelegramAuthFailed,
     StageKeyIssued, StageKeyRevoked]"

text \<open>An optional query parameter: absent or empty gives the default, otherwise it has to parse.\<close>

definition optional :: "string \<Rightarrow> 'a \<Rightarrow> (string \<Rightarrow> 'a option) \<Rightarrow> 'a option" where
  "optional s dflt parse = (if s = [] then Some dflt else parse s)"

definition parse_limit :: "string \<Rightarrow> int option" where
  "parse_limit s = (case Atoi s of None \<Rightarrow> None | Some v \<Rightarrow> if v \<le> 0 \<or> v > 500 then None else Some v)"

definition parse_before_id :: "string \<Rightarrow> int option" where
  "parse_before_id s = (case ParseInt s of None \<Rightarrow> None | Some v \<Rightarrow> if v \<le> 0 then None else Some v)"

definition parse_filter :: "(string \<times> string) list \<Rightarrow> string + audit_filter" where
  "parse_filter q =
     (case optional (get_value q ''limit'') 50 parse_limit of
        None \<Rightarrow> Inl ''invalid_limit''
      | Some limit \<Rightarrow>
     (case optional (get_value q ''since'') None (\<lambda>s. map_option Some (Parse_RFC3339 s)) of
        None \<Rightarrow> Inl ''invalid_since''
      | Some since \<Rightarrow>
     (case optional (get_value q ''until'') None (\<lambda>s. map_option Some (Parse_RFC3339 s)) of
        None \<Rightarrow> Inl ''invalid_until''
      | Some until \<Rightarrow>
     (case optional (get_value q ''before_id'') 0 parse_before_id of
        None \<Rightarrow> Inl ''invalid_before_id''
      | Some beforeID \<Rightarrow>
          (let stage = get_value q ''stage''
           in if stage \<noteq> [] \<and> stage \<notin> set validAuditStages then Inl ''invalid_stage''
              else Inr \<lparr>af_limit = limit, af_since = since, af_until = until, af_before_id = beforeID,
                     af_trace_id = get_value q ''trace_id'', af_app_id = get_value q ''app_id'',
                     af_stage = stage\<rparr>)))))"

text \<open>The \<^verbatim>\<open>WHERE\<close> clause. A comparison with \<^verbatim>\<open>NULL\<close> is not true; time bounds are sent with
  microseconds.\<close>

definition where_clause :: "audit_filter \<Rightarrow> audit_row \<Rightarrow> bool" where
  "where_clause f r \<longleftrightarrow>
     (af_trace_id f \<noteq> [] \<longrightarrow> ar_trace_id r = Some (af_trace_id f)) \<and>
     (af_app_id f \<noteq> [] \<longrightarrow> ar_app_id r = Some (af_app_id f)) \<and>
     (af_stage f \<noteq> [] \<longrightarrow> ar_stage r = af_stage f) \<and>
     (case af_since f of None \<Rightarrow> True | Some t \<Rightarrow> ar_at r \<ge> pg_micros t) \<and>
     (case af_until f of None \<Rightarrow> True | Some t \<Rightarrow> ar_at r \<le> pg_micros t) \<and>
     (af_before_id f > 0 \<longrightarrow> ar_id r < af_before_id f)"

text \<open>\<^verbatim>\<open>ORDER BY id DESC LIMIT\<close>\<close>

definition search_rows :: "audit_filter \<Rightarrow> database \<Rightarrow> audit_row list" where
  "search_rows f d = take (nat (af_limit f)) (rev (sort_key ar_id (filter (where_clause f) (d_audit d))))"

text \<open>A timestamp as \<^verbatim>\<open>Scan\<close> gives it, in nanoseconds.\<close>

definition micros_time :: "int \<Rightarrow> time" where
  "micros_time us = (us + unix_epoch_s * 1000000) * 1000"

definition scan_audit_row :: "audit_row \<Rightarrow> audit_view" where
  "scan_audit_row r =
     \<lparr>av_id = ar_id r, av_at = Format_RFC3339 (micros_time (ar_at r)), av_trace_id = ar_trace_id r,
      av_message_id = ar_message_id r, av_stage = ar_stage r, av_app_id = ar_app_id r,
      av_capability = ar_capability r, av_capability_set_ver = ar_capability_set_ver r,
      av_endpoint = ar_endpoint r, av_route_strategy = ar_route_strategy r,
      av_delivery_channel = ar_delivery_channel r, av_recipient_user_id = ar_recipient_user_id r,
      av_recipient_chat_id = ar_recipient_chat_id r, av_error_code = ar_error_code r,
      av_details_json = ar_details r\<rparr>"

definition Search :: "env \<Rightarrow> handler" where
  "Search e r w =
     (case newAuditFlow e r CapAuditSearch w of (base, w1) \<Rightarrow>
      (let w2 = flow_received e base w1
       in case parse_filter (hr_query r) of
            Inl code \<Rightarrow> flow_deny e base code 400 w2
          | Inr f \<Rightarrow>
              (case db_query e (\<lambda>t d. search_rows f d) w2 of
                 (Inl _, w3) \<Rightarrow> flow_deny e base ''db_error'' 500 w3
               | (Inr rows, w3) \<Rightarrow>
                   (let results = map scan_audit_row rows
                    in (writeJSON 200 (J_audit results (af_limit f)),
                        flow_succeed e base
                          [(''result_count'', JInt (int (length results))),
                           (''requested_limit'', JInt (af_limit f)),
                           (''filter_trace_id'', JBool (af_trace_id f \<noteq> [])),
                           (''filter_app_id'', JStr (af_app_id f)), (''filter_stage'', JStr (af_stage f)),
                           (''filter_since'', JBool (af_since f \<noteq> None)),
                           (''filter_until'', JBool (af_until f \<noteq> None)),
                           (''filter_before_id'', JInt (af_before_id f))] w3)))))"


section \<open>What a search shows\<close>

lemma sorted_log: "audit_ok d \<Longrightarrow> sort_key ar_id (filter p (d_audit d)) = filter p (d_audit d)"
proof -
  assume "audit_ok d"
  then have "sorted (map ar_id (filter p (d_audit d)))"
    by (simp add: audit_ok_def sorted_wrt_map sorted_wrt_filter sorted_wrt_mono_rel [of _ "\<lambda>x y. ar_id x < ar_id y"])
  then show ?thesis by (rule sort_key_id_if_sorted)
qed

lemma search_rows_eq:
  "audit_ok d \<Longrightarrow> search_rows f d = take (nat (af_limit f)) (filter (where_clause f) (rev (d_audit d)))"
  by (simp add: search_rows_def sorted_log rev_filter)

lemma parse_filter_limits:
  assumes "parse_filter q = Inr f"
  shows "0 < af_limit f \<and> af_limit f \<le> 500"
proof -
  obtain s where "optional s 50 parse_limit = Some (af_limit f)"
    using assms by (auto simp: parse_filter_def Let_def split: option.splits if_splits)
  then show ?thesis by (auto simp: optional_def parse_limit_def split: option.splits if_splits)
qed

lemma Search_cases:
  obtains (refused) "400 \<le> rs_status (fst (Search e r w))" "only_audit e w (snd (Search e r w))"
      "\<exists>code. rs_reply (fst (Search e r w)) = J_error code" "no_faults e \<Longrightarrow> \<exists>code. parse_filter (hr_query r) = Inl code"
    | (shown) f w2 where "parse_filter (hr_query r) = Inr f" "rs_status (fst (Search e r w)) = 200"
      "rs_reply (fst (Search e r w)) = J_audit (map scan_audit_row (search_rows f (w_db w2))) (af_limit f)"
      "only_audit e w w2" "only_audit e w2 (snd (Search e r w))"
      "w2 = flow_received e (fst (newAuditFlow e r CapAuditSearch w)) (tick w)"
proof -
  define base where "base = fst (newAuditFlow e r CapAuditSearch w)"
  define w2 where "w2 = flow_received e base (tick w)"
  have flow: "newAuditFlow e r CapAuditSearch w = (base, tick w)"
    by (metis base_def newAuditFlow_world prod.collapse)
  have w2: "only_audit e w w2" unfolding w2_def by (rule only_audit_step(1) [of "tick w"]) simp_all
  show thesis
  proof (cases "\<exists>f. parse_filter (hr_query r) = Inr f \<and> \<not> env_fault e (w_tick w2)")
    case True
    then obtain f where f: "parse_filter (hr_query r) = Inr f" "\<not> env_fault e (w_tick w2)" by blast
    obtain dets where run: "Search e r w = (writeJSON 200 (J_audit (map scan_audit_row (search_rows f (w_db w2))) (af_limit f)),
        flow_succeed e base dets (tick w2))"
      using f by (simp add: Search_def flow w2_def [symmetric] db_query_cases Let_def)
    show thesis
      by (rule shown [OF f(1) _ _ w2]) (simp_all add: run writeJSON_def only_audit_step(1) [of "tick w2"] w2_def base_def)
  next
    case False
    then obtain code status w3 where "Search e r w = flow_deny e base code status w3" "400 \<le> status" "w_db w3 = w_db w2"
      by (cases "parse_filter (hr_query r)") (auto simp: Search_def flow w2_def [symmetric] db_query_cases Let_def)
    moreover from this(3) w2 have "only_audit e w w3" by (rule only_audit_step(2) [rotated])
    moreover have "\<exists>code. parse_filter (hr_query r) = Inl code" if "no_faults e"
      using False that by (cases "parse_filter (hr_query r)") (auto simp: no_faults_def)
    ultimately show thesis
      by (intro refused) (auto simp: writeError_def writeJSON_def intro: only_audit_trans)
  qed
qed

text \<open>In a strictly descending list, what is below the last element of a front part is what follows it.\<close>

lemma sorted_last_le:
  "sorted_wrt (\<lambda>x y. k y < (k x :: int)) xs \<Longrightarrow> x \<in> set xs \<Longrightarrow> k (last xs) \<le> k x"
proof (induction xs)
  case (Cons y ys)
  then show ?case by (cases "ys = []") (auto simp: less_imp_le)
qed simp

lemma filter_below_last:
  fixes k :: "'a \<Rightarrow> int"
  assumes "sorted_wrt (\<lambda>x y. k y < k x) xs" "take n xs \<noteq> []"
  shows "filter (\<lambda>x. k x < k (last (take n xs))) xs = drop (length (take n xs)) xs"
proof -
  let ?a = "take n xs" and ?b = "drop n xs"
  have "sorted_wrt (\<lambda>x y. k y < k x) (?a @ ?b)" using assms(1) by simp
  then have ab: "sorted_wrt (\<lambda>x y. k y < k x) ?a" "\<forall>x \<in> set ?a. \<forall>y \<in> set ?b. k y < k x"
    unfolding sorted_wrt_append by blast+
  have "filter (\<lambda>x. k x < k (last ?a)) ?a = []"
    using sorted_last_le [OF ab(1)] by (fastforce simp: filter_empty_conv)
  moreover have "filter (\<lambda>x. k x < k (last ?a)) ?b = ?b"
    using ab(2) last_in_set [OF assms(2)] unfolding filter_id_conv by blast
  ultimately have "filter (\<lambda>x. k x < k (last ?a)) (?a @ ?b) = ?b" unfolding filter_append by simp
  then show ?thesis by (cases "n \<le> length xs") simp_all
qed

lemma page_after:
  assumes "audit_ok d" "audit_ok d'" "d_audit d' = d_audit d @ extra"
    and "page = take n (filter (where_clause f) (rev (d_audit d)))" "page \<noteq> []" "b = ar_id (last page)" "0 < b"
  shows "filter (where_clause (f\<lparr>af_before_id := b, af_limit := l\<rparr>)) (rev (d_audit d')) =
    drop (length page) (filter (where_clause f) (rev (d_audit d)))"
proof -
  let ?M = "filter (where_clause f) (rev (d_audit d))"
  have sorted: "sorted_wrt (\<lambda>x y. ar_id y < ar_id x) ?M"
    using assms(1) by (simp add: audit_ok_def sorted_wrt_map sorted_wrt_filter sorted_wrt_rev)
  have last: "last page \<in> set ?M" using assms(4,5) by (metis in_set_takeD last_in_set)
  then have mem: "last page \<in> set (d_audit d)" "where_clause f (last page)" by auto
  have newer: "b < ar_id r" if "r \<in> set extra" for r
    using assms(2,3,6) that mem(1) by (auto simp: audit_ok_def sorted_wrt_append)
  have clause: "where_clause (f\<lparr>af_before_id := b, af_limit := l\<rparr>) = (\<lambda>r. where_clause f r \<and> ar_id r < b)"
    using mem(2) assms(6,7) by (auto simp: where_clause_def)
  have "filter (where_clause (f\<lparr>af_before_id := b, af_limit := l\<rparr>)) (rev extra) = []"
    using newer by (fastforce simp: filter_empty_conv clause)
  then have "filter (where_clause (f\<lparr>af_before_id := b, af_limit := l\<rparr>)) (rev (d_audit d')) =
      filter (\<lambda>r. ar_id r < b) ?M"
    by (simp add: assms(3) clause)
  also have "\<dots> = drop (length page) ?M"
    using filter_below_last [OF sorted, of n] assms(4,5,6) by simp
  finally show ?thesis .
qed

lemma page_descends:
  assumes "audit_ok d"
  shows "sorted_wrt (>) (map av_id (map scan_audit_row (take n (filter p (rev (d_audit d))))))"
proof -
  have "sorted_wrt (\<lambda>x y. ar_id x > ar_id y) (rev (d_audit d))"
    using assms by (simp add: audit_ok_def sorted_wrt_rev sorted_wrt_map)
  then have "sorted_wrt (\<lambda>x y. ar_id x > ar_id y) (take n (filter p (rev (d_audit d))))"
    by (intro sorted_wrt_take sorted_wrt_filter)
  then show ?thesis by (simp add: sorted_wrt_map scan_audit_row_def)
qed

text \<open>C24: An audit search whose parameters are acceptable and whose query succeeds shows exactly the
  matching rows of the log as it is at that moment (the search's own first row included), by descending id,
  up to the limit, which lies between 1 and 500; the tables are unchanged but for audit rows. The order is that of the
  ids and not that of the times: the witness has a log in which a row has a smaller time than the row before it, as two
  concurrent writers leave it, and the search shows it first.\<close>

theorem search_shows_matching_rows:
  assumes "Search e r w = (resp, w')" "rs_reply resp = J_audit page limit" "audit_ok (w_db w)"
  shows "\<exists>f log. parse_filter (hr_query r) = Inr f \<and> limit = af_limit f \<and> 0 < limit \<and> limit \<le> 500 \<and>
    prefix (d_audit (w_db w)) log \<and> prefix log (d_audit (w_db w')) \<and>
    page = map scan_audit_row (take (nat limit) (filter (where_clause f) (rev log))) \<and>
    sorted_wrt (>) (map av_id page) \<and> only_audit e w w'"
proof (cases rule: Search_cases [of e r w])
  case (shown f w2)
  have ok: "audit_ok (w_db w2)" using shown(4) assms(3) by (simp add: only_audit_def)
  have page: "page = map scan_audit_row (take (nat (af_limit f)) (filter (where_clause f) (rev (d_audit (w_db w2)))))" "limit = af_limit f"
    using shown(3) assms(1,2) by (simp_all add: search_rows_eq [OF ok])
  moreover have "prefix (d_audit (w_db w)) (d_audit (w_db w2))" "prefix (d_audit (w_db w2)) (d_audit (w_db w'))"
    using shown(4,5) assms(1) by (auto simp: only_audit_def prefix_def)
  ultimately show ?thesis
    using shown(1) parse_filter_limits [OF shown(1)] only_audit_trans [OF shown(4,5)] assms(1) page_descends [OF ok]
    by (intro exI [of _ f] exI [of _ "d_audit (w_db w2)"]) simp
qed (use assms in auto)

text \<open>C25: Keyset pagination neither skips nor repeats: the page that a second search gives with
  \<^verbatim>\<open>before_id\<close> set to the last id of a first page continues that page in the list of the rows that
  matched when the first page was read, however many rows have been appended since.\<close>

theorem search_pages_join:
  assumes "Search e r1 w1 = (resp1, w1')" "rs_reply resp1 = J_audit page1 limit1" "page1 \<noteq> []" "audit_ok (w_db w1)"
    and "prefix (d_audit (w_db w1')) (d_audit (w_db w2))" "audit_ok (w_db w2)"
    and "Search e r2 w2 = (resp2, w2')" "rs_reply resp2 = J_audit page2 limit2"
    and "parse_filter (hr_query r1) = Inr f" "0 < av_id (last page1)"
    and "parse_filter (hr_query r2) = Inr (f\<lparr>af_before_id := av_id (last page1), af_limit := limit2\<rparr>)"
  shows "\<exists>log. prefix (d_audit (w_db w1)) log \<and> prefix log (d_audit (w_db w1')) \<and>
    page1 @ page2 = map scan_audit_row (take (length page1 + nat limit2) (filter (where_clause f) (rev log)))"
proof -
  obtain v1 where v1: "page1 = map scan_audit_row (search_rows f (w_db v1))" "only_audit e w1 v1" "only_audit e v1 w1'"
    using assms(1,2,9) by (cases rule: Search_cases [of e r1 w1]) auto
  obtain v2 where v2: "page2 = map scan_audit_row (search_rows (f\<lparr>af_before_id := av_id (last page1), af_limit := limit2\<rparr>) (w_db v2))"
    "only_audit e w2 v2"
    using assms(7,8,11) by (cases rule: Search_cases [of e r2 w2]) auto
  have ok: "audit_ok (w_db v1)" "audit_ok (w_db v2)" using v1(2) v2(2) assms(4,6) by (auto simp: only_audit_def)
  let ?M = "filter (where_clause f) (rev (d_audit (w_db v1)))"
  define rows where "rows = take (nat (af_limit f)) ?M"
  have page1: "page1 = map scan_audit_row rows" using v1(1) by (simp add: search_rows_eq [OF ok(1)] rows_def)
  with assms(3) have last: "av_id (last page1) = ar_id (last rows)" by (simp add: last_map scan_audit_row_def)
  obtain extra where "d_audit (w_db v2) = d_audit (w_db v1) @ extra"
    using v1(3) v2(2) assms(5) by (auto simp: only_audit_def prefix_def)
  moreover have "rows \<noteq> []" "0 < av_id (last page1)" using page1 assms(3,10) by simp_all
  ultimately have "page2 = map scan_audit_row (take (nat limit2) (drop (length rows) ?M))"
    using page_after [OF ok _ rows_def _ last] by (simp add: v2(1) search_rows_eq [OF ok(2)])
  moreover have "rows = take (length rows) ?M" by (simp add: rows_def min_def)
  ultimately have "page1 @ page2 = map scan_audit_row (take (length page1 + nat limit2) ?M)"
    using page1 by (metis length_map map_append take_add)
  with v1(2,3) show ?thesis by (intro exI [of _ "d_audit (w_db v1)"]) (auto simp: only_audit_def prefix_def)
qed


section \<open>A concrete walk\<close>

definition demo_search :: "(string \<times> string) list \<Rightarrow> http_request" where
  "demo_search q = \<lparr>hr_method = ''GET'', hr_path = ''/admin/audit/search'', hr_authorization = [], hr_trace_header = [],
     hr_remote = [], hr_query = q, hr_params = [], hr_body = Bad_body, hr_trace = ''t'', hr_requester = None\<rparr>"

definition demo_filter :: audit_filter where
  "demo_filter = \<lparr>af_limit = 1, af_since = None, af_until = None, af_before_id = 0, af_trace_id = [],
     af_app_id = [], af_stage = []\<rparr>"

definition demo_walked :: world where
  "demo_walked = snd (Search demo_env (demo_search [(''limit'', ''1'')]) empty_world)"

lemma demo_parse:
  "parse_filter [(''limit'', ''1'')] = Inr demo_filter"
  "parse_filter [(''limit'', ''1''), (''before_id'', ''1'')] = Inr (demo_filter\<lparr>af_before_id := 1, af_limit := 1\<rparr>)"
  by code_simp+

lemma demo_search_simps [simp]: "hr_query (demo_search q) = q"
  by (simp add: demo_search_def)

lemma demo_search_runs:
  "parse_filter q = Inr f \<Longrightarrow> \<exists>page. rs_reply (fst (Search demo_env (demo_search q) w)) = J_audit page (af_limit f)"
  by (cases rule: Search_cases [of demo_env "demo_search q" w]) (auto simp: no_faults_def)

text \<open>The first page is the row that the search itself wrote first, with id 1.\<close>

lemma demo_first_page:
  assumes "rs_reply (fst (Search demo_env (demo_search [(''limit'', ''1'')]) empty_world)) = J_audit page limit"
  shows "\<exists>v. page = [v] \<and> av_id v = 1"
proof (cases rule: Search_cases [of demo_env "demo_search [(''limit'', ''1'')]" empty_world])
  case (shown f w2)
  let ?ev = "flow_event (fst (newAuditFlow demo_env (demo_search [(''limit'', ''1'')]) CapAuditSearch empty_world)) StageReceived"
  have "event_ok ?ev" by (simp add: event_ok_def flow_event_def newAuditFlow_def new_uuid_def zero_event_def)
  then have "fst (Write demo_env ?ev (tick empty_world)) = Inr ()"
    by (intro Write_no_faults) (simp_all add: no_faults_def)
  then obtain t where "w_db w2 = append_audit empty_db (chained_row demo_env ?ev t empty_db)"
    unfolding shown(6) flow_received_def writeAuditSafe_def
    by (cases rule: Write_cases [of demo_env ?ev "tick empty_world"]) (simp_all add: empty_world_def)
  then obtain row where row: "d_audit (w_db w2) = [row]" "ar_id row = 1"
    by (simp add: append_audit_def chained_row_def unhashed_row_def Let_def empty_db_def)
  have f: "f = demo_filter" using shown(1) demo_parse(1) by simp
  have "search_rows f (w_db w2) = [row]"
    by (simp add: search_rows_def row f demo_filter_def where_clause_def)
  with shown(3) assms row show ?thesis by (simp add: scan_audit_row_def)
qed (use assms in auto)

lemma empty_audit_ok [simp]: "audit_ok (w_db empty_world)"
  by (simp add: empty_world_def empty_db_def audit_ok_def)

text \<open>Two rows of one trace: the second took the chain's lock later but read the clock earlier.\<close>

definition demo_row :: "int \<Rightarrow> int \<Rightarrow> audit_row" where
  "demo_row i t = \<lparr>ar_id = i, ar_at = t, ar_trace_id = Some ''x'', ar_message_id = None, ar_stage = StageReceived, ar_app_id = None,
     ar_capability = None, ar_capability_set_ver = None, ar_endpoint = None, ar_route_strategy = None, ar_delivery_channel = None,
     ar_recipient_user_id = None, ar_recipient_chat_id = None, ar_error_code = None, ar_details = ''{}'', ar_prev_hash = [],
     ar_row_hash = []\<rparr>"

definition demo_crossed :: world where
  "demo_crossed = empty_world\<lparr>w_db := empty_db\<lparr>d_audit := [demo_row 1 20, demo_row 2 10], d_audit_seq := 3\<rparr>\<rparr>"

lemma demo_crossed_page:
  assumes "rs_reply (fst (Search demo_env (demo_search [(''trace_id'', ''x'')]) demo_crossed)) = J_audit page limit"
  shows "page = map scan_audit_row [demo_row 2 10, demo_row 1 20]"
proof (cases rule: Search_cases [of demo_env "demo_search [(''trace_id'', ''x'')]" demo_crossed])
  case (shown f w2)
  let ?ev = "flow_event (fst (newAuditFlow demo_env (demo_search [(''trace_id'', ''x'')]) CapAuditSearch demo_crossed)) StageReceived"
  have ev: "event_ok ?ev" "ev_trace_id ?ev = ''t''"
    by (simp_all add: event_ok_def flow_event_def newAuditFlow_def new_uuid_def zero_event_def demo_search_def)
  then have "fst (Write demo_env ?ev (tick demo_crossed)) = Inr ()"
    by (intro Write_no_faults) (simp_all add: no_faults_def)
  then obtain t where "w_db w2 = append_audit (w_db demo_crossed) (chained_row demo_env ?ev t (w_db demo_crossed))"
    unfolding shown(6) flow_received_def writeAuditSafe_def
    by (cases rule: Write_cases [of demo_env ?ev "tick demo_crossed"]) simp_all
  then obtain row where row: "d_audit (w_db w2) = [demo_row 1 20, demo_row 2 10, row]" "ar_trace_id row = Some ''t''"
    using ev(2) by (simp add: append_audit_def chained_row_def unhashed_row_def Let_def demo_crossed_def nullif_text_def)
  have "parse_filter [(''trace_id'', ''x'')] = Inr (demo_filter\<lparr>af_limit := 50, af_trace_id := ''x''\<rparr>)" by code_simp
  then have f: "f = demo_filter\<lparr>af_limit := 50, af_trace_id := ''x''\<rparr>" using shown(1) by simp
  have "search_rows f (w_db w2) = [demo_row 2 10, demo_row 1 20]"
    by (simp add: search_rows_def row f demo_filter_def where_clause_def demo_row_def)
  with shown(3) assms show ?thesis by simp
qed (use assms in auto)

theorem search_shows_matching_rows_witness:
  "\<exists>page. rs_reply (fst (Search demo_env (demo_search [(''trace_id'', ''x'')]) demo_crossed)) = J_audit page 50 \<and>
     sorted_wrt (>) (map av_id page) \<and> page = map scan_audit_row [demo_row 2 10, demo_row 1 20] \<and>
     ar_at (demo_row 2 10) < ar_at (demo_row 1 20)"
proof -
  let ?s = "Search demo_env (demo_search [(''trace_id'', ''x'')]) demo_crossed"
  have "parse_filter [(''trace_id'', ''x'')] = Inr (demo_filter\<lparr>af_limit := 50, af_trace_id := ''x''\<rparr>)" by code_simp
  then obtain page where page: "rs_reply (fst ?s) = J_audit page 50"
    using demo_search_runs [of "[(''trace_id'', ''x'')]" _ demo_crossed] by (fastforce simp: demo_filter_def)
  have "audit_ok (w_db demo_crossed)"
    by (simp add: demo_crossed_def demo_row_def audit_ok_def empty_db_def audit_stage_values_def StageReceived_def)
  from search_shows_matching_rows [OF surjective_pairing page this] have "sorted_wrt (>) (map av_id page)" by blast
  with page demo_crossed_page [OF page] show ?thesis by (auto simp: demo_row_def)
qed

theorem search_pages_join_witness:
  "\<exists>page1 page2 log. length page1 = 1 \<and> prefix log (d_audit (w_db demo_walked)) \<and>
     page1 @ page2 = map scan_audit_row (take 2 (filter (where_clause demo_filter) (rev log)))"
proof -
  let ?q1 = "[(''limit'', ''1'')]" and ?q2 = "[(''limit'', ''1''), (''before_id'', ''1'')]"
  let ?s1 = "Search demo_env (demo_search ?q1) empty_world" and ?s2 = "Search demo_env (demo_search ?q2) demo_walked"
  obtain page1 where p1: "rs_reply (fst ?s1) = J_audit page1 1"
    using demo_search_runs [OF demo_parse(1)] by (auto simp: demo_filter_def)
  obtain page2 where p2: "rs_reply (fst ?s2) = J_audit page2 1"
    using demo_search_runs [OF demo_parse(2)] by (auto simp: demo_filter_def)
  obtain v where v: "page1 = [v]" "av_id v = 1" using demo_first_page [OF p1] by blast
  have "only_audit demo_env empty_world demo_walked"
    unfolding demo_walked_def
    by (cases rule: Search_cases [of demo_env "demo_search ?q1" empty_world]) (auto intro: only_audit_trans)
  then have ok: "audit_ok (w_db demo_walked)" by (simp add: only_audit_def)
  have s1: "?s1 = (fst ?s1, demo_walked)" by (simp add: demo_walked_def)
  have s2: "?s2 = (fst ?s2, snd ?s2)" by simp
  have "\<exists>log. prefix (d_audit (w_db empty_world)) log \<and> prefix log (d_audit (w_db demo_walked)) \<and>
      page1 @ page2 = map scan_audit_row (take (length page1 + nat 1) (filter (where_clause demo_filter) (rev log)))"
    by (rule search_pages_join [OF s1 p1 _ _ _ ok s2 p2]) (simp_all add: v demo_parse)
  moreover have "length page1 + nat 1 = 2" by (simp add: v)
  ultimately show ?thesis using v(1) by (metis One_nat_def length_Cons list.size(3))
qed

end
