(* ===== verification/Go_Calendar.thy ===== *)
theory Go_Calendar
  imports Go_Time
begin

text \<open>
  Laws of the calendar: the date of a day and the day of a date are inverse to each other, and the text of an instant in RFC 3339
  parses to that instant.
\<close>

section \<open>Years\<close>

lemma cycle_part:
  fixes r :: int
  assumes "0 \<le> r" "0 < k" "r < 4 * k + 1"
  shows "0 \<le> min 3 (r div k) \<and> 0 \<le> r - min 3 (r div k) * k \<and> r - min 3 (r div k) * k \<le> k \<and>
    (min 3 (r div k) < 3 \<longrightarrow> r - min 3 (r div k) * k < k)"
proof (cases "r div k \<le> 3")
  case True
  moreover have "0 \<le> r div k" using assms by (simp add: pos_imp_zdiv_nonneg_iff)
  ultimately show ?thesis using assms by (simp add: min_def minus_div_mult_eq_mod less_imp_le)
next
  case False
  then have "3 * k \<le> (r div k) * k" using assms by (intro mult_right_mono) linarith+
  also have "\<dots> \<le> r" using div_mult_mod_eq [of r k] pos_mod_sign [OF assms(2), of r] by linarith
  finally have "3 * k \<le> r" .
  with False assms show ?thesis by (simp add: min_def)
qed

text \<open>The cycles of 400, 100, 4 and 1 years of a day number.\<close>

lemma year_cycles:
  fixes n :: int
  shows "\<exists>c400 c100 c4 c1 k. days_year n = 400 * c400 + 100 * c100 + 4 * c4 + c1 + 1 \<and>
    0 \<le> c100 \<and> c100 \<le> 3 \<and> 0 \<le> c4 \<and> c4 \<le> 24 \<and> 0 \<le> c1 \<and> c1 \<le> 3 \<and> 0 \<le> k \<and> k \<le> 365 \<and>
    n = 146097 * c400 + 36524 * c100 + 1461 * c4 + 365 * c1 + k \<and>
    (k = 365 \<longrightarrow> c1 = 3 \<and> (c4 = 24 \<longrightarrow> c100 = 3))"
proof -
  define r where "r = n mod 146097"
  define c100 where "c100 = min 3 (r div 36524)"
  define r1 where "r1 = r - c100 * 36524"
  define c4 where "c4 = r1 div 1461"
  define r2 where "r2 = r1 mod 1461"
  define c1 where "c1 = min 3 (r2 div 365)"
  have n: "n = 146097 * (n div 146097) + r" by (simp add: r_def)
  have r: "0 \<le> r" "r < 146097" by (simp_all add: r_def)
  have le3: "c100 \<le> 3" "c1 \<le> 3" by (simp_all add: c100_def c1_def)
  have c100: "0 \<le> c100 \<and> 0 \<le> r1 \<and> r1 \<le> 36524 \<and> (c100 < 3 \<longrightarrow> r1 < 36524)"
    unfolding c100_def r1_def by (rule cycle_part) (use r in simp_all)
  have c4: "0 \<le> c4" "c4 \<le> 24" "r1 = 1461 * c4 + r2" "0 \<le> r2" "r2 < 1461"
    unfolding c4_def r2_def using c100 by (simp_all add: pos_imp_zdiv_nonneg_iff) linarith
  have c1: "0 \<le> c1 \<and> 0 \<le> r2 - c1 * 365 \<and> r2 - c1 * 365 \<le> 365 \<and> (c1 < 3 \<longrightarrow> r2 - c1 * 365 < 365)"
    unfolding c1_def by (rule cycle_part) (use c4 in simp_all)
  have y: "days_year n = 400 * (n div 146097) + 100 * c100 + 4 * c4 + c1 + 1"
    by (simp add: days_year_def Let_def c100_def c4_def c1_def r1_def r2_def r_def)
  have e: "n = 146097 * (n div 146097) + 36524 * c100 + 1461 * c4 + 365 * c1 + (r2 - 365 * c1)"
    using n c4(3) by (simp add: r1_def)
  have l: "r2 - 365 * c1 = 365 \<longrightarrow> c1 = 3 \<and> (c4 = 24 \<longrightarrow> c100 = 3)"
    using c1 c4 c100 le3 by linarith
  show ?thesis
    by (intro exI [of _ "n div 146097"] exI [of _ c100] exI [of _ c4] exI [of _ c1] exI [of _ "r2 - 365 * c1"] conjI
        y e l) (use c100 c1 le3 c4 in linarith)+
qed

lemma div_rest: "0 \<le> r \<Longrightarrow> r < k \<Longrightarrow> (k * q + r) div k = q" "0 \<le> r \<Longrightarrow> r < k \<Longrightarrow> (k * q + r) mod k = r" for k :: int
  by (simp_all add: div_pos_pos_trivial)

lemma leap_cycles:
  fixes c400 :: int
  assumes "0 \<le> c100" "c100 \<le> 3" "0 \<le> c4" "c4 \<le> 24" "0 \<le> c1" "c1 \<le> 3"
  shows "year_start (400 * c400 + 100 * c100 + 4 * c4 + c1 + 1) = 146097 * c400 + 36524 * c100 + 1461 * c4 + 365 * c1"
    and "leap_year (400 * c400 + 100 * c100 + 4 * c4 + c1 + 1) \<longleftrightarrow> c1 = 3 \<and> (c4 = 24 \<longrightarrow> c100 = 3)"
proof -
  let ?y = "400 * c400 + 100 * c100 + 4 * c4 + c1"
  have f4: "?y = 4 * (100 * c400 + 25 * c100 + c4) + c1" and f100: "?y = 100 * (4 * c400 + c100) + (4 * c4 + c1)"
    and f400: "?y = 400 * c400 + (100 * c100 + 4 * c4 + c1)" by simp_all
  have "?y div 4 = 100 * c400 + 25 * c100 + c4" unfolding f4 using assms by (intro div_rest) linarith+
  moreover have "?y div 100 = 4 * c400 + c100" unfolding f100 using assms by (intro div_rest) linarith+
  moreover have "?y div 400 = c400" unfolding f400 using assms by (intro div_rest) linarith+
  ultimately show "year_start (?y + 1) = 146097 * c400 + 36524 * c100 + 1461 * c4 + 365 * c1" by (simp add: year_start_def)
  have m: "(k * q + r + 1) mod k = 0 \<longleftrightarrow> r + 1 = k" if "0 \<le> r" "r < k" for k q r :: int
  proof -
    have "(k * q + r + 1) mod k = (r + 1) mod k" by (simp add: add.assoc)
    with that show ?thesis by (cases "r + 1 = k") (simp_all add: mod_pos_pos_trivial)
  qed
  have "(?y + 1) mod 4 = 0 \<longleftrightarrow> c1 + 1 = 4" unfolding f4 using assms by (intro m) linarith+
  moreover have "(?y + 1) mod 100 = 0 \<longleftrightarrow> 4 * c4 + c1 + 1 = 100" unfolding f100 using assms by (intro m) linarith+
  moreover have "(?y + 1) mod 400 = 0 \<longleftrightarrow> 100 * c100 + 4 * c4 + c1 + 1 = 400" unfolding f400 using assms by (intro m) linarith+
  ultimately show "leap_year (?y + 1) \<longleftrightarrow> c1 = 3 \<and> (c4 = 24 \<longrightarrow> c100 = 3)" using assms by (simp add: leap_year_def) linarith
qed

definition year_len :: "int \<Rightarrow> int" where "year_len y = (if leap_year y then 366 else 365)"

lemma days_year_bounds: "year_start (days_year n) \<le> n \<and> n < year_start (days_year n) + year_len (days_year n)"
proof -
  obtain c400 c100 c4 c1 k where c: "days_year n = 400 * c400 + 100 * c100 + 4 * c4 + c1 + 1"
    "0 \<le> c100" "c100 \<le> 3" "0 \<le> c4" "c4 \<le> 24" "0 \<le> c1" "c1 \<le> 3" "0 \<le> k" "k \<le> 365"
    "n = 146097 * c400 + 36524 * c100 + 1461 * c4 + 365 * c1 + k" "k = 365 \<longrightarrow> c1 = 3 \<and> (c4 = 24 \<longrightarrow> c100 = 3)"
    using year_cycles [of n] by blast
  note cyc = leap_cycles [OF c(2-7), of c400]
  show ?thesis
  proof (cases "k = 365")
    case True
    with c cyc show ?thesis by (simp add: year_len_def)
  next
    case False
    with c cyc show ?thesis by (auto simp: year_len_def)
  qed
qed


section \<open>Months and days\<close>

lemma sum_month_days: "sum_list (month_days y) = year_len y"
  by (simp add: month_days_def year_len_def)

lemma find_month_correct:
  assumes "0 \<le> n" "n < sum_list ks" "find_month ks m0 n = (m, d)"
  shows "m0 \<le> m \<and> m < m0 + int (length ks) \<and> sum_list (take (nat (m - m0)) ks) + (d - 1) = n \<and> 1 \<le> d \<and> d \<le> ks ! nat (m - m0)"
  using assms
proof (induction ks m0 n rule: find_month.induct)
  case (2 k ks m0 n)
  show ?case
  proof (cases "n < k")
    case False
    with 2 have ih: "m0 + 1 \<le> m \<and> m < m0 + 1 + int (length ks) \<and> sum_list (take (nat (m - (m0 + 1))) ks) + (d - 1) = n - k \<and>
        1 \<le> d \<and> d \<le> ks ! nat (m - (m0 + 1))" by simp
    then have "nat (m - m0) = Suc (nat (m - (m0 + 1)))" by linarith
    with ih show ?thesis by simp
  qed (use 2 in auto)
qed simp

lemma days_date_correct:
  assumes "days_date n = (y, m, d)"
  shows "date_days y m d = n" "1 \<le> m" "m \<le> 12" "1 \<le> d" "d \<le> days_in y m"
proof -
  have y: "y = days_year n" "find_month (month_days y) 1 (n - year_start y) = (m, d)"
    using assms by (auto simp: days_date_def Let_def)
  have "0 \<le> n - year_start y" "n - year_start y < sum_list (month_days y)"
    using days_year_bounds [of n] by (simp_all add: y(1) sum_month_days)
  from find_month_correct [OF this y(2)] have *: "1 \<le> m" "m < 1 + int (length (month_days y))"
    "sum_list (take (nat (m - 1)) (month_days y)) + (d - 1) = n - year_start y" "1 \<le> d" "d \<le> month_days y ! nat (m - 1)" by auto
  then show "date_days y m d = n" "1 \<le> m" "m \<le> 12" "1 \<le> d" "d \<le> days_in y m"
    by (simp_all add: date_days_def days_in_def month_days_def)
qed

lemma days_date_inj: "days_date n = days_date n' \<Longrightarrow> n = n'"
  by (metis days_date_correct(1) prod_cases3)

lemma days_in_le: "1 \<le> m \<Longrightarrow> m \<le> 12 \<Longrightarrow> days_in y m \<le> 31"
proof -
  assume "1 \<le> m" "m \<le> 12"
  then have "nat (m - 1) < length (month_days y)" by (simp add: month_days_def)
  then have "days_in y m \<in> set (month_days y)" by (simp add: days_in_def)
  then show ?thesis by (auto simp: month_days_def split: if_splits)
qed


section \<open>Text\<close>

lemma zero_digit: "is_digit_char (CHR ''0'')" "digit_val (CHR ''0'') = 0"
  by code_simp+

lemma dec_val_zeros: "dec_val 0 (replicate k (CHR ''0'') @ s) = dec_val 0 s"
  by (induction k) (simp_all add: zero_digit)

lemma length_nat_dec: "n < 10 ^ k \<Longrightarrow> 0 < k \<Longrightarrow> length (nat_dec n) \<le> k"
proof (induction n arbitrary: k rule: nat_dec.induct)
  case (1 n)
  show ?case
  proof (cases "n < 10")
    case True
    with 1(3) show ?thesis by (simp add: nat_dec.simps [of n])
  next
    case False
    with 1(2) have "1 < k" by (cases "k = 1") (use 1(3) in auto)
    moreover from 1(2) have "n div 10 < 10 ^ (k - 1)" using 1(3) by (simp add: power_eq_if div_less_iff_less_mult mult.commute)
    ultimately have "length (nat_dec (n div 10)) \<le> k - 1" using 1(1) False by simp
    with \<open>1 < k\<close> False show ?thesis by (simp add: nat_dec.simps [of n])
  qed
qed

lemma pad_int_digits:
  assumes "0 \<le> x" "x < 10 ^ k" "0 < k"
  shows "length (pad_int k x) = k" "\<forall>c \<in> set (pad_int k x). is_digit_char c" "dec_val 0 (pad_int k x) = Some (nat x)"
proof -
  have "nat x < 10 ^ k" using assms by (simp add: nat_less_iff)
  then show "length (pad_int k x) = k" using assms length_nat_dec [of "nat x" k] by (simp add: pad_int_def Let_def)
  show "\<forall>c \<in> set (pad_int k x). is_digit_char c" using assms(1) nat_dec_digits by (auto simp: pad_int_def Let_def zero_digit)
  show "dec_val 0 (pad_int k x) = Some (nat x)" using assms(1) by (simp add: pad_int_def Let_def dec_val_zeros dec_val_nat_dec)
qed

lemma take_year_pad: "0 \<le> y \<Longrightarrow> y < 10000 \<Longrightarrow> take_year (pad_int 4 y @ s) = Some (y, s)"
  using pad_int_digits [of y 4] by (simp add: take_year_def list_all_iff)

lemma pad_int_2:
  assumes "0 \<le> x" "x < 100"
  obtains a b where "pad_int 2 x = [a, b]" "is_digit_char a" "is_digit_char b" "int (10 * digit_val a + digit_val b) = x"
proof -
  have d: "length (pad_int 2 x) = 2" "\<forall>c \<in> set (pad_int 2 x). is_digit_char c" "dec_val 0 (pad_int 2 x) = Some (nat x)"
    using pad_int_digits [of x 2] assms by simp_all
  from d(1) obtain a b where "pad_int 2 x = [a, b]" by (auto simp: numeral_2_eq_2 length_Suc_conv)
  with d assms show thesis by (intro that) auto
qed

lemma getnum_pad: "0 \<le> x \<Longrightarrow> x < 100 \<Longrightarrow> getnum fixed (pad_int 2 x @ s) = Some (x, s)"
  by (rule pad_int_2 [of x]) auto

lemma take_range_pad: "0 \<le> lo \<Longrightarrow> lo \<le> x \<Longrightarrow> x \<le> hi \<Longrightarrow> hi < 100 \<Longrightarrow> take_range fixed lo hi (pad_int 2 x @ s) = Some (x, s)"
  by (simp add: take_range_def getnum_pad)

lemma clock_parts:
  fixes s :: int
  shows "s mod 86400 div 3600 \<le> 23" "s mod 86400 mod 3600 div 60 \<le> 59" "s mod 86400 mod 60 \<le> 59"
    "0 \<le> s mod 86400 div 3600" "0 \<le> s mod 86400 mod 3600 div 60" "0 \<le> s mod 86400 mod 60"
    "s = s div 86400 * 86400 + (s mod 86400 div 3600 * 3600 + s mod 86400 mod 3600 div 60 * 60 + s mod 86400 mod 60)"
proof -
  define r where "r = s mod 86400"
  have r: "0 \<le> r" "r < 86400" by (simp_all add: r_def)
  have q: "r mod 3600 mod 60 = r mod 60" by (simp add: mod_mod_cancel)
  have "0 \<le> r mod 3600" "r mod 3600 < 3600" "0 \<le> r mod 60" "r mod 60 < 60" by simp_all
  moreover from this r show "s mod 86400 div 3600 \<le> 23" "s mod 86400 mod 3600 div 60 \<le> 59" "s mod 86400 mod 60 \<le> 59"
    "0 \<le> s mod 86400 div 3600" "0 \<le> s mod 86400 mod 3600 div 60" "0 \<le> s mod 86400 mod 60"
    unfolding r_def [symmetric] by linarith+
  have "s = s div 86400 * 86400 + r" "r = r div 3600 * 3600 + r mod 3600" "r mod 3600 = r mod 3600 div 60 * 60 + r mod 3600 mod 60"
    by (simp_all add: r_def)
  with q show "s = s div 86400 * 86400 + (s mod 86400 div 3600 * 3600 + s mod 86400 mod 3600 div 60 * 60 + s mod 86400 mod 60)"
    unfolding r_def [symmetric] by linarith
qed

lemma Parse_RFC3339_pads:
  assumes "0 \<le> y" "y < 10000" "1 \<le> m" "m \<le> 12" "1 \<le> d" "d \<le> days_in y m" "0 \<le> hh" "hh \<le> 23" "0 \<le> mi" "mi \<le> 59" "0 \<le> sec" "sec \<le> 59"
  shows "Parse_RFC3339 (pad_int 4 y @ ''-'' @ pad_int 2 m @ ''-'' @ pad_int 2 d @ ''T'' @ pad_int 2 hh @ '':'' @ pad_int 2 mi @ '':'' @
      pad_int 2 sec @ ''Z'') = Some ((date_days y m d * 86400 + hh * 3600 + mi * 60 + sec) * second_ns)"
proof -
  have "d < 100" using assms(3-6) days_in_le [of m y] by linarith
  then show ?thesis
    using assms by (simp add: Parse_RFC3339_def take_year_pad getnum_pad take_range_pad take_fraction_def take_zone_def)
qed

lemma Parse_Format_RFC3339:
  assumes "days_date (s div 86400) = (y, m, d)" "0 \<le> y" "y < 10000"
  shows "Parse_RFC3339 (Format_RFC3339 (s * second_ns)) = Some (s * second_ns)"
proof -
  note date = days_date_correct [OF assms(1)]
  have "Format_RFC3339 (s * second_ns) = pad_int 4 y @ ''-'' @ pad_int 2 m @ ''-'' @ pad_int 2 d @ ''T'' @
      pad_int 2 (s mod 86400 div 3600) @ '':'' @ pad_int 2 (s mod 86400 mod 3600 div 60) @ '':'' @ pad_int 2 (s mod 86400 mod 60) @ ''Z''"
    by (simp add: Format_RFC3339_def assms(1) Let_def)
  moreover have "date_days y m d * 86400 + s mod 86400 div 3600 * 3600 + s mod 86400 mod 3600 div 60 * 60 + s mod 86400 mod 60 = s"
    using date(1) clock_parts(7) [of s] by linarith
  ultimately show ?thesis
    by (simp only: Parse_RFC3339_pads [OF assms(2,3) date(2-5) clock_parts(4,1,5,2,6,3)])
qed

section \<open>Ranges of dates\<close>

lemma year_start_Suc: "year_start (y + 1) = year_start y + year_len y"
proof -
  have d: "z div k = (z - 1) div k + (if z mod k = 0 then 1 else 0)" if "1 < k" for z k :: int
  proof (cases "z mod k = 0")
    case True
    then obtain q where "z = k * q" by (auto simp: mod_eq_0_iff_dvd dvd_def)
    moreover have "(k * q - 1) div k = q - 1"
    proof -
      have "k * q - 1 = k * (q - 1) + (k - 1)" by (simp add: algebra_simps)
      then show ?thesis using that by (simp only: div_rest)
    qed
    ultimately show ?thesis using that by simp
  next
    case False
    have r: "0 < z mod k" "z mod k < k" using that False pos_mod_sign [of k z] pos_mod_bound [of k z] by linarith+
    have "z - 1 = k * (z div k) + (z mod k - 1)" by simp
    moreover have "(k * (z div k) + (z mod k - 1)) div k = z div k" by (rule div_rest) (use r in linarith)+
    ultimately have "(z - 1) div k = z div k" by (simp only:)
    with False show ?thesis by simp
  qed
  have "y mod 400 mod 100 = y mod 100" "y mod 100 mod 4 = y mod 4" by (simp_all add: mod_mod_cancel)
  then have n: "y mod 400 = 0 \<Longrightarrow> y mod 100 = 0" "y mod 100 = 0 \<Longrightarrow> y mod 4 = 0" by auto
  have e: "year_start (y + 1) = 365 * y + y div 4 - y div 100 + y div 400" by (simp add: year_start_def)
  consider "y mod 4 \<noteq> 0" "y mod 100 \<noteq> 0" "y mod 400 \<noteq> 0" | "y mod 4 = 0" "y mod 100 \<noteq> 0" "y mod 400 \<noteq> 0"
    | "y mod 4 = 0" "y mod 100 = 0" "y mod 400 \<noteq> 0" | "y mod 4 = 0" "y mod 100 = 0" "y mod 400 = 0"
    using n by metis
  then show ?thesis
    by cases (simp_all add: e d [of 4 y] d [of 100 y] d [of 400 y] year_start_def year_len_def leap_year_def)
qed

lemma year_start_mono: "y \<le> y' \<Longrightarrow> year_start y \<le> year_start y'"
proof (induction "nat (y' - y)" arbitrary: y')
  case (Suc k)
  then have "year_start y \<le> year_start (y' - 1)" by (intro Suc(1)) auto
  also have "\<dots> \<le> year_start y'" using year_start_Suc [of "y' - 1"] by (simp add: year_len_def split: if_splits)
  finally show ?case .
qed simp

text \<open>The year of a day lies between the years whose first days enclose it.\<close>

lemma days_year_range:
  assumes "year_start y \<le> n" "n < year_start y'"
  shows "y \<le> days_year n \<and> days_year n < y'"
proof -
  have "\<not> days_year n + 1 \<le> y" "\<not> y' \<le> days_year n"
    using assms days_year_bounds [of n] year_start_mono [of "days_year n + 1" y] year_start_mono [of y' "days_year n"]
    by (auto simp: year_start_Suc)
  then show ?thesis by linarith
qed

lemma month_days_nonneg: "\<forall>k \<in> set (month_days y). 28 \<le> k"
  by (simp add: month_days_def)

lemma date_days_range:
  assumes "1 \<le> m" "m \<le> 12" "1 \<le> d" "d \<le> days_in y m"
  shows "year_start y \<le> date_days y m d" "date_days y m d < year_start (y + 1)"
proof -
  let ?k = "nat (m - 1)" and ?ms = "month_days y"
  have "sum_list (take ?k ?ms) \<ge> 0" using month_days_nonneg by (intro sum_list_nonneg) (fastforce dest: in_set_takeD)
  then show "year_start y \<le> date_days y m d" using assms by (simp add: date_days_def)
  have k: "?k < length ?ms" using assms by (simp add: month_days_def)
  have "sum_list ?ms = sum_list (take ?k ?ms) + (?ms ! ?k + sum_list (drop (Suc ?k) ?ms))"
    using id_take_nth_drop [OF k] by (metis sum_list_append sum_list.Cons)
  moreover have "sum_list (drop (Suc ?k) ?ms) \<ge> 0" using month_days_nonneg by (intro sum_list_nonneg) (fastforce dest: in_set_dropD)
  ultimately show "date_days y m d < year_start (y + 1)"
    using assms(4) by (simp add: date_days_def year_start_Suc sum_month_days days_in_def)
qed

lemma RFC3339_day:
  assumes "year_start 0 \<le> n" "n < year_start 10000"
  shows "Parse_RFC3339 (Format_RFC3339 (n * 86400 * second_ns)) = Some (n * 86400 * second_ns)"
proof -
  obtain m d where "days_date n = (days_year n, m, d)" by (cases "days_date n") (auto simp: days_date_def Let_def)
  with days_year_range [OF assms] show ?thesis using Parse_Format_RFC3339 [of "n * 86400" "days_year n" m d] by simp
qed

lemma dec_val_bound: "dec_val acc s = Some n \<Longrightarrow> n < (acc + 1) * 10 ^ length s"
proof (induction s arbitrary: acc)
  case (Cons c s)
  then have c: "is_digit_char c" and n: "n < (10 * acc + digit_val c + 1) * 10 ^ length s" by (simp_all split: if_splits)
  have "digit_val c < 10" using c by (auto simp: digit_val_def is_digit_char_def)
  then have "(10 * acc + digit_val c + 1) * 10 ^ length s \<le> (10 * acc + 10) * 10 ^ length s" by (intro mult_right_mono) simp_all
  with n have "n < (10 * acc + 10) * 10 ^ length s" by (rule less_le_trans)
  then show ?case by (simp add: algebra_simps)
qed simp

lemma take_year_range: "take_year s = Some (y, s') \<Longrightarrow> 0 \<le> y \<and> y < 10000"
  using dec_val_bound [of 0 "take 4 s"] by (auto simp: take_year_def split: if_splits)


section \<open>Dates and their texts\<close>

lemma month_sums_mono:
  assumes "m < m'" "m' \<le> length (month_days y)"
  shows "sum_list (take m (month_days y)) + month_days y ! m \<le> sum_list (take m' (month_days y))"
proof -
  have "take m' (month_days y) = take (Suc m) (month_days y) @ take (m' - Suc m) (drop (Suc m) (month_days y))"
    using assms(1) take_add [of "Suc m" "m' - Suc m" "month_days y"] by simp
  moreover have "take (Suc m) (month_days y) = take m (month_days y) @ [month_days y ! m]"
    using assms by (simp add: take_Suc_conv_app_nth)
  moreover have "0 \<le> sum_list (take (m' - Suc m) (drop (Suc m) (month_days y)))"
    using month_days_nonneg [of y] by (intro sum_list_nonneg) (fastforce dest: in_set_takeD in_set_dropD)
  ultimately show ?thesis by simp
qed

text \<open>A date is the date of its day.\<close>

lemma days_date_days:
  assumes "1 \<le> m" "m \<le> 12" "1 \<le> d" "d \<le> days_in y m"
  shows "days_date (date_days y m d) = (y, m, d)"
proof -
  obtain y' m' d' where e: "days_date (date_days y m d) = (y', m', d')" by (cases "days_date (date_days y m d)") auto
  note c = days_date_correct [OF e]
  have "y' = days_year (date_days y m d)" using e by (simp add: days_date_def Let_def)
  then have y: "y' = y" using days_year_range [OF date_days_range [OF assms]] by simp
  let ?s = "\<lambda>k. sum_list (take (nat (k - 1)) (month_days y))"
  have eq: "?s m' + d' = ?s m + d" using c(1) y by (simp add: date_days_def)
  have l: "length (month_days y) = 12" by (simp add: month_days_def)
  have "\<not> m < m'"
  proof
    assume "m < m'"
    then have "?s m + days_in y m \<le> ?s m'"
      using month_sums_mono [of "nat (m - 1)" "nat (m' - 1)" y] c(2,3) assms(1) l by (simp add: days_in_def nat_less_eq_zless nat_mono_iff)
    with eq assms(4) c(4) show False by linarith
  qed
  moreover have "\<not> m' < m"
  proof
    assume "m' < m"
    then have "?s m' + days_in y m' \<le> ?s m"
      using month_sums_mono [of "nat (m' - 1)" "nat (m - 1)" y] c(2) assms(1,2) l by (simp add: days_in_def nat_mono_iff)
    with eq c(5) y assms(3) show False by simp
  qed
  ultimately have "m' = m" by simp
  with eq y e show ?thesis by simp
qed

lemma pad_int_inj:
  assumes "pad_int k a = pad_int k b"
  shows "a = b"
proof -
  have neg: "x < 0 \<Longrightarrow> hd (pad_int k x) = CHR ''-''" for x by (simp add: pad_int_def Let_def)
  have pos: "is_digit_char (hd (pad_int k x))" if "0 \<le> x" for x
    using that nat_dec_hd_digit [of "nat x"] by (cases "k - length (nat_dec (nat x))") (simp_all add: pad_int_def Let_def zero_digit)
  have val: "dec_val 0 (replicate j (CHR ''0'') @ nat_dec n) = Some n" for j n by (simp add: dec_val_zeros dec_val_nat_dec)
  have "a < 0 \<longleftrightarrow> b < 0" using neg pos assms by (metis not_digit_sign(1) not_less)
  then have "dec_val 0 (replicate (k - length (nat_dec (nat \<bar>a\<bar>))) (CHR ''0'') @ nat_dec (nat \<bar>a\<bar>)) =
      dec_val 0 (replicate (k - length (nat_dec (nat \<bar>b\<bar>))) (CHR ''0'') @ nat_dec (nat \<bar>b\<bar>))"
    using assms by (auto simp: pad_int_def Let_def)
  then have "nat \<bar>a\<bar> = nat \<bar>b\<bar>" by (simp only: val option.inject)
  with \<open>a < 0 \<longleftrightarrow> b < 0\<close> show ?thesis by auto
qed

lemma pad_int_2_length: "0 \<le> x \<Longrightarrow> x < 100 \<Longrightarrow> length (pad_int 2 x) = 2"
  using pad_int_digits(1) [of x 2] by simp

text \<open>The texts of a month and of a day determine them.\<close>

lemma month_text_inj:
  assumes "pad_int 4 y @ ''-'' @ pad_int 2 m = pad_int 4 y' @ ''-'' @ pad_int 2 m'" "0 \<le> m" "m < 100" "0 \<le> m'" "m' < 100"
  shows "y = y' \<and> m = m'"
proof -
  have "length (pad_int 2 m) = length (pad_int 2 m')" using assms by (simp add: pad_int_2_length)
  then have "pad_int 4 y = pad_int 4 y'" "pad_int 2 m = pad_int 2 m'" using assms(1) by (simp_all add: append_eq_append_conv)
  then show ?thesis by (blast intro: pad_int_inj)
qed

end
