(* ===== verification/Ui_Audit.thy ===== *)
theory Ui_Audit
  imports Ui_Apps Api_Audit Go_Calendar
begin

text \<open>
  The audit page of the admin UI (\<^verbatim>\<open>src/internal/adminui/audit.go\<close>), a view of the API's audit search with keyset
  links from page to page, its client (\<^verbatim>\<open>apiclient/audit.go\<close>), and the verification of the hash chain. The
  property of the verification closes the circle with the writers: what the page says about the log is true of it.
\<close>

section \<open>Dates and durations\<close>

text \<open>\<^verbatim>\<open>time.Parse("2006-01-02", v)\<close> and \<^verbatim>\<open>t.UTC().Format("2006-01-02")\<close>\<close>

definition Parse_date :: "string \<Rightarrow> time option" where
  "Parse_date s =
     Option.bind (take_year s) (\<lambda>(y, s).
     Option.bind (skip_char (CHR ''-'') s) (\<lambda>s.
     Option.bind (take_range True 1 12 s) (\<lambda>(m, s).
     Option.bind (skip_char (CHR ''-'') s) (\<lambda>s.
     Option.bind (getnum True s) (\<lambda>(d, s).
       if s \<noteq> [] \<or> d < 1 \<or> d > days_in y m then None else Some (date_days y m d * 86400 * second_ns))))))"

definition Format_date :: "time \<Rightarrow> string" where
  "Format_date t = (case days_date (t div second_ns div 86400) of (y, m, d) \<Rightarrow> pad_int 4 y @ ''-'' @ pad_int 2 m @ ''-'' @ pad_int 2 d)"

text \<open>\<^verbatim>\<open>t.Format("01-02 15:04")\<close> of the wall clock \<open>t\<close>.\<close>

definition Format_minutes :: "time \<Rightarrow> string" where
  "Format_minutes t =
     (let s = t div second_ns; r = s mod 86400
      in case days_date (s div 86400) of (y, m, d) \<Rightarrow>
         pad_int 2 m @ ''-'' @ pad_int 2 d @ '' '' @ pad_int 2 (r div 3600) @ '':'' @ pad_int 2 (r mod 3600 div 60))"

text \<open>The offset at the end of a text that parses as RFC 3339, in seconds: the zone the parsed time has.\<close>

definition zone_of :: "string \<Rightarrow> int" where
  "zone_of s =
     (if s \<noteq> [] \<and> last s = CHR ''Z'' then 0
      else (case take_zone (drop (length s - 6) s) of None \<Rightarrow> 0 | Some (off, _) \<Rightarrow> off))"

text \<open>\<^verbatim>\<open>d.Round(time.Millisecond).String()\<close>\<close>

definition round_millis :: "duration \<Rightarrow> int" where
  "round_millis d = (if d < 0 then - ((- d + 500000) div 1000000) else (d + 500000) div 1000000)"

definition millis_fraction :: "nat \<Rightarrow> string" where
  "millis_fraction ms =
     (if ms = 0 then []
      else CHR ''.'' # rev (dropWhile (\<lambda>c. c = CHR ''0'') (rev (pad_int 3 (int ms)))))"

definition millis_string :: "int \<Rightarrow> string" where
  "millis_string ms =
     (let n = nat \<bar>ms\<bar>; sign = (if ms < 0 then ''-'' else []); s = n div 1000
      in if n = 0 then ''0s''
         else if n < 1000 then sign @ nat_dec n @ ''ms''
         else sign @
           (if s \<ge> 3600 then nat_dec (s div 3600) @ ''h'' else []) @
           (if s \<ge> 60 then nat_dec (s div 60 mod 60) @ ''m'' else []) @
           nat_dec (s mod 60) @ millis_fraction (n mod 1000) @ ''s'')"


section \<open>The client\<close>

text \<open>\<^verbatim>\<open>url.Values\<close> with one value per key, and its \<^verbatim>\<open>Encode\<close>, which sorts by key.\<close>

fun insert_param :: "string \<times> string \<Rightarrow> (string \<times> string) list \<Rightarrow> (string \<times> string) list" where
  "insert_param x [] = [x]"
| "insert_param x (y # ys) = (if text_le (fst x) (fst y) then x # y # ys else y # insert_param x ys)"

definition url_values :: "(string \<times> string) list \<Rightarrow> (string \<times> string) list" where
  "url_values kvs = foldr insert_param (filter (\<lambda>kv. snd kv \<noteq> []) kvs) []"

definition Encode :: "(string \<times> string) list \<Rightarrow> string" where
  "Encode kvs = join_with ''&'' (map (\<lambda>(k, v). QueryEscape k @ ''='' @ QueryEscape v) kvs)"

record audit_search_params =
  sp_limit :: string
  sp_since :: string
  sp_until :: string
  sp_trace :: string
  sp_app :: string
  sp_stage :: string
  sp_before :: string

definition search_request :: "ui_config \<Rightarrow> string \<Rightarrow> audit_search_params \<Rightarrow> http_request" where
  "search_request c trace p =
     (admin_request c trace ''GET'' ''/admin/audit/search'' Bad_body)\<lparr>hr_query := url_values
        [(''limit'', sp_limit p), (''since'', sp_since p), (''until'', sp_until p), (''trace_id'', sp_trace p),
         (''app_id'', sp_app p), (''stage'', sp_stage p), (''before_id'', sp_before p)]\<rparr>"

text \<open>An object without \<^verbatim>\<open>results\<close> decodes to no rows.\<close>

definition client_SearchAudit ::
  "api \<Rightarrow> ui_config \<Rightarrow> string \<Rightarrow> audit_search_params \<Rightarrow> ui_state \<Rightarrow> (client_error + audit_view list) \<times> ui_state" where
  "client_SearchAudit api c trace p u =
     (case ui_do (api (search_request c trace p)) u of
        (None, u1) \<Rightarrow> (Inl Client_failed, u1)
      | (Some resp, u1) \<Rightarrow>
          if rs_status resp \<noteq> 200
          then (Inl (APIError (if error_code resp = [] then ''unknown_error'' else error_code resp) (rs_status resp)), u1)
          else (Inr (case rs_reply resp of J_audit rows _ \<Rightarrow> rows | _ \<Rightarrow> []), u1))"


section \<open>The page\<close>

definition auditStages :: "string list" where
  "auditStages =
     [''received'', ''validated'', ''dispatched'', ''delivered'', ''denied'', ''retried'', ''deferred'', ''intrusion_kick'',
      ''intrusion_unmitigated'', ''bot_not_admin'', ''telegram_auth_failed'', ''key_issued'', ''key_revoked'']"

definition auditLimitOptions :: "string list" where "auditLimitOptions = [''10'', ''20'', ''30'', ''50'']"
definition defaultAuditLimit :: string where "defaultAuditLimit = ''10''"

definition defaultAuditFilters :: "time \<Rightarrow> audit_filters" where
  "defaultAuditFilters now = zero_audit_filters\<lparr>fl_since := Format_date now, fl_limit := defaultAuditLimit\<rparr>"

definition auditDateToRFC3339 :: "string \<Rightarrow> bool \<Rightarrow> string" where
  "auditDateToRFC3339 v endOfDay =
     (case Parse_date v of
        None \<Rightarrow> v
      | Some t \<Rightarrow> Format_RFC3339 (if endOfDay then t + 24 * hour_ns else t))"

definition normalizeAuditDate :: "string \<Rightarrow> string" where
  "normalizeAuditDate v = (case Parse_RFC3339 v of Some t \<Rightarrow> Format_date t | None \<Rightarrow> v)"

definition stageBadge :: "string \<Rightarrow> string" where
  "stageBadge stage =
     (if stage \<in> set [''key_revoked'', ''denied'', ''intrusion_kick'', ''intrusion_unmitigated'', ''telegram_auth_failed'', ''bot_not_admin'']
      then ''badge-red''
      else if stage \<in> set [''key_issued'', ''delivered'', ''validated''] then ''badge-green''
      else if stage \<in> set [''received'', ''dispatched''] then ''badge-blue''
      else if stage \<in> set [''retried'', ''deferred''] then ''badge-purple''
      else ''badge-gray'')"

definition auditTimeLabel :: "string \<Rightarrow> string" where
  "auditTimeLabel stamp = (case Parse_RFC3339 stamp of Some t \<Rightarrow> Format_minutes (t + zone_of stamp * second_ns) | None \<Rightarrow> stamp)"

definition strOrEmpty :: "string option \<Rightarrow> string" where
  "strOrEmpty s = (case s of None \<Rightarrow> [] | Some x \<Rightarrow> x)"

definition recipient_label :: "int option \<Rightarrow> int option \<Rightarrow> string" where
  "recipient_label usr chat =
     (case usr of Some i \<Rightarrow> FormatInt i | None \<Rightarrow> (case chat of Some i \<Rightarrow> ''chat:'' @ FormatInt i | None \<Rightarrow> []))"

definition recipientLabel :: "audit_view \<Rightarrow> string" where
  "recipientLabel row = recipient_label (av_recipient_user_id row) (av_recipient_chat_id row)"

definition audit_display :: "audit_view \<Rightarrow> audit_display_row" where
  "audit_display row =
     \<lparr>ad_id = av_id row, ad_at = auditTimeLabel (av_at row), ad_stage = av_stage row, ad_badge = stageBadge (av_stage row),
      ad_app = strOrEmpty (av_app_id row), ad_endpoint = strOrEmpty (av_endpoint row),
      ad_channel = strOrEmpty (av_delivery_channel row), ad_recipient = recipientLabel row,
      ad_error = strOrEmpty (av_error_code row), ad_trace = strOrEmpty (av_trace_id row)\<rparr>"

definition auditPageURL :: "audit_filters \<Rightarrow> string \<Rightarrow> string" where
  "auditPageURL f beforeID =
     (let v = url_values [(''stage'', fl_stage f), (''app_id'', fl_app f), (''trace_id'', fl_trace f), (''limit'', fl_limit f),
                (''since'', fl_since f), (''until'', fl_until f), (''before_id'', beforeID)]
      in if v = [] then ''/audit'' else ''/audit?'' @ Encode v)"

text \<open>The page size and the limit that is asked for, one row more; \<^verbatim>\<open>n+1\<close> wraps around.\<close>

definition fetch_limit :: "string \<Rightarrow> string \<times> int" where
  "fetch_limit limit =
     (case Atoi limit of
        Some n \<Rightarrow> if n > 0 then (FormatInt (min (if n = int64_max then int64_min else n + 1) 500), n) else (limit, 0)
      | None \<Rightarrow> (limit, 0))"

definition audit_app_options :: "env \<Rightarrow> ui_config \<Rightarrow> audit_filters \<Rightarrow> ui_state \<Rightarrow> string list \<times> ui_state" where
  "audit_app_options e c filters u =
     (if \<not> uc_store c then ([], u)
      else
        (case ui_do (ListApps e) u of
           (Inl _, u1) \<Rightarrow> ([], u1)
         | (Inr apps, u1) \<Rightarrow>
             (let opts = map vw_id apps
              in (if fl_app filters \<noteq> [] \<and> fl_app filters \<notin> set opts then sort_text (opts @ [fl_app filters]) else opts, u1))))"

definition audit_params :: "audit_filters \<Rightarrow> audit_search_params" where
  "audit_params filters =
     \<lparr>sp_limit = fst (fetch_limit (fl_limit filters)), sp_since = auditDateToRFC3339 (fl_since filters) False,
      sp_until = auditDateToRFC3339 (fl_until filters) True, sp_trace = fl_trace filters, sp_app = fl_app filters,
      sp_stage = fl_stage filters, sp_before = fl_before filters\<rparr>"

text \<open>What the rows of the answer make of the page.\<close>

definition show_rows :: "audit_filters \<Rightarrow> audit_view list \<Rightarrow> page \<Rightarrow> page" where
  "show_rows filters rows data =
     (let pageSize = snd (fetch_limit (fl_limit filters));
          hasNext = (pageSize > 0 \<and> int (length rows) > pageSize);
          rows = (if hasNext then take (nat pageSize) rows else rows);
          shown = map audit_display rows
      in data\<lparr>pg_audit_rows := shown,
           pg_audit_next := (if hasNext \<and> shown \<noteq> [] then auditPageURL filters (FormatInt (ad_id (last shown))) else []),
           pg_audit_first := (if fl_before filters \<noteq> [] then auditPageURL filters [] else [])\<rparr>)"

definition auditPageData :: "env \<Rightarrow> api \<Rightarrow> ui_config \<Rightarrow> ui_request \<Rightarrow> audit_filters \<Rightarrow> ui_state \<Rightarrow> page \<times> ui_state" where
  "auditPageData e api c r filters u =
     (case basePageData e r t_audit_title ''audit'' u of (data, u1) \<Rightarrow>
      case audit_app_options e c filters u1 of (apps, u2) \<Rightarrow>
      let data = data\<lparr>pg_subtitle := ''/admin/audit/search'', pg_audit_filters := filters, pg_audit_stages := auditStages,
            pg_audit_limits := (if fl_limit filters \<noteq> [] \<and> fl_limit filters \<notin> set auditLimitOptions
                                then fl_limit filters # auditLimitOptions else auditLimitOptions),
            pg_audit_apps := apps\<rparr>
      in case client_SearchAudit api c (ur_trace r) (audit_params filters) u2 of
           (Inl err, u3) \<Rightarrow> (data\<lparr>pg_error := friendlyAPIError err\<rparr>, u3)
         | (Inr rows, u3) \<Rightarrow> (show_rows filters rows data, u3))"

definition query_filters :: "ui_request \<Rightarrow> audit_filters" where
  "query_filters r =
     (let q = get_value (ur_query r)
      in \<lparr>fl_limit = (if q ''limit'' = [] then defaultAuditLimit else q ''limit''), fl_since = normalizeAuditDate (q ''since''),
          fl_until = normalizeAuditDate (q ''until''), fl_trace = q ''trace_id'', fl_app = q ''app_id'', fl_stage = q ''stage'',
          fl_before = q ''before_id''\<rparr>)"

definition handleAuditPage :: "env \<Rightarrow> api \<Rightarrow> ui_config \<Rightarrow> ui_handler" where
  "handleAuditPage e api c r u =
     (case (if ur_raw_query r = [] then (case ui_now e u of (now, u1) \<Rightarrow> (defaultAuditFilters now, u1))
            else (query_filters r, u)) of (filters, u1) \<Rightarrow>
      case auditPageData e api c r filters u1 of (data, u2) \<Rightarrow> (render c ''audit.html'' data, u2))"


section \<open>Verification\<close>

definition hashPrefix :: "bytes \<Rightarrow> string" where
  "hashPrefix h = (let s = hex_encode h in if length s > 8 then take 8 s else s)"

definition break_view :: "verify_break \<Rightarrow> audit_verify_break" where
  "break_view b =
     \<lparr>wb_id = vb_id b, wb_at = Format_RFC3339 (micros_time (vb_at b)), wb_stage = vb_stage b, wb_column = vb_column b,
      wb_expected = hashPrefix (vb_expected b), wb_stored = hashPrefix (vb_stored b)\<rparr>"

definition handleAuditVerify :: "env \<Rightarrow> api \<Rightarrow> ui_config \<Rightarrow> ui_handler" where
  "handleAuditVerify e api c r u =
     (case ui_now e u of (now, u1) \<Rightarrow>
      case auditPageData e api c r (defaultAuditFilters now) u1 of (data, u2) \<Rightarrow>
      if \<not> uc_store c then (render c ''audit.html'' (data\<lparr>pg_error := t_verify_needs_db\<rparr>), u2)
      else
        (case ui_now e u2 of (start, u3) \<Rightarrow>
         let walk = uc_walk c (w_tick (ui_w u3))
         in case ui_do (VerifyAuditChain e (map_option fst walk)) u3 of ((res, err), u4) \<Rightarrow>
            case ui_now e u4 of (fin, u5) \<Rightarrow>
            let timedOut = (case walk of Some (_, deadline) \<Rightarrow> deadline | None \<Rightarrow> False)
            in if err \<noteq> None \<and> \<not> timedOut then (render c ''audit.html'' (data\<lparr>pg_error := t_verify_failed\<rparr>), u5)
               else
                 (render c ''audit.html'' (data\<lparr>pg_audit_verify := Some
                    \<lparr>vv_ok = (err = None \<and> vr_ok res), vv_partial = (err \<noteq> None), vv_rows = vr_rows res,
                     vv_elapsed = millis_string (round_millis (time_sub fin start)),
                     vv_break = map_option break_view (vr_break res)\<rparr>\<rparr>), u5)))"



section \<open>What the page says about the log\<close>

lemma linked_first_bad:
  "\<not> linked sha h rows \<Longrightarrow>
     \<exists>good bad rest. rows = good @ bad # rest \<and> linked sha h good \<and> \<not> linked sha (end_hash h good) [bad]"
proof (induction rows arbitrary: h)
  case (Cons row rows)
  show ?case
  proof (cases "linked sha h [row]")
    case True
    then have "\<not> linked sha (cr_row_hash row) rows" using Cons.prems by simp
    from Cons.IH [OF this] obtain good bad rest where "rows = good @ bad # rest" "linked sha (cr_row_hash row) good"
      "\<not> linked sha (end_hash (cr_row_hash row) good) [bad]" by blast
    with True show ?thesis by (intro exI [of _ "row # good"] exI [of _ bad] exI [of _ rest]) simp
  next
    case False
    then show ?thesis by (intro exI [of _ "[]"] exI [of _ row] exI [of _ rows]) simp
  qed
qed simp

text \<open>What verification reports of the first row that is not linked: the row, the column that fails, what that column holds and
  what it should.\<close>

definition break_of :: "(bytes \<Rightarrow> bytes) \<Rightarrow> bytes \<Rightarrow> audit_row \<Rightarrow> verify_break" where
  "break_of sha prev row =
     (if ar_prev_hash row \<noteq> prev
      then \<lparr>vb_id = ar_id row, vb_at = ar_at row, vb_stage = ar_stage row, vb_column = ''prev_hash'', vb_expected = prev,
            vb_stored = ar_prev_hash row\<rparr>
      else \<lparr>vb_id = ar_id row, vb_at = ar_at row, vb_stage = ar_stage row, vb_column = ''row_hash'',
            vb_expected = ComputeRowHash sha prev (audit_chain_payload row), vb_stored = ar_row_hash row\<rparr>)"

definition head_hash :: "(bytes \<Rightarrow> bytes) \<Rightarrow> audit_row list \<Rightarrow> bytes" where
  "head_hash sha rows = (if rows = [] then GenesisHash sha else ar_row_hash (last rows))"

lemma end_head_hash: "end_hash (GenesisHash sha) (map chain_row_of rows) = head_hash sha rows"
  by (cases "rows = []") (simp_all add: head_hash_def end_hash_last last_map chain_row_of_def)

lemma VerifyChain_cases:
  obtains (intact) "linked sha (GenesisHash sha) (map chain_row_of rows)"
      "VerifyChain sha (map chain_row_of rows) (None :: db_error option) = (\<lparr>vr_ok = True, vr_rows = length rows, vr_break = None\<rparr>, None)"
  | (broken) good bad rest where "rows = good @ bad # rest" "linked sha (GenesisHash sha) (map chain_row_of good)"
      "\<not> linked sha (GenesisHash sha) (map chain_row_of (good @ [bad]))" "\<not> linked sha (GenesisHash sha) (map chain_row_of rows)"
      "VerifyChain sha (map chain_row_of rows) (None :: db_error option) =
         (\<lparr>vr_ok = False, vr_rows = length good, vr_break = Some (break_of sha (head_hash sha good) bad)\<rparr>, None)"
proof (cases "linked sha (GenesisHash sha) (map chain_row_of rows)")
  case True
  then show thesis using intact VerifyChain_linked [OF True] by simp
next
  case False
  obtain cgood cbad crest where split: "map chain_row_of rows = cgood @ cbad # crest" "linked sha (GenesisHash sha) cgood"
    "\<not> linked sha (end_hash (GenesisHash sha) cgood) [cbad]" using linked_first_bad [OF False] by blast
  then obtain good bad rest where rows: "rows = good @ bad # rest" "cgood = map chain_row_of good" "cbad = chain_row_of bad"
    by (auto simp: map_eq_append_conv map_eq_Cons_conv)
  have "VerifyChain sha (map chain_row_of rows) (None :: db_error option) =
      verify_loop sha None (chain_row_of bad # map chain_row_of rest) (head_hash sha good) \<lparr>vr_ok = False, vr_rows = length good, vr_break = None\<rparr>"
    using split(2) by (simp add: VerifyChain_def rows verify_loop_append end_head_hash)
  also have "\<dots> = (\<lparr>vr_ok = False, vr_rows = length good, vr_break = Some (break_of sha (head_hash sha good) bad)\<rparr>, None)"
    using split(3) unfolding rows(2,3) end_head_hash by (auto simp: break_of_def chain_row_of_def Let_def)
  finally show thesis
    using broken [OF rows(1)] split rows False by (simp add: linked_append)
qed

lemma handleAuditVerify_db:
  "w_db (ui_w (snd (handleAuditVerify e api c r u))) =
     w_db (ui_w (snd (auditPageData e api c r (defaultAuditFilters (env_now e (w_tick (ui_w u)))) (u\<lparr>ui_w := tick (ui_w u)\<rparr>))))"
  by (auto simp: handleAuditVerify_def ui_now_def read_clock_def VerifyAuditChain_def ui_do_def db_query_cases Let_def
      split: prod.split option.split sum.split)

lemma auditPageData_unreached: "w_db (ui_w (snd (auditPageData e (\<lambda>q w. (None, w)) c r f u))) = w_db (ui_w u)"
  by (auto simp: auditPageData_def audit_app_options_def client_SearchAudit_def basePageData_def ui_now_def read_clock_def ui_do_def
      ListApps_def db_query_cases Let_def)

text \<open>C34: When the walk over the log is not cut off and the database answers, the audit page reports the log as intact exactly when
  every row of the table carries the right hashes, with the number of the rows. Otherwise it shows the first row that breaks the
  chain: the rows before it are a chain, as many as the page counts, and with it they are not; the page has its id, time and
  stage, the column that fails, and the first digits of the hash that is stored there and of the hash that belongs there. It never reports a
  partial result.\<close>

theorem verify_page_tells_chain:
  assumes "handleAuditVerify e api c r u = (resp, u')" "uc_store c" "uc_parses c ''audit.html''" "\<And>n. uc_walk c n = None" "no_faults e"
    and "audit_ok (w_db (ui_w u'))"
  shows "\<exists>data v. ux_reply resp = U_page ''audit.html'' data \<and> pg_audit_verify data = Some v \<and> \<not> vv_partial v \<and>
    (vv_ok v \<longleftrightarrow> chain_ok e (w_db (ui_w u'))) \<and>
    (if vv_ok v then vv_break v = None \<and> vv_rows v = length (d_audit (w_db (ui_w u')))
     else \<exists>good bad rest. d_audit (w_db (ui_w u')) = good @ bad # rest \<and>
       chain_ok e ((w_db (ui_w u'))\<lparr>d_audit := good\<rparr>) \<and> \<not> chain_ok e ((w_db (ui_w u'))\<lparr>d_audit := good @ [bad]\<rparr>) \<and>
       vv_rows v = length good \<and>
       vv_break v = Some \<lparr>wb_id = ar_id bad, wb_at = Format_RFC3339 (micros_time (ar_at bad)), wb_stage = ar_stage bad,
         wb_column = (if ar_prev_hash bad \<noteq> head_hash (env_sha256 e) good then ''prev_hash'' else ''row_hash''),
         wb_expected = hashPrefix (if ar_prev_hash bad \<noteq> head_hash (env_sha256 e) good then head_hash (env_sha256 e) good
           else ComputeRowHash (env_sha256 e) (head_hash (env_sha256 e) good) (audit_chain_payload bad)),
         wb_stored = hashPrefix (if ar_prev_hash bad \<noteq> head_hash (env_sha256 e) good then ar_prev_hash bad else ar_row_hash bad)\<rparr>)"
proof -
  obtain data u2 where page: "auditPageData e api c r (defaultAuditFilters (env_now e (w_tick (ui_w u)))) (u\<lparr>ui_w := tick (ui_w u)\<rparr>) = (data, u2)"
    by fastforce
  let ?sha = "env_sha256 e"
  obtain res err where res: "VerifyChain ?sha (verifyChainQuery (w_db (ui_w u2))) (None :: db_error option) = (res, err)" by fastforce
  have run: "\<exists>el. ux_reply resp = U_page ''audit.html'' (data\<lparr>pg_audit_verify := Some \<lparr>vv_ok = (err = None \<and> vr_ok res), vv_partial = (err \<noteq> None),
      vv_rows = vr_rows res, vv_elapsed = el, vv_break = map_option break_view (vr_break res)\<rparr>\<rparr>) \<and> w_db (ui_w u') = w_db (ui_w u2)" if "err = None"
    using assms(1-5) page res that
    by (auto simp: handleAuditVerify_def ui_now_def read_clock_def ui_do_def VerifyAuditChain_def db_query_cases no_faults_def
        render_def ui_answer_def)
  have db: "w_db (ui_w u') = w_db (ui_w u2)"
    using handleAuditVerify_db [of e api c r u] assms(1) page by simp
  have rows: "verifyChainQuery (w_db (ui_w u2)) = map chain_row_of (d_audit (w_db (ui_w u')))"
    using assms(6) by (simp add: db verifyChainQuery_def audit_ok_sorted)
  show ?thesis
  proof (cases rule: VerifyChain_cases [of ?sha "d_audit (w_db (ui_w u'))"])
    case intact
    then have "err = None" "res = \<lparr>vr_ok = True, vr_rows = length (d_audit (w_db (ui_w u'))), vr_break = None\<rparr>"
      using res unfolding rows by simp_all
    with run obtain el where "ux_reply resp = U_page ''audit.html'' (data\<lparr>pg_audit_verify := Some \<lparr>vv_ok = True, vv_partial = False,
        vv_rows = length (d_audit (w_db (ui_w u'))), vv_elapsed = el, vv_break = None\<rparr>\<rparr>)" by auto
    with intact(1) show ?thesis by (fastforce simp: chain_ok_def)
  next
    case (broken good bad rest)
    then have "err = None" "res = \<lparr>vr_ok = False, vr_rows = length good, vr_break = Some (break_of ?sha (head_hash ?sha good) bad)\<rparr>"
      using res unfolding rows by simp_all
    with run obtain el where "ux_reply resp = U_page ''audit.html'' (data\<lparr>pg_audit_verify := Some \<lparr>vv_ok = False, vv_partial = False,
        vv_rows = length good, vv_elapsed = el, vv_break = Some (break_view (break_of ?sha (head_hash ?sha good) bad))\<rparr>\<rparr>)" by auto
    moreover have "\<not> chain_ok e (w_db (ui_w u'))" "chain_ok e ((w_db (ui_w u'))\<lparr>d_audit := good\<rparr>)"
      "\<not> chain_ok e ((w_db (ui_w u'))\<lparr>d_audit := good @ [bad]\<rparr>)"
      using broken(2-4) by (simp_all add: chain_ok_def)
    ultimately show ?thesis
      using broken(1) by (fastforce simp: break_view_def break_of_def)
  qed
qed

text \<open>The witness: a log of two rows, the second with a wrong previous hash.\<close>

definition demo_first_row :: audit_row where
  "demo_first_row = (demo_row 1 20)\<lparr>ar_prev_hash := GenesisHash toy_hash,
     ar_row_hash := ComputeRowHash toy_hash (GenesisHash toy_hash) (audit_chain_payload (demo_row 1 20))\<rparr>"

definition demo_broken_ui :: ui_state where
  "demo_broken_ui = demo_key_ui\<lparr>ui_w := empty_world\<lparr>w_db := demo_app_db\<lparr>d_audit_seq := 3, d_audit := [demo_first_row, demo_row 2 30]\<rparr>\<rparr>\<rparr>"

lemma demo_broken_hashes:
  "linked toy_hash (GenesisHash toy_hash) [chain_row_of demo_first_row]"
  "ar_prev_hash (demo_row 2 30) \<noteq> head_hash toy_hash [demo_first_row]"
proof -
  show "linked toy_hash (GenesisHash toy_hash) [chain_row_of demo_first_row]"
    by (simp add: chain_row_of_def demo_first_row_def demo_row_def audit_chain_payload_def chain_fields_def)
  have "length (head_hash toy_hash [demo_first_row]) = 32"
    by (simp add: head_hash_def demo_first_row_def ComputeRowHash_def toy_hash_def)
  moreover have "ar_prev_hash (demo_row 2 30) = []" by (simp add: demo_row_def)
  ultimately show "ar_prev_hash (demo_row 2 30) \<noteq> head_hash toy_hash [demo_first_row]" by force
qed

lemma demo_broken_split:
  assumes "[demo_first_row, demo_row 2 30] = good @ bad # rest" "\<not> linked toy_hash (GenesisHash toy_hash) (map chain_row_of (good @ [bad]))"
  shows "good = [demo_first_row]" "bad = demo_row 2 30"
  using assms demo_broken_hashes(1) by (auto simp: Cons_eq_append_conv)

theorem verify_page_tells_chain_witness:
  "\<exists>data v b. ux_reply (fst (handleAuditVerify demo_env (\<lambda>q w. (None, w)) demo_ui_config demo_ui_request demo_broken_ui)) = U_page ''audit.html'' data \<and>
     pg_audit_verify data = Some v \<and> \<not> vv_ok v \<and> vv_rows v = 1 \<and> vv_break v = Some b \<and> wb_id b = 2 \<and> wb_column b = ''prev_hash''"
proof -
  let ?run = "handleAuditVerify demo_env (\<lambda>q w. (None, w)) demo_ui_config demo_ui_request demo_broken_ui"
  let ?d = "w_db (ui_w (snd ?run))"
  have "?d = w_db (ui_w demo_broken_ui)" by (simp add: handleAuditVerify_db auditPageData_unreached)
  then have rows: "d_audit ?d = [demo_first_row, demo_row 2 30]" "d_audit_seq ?d = 3" by (simp_all add: demo_broken_ui_def)
  then have ok: "audit_ok ?d"
    by (simp add: audit_ok_def demo_first_row_def demo_row_def audit_stage_values_def StageReceived_def)
  have bad: "\<not> chain_ok demo_env ?d"
    using demo_broken_hashes(2) by (simp add: chain_ok_def rows chain_row_of_def head_hash_def)
  obtain data v where v: "ux_reply (fst ?run) = U_page ''audit.html'' data" "pg_audit_verify data = Some v" "\<not> vv_ok v"
    and "\<exists>good bad rest. d_audit ?d = good @ bad # rest \<and> \<not> chain_ok demo_env (?d\<lparr>d_audit := good @ [bad]\<rparr>) \<and> vv_rows v = length good \<and>
      (\<exists>b. vv_break v = Some b \<and> wb_id b = ar_id bad \<and>
        wb_column b = (if ar_prev_hash bad \<noteq> head_hash toy_hash good then ''prev_hash'' else ''row_hash''))"
    using verify_page_tells_chain [of demo_env "\<lambda>q w. (None, w)" demo_ui_config demo_ui_request demo_broken_ui "fst ?run" "snd ?run"] ok bad
    by (fastforce simp: demo_ui_config_def no_faults_def)
  then obtain good bad rest b where split: "d_audit ?d = good @ bad # rest" "\<not> chain_ok demo_env (?d\<lparr>d_audit := good @ [bad]\<rparr>)"
    and b: "vv_rows v = length good" "vv_break v = Some b" "wb_id b = ar_id bad"
      "wb_column b = (if ar_prev_hash bad \<noteq> head_hash toy_hash good then ''prev_hash'' else ''row_hash'')" by blast
  have "good = [demo_first_row]" "bad = demo_row 2 30"
    using demo_broken_split [of good bad rest] split by (simp_all add: rows chain_ok_def)
  with b demo_broken_hashes(2) v show ?thesis
    by (intro exI [of _ data] exI [of _ v] exI [of _ b]) (simp add: demo_row_def)
qed


section \<open>What the filters of the page select\<close>

lemma Parse_date_day:
  assumes "Parse_date v = Some t"
  obtains n where "t = n * 86400 * second_ns" "year_start 0 \<le> n" "n < year_start 10000"
proof -
  obtain y m d s where y: "take_year v = Some (y, s)" and d: "1 \<le> m" "m \<le> 12" "1 \<le> d" "d \<le> days_in y m"
    and t: "t = date_days y m d * 86400 * second_ns"
    using assms by (auto simp: Parse_date_def take_range_def bind_eq_Some_conv not_less split: if_splits option.splits)
  show thesis
  proof (rule that [OF t])
    show "year_start 0 \<le> date_days y m d"
      using take_year_range [OF y] date_days_range(1) [OF d] year_start_mono [of 0 y] by linarith
    show "date_days y m d < year_start 10000"
      using take_year_range [OF y] date_days_range(2) [OF d] year_start_mono [of "y + 1" 10000] by linarith
  qed
qed

lemma audit_since_bound:
  assumes "Parse_date v = Some t"
  shows "Parse_RFC3339 (auditDateToRFC3339 v False) = Some t"
proof -
  obtain n where "t = n * 86400 * second_ns" "year_start 0 \<le> n" "n < year_start 10000" by (rule Parse_date_day [OF assms])
  with RFC3339_day [of n] assms show ?thesis by (simp add: auditDateToRFC3339_def)
qed

lemma audit_until_bound:
  assumes "Parse_date v = Some t" "t < date_days 9999 12 31 * 86400 * second_ns"
  shows "Parse_RFC3339 (auditDateToRFC3339 v True) = Some (t + 24 * hour_ns)"
proof -
  obtain n where n: "t = n * 86400 * second_ns" "year_start 0 \<le> n" "n < year_start 10000" by (rule Parse_date_day [OF assms(1)])
  have "date_days 9999 12 31 < year_start (9999 + 1)" by (rule date_days_range) (simp_all add: days_in_def month_days_def)
  with n assms(2) have "n + 1 < year_start 10000" by simp
  with n RFC3339_day [of "n + 1"] assms show ?thesis by (simp add: auditDateToRFC3339_def algebra_simps)
qed

text \<open>The parameters of the search arrive with their values, in whatever order they are sent.\<close>

lemma map_of_insert_param: "fst x \<notin> fst ` set ys \<Longrightarrow> map_of (insert_param x ys) = (map_of ys)(fst x \<mapsto> snd x)"
  by (induction ys) (auto simp: fun_eq_iff)

lemma set_insert_param [simp]: "set (insert_param x ys) = insert x (set ys)"
  by (induction ys) auto

lemma map_of_url_values: "distinct (map fst kvs) \<Longrightarrow> map_of (foldr insert_param kvs []) = map_of kvs \<and> set (foldr insert_param kvs []) = set kvs"
  by (induction kvs) (auto simp: map_of_insert_param)

lemma get_value_url_values:
  assumes "distinct (map fst kvs)"
  shows "get_value (url_values kvs) k = get_value kvs k"
proof -
  have "distinct (map fst (filter (\<lambda>kv. snd kv \<noteq> []) kvs))" using assms by (rule distinct_map_filter)
  then have "map_of (url_values kvs) = map_of (filter (\<lambda>kv. snd kv \<noteq> []) kvs)"
    using map_of_url_values unfolding url_values_def by blast
  moreover have "get_value (filter (\<lambda>kv. snd kv \<noteq> []) kvs) k = get_value kvs k"
    using assms by (induction kvs) (force simp: get_value_def split: option.splits dest: map_of_SomeD)+
  ultimately show ?thesis by (simp add: get_value_def)
qed

lemma audit_stages_valid: "set auditStages = set validAuditStages"
  by (simp add: auditStages_def validAuditStages_def StageReceived_def StageValidated_def StageDispatched_def StageDelivered_def
      StageDenied_def StageRetried_def StageDeferred_def StageIntrusionKick_def StageIntrusionUnmitigated_def StageBotNotAdmin_def
      StageTelegramAuthFailed_def StageKeyIssued_def StageKeyRevoked_def)

lemma search_request_value: "get_value (hr_query (search_request c trace p)) k =
  get_value [(''limit'', sp_limit p), (''since'', sp_since p), (''until'', sp_until p), (''trace_id'', sp_trace p),
     (''app_id'', sp_app p), (''stage'', sp_stage p), (''before_id'', sp_before p)] k"
  by (simp add: search_request_def get_value_url_values)

lemma asked_limit:
  assumes "Atoi limit = Some n" "0 < n" "n < int64_max"
  shows "optional (fst (fetch_limit limit)) 50 parse_limit = Some (min (n + 1) 500)"
proof -
  have "ParseInt (FormatInt (min (n + 1) 500)) = Some (min (n + 1) 500)" using assms by (intro ParseInt_FormatInt) simp_all
  moreover have "FormatInt (min (n + 1) 500) \<noteq> []" by (simp add: FormatInt_def)
  ultimately show ?thesis using assms by (simp add: fetch_limit_def optional_def parse_limit_def)
qed

text \<open>A bound of the form: nothing, or a date.\<close>

definition date_or_empty :: "string \<Rightarrow> bool" where
  "date_or_empty v \<longleftrightarrow> v = [] \<or> Parse_date v \<noteq> None"

lemma ParseInt_Nil [simp]: "ParseInt [] = None"
  by (simp add: ParseInt_def)

lemma Parse_date_Nil [simp]: "Parse_date [] = None"
  by (simp add: Parse_date_def take_year_def)

lemma Format_RFC3339_nonempty [simp]: "Format_RFC3339 t \<noteq> []"
  by (simp add: Format_RFC3339_def Let_def split: prod.split)

lemma since_parsed: "date_or_empty v \<Longrightarrow> optional (auditDateToRFC3339 v False) None (\<lambda>s. map_option Some (Parse_RFC3339 s)) = Some (Parse_date v)"
  using audit_since_bound [of v] by (cases "Parse_date v") (auto simp: date_or_empty_def optional_def auditDateToRFC3339_def)

lemma until_parsed:
  assumes "date_or_empty v" "\<And>t. Parse_date v = Some t \<Longrightarrow> t < date_days 9999 12 31 * 86400 * second_ns"
  shows "optional (auditDateToRFC3339 v True) None (\<lambda>s. map_option Some (Parse_RFC3339 s)) = Some (map_option (\<lambda>t. t + 24 * hour_ns) (Parse_date v))"
  using assms audit_until_bound [of v] by (cases "Parse_date v") (auto simp: date_or_empty_def optional_def auditDateToRFC3339_def)

lemma day_micros: "Parse_date v = Some t \<Longrightarrow> (ar_at r \<ge> pg_micros t \<longleftrightarrow> t \<le> micros_time (ar_at r)) \<and>
    (ar_at r \<le> pg_micros (t + 24 * hour_ns) \<longleftrightarrow> micros_time (ar_at r) \<le> t + 24 * hour_ns)"
  by (rule Parse_date_day [of v t]) (auto simp: pg_micros_def micros_time_def)

text \<open>C35: The filters of the audit page reach the search of the API as they are meant: with dates in both boxes, or none, a known stage
  and a cursor that is a positive number, the request that the page sends is accepted, asks for one row more than the page shows (up to the
  500 that the API allows), and its conditions hold of exactly the rows of the chosen days, from the first midnight to the midnight after
  the last day, that also have the given trace, application, stage and cursor.\<close>

theorem audit_filters_select_days:
  assumes "date_or_empty (fl_since filters)" "date_or_empty (fl_until filters)"
    and "\<And>t. Parse_date (fl_until filters) = Some t \<Longrightarrow> t < date_days 9999 12 31 * 86400 * second_ns"
    and "fl_stage filters = [] \<or> fl_stage filters \<in> set auditStages"
    and "Atoi (fl_limit filters) = Some n" "0 < n" "n < int64_max"
    and "fl_before filters = [] \<or> (\<exists>b > 0. ParseInt (fl_before filters) = Some b)"
  shows "\<exists>f. parse_filter (hr_query (search_request c trace (audit_params filters))) = Inr f \<and> af_limit f = min (n + 1) 500 \<and>
    (\<forall>r. where_clause f r \<longleftrightarrow>
       (fl_trace filters \<noteq> [] \<longrightarrow> ar_trace_id r = Some (fl_trace filters)) \<and> (fl_app filters \<noteq> [] \<longrightarrow> ar_app_id r = Some (fl_app filters)) \<and>
       (fl_stage filters \<noteq> [] \<longrightarrow> ar_stage r = fl_stage filters) \<and>
       (\<forall>t. Parse_date (fl_since filters) = Some t \<longrightarrow> t \<le> micros_time (ar_at r)) \<and>
       (\<forall>t. Parse_date (fl_until filters) = Some t \<longrightarrow> micros_time (ar_at r) \<le> t + 24 * hour_ns) \<and>
       (\<forall>b. ParseInt (fl_before filters) = Some b \<longrightarrow> ar_id r < b))"
proof -
  define before where "before = (case ParseInt (fl_before filters) of None \<Rightarrow> 0 | Some b \<Rightarrow> b)"
  have before: "optional (fl_before filters) 0 parse_before_id = Some before"
    using assms(8) by (auto simp: before_def optional_def parse_before_id_def)
  define f where "f = \<lparr>af_limit = min (n + 1) 500, af_since = Parse_date (fl_since filters),
    af_until = map_option (\<lambda>t. t + 24 * hour_ns) (Parse_date (fl_until filters)), af_before_id = before,
    af_trace_id = fl_trace filters, af_app_id = fl_app filters, af_stage = fl_stage filters\<rparr>"
  have "parse_filter (hr_query (search_request c trace (audit_params filters))) = Inr f"
    using assms(4) unfolding parse_filter_def search_request_value
    by (simp add: audit_params_def get_value_def asked_limit [OF assms(5-7)] since_parsed [OF assms(1)] until_parsed [OF assms(2,3)]
        before audit_stages_valid f_def Let_def)
  moreover have "where_clause f r \<longleftrightarrow>
       (fl_trace filters \<noteq> [] \<longrightarrow> ar_trace_id r = Some (fl_trace filters)) \<and> (fl_app filters \<noteq> [] \<longrightarrow> ar_app_id r = Some (fl_app filters)) \<and>
       (fl_stage filters \<noteq> [] \<longrightarrow> ar_stage r = fl_stage filters) \<and>
       (\<forall>t. Parse_date (fl_since filters) = Some t \<longrightarrow> t \<le> micros_time (ar_at r)) \<and>
       (\<forall>t. Parse_date (fl_until filters) = Some t \<longrightarrow> micros_time (ar_at r) \<le> t + 24 * hour_ns) \<and>
       (\<forall>b. ParseInt (fl_before filters) = Some b \<longrightarrow> ar_id r < b)" for r
  proof -
    have "(case af_since f of None \<Rightarrow> True | Some t \<Rightarrow> ar_at r \<ge> pg_micros t) \<longleftrightarrow>
        (\<forall>t. Parse_date (fl_since filters) = Some t \<longrightarrow> t \<le> micros_time (ar_at r))"
      using day_micros [of "fl_since filters" _ r] by (cases "Parse_date (fl_since filters)") (simp_all add: f_def)
    moreover have "(case af_until f of None \<Rightarrow> True | Some t \<Rightarrow> ar_at r \<le> pg_micros t) \<longleftrightarrow>
        (\<forall>t. Parse_date (fl_until filters) = Some t \<longrightarrow> micros_time (ar_at r) \<le> t + 24 * hour_ns)"
      using day_micros [of "fl_until filters" _ r] by (cases "Parse_date (fl_until filters)") (simp_all add: f_def)
    moreover have "(af_before_id f > 0 \<longrightarrow> ar_id r < af_before_id f) \<longleftrightarrow> (\<forall>b. ParseInt (fl_before filters) = Some b \<longrightarrow> ar_id r < b)"
      using assms(8) by (cases "ParseInt (fl_before filters)") (auto simp: f_def before_def)
    moreover have "af_trace_id f = fl_trace filters" "af_app_id f = fl_app filters" "af_stage f = fl_stage filters" by (simp_all add: f_def)
    ultimately show ?thesis by (simp only: where_clause_def)
  qed
  ultimately show ?thesis by (intro exI [of _ f]) (simp add: f_def)
qed

text \<open>One day, the first page of ten rows: the last row that the day can have is selected, the first of the day after the next is not.\<close>

definition demo_day_filters :: audit_filters where
  "demo_day_filters = zero_audit_filters\<lparr>fl_since := ''2026-02-28'', fl_until := ''2026-02-28'', fl_limit := ''10'', fl_before := ''900''\<rparr>"

definition demo_day_row :: audit_row where
  "demo_day_row = unhashed_row demo_env zero_event 0 empty_db"

lemma demo_day: "Parse_date ''2026-02-28'' = Some (739674 * 86400 * second_ns)" "ParseInt ''900'' = Some 900" "ParseInt ''10'' = Some 10"
  "date_days 9999 12 31 = 3652058"
  by code_simp+

theorem audit_filters_select_days_witness:
  "\<exists>f. parse_filter (hr_query (search_request demo_ui_config [] (audit_params demo_day_filters))) = Inr f \<and> af_limit f = 11 \<and>
     where_clause f (demo_day_row\<lparr>ar_at := 1772323199999999\<rparr>) \<and> \<not> where_clause f (demo_day_row\<lparr>ar_at := 1772323200000001\<rparr>)"
proof -
  let ?F = demo_day_filters
  have fl: "fl_since ?F = ''2026-02-28''" "fl_until ?F = ''2026-02-28''" "fl_limit ?F = ''10''" "fl_before ?F = ''900''"
    "fl_stage ?F = []" "fl_trace ?F = []" "fl_app ?F = []"
    by (simp_all add: demo_day_filters_def zero_audit_filters_def)
  show ?thesis
    using audit_filters_select_days [of ?F 10 demo_ui_config "[]"] demo_day
    by (auto simp: fl date_or_empty_def micros_time_def unix_epoch_s_def demo_day_row_def unhashed_row_def empty_db_def)
qed

end
