(* ===== verification/Ui_Stats.thy ===== *)
theory Ui_Stats
  imports Ui_Audit
begin

text \<open>
  The aggregates over the audit log that the dashboard and the delivery page read
  (\<^verbatim>\<open>src/internal/adminui/store.go\<close>), and the views built from them without drawing
  (\<^verbatim>\<open>dashboard.go\<close>, \<^verbatim>\<open>delivery.go\<close>): key figures, pipeline, funnels, failures. The sessions of the
  database run in a time zone without daylight saving, so that a day is 24 hours. Where a query leaves the order of
  equal rows open, it is any order.
\<close>

section \<open>Sorting and grouping\<close>

fun insert_by :: "('a \<Rightarrow> 'a \<Rightarrow> bool) \<Rightarrow> 'a \<Rightarrow> 'a list \<Rightarrow> 'a list" where
  "insert_by le x [] = [x]"
| "insert_by le x (y # ys) = (if le x y then x # y # ys else y # insert_by le x ys)"

definition sort_by :: "('a \<Rightarrow> 'a \<Rightarrow> bool) \<Rightarrow> 'a list \<Rightarrow> 'a list" where
  "sort_by le xs = foldr (insert_by le) xs []"

text \<open>\<^verbatim>\<open>GROUP BY\<close> with \<^verbatim>\<open>count(*)\<close>\<close>

definition group_count :: "'k list \<Rightarrow> ('k \<times> nat) list" where
  "group_count ks = map (\<lambda>k. (k, length (filter (\<lambda>x. x = k) ks))) (remdups ks)"

text \<open>The order of pairs by their first and then their second component.\<close>

definition pair_le :: "('a \<Rightarrow> 'a \<Rightarrow> bool) \<Rightarrow> ('b \<Rightarrow> 'b \<Rightarrow> bool) \<Rightarrow> 'a \<times> 'b \<Rightarrow> 'a \<times> 'b \<Rightarrow> bool" where
  "pair_le le le' x y = (if fst x = fst y then le' (snd x) (snd y) else le (fst x) (fst y))"


section \<open>Windows and buckets\<close>

definition day_us :: int where "day_us = 86400 * 1000000"

text \<open>\<^verbatim>\<open>at >= now() - n * interval '1 hour'\<close>\<close>

definition since_hours :: "int \<Rightarrow> time \<Rightarrow> audit_row \<Rightarrow> bool" where
  "since_hours n t r = (ar_at r \<ge> pg_micros t - n * (3600 * 1000000))"

text \<open>\<^verbatim>\<open>date_trunc\<close> in UTC, and the first instants of the months around a month.\<close>

definition month_start :: "int \<Rightarrow> time" where
  "month_start k = date_days (k div 12) (k mod 12 + 1) 1 * 86400 * second_ns"

definition month_number :: "time \<Rightarrow> int" where
  "month_number t = (case days_date (t div second_ns div 86400) of (y, m, d) \<Rightarrow> y * 12 + (m - 1))"

definition date_trunc :: "string \<Rightarrow> time \<Rightarrow> time" where
  "date_trunc un t =
     (if un = ''hour'' then t div hour_ns * hour_ns
      else if un = ''month'' then month_start (month_number t)
      else t div (24 * hour_ns) * (24 * hour_ns))"

definition bucket_back :: "string \<Rightarrow> int \<Rightarrow> time \<Rightarrow> time" where
  "bucket_back un n t =
     (if un = ''hour'' then t - n * hour_ns
      else if un = ''month'' then month_start (month_number t - n)
      else t - n * (24 * hour_ns))"


section \<open>Queries\<close>

definition DashboardStats :: "env \<Rightarrow> world \<Rightarrow> (db_error + dashboard_stats) \<times> world" where
  "DashboardStats e w =
     db_query e (\<lambda>t d. \<lparr>st_total_apps = length (d_apps d), st_active_apps = length (filter app_active (d_apps d)),
        st_active_keys = length (filter (\<lambda>k. key_revoked_at k = None) (d_keys d)), st_users = length (d_users d)\<rparr>) w"

record series_spec =
  sc_unit :: string
  sc_buckets :: int

record app_day_count =
  ac_app :: string
  ac_day :: time
  ac_count :: nat

datatype series_error = Unknown_unit string | Series_db db_error

definition seriesUnits :: "string list" where "seriesUnits = [''hour'', ''day'', ''month'']"

definition RequestBuckets :: "env \<Rightarrow> series_spec \<Rightarrow> world \<Rightarrow> (series_error + app_day_count list) \<times> world" where
  "RequestBuckets e spec w =
     (if sc_unit spec \<notin> set seriesUnits then (Inl (Unknown_unit (sc_unit spec)), w)
      else
        (case db_query e (\<lambda>t d.
             let rows = filter (\<lambda>r. ar_stage r = ''received'' \<and> ar_app_id r \<noteq> None \<and>
                   micros_time (ar_at r) \<ge> bucket_back (sc_unit spec) (sc_buckets spec - 1) (date_trunc (sc_unit spec) t)) (d_audit d)
             in map (\<lambda>((a, b), n). \<lparr>ac_app = a, ac_day = b, ac_count = n\<rparr>)
                  (sort_by (\<lambda>x y. pair_le text_le (\<le>) (fst x) (fst y))
                     (group_count (map (\<lambda>r. (the (ar_app_id r), date_trunc (sc_unit spec) (micros_time (ar_at r)))) rows)))) w of
           (Inl err, w1) \<Rightarrow> (Inl (Series_db err), w1)
         | (Inr rows, w1) \<Rightarrow> (Inr rows, w1)))"

definition deliveryFunnelStages :: "string list" where
  "deliveryFunnelStages = [''received'', ''validated'', ''dispatched'', ''delivered'', ''denied'', ''retried'', ''deferred'']"

definition deliveryFailureStages :: "string list" where
  "deliveryFailureStages = [''denied'', ''telegram_auth_failed'', ''bot_not_admin'', ''intrusion_kick'', ''intrusion_unmitigated'']"

definition funnelStageOrder :: "string list" where
  "funnelStageOrder = [''received'', ''validated'', ''dispatched'', ''delivered'']"

record app_stage_count =
  as_app :: string
  as_stage :: string
  as_count :: nat

definition StageCounts :: "env \<Rightarrow> int \<Rightarrow> string \<Rightarrow> world \<Rightarrow> (db_error + app_stage_count list) \<times> world" where
  "StageCounts e days app w =
     db_query e (\<lambda>t d.
       let rows = filter (\<lambda>r. ar_app_id r \<noteq> None \<and> ar_stage r \<in> set deliveryFunnelStages \<and> since_hours (24 * days) t r \<and>
             (app = [] \<or> ar_app_id r = Some app)) (d_audit d)
       in map (\<lambda>((a, s), n). \<lparr>as_app = a, as_stage = s, as_count = n\<rparr>)
            (sort_by (\<lambda>x y. pair_le text_le text_le (fst x) (fst y)) (group_count (map (\<lambda>r. (the (ar_app_id r), ar_stage r)) rows)))) w"

text \<open>\<^verbatim>\<open>COALESCE(NULLIF(error_code, ''), 'unknown')\<close>\<close>

definition shown_code :: "audit_row \<Rightarrow> string" where
  "shown_code r = (case ar_error_code r of None \<Rightarrow> ''unknown'' | Some c \<Rightarrow> if c = [] then ''unknown'' else c)"

definition row_filters :: "string \<Rightarrow> string \<Rightarrow> string \<Rightarrow> audit_row \<Rightarrow> bool" where
  "row_filters app stage code r =
     ((app = [] \<or> ar_app_id r = Some app) \<and> (stage = [] \<or> ar_stage r = stage) \<and> (code = [] \<or> shown_code r = code))"

record failure_row =
  fr_at :: time
  fr_stage :: string
  fr_app :: string
  fr_user :: "int option"
  fr_chat :: "int option"
  fr_error :: string
  fr_trace :: string

definition failure_row_of :: "audit_row \<Rightarrow> failure_row" where
  "failure_row_of r = \<lparr>fr_at = micros_time (ar_at r), fr_stage = ar_stage r, fr_app = strOrEmpty (ar_app_id r),
     fr_user = ar_recipient_user_id r, fr_chat = ar_recipient_chat_id r, fr_error = strOrEmpty (ar_error_code r),
     fr_trace = strOrEmpty (ar_trace_id r)\<rparr>"

definition RecentFailures ::
  "env \<Rightarrow> int \<Rightarrow> nat \<Rightarrow> string \<Rightarrow> string \<Rightarrow> string \<Rightarrow> world \<Rightarrow> (db_error + failure_row list) \<times> world" where
  "RecentFailures e days limit app stage code w =
     db_query e (\<lambda>t d. map failure_row_of (take limit (rev (sort_key ar_id
       (filter (\<lambda>r. ar_stage r \<in> set deliveryFailureStages \<and> since_hours (24 * days) t r \<and> row_filters app stage code r) (d_audit d)))))) w"

record kpi_counts =
  kc_received :: nat
  kc_delivered :: nat
  kc_failed :: nat

definition DeliveryKPICounts :: "env \<Rightarrow> world \<Rightarrow> (db_error + kpi_counts) \<times> world" where
  "DeliveryKPICounts e w =
     db_query e (\<lambda>t d.
       let rows = filter (since_hours 24 t) (d_audit d)
       in \<lparr>kc_received = length (filter (\<lambda>r. ar_stage r = ''received'') rows),
           kc_delivered = length (filter (\<lambda>r. ar_stage r = ''delivered'') rows),
           kc_failed = length (filter (\<lambda>r. ar_stage r \<in> set deliveryFailureStages) rows)\<rparr>) w"

definition PipelineStageCounts :: "env \<Rightarrow> world \<Rightarrow> (db_error + (string \<times> nat) list) \<times> world" where
  "PipelineStageCounts e w =
     db_query e (\<lambda>t d. unordered e (w_tick w) (group_count (map ar_stage
       (filter (\<lambda>r. ar_stage r \<in> set funnelStageOrder \<and> since_hours 24 t r) (d_audit d))))) w"

definition FailureCauseCounts :: "env \<Rightarrow> world \<Rightarrow> (db_error + (string \<times> nat) list) \<times> world" where
  "FailureCauseCounts e w =
     db_query e (\<lambda>t d. sort_by (\<lambda>x y. if snd x = snd y then text_le (fst x) (fst y) else snd x \<ge> snd y)
       (group_count (map shown_code (filter (\<lambda>r. ar_stage r \<in> set deliveryFailureStages \<and> since_hours 24 t r) (d_audit d))))) w"

text \<open>The deliveries of the last 24 hours, the newest per trace, with the first reception of the same trace in the last 25.\<close>

definition delivered_rows :: "time \<Rightarrow> audit_row list \<Rightarrow> audit_row list" where
  "delivered_rows t rows = filter (\<lambda>r. ar_stage r = ''delivered'' \<and> ar_trace_id r \<noteq> None \<and> since_hours 24 t r) rows"

definition received_at :: "time \<Rightarrow> audit_row list \<Rightarrow> string option \<Rightarrow> int option" where
  "received_at t rows trace =
     (case map ar_at (filter (\<lambda>r. ar_stage r = ''received'' \<and> ar_trace_id r = trace \<and> since_hours 25 t r) rows) of
        [] \<Rightarrow> None
      | x # xs \<Rightarrow> Some (foldl min x xs))"

fun newest_per_trace :: "audit_row list \<Rightarrow> audit_row list" where
  "newest_per_trace [] = []"
| "newest_per_trace (r # rs) =
     (let found = newest_per_trace rs; others = filter (\<lambda>x. ar_trace_id x \<noteq> ar_trace_id r) found
      in case filter (\<lambda>x. ar_trace_id x = ar_trace_id r) found of
           [] \<Rightarrow> r # others
         | x # _ \<Rightarrow> (if ar_at x > ar_at r then x else r) # others)"

definition latency_pairs :: "time \<Rightarrow> audit_row list \<Rightarrow> (audit_row \<times> int) list" where
  "latency_pairs t rows =
     concat (map (\<lambda>r. case received_at t rows (ar_trace_id r) of
         Some us \<Rightarrow> if ar_at r \<ge> us then [(r, ar_at r - us)] else []
       | None \<Rightarrow> []) (newest_per_trace (delivered_rows t rows)))"

text \<open>\<^verbatim>\<open>percentile_cont\<close> of an ascending list.\<close>

definition percentile_cont :: "rat \<Rightarrow> rat list \<Rightarrow> rat" where
  "percentile_cont p xs =
     (if xs = [] then 0
      else
        (let pos = p * (of_nat (length xs) - 1); lo = nat \<lfloor>pos\<rfloor>; hi = nat \<lceil>pos\<rceil>
         in xs ! lo + (pos - of_nat lo) * (xs ! hi - xs ! lo)))"

record latency_stats =
  la_count :: nat
  la_p50 :: rat
  la_p95 :: rat
  la_max :: rat

definition seconds_of :: "int \<Rightarrow> rat" where "seconds_of us = of_int us / 1000000"

definition DeliveryLatency :: "env \<Rightarrow> world \<Rightarrow> (db_error + latency_stats) \<times> world" where
  "DeliveryLatency e w =
     db_query e (\<lambda>t d.
       let secs = sort (map (\<lambda>p. seconds_of (snd p)) (latency_pairs t (d_audit d)))
       in \<lparr>la_count = length secs, la_p50 = percentile_cont (1 / 2) secs, la_p95 = percentile_cont (95 / 100) secs,
           la_max = (if secs = [] then 0 else last secs)\<rparr>) w"

record latency_sample =
  lm_app :: string
  lm_secs :: rat

definition LatencySamples :: "env \<Rightarrow> nat \<Rightarrow> world \<Rightarrow> (db_error + latency_sample list) \<times> world" where
  "LatencySamples e limit w =
     db_query e (\<lambda>t d. map (\<lambda>(r, us). \<lparr>lm_app = strOrEmpty (ar_app_id r), lm_secs = seconds_of us\<rparr>)
       (take limit (sort_by (\<lambda>x y. ar_at (fst x) \<ge> ar_at (fst y)) (latency_pairs t (unordered e (w_tick w) (d_audit d)))))) w"

record stage_day_count =
  sd_day :: time
  sd_stage :: string
  sd_count :: nat

definition DeliveryDailyCounts ::
  "env \<Rightarrow> int \<Rightarrow> string \<Rightarrow> string \<Rightarrow> string \<Rightarrow> world \<Rightarrow> (db_error + stage_day_count list) \<times> world" where
  "DeliveryDailyCounts e days app stage code w =
     db_query e (\<lambda>t d.
       let rows = filter (\<lambda>r. ar_stage r \<in> set (deliveryFunnelStages @ deliveryFailureStages) \<and>
             micros_time (ar_at r) \<ge> bucket_back ''day'' (days - 1) (date_trunc ''day'' t) \<and> row_filters app stage code r) (d_audit d)
       in map (\<lambda>((day, s), n). \<lparr>sd_day = day, sd_stage = s, sd_count = n\<rparr>)
            (sort_by (\<lambda>x y. pair_le (\<le>) text_le (fst x) (fst y))
              (group_count (map (\<lambda>r. (date_trunc ''day'' (micros_time (ar_at r)), ar_stage r)) rows)))) w"

definition FailureErrorCodes :: "env \<Rightarrow> int \<Rightarrow> world \<Rightarrow> (db_error + string list) \<times> world" where
  "FailureErrorCodes e days w =
     db_query e (\<lambda>t d. sort_text (remdups (map shown_code
       (filter (\<lambda>r. ar_stage r \<in> set deliveryFailureStages \<and> since_hours (24 * days) t r) (d_audit d))))) w"



section \<open>Numbers as text\<close>

text \<open>\<^verbatim>\<open>%.0f\<close> and \<^verbatim>\<open>%.1f\<close> of a non-negative number, and \<^verbatim>\<open>math.Round\<close>.\<close>

definition format_0f :: "rat \<Rightarrow> string" where "format_0f x = FormatInt (round_even x)"

definition format_1f :: "rat \<Rightarrow> string" where
  "format_1f x = (let n = round_even (10 * x) in FormatInt (n div 10) @ ''.'' @ FormatInt (n mod 10))"

definition math_Round :: "rat \<Rightarrow> int" where "math_Round x = \<lfloor>x + 1 / 2\<rfloor>"

definition formatLatency :: "rat \<Rightarrow> string" where
  "formatLatency secs =
     (let ms = math_Round (secs * 1000); tenths = math_Round (secs * 10); total = math_Round secs
      in if ms < 1000 then FormatInt ms @ ''ms''
         else if tenths < 600 then FormatInt (tenths div 10) @ ''.'' @ FormatInt (tenths mod 10) @ ''s''
         else FormatInt (total div 60) @ ''m '' @ FormatInt (total mod 60) @ ''s'')"

definition uptimeString :: "duration \<Rightarrow> string" where
  "uptimeString d =
     (let mins = (d + minute_ns div 2) div minute_ns; h = mins div 60; m = mins mod 60
      in if h > 0 then FormatInt h @ ''h '' @ FormatInt m @ ''m'' else FormatInt m @ ''m'')"

text \<open>A share as a percentage, never above 100.\<close>

definition percent :: "nat \<Rightarrow> nat \<Rightarrow> rat" where
  "percent part whole = (let rate = 100 * of_nat part / of_nat whole in if rate > 100 then 100 else rate)"

definition success_rate :: "nat \<Rightarrow> nat \<Rightarrow> string" where
  "success_rate received delivered = (if received > 0 then format_0f (percent delivered received) @ ''%'' else t_dash)"


section \<open>Views\<close>

definition buildKPIView :: "kpi_counts \<Rightarrow> kpi_view" where
  "buildKPIView c = \<lparr>kp_received = kc_received c, kp_delivered = kc_delivered c, kp_failed = kc_failed c,
     kp_rate = success_rate (kc_received c) (kc_delivered c)\<rparr>"

text \<open>The map from stages to counts: a later entry replaces an earlier one, a missing one is 0.\<close>

definition count_of :: "(string \<times> nat) list \<Rightarrow> string \<Rightarrow> nat" where
  "count_of counts stage = (case map_of (rev counts) stage of None \<Rightarrow> 0 | Some n \<Rightarrow> n)"

fun pipeline_stages :: "(string \<Rightarrow> nat) \<Rightarrow> string list \<Rightarrow> pipeline_stage list" where
  "pipeline_stages byStage [] = []"
| "pipeline_stages byStage [s] = [\<lparr>pn_name = s, pn_count = byStage s, pn_drop = [], pn_alert = False\<rparr>]"
| "pipeline_stages byStage (s # s' # ss) =
     (let d = int (byStage s) - int (byStage s')
      in \<lparr>pn_name = s, pn_count = byStage s,
          pn_drop = (if d \<ge> 0 then ''-'' @ FormatInt d else ''+'' @ FormatInt (- d)), pn_alert = (d > 0)\<rparr>
         # pipeline_stages byStage (s' # ss))"

definition buildPipelineFlow :: "(string \<times> nat) list \<Rightarrow> pipeline_stage list option" where
  "buildPipelineFlow counts = (if counts = [] then None else Some (pipeline_stages (count_of counts) funnelStageOrder))"

definition bar_width :: "nat \<Rightarrow> nat \<Rightarrow> rat" where
  "bar_width n maxCount =
     (if n > 0 then (let pct = 100 * of_nat n / of_nat maxCount in if pct < 2 then 2 else pct) else 0)"

definition funnel_bar_of :: "nat \<Rightarrow> string \<Rightarrow> nat \<Rightarrow> funnel_bar" where
  "funnel_bar_of maxCount stage n =
     \<lparr>fb_stage = stage, fb_count = n, fb_width = (if n > 0 then format_1f (bar_width n maxCount) else ''0'')\<rparr>"

definition funnel_max :: "(string \<Rightarrow> nat) \<Rightarrow> nat" where
  "funnel_max stages = foldl max 1 (map stages funnelStageOrder)"

definition funnel_of :: "string \<Rightarrow> (string \<Rightarrow> nat) \<Rightarrow> app_funnel" where
  "funnel_of app stages =
     \<lparr>fu_app = app, fu_received = stages ''received'', fu_delivered = stages ''delivered'', fu_denied = stages ''denied'',
      fu_retried = stages ''retried'', fu_deferred = stages ''deferred'',
      fu_rate = success_rate (stages ''received'') (stages ''delivered''),
      fu_bars = map (\<lambda>s. funnel_bar_of (funnel_max stages) s (stages s)) funnelStageOrder\<rparr>"

definition app_counts :: "app_stage_count list \<Rightarrow> string \<Rightarrow> string \<Rightarrow> nat" where
  "app_counts counts app = count_of (map (\<lambda>c. (as_stage c, as_count c)) (filter (\<lambda>c. as_app c = app) counts))"

text \<open>The order in which the map is walked does not matter: the final order is total.\<close>

definition buildFunnels :: "app_stage_count list \<Rightarrow> app_funnel list" where
  "buildFunnels counts =
     sort_by (\<lambda>f g. if fu_received f \<noteq> fu_received g then fu_received f > fu_received g else text_le (fu_app f) (fu_app g))
       (map (\<lambda>app. funnel_of app (app_counts counts app)) (remdups (map as_app counts)))"

text \<open>The time of a failure is shown in the zone of the process.\<close>

definition failureDisplayRows :: "(time \<Rightarrow> int) \<Rightarrow> failure_row list \<Rightarrow> audit_display_row list" where
  "failureDisplayRows zone failures =
     map (\<lambda>f. \<lparr>ad_id = 0, ad_at = Format_minutes (fr_at f + zone (fr_at f) * second_ns), ad_stage = fr_stage f,
        ad_badge = stageBadge (fr_stage f), ad_app = fr_app f, ad_endpoint = [], ad_channel = [],
        ad_recipient = recipient_label (fr_user f) (fr_chat f), ad_error = fr_error f, ad_trace = fr_trace f\<rparr>) failures"

end
