(* ===== verification/Ui_Charts.thy ===== *)
theory Ui_Charts
  imports Ui_Stats
begin

text \<open>
  The drawings of the dashboard and of the delivery page (\<^verbatim>\<open>dashboard.go\<close>, \<^verbatim>\<open>delivery.go\<close>): request lines,
  failure donut, latency strip, delivery trend; and the two pages. The properties say that no text from
  the database can bring markup into a drawing, and that folding small series and causes loses no count.
\<close>

section \<open>Text in drawings\<close>

text \<open>\<^verbatim>\<open>template.HTMLEscapeString\<close>\<close>

definition escape_char :: "char \<Rightarrow> string" where
  "escape_char c =
     (if c = CHR 0x00 then utf8 [0xEF, 0xBF, 0xBD]
      else if c = CHR 0x22 then ''&#34;''
      else if c = CHR 0x27 then ''&#39;''
      else if c = CHR 0x26 then ''&amp;''
      else if c = CHR 0x3C then ''&lt;''
      else if c = CHR 0x3E then ''&gt;''
      else [c])"

definition HTMLEscapeString :: "string \<Rightarrow> string" where
  "HTMLEscapeString s = concat (map escape_char s)"

definition svgHoverTip :: "rat \<Rightarrow> rat \<Rightarrow> rat \<Rightarrow> string \<Rightarrow> svg_tip" where
  "svgHoverTip x y w label = (x, y, if x < 80 then ''start'' else if x > w - 80 then ''end'' else ''middle'', HTMLEscapeString label)"


section \<open>The ranges of the request chart\<close>

record chart_range =
  cr_key :: string
  cr_label :: string
  cr_title :: string
  cr_spec :: series_spec

definition chartRanges :: "chart_range list" where
  "chartRanges =
     [\<lparr>cr_key = ''day'', cr_label = t_range_day, cr_title = t_title_day, cr_spec = \<lparr>sc_unit = ''hour'', sc_buckets = 24\<rparr>\<rparr>,
      \<lparr>cr_key = ''week'', cr_label = t_range_week, cr_title = t_title_week, cr_spec = \<lparr>sc_unit = ''day'', sc_buckets = 7\<rparr>\<rparr>,
      \<lparr>cr_key = ''month'', cr_label = t_range_month, cr_title = t_title_month, cr_spec = \<lparr>sc_unit = ''day'', sc_buckets = 30\<rparr>\<rparr>,
      \<lparr>cr_key = ''year'', cr_label = t_range_year, cr_title = t_title_year, cr_spec = \<lparr>sc_unit = ''month'', sc_buckets = 12\<rparr>\<rparr>]"

definition resolveChartRange :: "string \<Rightarrow> chart_range" where
  "resolveChartRange key = (case find (\<lambda>cr. cr_key cr = key) chartRanges of Some cr \<Rightarrow> cr | None \<Rightarrow> hd chartRanges)"

definition chartPalette :: "string list" where
  "chartPalette = [''#16a34a'', ''#2563eb'', ''#d97706'', ''#dc2626'', ''#7c3aed'', ''#0891b2'']"

definition restLineColor :: string where "restLineColor = ''#9ca3af''"

definition piePalette :: "string list" where
  "piePalette = [''#dc2626'', ''#f97316'', ''#eab308'', ''#8b5cf6'', ''#0891b2'', ''#6b7280'']"

definition topLineChartApps :: nat where "topLineChartApps = 4"
definition pieFoldAfter :: nat where "pieFoldAfter = 5"
definition latencySampleLimit :: nat where "latencySampleLimit = 400"
definition latencySLOMillis :: rat where "latencySLOMillis = 200"
definition trendPointCap :: nat where "trendPointCap = 90"
definition recentFailureLimit :: nat where "recentFailureLimit = 30"

definition koreanWeekdays :: "string list" where
  "koreanWeekdays = [t_sun, t_mon, t_tue, t_wed, t_thu, t_fri, t_sat]"

text \<open>The calendar of an instant in UTC; the first of January of year 1 is a Monday.\<close>

definition date_of :: "time \<Rightarrow> int \<times> int \<times> int" where "date_of t = days_date (t div second_ns div 86400)"
definition year_of :: "time \<Rightarrow> int" where "year_of t = fst (date_of t)"
definition month_of :: "time \<Rightarrow> int" where "month_of t = fst (snd (date_of t))"
definition day_of :: "time \<Rightarrow> int" where "day_of t = snd (snd (date_of t))"
definition hour_of :: "time \<Rightarrow> int" where "hour_of t = t div hour_ns mod 24"
definition weekday_of :: "time \<Rightarrow> string" where
  "weekday_of t = koreanWeekdays ! nat ((t div second_ns div 86400 + 1) mod 7)"

definition bucket_key :: "string \<Rightarrow> time \<Rightarrow> string" where
  "bucket_key un t =
     (if un = ''hour'' then Format_date t @ ''T'' @ pad_int 2 (hour_of t)
      else if un = ''month'' then pad_int 4 (year_of t) @ ''-'' @ pad_int 2 (month_of t)
      else Format_date t)"

definition bucketAxis :: "series_spec \<Rightarrow> time \<Rightarrow> time list" where
  "bucketAxis spec now =
     map (\<lambda>i. bucket_back (sc_unit spec) (sc_buckets spec - 1 - int i) (date_trunc (sc_unit spec) now)) [0..<nat (sc_buckets spec)]"

definition axisLabel :: "series_spec \<Rightarrow> nat \<Rightarrow> time \<Rightarrow> string" where
  "axisLabel spec i t =
     (if sc_unit spec = ''hour'' then (if i mod 3 \<noteq> 0 then [] else FormatInt (hour_of t) @ t_hour)
      else if sc_unit spec = ''month'' then FormatInt (month_of t) @ t_month
      else if sc_buckets spec \<le> 7 then weekday_of t
      else if i mod 5 \<noteq> 0 \<and> int i \<noteq> sc_buckets spec - 1 then []
      else FormatInt (month_of t) @ ''/'' @ FormatInt (day_of t))"

definition pointLabel :: "series_spec \<Rightarrow> time \<Rightarrow> string" where
  "pointLabel spec t =
     (if sc_unit spec = ''hour'' then FormatInt (day_of t) @ t_day @ FormatInt (hour_of t) @ t_hour
      else if sc_unit spec = ''month'' then FormatInt (year_of t) @ t_year @ FormatInt (month_of t) @ t_month
      else FormatInt (month_of t) @ ''/'' @ FormatInt (day_of t) @ ''('' @ weekday_of t @ '')'')"


section \<open>The request chart\<close>

record line_series =
  ln_label :: string
  ln_counts :: "nat list"
  ln_rest :: bool

text \<open>The position of a key on the axis; a later bucket replaces an earlier one.\<close>

definition bucket_index :: "string list \<Rightarrow> string \<Rightarrow> nat option" where
  "bucket_index keys k = map_of (rev (zip keys [0..<length keys])) k"

text \<open>The counts of one application per bucket, in the window.\<close>

definition app_buckets :: "string list \<Rightarrow> string \<Rightarrow> app_day_count list \<Rightarrow> (string \<times> nat \<times> nat) list" where
  "app_buckets keys un series =
     concat (map (\<lambda>p. case bucket_index keys (bucket_key un (ac_day p)) of
         None \<Rightarrow> [] | Some i \<Rightarrow> [(ac_app p, i, ac_count p)]) series)"

definition bucket_counts :: "(string \<times> nat \<times> nat) list \<Rightarrow> nat \<Rightarrow> string \<Rightarrow> nat list" where
  "bucket_counts points buckets app =
     map (\<lambda>i. case map_of (rev (map snd (filter (\<lambda>p. fst p = app) points))) i of None \<Rightarrow> 0 | Some c \<Rightarrow> c) [0..<buckets]"

definition busier :: "string \<times> nat list \<Rightarrow> string \<times> nat list \<Rightarrow> bool" where
  "busier x y = (if sum_list (snd x) \<noteq> sum_list (snd y) then sum_list (snd x) > sum_list (snd y) else text_le (fst x) (fst y))"

text \<open>\<^verbatim>\<open>rest[i] += c\<close> over the remaining applications.\<close>

definition add_counts :: "nat list \<Rightarrow> nat list \<Rightarrow> nat list" where
  "add_counts xs ys = map (\<lambda>(x, y). x + y) (zip xs ys)"

definition selectLineSeries :: "(string \<times> nat list) list \<Rightarrow> nat \<Rightarrow> line_series list" where
  "selectLineSeries perApp buckets =
     (let totals = sort_by busier perApp; line = (\<lambda>(app, cs). \<lparr>ln_label = app, ln_counts = cs, ln_rest = False\<rparr>)
      in if length totals \<le> topLineChartApps + 1 then map line totals
         else map line (take topLineChartApps totals) @
           [\<lparr>ln_label = t_rest @ FormatInt (int (length totals - topLineChartApps)) @ t_pieces,
             ln_counts = foldl (\<lambda>acc x. add_counts acc (snd x)) (replicate buckets 0) (drop topLineChartApps totals), ln_rest = True\<rparr>])"

text \<open>The plane of a chart: its size, its padding on the left, right, top and bottom, its columns and its highest count.\<close>

record plane =
  pw :: rat
  ph :: rat
  pcols :: nat
  pmax :: nat

definition padL :: rat where "padL = 36"
definition padR :: rat where "padR = 12"
definition padT :: rat where "padT = 12"
definition padB :: rat where "padB = 28"

definition x_at :: "plane \<Rightarrow> nat \<Rightarrow> rat" where
  "x_at p i = (let plotW = pw p - padL - padR
     in if pcols p = 1 then padL + plotW / 2 else padL + plotW * of_nat i / of_nat (pcols p - 1))"

definition y_at :: "plane \<Rightarrow> nat \<Rightarrow> rat" where
  "y_at p c = (let plotH = ph p - padT - padB in padT + plotH * (1 - of_nat c / of_nat (pmax p)))"

definition gridlines :: "plane \<Rightarrow> svg_element list" where
  "gridlines p = map (\<lambda>g. let y = padT + (ph p - padT - padB) * of_nat g / 4 in El_line padL y (pw p - padR) y) [0..<5]"

definition polyline :: "plane \<Rightarrow> nat list \<Rightarrow> string \<Rightarrow> svg_element" where
  "polyline p cs color = El_polyline (map (\<lambda>(i, c). (x_at p i, y_at p c)) (enumerate 0 cs)) color"

definition points :: "plane \<Rightarrow> (nat \<Rightarrow> nat \<Rightarrow> string) \<Rightarrow> nat list \<Rightarrow> string \<Rightarrow> svg_element list" where
  "points p label cs color =
     map (\<lambda>(i, c). let x = x_at p i; y = y_at p c; tipY = (if y - 10 < 16 then y + 20 else y - 10)
            in El_point x y 9 3 color (svgHoverTip x tipY (pw p) (label i c))) (enumerate 0 cs)"

definition max_count :: "nat list list \<Rightarrow> nat" where "max_count css = foldl max 1 (concat css)"

definition line_color :: "nat \<Rightarrow> line_series \<Rightarrow> string" where
  "line_color n li = (if ln_rest li then restLineColor else chartPalette ! (n mod length chartPalette))"

definition draw_lines :: "chart_range \<Rightarrow> time list \<Rightarrow> line_series list \<Rightarrow> line_chart" where
  "draw_lines cr axis lns =
     (let spec = cr_spec cr; p = \<lparr>pw = 640, ph = 240, pcols = nat (sc_buckets spec), pmax = max_count (map ln_counts lns)\<rparr>;
          labels = concat (map (\<lambda>(i, t). let lab = axisLabel spec i t
                       in if lab = [] then [] else [El_text (x_at p i) (ph p - 8) ''middle'' lab]) (enumerate 0 axis));
          tip = (\<lambda>li i c. pointLabel spec (axis ! i) @ t_dot @ ln_label li @ t_dot @ FormatInt (int c) @ t_times)
      in \<lparr>lc_svg = \<lparr>sv_width = pw p, sv_height = ph p, sv_label = t_chart_label @ HTMLEscapeString (cr_title cr) @ '')'',
            sv_elements = gridlines p @ labels @ map (\<lambda>(n, li). polyline p (ln_counts li) (line_color n li)) (enumerate 0 lns) @
              concat (map (\<lambda>(n, li). points p (tip li) (ln_counts li) (line_color n li)) (enumerate 0 lns))\<rparr>,
          lc_legend = map (\<lambda>(n, li). \<lparr>lg_label = ln_label li, lg_color = line_color n li\<rparr>) (enumerate 0 lns)\<rparr>)"

definition buildLineChart :: "app_day_count list \<Rightarrow> chart_range \<Rightarrow> time \<Rightarrow> line_chart option" where
  "buildLineChart series cr now =
     (let spec = cr_spec cr; axis = bucketAxis spec now; keys = map (bucket_key (sc_unit spec)) axis;
          pts = app_buckets keys (sc_unit spec) series; buckets = nat (sc_buckets spec);
          perApp = map (\<lambda>app. (app, bucket_counts pts buckets app)) (remdups (map fst pts))
      in if series = [] \<or> perApp = [] then None else Some (draw_lines cr axis (selectLineSeries perApp buckets)))"



section \<open>The failure donut\<close>

definition fold_causes :: "(string \<times> nat) list \<Rightarrow> (string \<times> nat) list" where
  "fold_causes counts =
     (if length counts > pieFoldAfter + 1
      then take pieFoldAfter counts @
        [(t_rest @ FormatInt (int (length counts - pieFoldAfter)) @ t_kinds, sum_list (map snd (drop pieFoldAfter counts)))]
      else counts)"

text \<open>One slice: its share of the ring and where it starts, in \<^verbatim>\<open>float64\<close> arithmetic; the drawing multiplies both by
  the circumference of the ring.\<close>

fun pie_slices :: "nat \<Rightarrow> nat \<Rightarrow> rat \<Rightarrow> (string \<times> nat) list \<Rightarrow> (svg_element \<times> pie_legend_item) list" where
  "pie_slices whole i acc [] = []"
| "pie_slices whole i acc ((code, n) # cs) =
     (let frac = f_div (f_of_int (int n)) (f_of_int (int whole)); color = piePalette ! (i mod length piePalette);
          pct = format_0f (f_mul frac 100) @ ''%''
      in (El_slice 110 110 80 36 color frac acc (svgHoverTip 110 (110 + 4) 220 (code @ t_dot @ FormatInt (int n) @ t_times @ '' ('' @ pct @ '')'')),
          \<lparr>pl_code = code, pl_count = n, pl_pct = pct, pl_color = color\<rparr>) # pie_slices whole (Suc i) (f_add acc frac) cs)"

definition buildFailurePie :: "(string \<times> nat) list \<Rightarrow> failure_pie_view option" where
  "buildFailurePie counts =
     (let whole = sum_list (map snd counts); slices = pie_slices whole 0 0 (fold_causes counts)
      in if counts = [] \<or> whole = 0 then None
         else Some \<lparr>fp_svg = \<lparr>sv_width = 220, sv_height = 220, sv_label = t_pie_label,
                sv_elements = map fst slices @ [El_text 110 (110 - 2) ''middle'' (FormatInt (int whole)),
                  El_text 110 (110 + 20) ''middle'' t_pie_center]\<rparr>,
              fp_legend = map snd slices, fp_total = whole\<rparr>)"


section \<open>The latency strip\<close>

text \<open>\<^verbatim>\<open>math.Pow(10, math.Floor(math.Log10(x)))\<close> of a positive number.\<close>

function mag_up :: "rat \<Rightarrow> rat" where
  "mag_up x = (if x < 10 then 1 else 10 * mag_up (x / 10))"
  by pat_completeness auto
termination
proof (relation "measure (\<lambda>x. nat \<lfloor>x\<rfloor>)")
  fix x :: rat
  assume "\<not> x < 10"
  then have ten: "10 \<le> x" by simp
  have "of_int \<lfloor>x / 10\<rfloor> \<le> x / 10" "x < of_int \<lfloor>x\<rfloor> + 1" using floor_correct [of "x / 10"] floor_correct [of x] by simp_all
  moreover have "x / 10 \<le> x - 9" using ten by simp
  ultimately have "(of_int \<lfloor>x / 10\<rfloor> :: rat) < of_int \<lfloor>x\<rfloor>" by linarith
  moreover have "0 < \<lfloor>x\<rfloor>" using ten by simp
  ultimately show "(x / 10, x) \<in> measure (\<lambda>x. nat \<lfloor>x\<rfloor>)" by simp
qed simp

function mag_down :: "rat \<Rightarrow> rat" where
  "mag_down x = (if 1 \<le> x \<or> x \<le> 0 then 1 else mag_down (10 * x) / 10)"
  by pat_completeness auto
termination
proof (relation "measure (\<lambda>x. nat \<lfloor>1 / x\<rfloor>)")
  fix x :: rat
  assume "\<not> (1 \<le> x \<or> x \<le> 0)"
  then have x: "0 < x" "x < 1" by simp_all
  then have inv: "1 < 1 / x" by simp
  have "1 / (10 * x) = (1 / x) / 10" by simp
  then have "of_int \<lfloor>1 / (10 * x)\<rfloor> \<le> (1 / x) / 10" by (metis of_int_floor_le)
  moreover have "1 / x < of_int \<lfloor>1 / x\<rfloor> + 1" using floor_correct [of "1 / x"] by simp
  ultimately have "(of_int \<lfloor>1 / (10 * x)\<rfloor> :: rat) < of_int \<lfloor>1 / x\<rfloor>" 
  proof -
    have "1 \<le> \<lfloor>1 / x\<rfloor>" using inv by simp
    then have "(1 :: rat) \<le> of_int \<lfloor>1 / x\<rfloor>" by simp
    with \<open>of_int \<lfloor>1 / (10 * x)\<rfloor> \<le> (1 / x) / 10\<close> \<open>1 / x < of_int \<lfloor>1 / x\<rfloor> + 1\<close> show ?thesis by linarith
  qed
  moreover have "0 < \<lfloor>1 / x\<rfloor>" using inv by simp
  ultimately show "(10 * x, x) \<in> measure (\<lambda>x. nat \<lfloor>1 / x\<rfloor>)" by simp
qed simp

declare mag_up.simps [simp del] mag_down.simps [simp del]

definition magnitude :: "rat \<Rightarrow> rat" where
  "magnitude x = (if 1 \<le> x then mag_up x else mag_down x)"

definition niceAxisMax :: "rat \<Rightarrow> rat" where
  "niceAxisMax ms =
     (if ms \<le> 0 then 1
      else
        (let mag = magnitude ms
         in case find (\<lambda>m. ms \<le> m * mag) [1, 2, 5, 10] of Some m \<Rightarrow> m * mag | None \<Rightarrow> 10 * mag))"

text \<open>\<^verbatim>\<open>%.3g\<close> of a number that is at least 1: three significant digits, without zeros at the end.\<close>

definition trim_zeros :: "string \<Rightarrow> string" where
  "trim_zeros s =
     (if CHR ''.'' \<in> set s then rev (let t = dropWhile (\<lambda>c. c = CHR ''0'') (rev s) in if hd t = CHR ''.'' then tl t else t) else s)"

definition digits_at :: "int \<Rightarrow> nat \<Rightarrow> string" where
  "digits_at n k = (let ds = FormatInt n in trim_zeros (take (length ds - k) ds @ ''.'' @ drop (length ds - k) ds))"

definition format_3g :: "rat \<Rightarrow> string" where
  "format_3g x =
     (let mag = magnitude x; n = round_even (x / mag * 100); big = (n = 1000);
          n = (if big then 100 else n); k = length (FormatInt \<lfloor>mag\<rfloor>) - 1 + (if big then 1 else 0)
      in if k \<ge> 3 then digits_at n 2 @ ''e+'' @ pad_int 2 (int k) else digits_at n (2 - k))"

definition formatAxisMs :: "rat \<Rightarrow> string" where
  "formatAxisMs ms = (if ms \<ge> 1000 then format_3g (ms / 1000) @ ''s'' else format_0f ms @ ''ms'')"

definition strip_x :: "rat \<Rightarrow> rat \<Rightarrow> rat" where
  "strip_x axisMax ms = 10 + (640 - 10 - 14) * ms / axisMax"

definition strip_axis :: "rat \<Rightarrow> svg_element list" where
  "strip_axis axisMax =
     El_line 10 118 (640 - 14) 118 #
     concat (map (\<lambda>i. let ms = axisMax * of_nat i / 4; x = strip_x axisMax ms
         in [El_line x 118 x (118 + 4),
             El_text x (118 + 18) (if i = 0 then ''start'' else if i = 4 then ''end'' else ''middle'') (formatAxisMs ms)]) [0..<5])"

definition strip_marks :: "rat \<Rightarrow> rat \<Rightarrow> svg_element list" where
  "strip_marks axisMax p50 =
     (let off = (latencySLOMillis > axisMax); sloX = (if off then 640 - 14 else strip_x axisMax latencySLOMillis);
          sloLabel = ''SLO '' @ format_0f latencySLOMillis @ ''ms'' @ (if off then t_arrow else []);
          p50X = strip_x axisMax (min (p50 * 1000) axisMax)
      in [El_line sloX 16 sloX 118, El_text sloX 12 (if sloX > 640 - 80 then ''end'' else ''middle'') sloLabel,
          El_line p50X 42 p50X 90, El_text p50X 36 ''middle'' (''p50 '' @ formatLatency p50)])"

definition strip_dot :: "rat \<Rightarrow> nat \<Rightarrow> latency_sample \<Rightarrow> svg_element" where
  "strip_dot axisMax i sm =
     (let label = (if lm_app sm \<noteq> [] then lm_app sm @ t_dot else []) @ formatLatency (lm_secs sm);
          x = strip_x axisMax (min (lm_secs sm * 1000) axisMax); cy = 66 + [0, - 9, 9, - 17, 17] ! (i mod 5)
      in El_point x cy 11 6 ''#2563eb'' (svgHoverTip x (cy - 14) 640 label))"

definition buildLatencyStrip :: "latency_sample list \<Rightarrow> latency_stats \<Rightarrow> latency_strip_view option" where
  "buildLatencyStrip samples stats =
     (let maxMs = foldl (\<lambda>m sm. if lm_secs sm * 1000 > m then lm_secs sm * 1000 else m) 0 samples;
          axisMax = niceAxisMax (maxMs * (13 / 10))
      in if samples = [] then None
         else Some \<lparr>lv_svg = \<lparr>sv_width = 640, sv_height = 150, sv_label = t_strip_label,
                sv_elements = strip_axis axisMax @ strip_marks axisMax (la_p50 stats) @
                  map (\<lambda>(i, sm). strip_dot axisMax i sm) (enumerate 0 samples)\<rparr>,
              lv_count = la_count stats, lv_shown = length samples, lv_p50 = formatLatency (la_p50 stats),
              lv_p95 = formatLatency (la_p95 stats), lv_max = formatLatency (la_max stats)\<rparr>)"


section \<open>The delivery trend\<close>

record trend_series =
  td_label :: string
  td_color :: string
  td_stages :: "string list"

definition trend_defs :: "string \<Rightarrow> trend_series list" where
  "trend_defs stageFilter =
     (if stageFilter \<noteq> [] then [\<lparr>td_label = stageFilter, td_color = ''#2563eb'', td_stages = [stageFilter]\<rparr>]
      else [\<lparr>td_label = ''received'', td_color = ''#2563eb'', td_stages = [''received'']\<rparr>,
            \<lparr>td_label = ''delivered'', td_color = ''#16a34a'', td_stages = [''delivered'']\<rparr>,
            \<lparr>td_label = t_failed, td_color = ''#dc2626'', td_stages = deliveryFailureStages\<rparr>])"

definition trend_axis :: "nat \<Rightarrow> time \<Rightarrow> time list" where
  "trend_axis days now = map (\<lambda>i. date_trunc ''day'' now - (int days - 1 - int i) * (24 * hour_ns)) [0..<days]"

definition trend_points :: "string list \<Rightarrow> stage_day_count list \<Rightarrow> trend_series \<Rightarrow> (nat \<times> nat) list" where
  "trend_points keys counts tdef =
     concat (map (\<lambda>sd. case bucket_index keys (Format_date (sd_day sd)) of
         None \<Rightarrow> [] | Some i \<Rightarrow> if sd_stage sd \<in> set (td_stages tdef) then [(i, sd_count sd)] else []) counts)"

definition trend_counts :: "nat \<Rightarrow> (nat \<times> nat) list \<Rightarrow> nat list" where
  "trend_counts days pts = map (\<lambda>i. sum_list (map snd (filter (\<lambda>p. fst p = i) pts))) [0..<days]"

definition trend_label :: "nat \<Rightarrow> time \<Rightarrow> string" where
  "trend_label days t = FormatInt (month_of t) @ ''/'' @ FormatInt (day_of t) @ (if days \<le> 7 then ''('' @ weekday_of t @ '')'' else [])"

definition draw_trend :: "nat \<Rightarrow> time list \<Rightarrow> (trend_series \<times> nat list) list \<Rightarrow> line_chart" where
  "draw_trend days axis series =
     (let p = \<lparr>pw = 960, ph = 220, pcols = days, pmax = max_count (map snd series)\<rparr>;
          labelEvery = (if days > 7 then (days + 6) div 7 else 1);
          labels = concat (map (\<lambda>(i, t). if i mod labelEvery \<noteq> 0 \<and> i \<noteq> days - 1 then []
                       else [El_text (x_at p i) (ph p - 8) ''middle'' (trend_label days t)]) (enumerate 0 axis));
          tip = (\<lambda>tdef i c. FormatInt (month_of (axis ! i)) @ ''/'' @ FormatInt (day_of (axis ! i)) @ t_dot @ td_label tdef @ t_dot @
                   FormatInt (int c) @ t_times)
      in \<lparr>lc_svg = \<lparr>sv_width = pw p, sv_height = ph p, sv_label = t_trend_label @ FormatInt (int days) @ t_days,
            sv_elements = gridlines p @ labels @ map (\<lambda>(tdef, cs). polyline p cs (td_color tdef)) series @
              (if days \<le> trendPointCap then concat (map (\<lambda>(tdef, cs). points p (tip tdef) cs (td_color tdef)) series) else [])\<rparr>,
          lc_legend = map (\<lambda>(tdef, cs). \<lparr>lg_label = td_label tdef, lg_color = td_color tdef\<rparr>) series\<rparr>)"

definition buildTrendChart :: "stage_day_count list \<Rightarrow> nat \<Rightarrow> string \<Rightarrow> time \<Rightarrow> line_chart option" where
  "buildTrendChart counts days stageFilter now =
     (let axis = trend_axis days now; keys = map Format_date axis;
          pts = map (\<lambda>tdef. (tdef, trend_points keys counts tdef)) (trend_defs stageFilter)
      in if counts = [] \<or> list_all (\<lambda>p. snd p = []) pts then None
         else Some (draw_trend days axis (map (\<lambda>(tdef, ps). (tdef, trend_counts days ps)) pts)))"

end
