(* ===== verification/Ui_Pages.thy ===== *)
theory Ui_Pages
  imports Ui_Charts
begin

text \<open>
  The dashboard and the delivery page of the admin UI (\<^verbatim>\<open>handleDashboard\<close> and \<^verbatim>\<open>handleDeliveryPage\<close>). Every section
  of the dashboard fails on its own: an error sets its flag and leaves its data empty.
\<close>

section \<open>The dashboard\<close>

definition client_Health :: "api \<Rightarrow> ui_config \<Rightarrow> string \<Rightarrow> ui_state \<Rightarrow> bool option \<times> ui_state" where
  "client_Health api c trace u =
     (case ui_do (api \<lparr>hr_method = ''GET'', hr_path = ''/healthz'', hr_authorization = [], hr_trace_header = trace, hr_remote = [],
             hr_query = [], hr_params = [], hr_body = Bad_body, hr_trace = [], hr_requester = None\<rparr>) u of
        (None, u1) \<Rightarrow> (None, u1)
      | (Some resp, u1) \<Rightarrow> (Some (rs_status resp = 200), u1))"

definition zero_dashboard :: dashboard_view where
  "zero_dashboard = \<lparr>dv_kpi = None, dv_kpi_err = False, dv_pipeline = None, dv_pipeline_err = False, dv_pie = None,
     dv_pie_err = False, dv_strip = None, dv_strip_err = False\<rparr>"

text \<open>A section: the query, what its result makes of the view, and what an error makes of it.\<close>

definition read_section :: "(world \<Rightarrow> ('e + 'a) \<times> world) \<Rightarrow> ('a \<Rightarrow> 'v \<Rightarrow> 'v) \<Rightarrow> ('v \<Rightarrow> 'v) \<Rightarrow> 'v \<Rightarrow> ui_state \<Rightarrow> 'v \<times> ui_state" where
  "read_section q good bad v u = (case ui_do q u of (Inl _, u1) \<Rightarrow> (bad v, u1) | (Inr x, u1) \<Rightarrow> (good x v, u1))"

definition dash_strip :: "env \<Rightarrow> dashboard_view \<Rightarrow> ui_state \<Rightarrow> dashboard_view \<times> ui_state" where
  "dash_strip e v u =
     (case ui_do (DeliveryLatency e) u of
        (Inl _, u1) \<Rightarrow> (v\<lparr>dv_strip_err := True\<rparr>, u1)
      | (Inr lat, u1) \<Rightarrow> read_section (LatencySamples e latencySampleLimit)
          (\<lambda>samples v. v\<lparr>dv_strip := buildLatencyStrip samples lat\<rparr>) (\<lambda>v. v\<lparr>dv_strip_err := True\<rparr>) v u1)"

definition dash_sections :: "env \<Rightarrow> ui_state \<Rightarrow> dashboard_view \<times> ui_state" where
  "dash_sections e u =
     (case read_section (DeliveryKPICounts e) (\<lambda>k v. v\<lparr>dv_kpi := Some (buildKPIView k)\<rparr>) (\<lambda>v. v\<lparr>dv_kpi_err := True\<rparr>)
             zero_dashboard u of (v1, u1) \<Rightarrow>
      case read_section (PipelineStageCounts e) (\<lambda>cs v. v\<lparr>dv_pipeline := buildPipelineFlow cs\<rparr>) (\<lambda>v. v\<lparr>dv_pipeline_err := True\<rparr>)
             v1 u1 of (v2, u2) \<Rightarrow>
      case read_section (FailureCauseCounts e) (\<lambda>cs v. v\<lparr>dv_pie := buildFailurePie cs\<rparr>) (\<lambda>v. v\<lparr>dv_pie_err := True\<rparr>)
             v2 u2 of (v3, u3) \<Rightarrow> dash_strip e v3 u3)"

text \<open>The chart is drawn with the clock of the UI, after the query.\<close>

definition dash_chart :: "env \<Rightarrow> chart_range \<Rightarrow> page \<Rightarrow> ui_state \<Rightarrow> page \<times> ui_state" where
  "dash_chart e cr data u =
     (case ui_do (RequestBuckets e (cr_spec cr)) u of
        (Inl _, u1) \<Rightarrow> (data\<lparr>pg_chart_err := True\<rparr>, u1)
      | (Inr series, u1) \<Rightarrow> (case ui_now e u1 of (now, u2) \<Rightarrow> (data\<lparr>pg_line_chart := buildLineChart series cr now\<rparr>, u2)))"

definition range_links :: "chart_range \<Rightarrow> chart_range_link list" where
  "range_links cr = map (\<lambda>x. \<lparr>cl_key = cr_key x, cl_label = cr_label x, cl_on = (cr_key x = cr_key cr)\<rparr>) chartRanges"

definition handleDashboard :: "env \<Rightarrow> api \<Rightarrow> ui_config \<Rightarrow> ui_handler" where
  "handleDashboard e api c r u =
     (case basePageData e r t_dash_title ''dashboard'' u of (data, u1) \<Rightarrow>
      case client_Health api c (ur_trace r) u1 of (healthy, u2) \<Rightarrow>
      case ui_now e u2 of (now, u3) \<Rightarrow>
      let data = data\<lparr>pg_subtitle := t_dash_subtitle, pg_server_url := uc_server_url c, pg_health_ok := (healthy = Some True),
            pg_health_db := (if healthy = Some True then ''connected'' else ''unreachable''),
            pg_uptime := uptimeString (time_sub now (uc_started c))\<rparr>
      in if \<not> uc_store c then (render c ''dashboard.html'' (data\<lparr>pg_db_unavailable := True\<rparr>), u3)
         else
           (case dash_sections e u3 of (dash, u4) \<Rightarrow>
            let cr = resolveChartRange (get_value (ur_query r) ''range'')
            in case dash_chart e cr (data\<lparr>pg_dash := Some dash, pg_chart_title := cr_title cr, pg_chart_ranges := range_links cr\<rparr>) u4 of
                 (data, u5) \<Rightarrow>
               case read_section (DashboardStats e) (\<lambda>st data. data\<lparr>pg_stats := Some st\<rparr>) (\<lambda>data. data) data u5 of (data, u6) \<Rightarrow>
               (render c ''dashboard.html'' data, u6)))"


section \<open>The delivery page\<close>

text \<open>Key, label and days of each period.\<close>

definition deliveryWindows :: "(string \<times> string \<times> nat) list" where
  "deliveryWindows = [(''1d'', t_window_1d, 1), (''7d'', t_window_7d, 7), (''1m'', t_window_1m, 30), (''3m'', t_window_3m, 90),
     (''6m'', t_window_6m, 180), (''1y'', t_window_1y, 365)]"

definition deliveryViews :: "(string \<times> string) list" where
  "deliveryViews = [(''failures'', t_view_failures), (''trend'', t_view_trend), (''funnel'', t_view_funnel)]"

definition resolveDeliveryView :: "string \<Rightarrow> string" where
  "resolveDeliveryView key = (if key \<in> fst ` set deliveryViews then key else fst (hd deliveryViews))"

definition deliveryStageOptions :: "string list" where
  "deliveryStageOptions = foldl (\<lambda>opts s. if s \<in> set opts then opts else opts @ [s]) deliveryFunnelStages deliveryFailureStages"

definition resolveDeliveryWindow :: "string \<Rightarrow> string \<times> string \<times> nat" where
  "resolveDeliveryWindow key =
     (let key = (if key = ''24h'' then ''1d'' else key);
          (k, label, days) = (case find (\<lambda>w. fst w = key) deliveryWindows of Some w \<Rightarrow> w | None \<Rightarrow> hd deliveryWindows)
      in (k, t_recent @ label, days))"

definition view_links :: "string \<Rightarrow> string \<Rightarrow> string \<Rightarrow> string \<Rightarrow> string \<Rightarrow> delivery_view_option list" where
  "view_links window view app stage code =
     map (\<lambda>(k, label). \<lparr>do_key = k, do_label = label, do_url = ''/delivery?'' @ Encode (url_values [(''view'', k), (''window'', window),
         (''app'', app), (''stage'', stage), (''error'', code)]), do_on = (k = view)\<rparr>) deliveryViews"

definition delivery_start :: "ui_request \<Rightarrow> delivery_view \<times> nat" where
  "delivery_start r =
     (let q = get_value (ur_query r); view = resolveDeliveryView (q ''view''); app = q ''app'';
          stage = (if q ''stage'' \<in> set deliveryStageOptions then q ''stage'' else []); code = q ''error''
      in case resolveDeliveryWindow (q ''window'') of (window, label, days) \<Rightarrow>
         (\<lparr>dy_window = window, dy_window_label = label,
           dy_windows = map (\<lambda>(k, l, _). \<lparr>dw_key = k, dw_label = l, dw_on = (k = window)\<rparr>) deliveryWindows,
           dy_view = view, dy_views = view_links window view app stage code, dy_app = app, dy_stage = stage, dy_error = code,
           dy_app_options = [], dy_stage_options = deliveryStageOptions, dy_error_options = [],
           dy_filtered = (app \<noteq> [] \<or> stage \<noteq> [] \<or> code \<noteq> []), dy_trend = None, dy_trend_err = False, dy_funnels = [],
           dy_funnels_err = False, dy_failures = [], dy_failures_err = False\<rparr>, days))"

text \<open>A selected value stays among the options.\<close>

definition keep_option :: "string \<Rightarrow> string list \<Rightarrow> string list" where
  "keep_option x opts = (if x \<noteq> [] \<and> x \<notin> set opts then sort_text (opts @ [x]) else opts)"

definition delivery_options :: "env \<Rightarrow> nat \<Rightarrow> delivery_view \<Rightarrow> ui_state \<Rightarrow> delivery_view \<times> ui_state" where
  "delivery_options e days d u =
     (case read_section (ListApps e) (\<lambda>apps d. d\<lparr>dy_app_options := map vw_id apps\<rparr>) (\<lambda>d. d) d u of (d1, u1) \<Rightarrow>
      let d1 = d1\<lparr>dy_app_options := keep_option (dy_app d1) (dy_app_options d1)\<rparr>
      in case read_section (FailureErrorCodes e (int days)) (\<lambda>codes d. d\<lparr>dy_error_options := codes\<rparr>) (\<lambda>d. d) d1 u1 of (d2, u2) \<Rightarrow>
         (d2\<lparr>dy_error_options := keep_option (dy_error d2) (dy_error_options d2)\<rparr>, u2))"

definition delivery_data :: "env \<Rightarrow> ui_config \<Rightarrow> nat \<Rightarrow> delivery_view \<Rightarrow> ui_state \<Rightarrow> delivery_view \<times> ui_state" where
  "delivery_data e c days d u =
     (if dy_view d = ''funnel''
      then read_section (StageCounts e (int days) (dy_app d)) (\<lambda>cs d. d\<lparr>dy_funnels := buildFunnels cs\<rparr>) (\<lambda>d. d\<lparr>dy_funnels_err := True\<rparr>) d u
      else if dy_view d = ''trend''
      then (case ui_do (DeliveryDailyCounts e (int days) (dy_app d) (dy_stage d) (dy_error d)) u of
              (Inl _, u1) \<Rightarrow> (d\<lparr>dy_trend_err := True\<rparr>, u1)
            | (Inr daily, u1) \<Rightarrow> (case ui_now e u1 of (now, u2) \<Rightarrow> (d\<lparr>dy_trend := buildTrendChart daily days (dy_stage d) now\<rparr>, u2)))
      else read_section (RecentFailures e (int days) recentFailureLimit (dy_app d) (dy_stage d) (dy_error d))
             (\<lambda>fs d. d\<lparr>dy_failures := failureDisplayRows (uc_zone c) fs\<rparr>) (\<lambda>d. d\<lparr>dy_failures_err := True\<rparr>) d u)"

definition handleDeliveryPage :: "env \<Rightarrow> ui_config \<Rightarrow> ui_handler" where
  "handleDeliveryPage e c r u =
     (case delivery_start r of (d, days) \<Rightarrow>
      case basePageData e r t_delivery_title ''delivery'' u of (data, u1) \<Rightarrow>
      let data = data\<lparr>pg_subtitle := dy_window_label d @ t_delivery_subtitle\<rparr>
      in if \<not> uc_store c then (render c ''delivery.html'' (data\<lparr>pg_db_unavailable := True, pg_delivery := Some d\<rparr>), u1)
         else
           (case delivery_options e days d u1 of (d1, u2) \<Rightarrow>
            case delivery_data e c days d1 u2 of (d2, u3) \<Rightarrow>
            (render c ''delivery.html'' (data\<lparr>pg_delivery := Some d2\<rparr>), u3)))"

end
