(* ===== verification/Ui_Test_Send.thy ===== *)
theory Ui_Test_Send
  imports Ui_Apps
begin

text \<open>
  The test console of the admin UI (\<^verbatim>\<open>src/internal/adminui/testsend.go\<close>): one message sent to the API's direct
  endpoint with a key the operator pastes. The property says that the console works with that key alone: the administration key of the
  UI never reaches it, and the pasted key leaves it in the one header of the call only.
\<close>

section \<open>Texts of status codes\<close>

text \<open>\<^verbatim>\<open>http.StatusText\<close>\<close>

definition status_texts :: "(int \<times> string) list" where
  "status_texts =
     [(100, ''Continue''), (101, ''Switching Protocols''), (102, ''Processing''), (103, ''Early Hints''),
      (200, ''OK''), (201, ''Created''), (202, ''Accepted''), (203, ''Non-Authoritative Information''), (204, ''No Content''),
      (205, ''Reset Content''), (206, ''Partial Content''), (207, ''Multi-Status''), (208, ''Already Reported''), (226, ''IM Used''),
      (300, ''Multiple Choices''), (301, ''Moved Permanently''), (302, ''Found''), (303, ''See Other''), (304, ''Not Modified''),
      (305, ''Use Proxy''), (307, ''Temporary Redirect''), (308, ''Permanent Redirect''),
      (400, ''Bad Request''), (401, ''Unauthorized''), (402, ''Payment Required''), (403, ''Forbidden''), (404, ''Not Found''),
      (405, ''Method Not Allowed''), (406, ''Not Acceptable''), (407, ''Proxy Authentication Required''), (408, ''Request Timeout''),
      (409, ''Conflict''), (410, ''Gone''), (411, ''Length Required''), (412, ''Precondition Failed''),
      (413, ''Request Entity Too Large''), (414, ''Request URI Too Long''), (415, ''Unsupported Media Type''),
      (416, ''Requested Range Not Satisfiable''), (417, ''Expectation Failed''), (418, ''I'' @ [CHR 0x27] @ ''m a teapot''),
      (421, ''Misdirected Request''), (422, ''Unprocessable Entity''), (423, ''Locked''), (424, ''Failed Dependency''),
      (425, ''Too Early''), (426, ''Upgrade Required''), (428, ''Precondition Required''), (429, ''Too Many Requests''),
      (431, ''Request Header Fields Too Large''), (451, ''Unavailable For Legal Reasons''),
      (500, ''Internal Server Error''), (501, ''Not Implemented''), (502, ''Bad Gateway''), (503, ''Service Unavailable''),
      (504, ''Gateway Timeout''), (505, ''HTTP Version Not Supported''), (506, ''Variant Also Negotiates''),
      (507, ''Insufficient Storage''), (508, ''Loop Detected''), (510, ''Not Extended''), (511, ''Network Authentication Required'')]"

definition StatusText :: "int \<Rightarrow> string" where
  "StatusText status = (case map_of status_texts status of None \<Rightarrow> [] | Some s \<Rightarrow> s)"


section \<open>The body of the answer\<close>

definition testSendTextMax :: nat where "testSendTextMax = 1000"
definition testSendBodyMax :: nat where "testSendBodyMax = 4096"

text \<open>\<^verbatim>\<open>utf8.Valid\<close>\<close>

function utf8_valid :: "bytes \<Rightarrow> bool" where
  "utf8_valid [] = True"
| "utf8_valid (c # s) = (0 < rune_len (c # s) \<and> utf8_valid (drop (rune_len (c # s) - 1) s))"
  by pat_completeness auto
termination
  by (relation "measure length") auto

text \<open>The loop that does not cut a rune in half; it runs at most \<open>n\<close> times.\<close>

fun trim_rune :: "nat \<Rightarrow> bytes \<Rightarrow> bytes" where
  "trim_rune 0 raw = raw"
| "trim_rune (Suc n) raw = (if raw \<noteq> [] \<and> \<not> utf8_valid raw then trim_rune n (butlast raw) else raw)"

definition prettyJSON :: "ui_config \<Rightarrow> bytes \<Rightarrow> bytes" where
  "prettyJSON c raw = (case uc_indent c raw of Some s \<Rightarrow> s | None \<Rightarrow> raw)"

definition shown_body :: "bytes \<Rightarrow> bytes \<times> bool" where
  "shown_body body =
     (let raw = take (testSendBodyMax + 1) body; truncated = length raw > testSendBodyMax
      in if truncated then (trim_rune 3 (take testSendBodyMax raw), True) else (raw, False))"


section \<open>The console\<close>

definition test_request :: "ui_request \<Rightarrow> string \<Rightarrow> string \<Rightarrow> int \<Rightarrow> string \<Rightarrow> http_request" where
  "test_request r apiKey app recipient msg =
     \<lparr>hr_method = ''POST'', hr_path = ''/v1/messages/direct'', hr_authorization = ''Bearer '' @ apiKey,
      hr_trace_header = ur_trace r, hr_remote = [], hr_query = [], hr_params = [],
      hr_body = Body_dispatch \<lparr>dq_recipients = [recipient], dq_app_id = app, dq_min_grade = [],
        dq_envelope = \<lparr>en_text = msg, en_schema_version = 1\<rparr>\<rparr>,
      hr_trace = [], hr_requester = None\<rparr>"

definition proxyTestSend ::
  "api \<Rightarrow> ui_config \<Rightarrow> ui_request \<Rightarrow> string \<Rightarrow> string \<Rightarrow> int \<Rightarrow> string \<Rightarrow> ui_state \<Rightarrow> test_send_result option \<times> ui_state" where
  "proxyTestSend api c r apiKey app recipient msg u =
     (case ui_do (api (test_request r apiKey app recipient msg)) u of
        (None, u1) \<Rightarrow> (None, u1)
      | (Some resp, u1) \<Rightarrow>
          (case shown_body (uc_wire c resp) of (raw, truncated) \<Rightarrow>
           (Some \<lparr>tr_status = FormatInt (rs_status resp) @ '' '' @ StatusText (rs_status resp),
              tr_ok = (rs_status resp \<ge> 200 \<and> rs_status resp < 300), tr_body = prettyJSON c raw, tr_truncated = truncated,
              tr_trace = get_value (rs_headers resp) ''X-Trace-Id''\<rparr>, u1)))"

definition testSendPageData :: "env \<Rightarrow> ui_config \<Rightarrow> ui_request \<Rightarrow> ui_state \<Rightarrow> page \<times> ui_state" where
  "testSendPageData e c r u =
     (case basePageData e r t_test_title ''testsend'' u of (data, u1) \<Rightarrow>
      let data = data\<lparr>pg_subtitle := t_test_subtitle, pg_server_url := uc_server_url c,
            pg_test_send := Some \<lparr>tv_app = [], tv_recipient = [], tv_text = [], tv_result = None\<rparr>\<rparr>
      in if uc_store c then with_apps e data u1 else (data, u1))"

definition handleTestSendPage :: "env \<Rightarrow> ui_config \<Rightarrow> ui_handler" where
  "handleTestSendPage e c r u =
     (case testSendPageData e c r u of (data, u1) \<Rightarrow>
      (render c ''testsend.html'' (data\<lparr>pg_test_send := map_option (\<lambda>v. v\<lparr>tv_text := t_test_default\<rparr>) (pg_test_send data)\<rparr>), u1))"

text \<open>The checks of the form, in the order of the switch.\<close>

definition test_form_error :: "string \<Rightarrow> string \<Rightarrow> string \<Rightarrow> string \<Rightarrow> string" where
  "test_form_error apiKey app recipientRaw msg =
     (if apiKey = [] then t_test_no_key
      else if \<not> appIDPattern app then t_bad_app_id
      else if (case ParseInt recipientRaw of None \<Rightarrow> True | Some recipient \<Rightarrow> recipient \<le> 0) then t_test_bad_recipient
      else if msg = [] then t_test_no_text
      else if rune_count msg > testSendTextMax then t_test_long_1 @ FormatInt (int testSendTextMax) @ t_test_long_2
      else [])"

definition handleTestSendSubmit :: "env \<Rightarrow> api \<Rightarrow> ui_config \<Rightarrow> ui_handler" where
  "handleTestSendSubmit e api c r u =
     (let apiKey = TrimSpace (PostFormValue r ''api_key''); app = TrimSpace (PostFormValue r ''app_id'');
          recipientRaw = TrimSpace (PostFormValue r ''recipient''); msg = TrimSpace (PostFormValue r ''text'')
      in case testSendPageData e c r u of (data, u1) \<Rightarrow>
         let view = \<lparr>tv_app = app, tv_recipient = recipientRaw, tv_text = msg, tv_result = None\<rparr>;
             err = test_form_error apiKey app recipientRaw msg;
             data = data\<lparr>pg_test_send := Some view, pg_error := err\<rparr>
         in if err \<noteq> [] then (render c ''testsend.html'' data, u1)
            else
              (case proxyTestSend api c r apiKey app (the (ParseInt recipientRaw)) msg u1 of
                 (None, u2) \<Rightarrow> (render c ''testsend.html'' (data\<lparr>pg_error := t_test_unreachable\<rparr>), u2)
               | (Some result, u2) \<Rightarrow>
                   (render c ''testsend.html'' (data\<lparr>pg_test_send := Some (view\<lparr>tv_result := Some result\<rparr>)\<rparr>), u2)))"


section \<open>What the console does with keys\<close>

lemma trim_rune_prefix: "\<exists>k \<le> n. trim_rune n raw = take (length raw - k) raw"
proof (induction n raw rule: trim_rune.induct)
  case (2 n raw)
  show ?case
  proof (cases "raw \<noteq> [] \<and> \<not> utf8_valid raw")
    case True
    with 2 obtain k where "k \<le> n" "trim_rune n (butlast raw) = take (length (butlast raw) - k) (butlast raw)" by blast
    with True show ?thesis by (intro exI [of _ "Suc k"]) (simp add: butlast_conv_take)
  qed (auto intro: exI [of _ 0])
qed simp

text \<open>What is shown of a body is a prefix of it: all of it, or at least 4093 of its bytes.\<close>

lemma shown_body_prefix:
  "fst (shown_body body) = take (length (fst (shown_body body))) body \<and>
   (length body \<le> testSendBodyMax \<longrightarrow> shown_body body = (body, False)) \<and>
   (length body > testSendBodyMax \<longrightarrow> snd (shown_body body) \<and> length (fst (shown_body body)) \<in> {testSendBodyMax - 3 .. testSendBodyMax})"
proof (cases "length body > testSendBodyMax")
  case True
  obtain k where k: "k \<le> 3" "trim_rune 3 (take testSendBodyMax body) = take (testSendBodyMax - k) body"
    using trim_rune_prefix [of 3 "take testSendBodyMax body"] True by (auto simp: min_def)
  have "shown_body body = (take (testSendBodyMax - k) body, True)"
    using True k(2) by (simp add: shown_body_def Let_def min_def)
  with True k(1) show ?thesis by (auto simp: min_def)
qed (simp add: shown_body_def Let_def)

text \<open>The page as a function of the one answer of the API (or of nothing, when the form is refused).\<close>

definition test_send_page :: "ui_config \<Rightarrow> page \<Rightarrow> test_send_view \<Rightarrow> ui_state \<Rightarrow> response option \<times> world \<Rightarrow> ui_response \<times> ui_state" where
  "test_send_page c data view u answer =
     (case answer of
        (None, w) \<Rightarrow> (render c ''testsend.html'' (data\<lparr>pg_error := t_test_unreachable\<rparr>), u\<lparr>ui_w := w\<rparr>)
      | (Some resp, w) \<Rightarrow>
          (case shown_body (uc_wire c resp) of (raw, truncated) \<Rightarrow>
           (render c ''testsend.html'' (data\<lparr>pg_test_send := Some (view\<lparr>tv_result := Some
              \<lparr>tr_status = FormatInt (rs_status resp) @ '' '' @ StatusText (rs_status resp),
               tr_ok = (rs_status resp \<ge> 200 \<and> rs_status resp < 300), tr_body = prettyJSON c raw, tr_truncated = truncated,
               tr_trace = get_value (rs_headers resp) ''X-Trace-Id''\<rparr>\<rparr>)\<rparr>), u\<lparr>ui_w := w\<rparr>)))"

lemma proxied_page:
  "(case proxyTestSend api c r key app n msg u1 of
      (None, u2) \<Rightarrow> (render c ''testsend.html'' (data\<lparr>pg_error := t_test_unreachable\<rparr>), u2)
    | (Some result, u2) \<Rightarrow> (render c ''testsend.html'' (data\<lparr>pg_test_send := Some (view\<lparr>tv_result := Some result\<rparr>)\<rparr>), u2)) =
   test_send_page c data view u1 (api (test_request r key app n msg) (ui_w u1))"
  by (simp add: proxyTestSend_def test_send_page_def ui_do_def split: prod.splits option.splits)

text \<open>C33: The test console makes at most one request, and that with the pasted key: there is one request, to the
  direct-message endpoint, with the form's recipient, application and text and in its header the pasted
  key, such that the page and every effect are a function of the API's answer to that request. The function
  does not depend on the API, on the administration key of the UI or on the pasted key, so neither key is on the
  page, and the administration key is in no request. When the form is refused (no key, or another field is bad) the function is constant: the API
  is not called.\<close>

theorem test_console_keys:
  "\<exists>q w0 F.
    hr_method q = ''POST'' \<and> hr_path q = ''/v1/messages/direct'' \<and>
    hr_body q = Body_dispatch \<lparr>dq_recipients = [the (ParseInt (TrimSpace (PostFormValue r ''recipient'')))],
      dq_app_id = TrimSpace (PostFormValue r ''app_id''), dq_min_grade = [],
      dq_envelope = \<lparr>en_text = TrimSpace (PostFormValue r ''text''), en_schema_version = 1\<rparr>\<rparr> \<and>
    (\<forall>api k key. TrimSpace key \<noteq> [] \<longrightarrow>
       handleTestSendSubmit e api (c\<lparr>uc_api_key := k\<rparr>) (r\<lparr>ur_post_form := (''api_key'', key) # ur_post_form r\<rparr>) u =
       F (api (q\<lparr>hr_authorization := ''Bearer '' @ TrimSpace key\<rparr>) w0)) \<and>
    (test_form_error ''key'' (TrimSpace (PostFormValue r ''app_id'')) (TrimSpace (PostFormValue r ''recipient''))
       (TrimSpace (PostFormValue r ''text'')) \<noteq> [] \<longrightarrow> (\<forall>x y. F x = F y)) \<and>
    (\<forall>api api' k key. TrimSpace key = [] \<longrightarrow>
       handleTestSendSubmit e api (c\<lparr>uc_api_key := k\<rparr>) (r\<lparr>ur_post_form := (''api_key'', key) # ur_post_form r\<rparr>) u =
       handleTestSendSubmit e api' (c\<lparr>uc_api_key := k\<rparr>) (r\<lparr>ur_post_form := (''api_key'', key) # ur_post_form r\<rparr>) u)"
proof -
  let ?r = "\<lambda>key. r\<lparr>ur_post_form := (''api_key'', key) # ur_post_form r\<rparr>"
  let ?app = "TrimSpace (PostFormValue r ''app_id'')" and ?to = "TrimSpace (PostFormValue r ''recipient'')"
    and ?msg = "TrimSpace (PostFormValue r ''text'')"
  let ?q = "test_request r [] ?app (the (ParseInt ?to)) ?msg"
  let ?err = "test_form_error ''key'' ?app ?to ?msg"
  obtain data u1 where page: "testSendPageData e c r u = (data, u1)" by fastforce
  let ?view = "\<lparr>tv_app = ?app, tv_recipient = ?to, tv_text = ?msg, tv_result = None\<rparr>"
  let ?data = "data\<lparr>pg_test_send := Some ?view, pg_error := ?err\<rparr>"
  let ?F = "\<lambda>x. if ?err \<noteq> [] then (render c ''testsend.html'' ?data, u1) else test_send_page c ?data ?view u1 x"
  have form: "PostFormValue (?r key) ''api_key'' = key" "PostFormValue (?r key) ''app_id'' = PostFormValue r ''app_id''"
    "PostFormValue (?r key) ''recipient'' = PostFormValue r ''recipient''" "PostFormValue (?r key) ''text'' = PostFormValue r ''text''" for key
    by (simp_all add: PostFormValue_def get_value_def)
  have base: "basePageData e (?r key) title active v = basePageData e r title active v" for key title active v
    by (simp add: basePageData_def)
  have data: "testSendPageData e (c\<lparr>uc_api_key := k\<rparr>) (?r key) u = (data, u1)" for k key
    using page by (simp add: testSendPageData_def base)
  have req: "test_request (?r key) x ?app n ?msg = (test_request r [] ?app n ?msg)\<lparr>hr_authorization := ''Bearer '' @ x\<rparr>" for key x n
    by (simp add: test_request_def)
  have render: "render (c\<lparr>uc_api_key := k\<rparr>) = render c" "test_send_page (c\<lparr>uc_api_key := k\<rparr>) = test_send_page c" for k
    by (intro ext; auto simp: render_def test_send_page_def prettyJSON_def split: prod.splits option.splits)+
  have one: "handleTestSendSubmit e api (c\<lparr>uc_api_key := k\<rparr>) (?r key) u = ?F (api (?q\<lparr>hr_authorization := ''Bearer '' @ TrimSpace key\<rparr>) (ui_w u1))"
    if "TrimSpace key \<noteq> []" for api k key
  proof -
    have "test_form_error (TrimSpace key) ?app ?to ?msg = ?err" using that by (simp add: test_form_error_def)
    then show ?thesis
      unfolding handleTestSendSubmit_def Let_def form data prod.case proxied_page unfolding render req by simp
  qed
  have none: "handleTestSendSubmit e api (c\<lparr>uc_api_key := k\<rparr>) (?r key) u = handleTestSendSubmit e api' (c\<lparr>uc_api_key := k\<rparr>) (?r key) u"
    if "TrimSpace key = []" for api api' k key
  proof -
    have "test_form_error (TrimSpace key) ?app ?to ?msg \<noteq> []" using that by (simp add: test_form_error_def t_test_no_key_def utf8_def)
    then show ?thesis unfolding handleTestSendSubmit_def Let_def form data prod.case by simp
  qed
  show ?thesis
  proof (rule exI [of _ ?q], rule exI [of _ "ui_w u1"], rule exI [of _ ?F], intro conjI allI impI)
    show "?F x = ?F y" if "?err \<noteq> []" for x y using that by simp
    show "handleTestSendSubmit e api (c\<lparr>uc_api_key := k\<rparr>) (?r key) u = ?F (api (?q\<lparr>hr_authorization := ''Bearer '' @ TrimSpace key\<rparr>) (ui_w u1))"
      if "TrimSpace key \<noteq> []" for api k key using that by (rule one)
    show "handleTestSendSubmit e api (c\<lparr>uc_api_key := k\<rparr>) (?r key) u = handleTestSendSubmit e api' (c\<lparr>uc_api_key := k\<rparr>) (?r key) u"
      if "TrimSpace key = []" for api api' k key using that by (rule none)
  qed (simp_all add: test_request_def)
qed

definition demo_test_request :: ui_request where
  "demo_test_request = demo_ui_request\<lparr>ur_post_form := [(''api_key'', ''tg_ab_cd''), (''app_id'', ''ops''), (''recipient'', ''7''), (''text'', ''hi'')]\<rparr>"

theorem test_console_keys_witness:
  "\<exists>(q :: http_request) (w0 :: world) F. hr_path q = ''/v1/messages/direct'' \<and>
    handleTestSendSubmit demo_env (\<lambda>q w. (None, w)) (demo_ui_config\<lparr>uc_api_key := ''admin''\<rparr>)
      (demo_test_request\<lparr>ur_post_form := (''api_key'', ''tg_x_y'') # ur_post_form demo_test_request\<rparr>) demo_key_ui = F (None, w0) \<and>
    handleTestSendSubmit demo_env (\<lambda>q w. (Some (writeJSON 200 (J_ok True None)), w)) (demo_ui_config\<lparr>uc_api_key := ''other''\<rparr>)
      (demo_test_request\<lparr>ur_post_form := (''api_key'', ''tg_ab_cd'') # ur_post_form demo_test_request\<rparr>) demo_key_ui =
      F (Some (writeJSON 200 (J_ok True None)), w0)"
proof -
  have keys: "TrimSpace ''tg_ab_cd'' \<noteq> []" "TrimSpace ''tg_x_y'' \<noteq> []" by code_simp+
  obtain q w0 F where q: "hr_path q = ''/v1/messages/direct''"
    "\<forall>api k key. TrimSpace key \<noteq> [] \<longrightarrow>
       handleTestSendSubmit demo_env api (demo_ui_config\<lparr>uc_api_key := k\<rparr>)
         (demo_test_request\<lparr>ur_post_form := (''api_key'', key) # ur_post_form demo_test_request\<rparr>) demo_key_ui =
       F (api (q\<lparr>hr_authorization := ''Bearer '' @ TrimSpace key\<rparr>) w0)"
    using test_console_keys [of demo_test_request demo_env demo_ui_config demo_key_ui] by (elim exE conjE) (rule that)
  show ?thesis by (rule exI [of _ q], rule exI [of _ w0], rule exI [of _ F]) (simp add: q keys)
qed

end
