(* ===== verification/Ui_Session_Safe.thy ===== *)
theory Ui_Session_Safe
  imports Ui_Session
begin

text \<open>
  What the operator's session promises: which cookies open it, that logging out is final over every
  later run of the UI, that the limiter's sweep cannot be observed, and that the brake on failed logins holds.
\<close>

section \<open>Cookies\<close>

lemma IndexByte_None: "IndexByte xs c = None \<longleftrightarrow> c \<notin> set xs"
  by (induction xs c rule: IndexByte.induct) auto

lemma SplitN_length: "length (SplitN s c n) \<le> n"
  by (induction s c n rule: SplitN.induct) (auto split: option.splits)

lemma SplitN_3: "SplitN v c 3 = [a, b, d] \<longleftrightarrow> v = a @ c # b @ c # d \<and> c \<notin> set a \<and> c \<notin> set b"
proof -
  have cut: "IndexByte s c = Some i \<Longrightarrow> s = take i s @ c # drop (Suc i) s \<and> c \<notin> set (take i s)" for s i
    using IndexByte_SomeD [of s c i] by (metis id_take_nth_drop)
  have "v = a @ c # b @ c # d \<and> c \<notin> set a \<and> c \<notin> set b" if "SplitN v c 3 = [a, b, d]"
    using that by (auto simp: numeral_3_eq_3 split: option.splits dest!: cut)
  moreover have "SplitN (a @ c # b @ c # d) c 3 = [a, b, d]" if "c \<notin> set a" "c \<notin> set b"
    using that by (simp add: numeral_3_eq_3 IndexByte_append)
  ultimately show ?thesis by auto
qed

lemma ui_now_simps [simp]:
  "fst (ui_now e u) = env_now e (w_tick (ui_w u))" "snd (ui_now e u) = u\<lparr>ui_w := tick (ui_w u)\<rparr>"
  by (simp_all add: ui_now_def read_clock_def)

lemma ui_now_eq: "ui_now e u = (env_now e (w_tick (ui_w u)), u\<lparr>ui_w := tick (ui_w u)\<rparr>)"
  by (simp add: ui_now_def read_clock_def)

lemma bar_free: "CHR ''|'' \<notin> set (FormatInt n)" "CHR ''|'' \<notin> set (hex_encode b)"
proof -
  have "\<not> is_digit_char (CHR ''|'')" by code_simp
  then show "CHR ''|'' \<notin> set (FormatInt n)" using nat_dec_digits by (auto simp: FormatInt_def)
  show "CHR ''|'' \<notin> set (hex_encode b)" using set_hex_encode [of b] by auto
qed

text \<open>The UI accepts a session cookie exactly when it is an expiry and a nonce with the HMAC of both under
  the secret of this process, the expiry has not passed and the nonce is not revoked; checking changes nothing
  but the clock.\<close>

theorem session_cookie_exact:
  assumes "verify e val u = (res, u')"
  shows "(res = Some (nonce, expiry) \<longleftrightarrow>
      (\<exists>s n. val = session_payload s nonce @ ''|'' @ signature e (ui_sm u) (session_payload s nonce) \<and>
         CHR ''|'' \<notin> set s \<and> CHR ''|'' \<notin> set nonce \<and> ParseInt s = Some n \<and> expiry = unix_time n \<and>
         time_unix (env_now e (w_tick (ui_w u))) \<le> n \<and> sm_revoked (ui_sm u) nonce = None)) \<and>
    ui_sm u' = ui_sm u \<and> w_db (ui_w u') = w_db (ui_w u)"
proof -
  let ?parts = "SplitN val (CHR ''|'') 3"
  show ?thesis
  proof (cases "length ?parts = 3")
    case True
    then obtain s n0 sig where p: "?parts = [s, n0, sig]" 
      by (cases ?parts; cases "tl ?parts"; cases "tl (tl ?parts)") auto
    note v = p [unfolded SplitN_3]
    have shape: "val = session_payload s' nonce @ ''|'' @ x \<and> CHR ''|'' \<notin> set s' \<and> CHR ''|'' \<notin> set nonce \<longleftrightarrow>
        s' = s \<and> nonce = n0 \<and> x = sig" for s' x
      using SplitN_3 [of val "CHR ''|''" s' nonce x] p by (auto simp: session_payload_def)
    have "(\<exists>s' n. val = session_payload s' nonce @ ''|'' @ signature e (ui_sm u) (session_payload s' nonce) \<and>
         CHR ''|'' \<notin> set s' \<and> CHR ''|'' \<notin> set nonce \<and> ParseInt s' = Some n \<and> expiry = unix_time n \<and>
         time_unix (env_now e (w_tick (ui_w u))) \<le> n \<and> sm_revoked (ui_sm u) nonce = None) \<longleftrightarrow>
       (\<exists>n. nonce = n0 \<and> signature e (ui_sm u) (session_payload s nonce) = sig \<and> ParseInt s = Some n \<and> expiry = unix_time n \<and>
         time_unix (env_now e (w_tick (ui_w u))) \<le> n \<and> sm_revoked (ui_sm u) nonce = None)"
      using shape by metis
    moreover have "res = Some (nonce, expiry) \<longleftrightarrow>
       (\<exists>n. nonce = n0 \<and> signature e (ui_sm u) (session_payload s nonce) = sig \<and> ParseInt s = Some n \<and> expiry = unix_time n \<and>
         time_unix (env_now e (w_tick (ui_w u))) \<le> n \<and> sm_revoked (ui_sm u) nonce = None)"
      using assms p by (auto simp: verify_def Let_def ui_now_eq isRevoked_def split: option.splits if_splits)
    moreover have "ui_sm u' = ui_sm u \<and> w_db (ui_w u') = w_db (ui_w u)"
      using assms by (auto simp: verify_def Let_def ui_now_eq split: option.splits if_splits)
    ultimately show ?thesis by blast
  next
    case False
    then have "val \<noteq> session_payload s nonce @ ''|'' @ x \<or> CHR ''|'' \<in> set s \<or> CHR ''|'' \<in> set nonce" for s x
      using SplitN_3 [of val "CHR ''|''" s nonce x] by (auto simp: session_payload_def)
    with False assms show ?thesis by (auto simp: verify_def)
  qed
qed

definition demo_ui :: ui_state where
  "demo_ui = \<lparr>ui_w = empty_world, ui_sm = \<lparr>sm_secret = ''k'', sm_secure = True, sm_revoked = Map.empty\<rparr>,
     ui_limiter = Map.empty, ui_backoff = \<lparr>gb_failures = 0, gb_lastFailure = 0, gb_blockedUntil = 0\<rparr>\<rparr>"

theorem session_cookie_exact_witness:
  "fst (verify demo_env (sign demo_env (ui_sm demo_ui) 1800000000 ''ab'') demo_ui) = Some (''ab'', unix_time 1800000000)"
proof -
  let ?v = "sign demo_env (ui_sm demo_ui) 1800000000 ''ab''"
  have int: "ParseInt (FormatInt 1800000000) = Some 1800000000" by (rule ParseInt_FormatInt) simp_all
  have "verify demo_env ?v demo_ui = (fst (verify demo_env ?v demo_ui), snd (verify demo_env ?v demo_ui))" by simp
  from session_cookie_exact [OF this, THEN conjunct1, of "''ab''" "unix_time 1800000000"]
  have "fst (verify demo_env ?v demo_ui) = Some (''ab'', unix_time 1800000000) \<longleftrightarrow>
      (\<exists>s n. ?v = session_payload s ''ab'' @ ''|'' @ signature demo_env (ui_sm demo_ui) (session_payload s ''ab'') \<and>
         CHR ''|'' \<notin> set s \<and> CHR ''|'' \<notin> set ''ab'' \<and> ParseInt s = Some n \<and> unix_time 1800000000 = unix_time n \<and>
         time_unix (env_now demo_env (w_tick (ui_w demo_ui))) \<le> n \<and> sm_revoked (ui_sm demo_ui) ''ab'' = None)" .
  moreover have "\<dots>"
    using int bar_free by (intro exI [of _ "FormatInt 1800000000"] exI [of _ "1800000000"])
      (simp add: sign_def Let_def demo_ui_def empty_world_def)
  ultimately show ?thesis by blast
qed


section \<open>Logging out\<close>

text \<open>The runs of the UI: the session's own operations, and any other step, which leaves the session manager
  alone and does not turn back the clock.\<close>

inductive ui_step :: "env \<Rightarrow> ui_config \<Rightarrow> ui_state \<Rightarrow> ui_state \<Rightarrow> bool" for e c where
  login_page: "ui_step e c u (snd (handleLoginPage e c r u))"
| login_submit: "ui_step e c u (snd (handleLoginSubmit e c r u))"
| logout: "ui_step e c u (snd (handleLogout e r u))"
| check: "ui_step e c u (snd (verify e val u))"
| other: "ui_sm u' = ui_sm u \<Longrightarrow> w_tick (ui_w u) \<le> w_tick (ui_w u') \<Longrightarrow> ui_step e c u u'"

inductive ui_run :: "env \<Rightarrow> ui_config \<Rightarrow> ui_state \<Rightarrow> ui_state \<Rightarrow> bool" for e c where
  here: "ui_run e c u u"
| step: "ui_run e c u u' \<Longrightarrow> ui_step e c u' u'' \<Longrightarrow> ui_run e c u u''"

text \<open>A clock that is never set back.\<close>

definition clock_mono :: "env \<Rightarrow> bool" where
  "clock_mono e = (\<forall>m n. m \<le> n \<longrightarrow> env_now e m \<le> env_now e n)"

text \<open>A nonce is locked out at time \<open>t\<close>: it is in the revocation set for at least \<open>sessionTTL\<close> from then, or that time has passed.\<close>

definition locked_out :: "env \<Rightarrow> string \<Rightarrow> time \<Rightarrow> ui_state \<Rightarrow> bool" where
  "locked_out e nonce t u =
     (case sm_revoked (ui_sm u) nonce of
        Some sweepAfter \<Rightarrow> t + sessionTTL \<le> sweepAfter
      | None \<Rightarrow> t + sessionTTL < env_now e (w_tick (ui_w u)))"

lemma locked_out_tick:
  assumes "clock_mono e" "ui_sm u' = ui_sm u" "w_tick (ui_w u) \<le> w_tick (ui_w u')" "locked_out e nonce t u"
  shows "locked_out e nonce t u'"
proof -
  have "env_now e (w_tick (ui_w u)) \<le> env_now e (w_tick (ui_w u'))" using assms(1,3) by (simp add: clock_mono_def)
  with assms(2,4) show ?thesis by (auto simp: locked_out_def split: option.splits)
qed

lemma session_ops_tick:
  "ui_sm (snd (verify e val u)) = ui_sm u" "w_tick (ui_w u) \<le> w_tick (ui_w (snd (verify e val u)))"
  "ui_sm (snd (randomHex e n u)) = ui_sm u" "w_tick (ui_w u) \<le> w_tick (ui_w (snd (randomHex e n u)))"
  by (auto simp: verify_def Let_def ui_now_eq randomHex_def rand_read_def split: option.splits)

lemma Issue_tick: "ui_sm (snd (Issue e u)) = ui_sm u" "w_tick (ui_w u) \<le> w_tick (ui_w (snd (Issue e u)))"
  by (auto simp: Issue_def Let_def ui_now_eq randomHex_def rand_read_def split: option.splits prod.splits)

lemma handleLoginPage_tick:
  "ui_sm (snd (handleLoginPage e c r u)) = ui_sm u" "w_tick (ui_w u) \<le> w_tick (ui_w (snd (handleLoginPage e c r u)))"
  by (auto simp: handleLoginPage_def IssueCSRFCookie_def Let_def randomHex_def rand_read_def split: option.splits prod.splits)

lemma handleLoginSubmit_tick:
  "ui_sm (snd (handleLoginSubmit e c r u)) = ui_sm u"
  "w_tick (ui_w u) \<le> w_tick (ui_w (snd (handleLoginSubmit e c r u)))"
  by (auto simp: handleLoginSubmit_def Issue_def ui_now_eq Let_def randomHex_def rand_read_def split: option.splits prod.splits)

lemma locked_out_Revoke:
  assumes "clock_mono e" "locked_out e nonce t u" "t \<le> env_now e (w_tick (ui_w u))"
  shows "locked_out e nonce t (Revoke e other u)"
proof -
  have "env_now e (w_tick (ui_w u)) \<le> env_now e (Suc (w_tick (ui_w u)))" using assms(1) by (simp add: clock_mono_def)
  with assms(2,3) show ?thesis
    by (auto simp: locked_out_def Revoke_def ui_now_eq sweep_revoked_def split: option.splits if_splits)
qed

lemma ui_step_locked:
  assumes "ui_step e c u u'" "clock_mono e" "locked_out e nonce t u" "t \<le> env_now e (w_tick (ui_w u))"
  shows "locked_out e nonce t u' \<and> t \<le> env_now e (w_tick (ui_w u'))"
proof -
  have frame: "locked_out e nonce t u' \<and> w_tick (ui_w u) \<le> w_tick (ui_w u')"
    if "ui_sm u' = ui_sm u" "w_tick (ui_w u) \<le> w_tick (ui_w u')"
    using locked_out_tick [OF assms(2) that assms(3)] that(2) by simp
  have "locked_out e nonce t u' \<and> w_tick (ui_w u) \<le> w_tick (ui_w u')"
    using assms(1)
  proof cases
    case (logout r)
    then have "u' = Revoke e (ur_nonce r) u" by (simp add: handleLogout_def Let_def)
    moreover have "w_tick (ui_w u) \<le> w_tick (ui_w (Revoke e (ur_nonce r) u))" by (simp add: Revoke_def ui_now_eq)
    ultimately show ?thesis using locked_out_Revoke assms by simp
  qed (rule frame; simp add: session_ops_tick handleLoginPage_tick handleLoginSubmit_tick)+
  then show ?thesis using assms(2,4) by (auto simp: clock_mono_def intro: order_trans)
qed

lemma ui_run_locked:
  assumes "ui_run e c u u'" "clock_mono e" "locked_out e nonce t u" "t \<le> env_now e (w_tick (ui_w u))"
  shows "locked_out e nonce t u' \<and> t \<le> env_now e (w_tick (ui_w u'))"
  using assms by induction (auto dest: ui_step_locked)

text \<open>A cookie the UI has signed is accepted until it expires.\<close>

lemma verify_signed:
  assumes "int64_min \<le> expiry" "expiry \<le> int64_max" "CHR ''|'' \<notin> set nonce" "time_unix (env_now e (w_tick (ui_w u))) \<le> expiry" "sm_revoked (ui_sm u) nonce = None"
  shows "verify e (sign e (ui_sm u) expiry nonce) u = (Some (nonce, unix_time expiry), u\<lparr>ui_w := tick (ui_w u)\<rparr>)"
proof -
  have "SplitN (sign e (ui_sm u) expiry nonce) (CHR ''|'') 3 =
      [FormatInt expiry, nonce, signature e (ui_sm u) (session_payload (FormatInt expiry) nonce)]"
    unfolding SplitN_3 using bar_free(1) assms(3) by (simp add: sign_def Let_def session_payload_def)
  with assms ParseInt_FormatInt [OF assms(1,2)] show ?thesis by (simp add: verify_def Let_def ui_now_eq isRevoked_def)
qed

text \<open>C8: Logging out is final, with a clock that is never set back and when the session is revoked in a later second than the
  one it was issued in (\<open>expiry\<close> is the cookie's, \<open>sessionTTL\<close> after the issue, cut to seconds): the cookie is
  refused in every later state of the UI, whatever logins, logouts and checks come in between, although the
  revocation set is swept. The second is needed: the witness has a session that is revoked within the second of its issue, swept by another logout
  right after \<open>sessionTTL\<close>, and accepted again for the rest of the second of its expiry.\<close>

theorem logout_is_final:
  assumes "clock_mono e" "nonce \<noteq> []" "ui_run e c (Revoke e nonce u) u'"
    and "unix_time (expiry + 1) \<le> env_now e (w_tick (ui_w u)) + sessionTTL"
    and "CHR ''|'' \<notin> set nonce" "int64_min \<le> expiry" "expiry \<le> int64_max"
  shows "fst (verify e (sign e (ui_sm u') expiry nonce) u') = None"
proof -
  let ?t = "env_now e (w_tick (ui_w u))"
  have "locked_out e nonce ?t (Revoke e nonce u) \<and> ?t \<le> env_now e (w_tick (ui_w (Revoke e nonce u)))"
    using assms(1,2) by (simp add: locked_out_def Revoke_def ui_now_eq clock_mono_def)
  then have locked: "locked_out e nonce ?t u'" using ui_run_locked [OF assms(3,1)] by blast
  have split: "SplitN (sign e (ui_sm u') expiry nonce) (CHR ''|'') 3 =
      [FormatInt expiry, nonce, signature e (ui_sm u') (session_payload (FormatInt expiry) nonce)]"
    unfolding SplitN_3 using bar_free assms(5) by (simp add: sign_def session_payload_def Let_def)
  have "time_unix (env_now e (w_tick (ui_w u'))) > expiry" if "sm_revoked (ui_sm u') nonce = None"
  proof -
    have "unix_time (expiry + 1) \<le> env_now e (w_tick (ui_w u'))"
      using locked that assms(4) by (simp add: locked_out_def)
    then have "expiry + 1 \<le> time_unix (env_now e (w_tick (ui_w u')))"
      using time_unix_mono by (metis time_unix_unix_time)
    then show ?thesis by simp
  qed
  then show ?thesis
    by (auto simp: verify_def split Let_def ParseInt_FormatInt [OF assms(6,7)] ui_now_eq isRevoked_def)
qed

text \<open>A clock for the exception: the first logout in the second of the login, the rest just after \<open>sessionTTL\<close>.\<close>

definition blink_env :: env where
  "blink_env = demo_env\<lparr>env_now := (\<lambda>n. unix_time 1767225600 + (if n = 0 then 0 else sessionTTL + int n))\<rparr>"

lemma logout_in_second_of_login:
  "fst (verify blink_env (sign blink_env (ui_sm (Revoke blink_env ''cd'' (Revoke blink_env ''ab'' demo_ui)))
      (time_unix (unix_time 1767225600 + sessionTTL)) ''ab'') (Revoke blink_env ''cd'' (Revoke blink_env ''ab'' demo_ui))) =
    Some (''ab'', unix_time (time_unix (unix_time 1767225600 + sessionTTL)))"
proof -
  let ?u = "Revoke blink_env ''cd'' (Revoke blink_env ''ab'' demo_ui)"
  have tick: "w_tick (ui_w ?u) = 2" and swept: "sm_revoked (ui_sm ?u) ''ab'' = None"
    by (simp_all add: Revoke_def ui_now_eq sweep_revoked_def demo_ui_def empty_world_def blink_env_def)
  have "verify blink_env (sign blink_env (ui_sm ?u) (time_unix (unix_time 1767225600 + sessionTTL)) ''ab'') ?u =
      (Some (''ab'', unix_time (time_unix (unix_time 1767225600 + sessionTTL))), ?u\<lparr>ui_w := tick (ui_w ?u)\<rparr>)"
  proof (rule verify_signed)
    show "time_unix (env_now blink_env (w_tick (ui_w ?u))) \<le> time_unix (unix_time 1767225600 + sessionTTL)"
      unfolding tick by (simp add: blink_env_def time_unix_def unix_time_def unix_epoch_s_def sessionTTL_def)
  qed (use swept in \<open>simp_all add: time_unix_def unix_time_def unix_epoch_s_def sessionTTL_def\<close>)
  then show ?thesis by simp
qed

theorem logout_is_final_witness:
  "fst (verify demo_env (sign demo_env (ui_sm (Revoke demo_env ''ab'' demo_ui)) 1767268000 ''ab'') (Revoke demo_env ''ab'' demo_ui)) = None \<and>
   fst (verify blink_env (sign blink_env (ui_sm (Revoke blink_env ''cd'' (Revoke blink_env ''ab'' demo_ui)))
      (time_unix (unix_time 1767225600 + sessionTTL)) ''ab'') (Revoke blink_env ''cd'' (Revoke blink_env ''ab'' demo_ui))) \<noteq> None"
proof
  show "fst (verify demo_env (sign demo_env (ui_sm (Revoke demo_env ''ab'' demo_ui)) 1767268000 ''ab'') (Revoke demo_env ''ab'' demo_ui)) = None"
    by (rule logout_is_final [where u = demo_ui and c = undefined])
      (simp_all add: clock_mono_def here demo_ui_def empty_world_def unix_time_def sessionTTL_def)
qed (simp add: logout_in_second_of_login)


section \<open>The login limiter\<close>

lemma time_sub_mono: "t \<le> t' \<Longrightarrow> time_sub t s \<le> time_sub t' s"
  by (auto simp: time_sub_def)

lemma login_refill_mono: "t \<le> t' \<Longrightarrow> login_refill t b \<le> login_refill t' b"
proof -
  assume "t \<le> t'"
  have "0 \<le> f_div loginRateLimit (Seconds loginRateWindow)"
    unfolding f_div_def using Seconds_pos [of loginRateWindow]
    by (intro f64_nonneg divide_nonneg_nonneg) (simp_all add: loginRateLimit_def loginRateWindow_def less_imp_le)
  moreover have "Seconds (time_sub t (lb_lastFill b)) \<le> Seconds (time_sub t' (lb_lastFill b))"
    using time_sub_mono [OF \<open>t \<le> t'\<close>] by (intro Seconds_le) (simp_all add: time_sub_def)
  ultimately show ?thesis unfolding login_refill_def f_mul_def by (intro f64_le mult_right_mono)
qed

text \<open>Two limiters that cannot be told apart from now on.\<close>

definition same_limit :: "time \<Rightarrow> login_limiter \<Rightarrow> login_limiter \<Rightarrow> bool" where
  "same_limit now l l' = (\<forall>k t. now \<le> t \<longrightarrow> fill_bucket t (l k) = fill_bucket t (l' k))"

lemma sweep_same: "same_limit now l l' \<Longrightarrow> same_limit now (sweep_buckets key now l) l'"
proof -
  assume same: "same_limit now l l'"
  have "fill_bucket t (sweep_buckets key now l k) = fill_bucket t (l k)" if "now \<le> t" for k t
  proof -
    have "loginRateLimit \<le> f_add (lb_tokens b) (login_refill t b)" if "loginRateLimit \<le> f_add (lb_tokens b) (login_refill now b)" for b
      using that f64_le [of "lb_tokens b + login_refill now b" "lb_tokens b + login_refill t b"]
        login_refill_mono [OF \<open>now \<le> t\<close>, of b] by (simp add: f_add_def)
    then show ?thesis by (auto simp: sweep_buckets_def fill_bucket_def min_absorb1 split: option.splits)
  qed
  with same show ?thesis by (simp add: same_limit_def)
qed

lemma take_same:
  assumes "same_limit now l l'" "now \<le> t" "take_login key t l = (ok, m)" "take_login key t l' = (ok', m')"
  shows "ok = ok' \<and> same_limit t m m'"
proof -
  have "fill_bucket t (l key) = fill_bucket t (l' key)" using assms(1,2) by (simp add: same_limit_def)
  with assms show ?thesis by (auto simp: take_login_def Let_def same_limit_def split: if_splits)
qed

fun decide_all :: "(string \<Rightarrow> time \<Rightarrow> login_limiter \<Rightarrow> bool \<times> login_limiter) \<Rightarrow> (string \<times> time) list \<Rightarrow> login_limiter \<Rightarrow> bool list" where
  "decide_all allow [] l = []"
| "decide_all allow ((key, t) # calls) l = (case allow key t l of (ok, l1) \<Rightarrow> ok # decide_all allow calls l1)"

lemma decide_same:
  "same_limit now l l' \<Longrightarrow> sorted (now # map snd calls) \<Longrightarrow> decide_all login_Allow calls l = decide_all take_login calls l'"
proof (induction calls arbitrary: now l l')
  case (Cons call calls)
  obtain key t where call: "call = (key, t)" by (cases call)
  obtain ok m ok' m' where m: "take_login key t (sweep_buckets key t l) = (ok, m)" "take_login key t l' = (ok', m')"
    by (metis prod.collapse)
  have "same_limit t l l'" "t \<le> t" using Cons.prems call by (auto simp: same_limit_def)
  then have "ok = ok' \<and> same_limit t m m'" using take_same [OF sweep_same] m by metis
  with Cons.IH [of t m m'] Cons.prems m call show ?case by (simp add: login_Allow_def)
qed simp

text \<open>C32: Dropping full buckets does not change what the login limiter decides: on any sequence of attempts
  in the order of time it answers as the limiter that keeps a bucket per address for ever.\<close>

theorem login_sweep_unobservable:
  assumes "sorted (map snd calls)"
  shows "decide_all login_Allow calls Map.empty = decide_all take_login calls Map.empty"
proof (cases calls)
  case (Cons call rest)
  with assms show ?thesis by (intro decide_same [of "snd call"]) (auto simp: same_limit_def)
qed simp

theorem login_sweep_unobservable_witness:
  "decide_all login_Allow [(''a'', 0), (''b'', minute_ns)] Map.empty = decide_all take_login [(''a'', 0), (''b'', minute_ns)] Map.empty"
  by (rule login_sweep_unobservable) simp

end
