(* ===== verification/Api_Messages.thy ===== *)
theory Api_Messages
  imports Http "HOL-Library.Sublist"
begin

text \<open>
  The message endpoints: the dispatch pipeline \<^verbatim>\<open>runStrategyDispatch\<close> of \<^verbatim>\<open>handlers/common.go\<close> and the
  four handlers that run it. The pipeline takes any strategy and any dispatcher, as the code does;
  locale \<open>message_endpoint\<close> joins their contracts.
\<close>

section \<open>The pipeline\<close>

record dispatch_opts =
  op_require_app_id :: bool
  op_require_recipients :: bool
  op_allow_min_grade :: bool
  op_default_channel :: string

type_synonym resolve_fn = "env \<Rightarrow> route_request \<Rightarrow> world \<Rightarrow> (strategy_error + resolve_result) \<times> world"
type_synonym send_fn = "env \<Rightarrow> recipient \<Rightarrow> envelope \<Rightarrow> world \<Rightarrow> (dispatch_error + delivery_result) \<times> world"

definition classifyDispatchErr :: "dispatch_error \<Rightarrow> string" where
  "classifyDispatchErr err =
     (case err of
        ErrChatNotFound \<Rightarrow> ''chat_not_found''
      | ErrBotNotAdmin \<Rightarrow> ''bot_not_admin''
      | ErrRateLimited \<Rightarrow> ''telegram_rate_limited''
      | ErrTelegramAuth \<Rightarrow> ''telegram_auth_failed''
      | _ \<Rightarrow> ''telegram_transient'')"

text \<open>The checks on the decoded request, in the order of the code: the error code to deny with.\<close>

definition request_fault :: "dispatch_opts \<Rightarrow> dispatch_request \<Rightarrow> string option" where
  "request_fault opts req =
     (if en_schema_version (dq_envelope req) = 0 then Some ''missing_envelope_version''
      else if en_schema_version (dq_envelope req) \<noteq> 1 then Some ''unsupported_envelope_version''
      else if en_text (dq_envelope req) = [] then Some ''empty_envelope_text''
      else if op_require_app_id opts \<and> dq_app_id req = [] then Some ''missing_app_id''
      else if op_require_recipients opts \<and> dq_recipients req = [] then Some ''empty_recipients''
      else None)"

definition recipientEvent :: "event \<Rightarrow> string \<Rightarrow> string \<Rightarrow> int \<Rightarrow> int \<Rightarrow> string \<Rightarrow> event" where
  "recipientEvent base stage channel userID chatID code =
     (flow_event base stage)\<lparr>ev_delivery_channel := channel, ev_recipient_user_id := userID,
        ev_recipient_chat_id := chatID, ev_error_code := code\<rparr>"

fun deliver_loop ::
  "env \<Rightarrow> send_fn \<Rightarrow> event \<Rightarrow> envelope \<Rightarrow> recipient list \<Rightarrow> dispatch_response \<Rightarrow> world \<Rightarrow>
     dispatch_response \<times> world" where
  "deliver_loop e send base en [] resp w = (resp, w)"
| "deliver_loop e send base en (rh # rhs) resp w =
     (let w1 = snd (writeAuditSafe e (recipientEvent base StageDispatched (rc_channel rh) (rc_user rh) (rc_chat rh) []) w)
      in case send e rh en w1 of
           (Inl sendErr, w2) \<Rightarrow>
             (let code = classifyDispatchErr sendErr;
                  w3 = snd (writeAuditSafe e (recipientEvent base StageDeferred (rc_channel rh) (rc_user rh) (rc_chat rh) code) w2)
              in deliver_loop e send base en rhs
                   (resp\<lparr>ds_failed := Suc (ds_failed resp), ds_recipients := ds_recipients resp @
                      [\<lparr>rp_user = rc_user rh, rp_status = ''failed'', rp_reason = code, rp_message_id = 0\<rparr>]\<rparr>) w3)
         | (Inr result, w2) \<Rightarrow>
             (let w3 = snd (writeAuditSafe e (recipientEvent base StageDelivered (rc_channel rh) (rc_user rh) (rc_chat rh) []) w2)
              in deliver_loop e send base en rhs
                   (resp\<lparr>ds_delivered := Suc (ds_delivered resp), ds_recipients := ds_recipients resp @
                      [\<lparr>rp_user = rc_user rh, rp_status = ''delivered'', rp_reason = [],
                        rp_message_id = dr_message_id result\<rparr>]\<rparr>) w3))"

fun skip_loop ::
  "env \<Rightarrow> event \<Rightarrow> string \<Rightarrow> resolve_error list \<Rightarrow> dispatch_response \<Rightarrow> world \<Rightarrow> dispatch_response \<times> world" where
  "skip_loop e base channel [] resp w = (resp, w)"
| "skip_loop e base channel (sk # sks) resp w =
     (let w1 = snd (writeAuditSafe e (recipientEvent base StageDenied channel (re_user sk) 0 (re_code sk)) w)
      in skip_loop e base channel sks
           (resp\<lparr>ds_skipped := Suc (ds_skipped resp), ds_recipients := ds_recipients resp @
              [\<lparr>rp_user = re_user sk, rp_status = ''skipped'', rp_reason = re_code sk, rp_message_id = 0\<rparr>]\<rparr>) w1)"

definition resolve_denial :: "strategy_error \<Rightarrow> string \<times> int" where
  "resolve_denial err =
     (case err of
        Strategy.ErrAppNotFound \<Rightarrow> (''app_not_found'', 400)
      | ErrEmptyRecipients \<Rightarrow> (''empty_recipients'', 400)
      | _ \<Rightarrow> (''resolver_error'', 500))"

definition runStrategyDispatch ::
  "env \<Rightarrow> string \<Rightarrow> resolve_fn \<Rightarrow> send_fn \<Rightarrow> string \<Rightarrow> dispatch_opts \<Rightarrow> handler" where
  "runStrategyDispatch e name resolve send cap opts r w =
     (case newAuditFlow e r cap w of (base0, w1) \<Rightarrow>
      let base = base0\<lparr>ev_route_strategy := name\<rparr>
      in case writeAuditSafe e (flow_event base StageReceived) w1 of
           (Inl _, w2) \<Rightarrow> (writeError 500 ''audit_unavailable'', w2)
         | (Inr _, w2) \<Rightarrow>
             (case hr_body r of
                Body_dispatch req0 \<Rightarrow>
                  (case request_fault opts req0 of
                     Some code \<Rightarrow> flow_deny e base code 400 w2
                   | None \<Rightarrow>
                       (let req = (if op_allow_min_grade opts then req0 else req0\<lparr>dq_min_grade := []\<rparr>)
                        in case resolve e \<lparr>rt_app_id = dq_app_id req, rt_recipients = dq_recipients req,
                                  rt_min_grade = dq_min_grade req, rt_envelope = dq_envelope req\<rparr> w2 of
                             (Inl err, w3) \<Rightarrow>
                               (case resolve_denial err of (code, status) \<Rightarrow> flow_deny e base code status w3)
                           | (Inr resolved, w3) \<Rightarrow>
                               (case writeAuditSafe e ((flow_event base StageValidated)\<lparr>ev_details :=
                                       [(''recipients_requested'', JInt (int (length (dq_recipients req)))),
                                        (''recipients_resolved'', JInt (int (length (rr_recipients resolved)))),
                                        (''recipients_skipped'', JInt (int (length (rr_skipped resolved))))]\<rparr>) w3 of
                                  (Inl _, w4) \<Rightarrow> (writeError 500 ''audit_unavailable'', w4)
                                | (Inr _, w4) \<Rightarrow>
                                    (case deliver_loop e send base (dq_envelope req) (rr_recipients resolved)
                                            \<lparr>ds_message_id = ev_message_id base, ds_delivered = 0, ds_skipped = 0,
                                             ds_failed = 0, ds_recipients = []\<rparr> w4 of (resp1, w5) \<Rightarrow>
                                     case skip_loop e base (op_default_channel opts) (rr_skipped resolved) resp1 w5 of
                                       (resp2, w6) \<Rightarrow> (writeJSON 200 (J_dispatch resp2), w6)))))
              | _ \<Rightarrow> flow_deny e base ''malformed_json'' 400 w2))"


section \<open>The four endpoints\<close>

definition direct_opts :: dispatch_opts where
  "direct_opts = \<lparr>op_require_app_id = True, op_require_recipients = True, op_allow_min_grade = False,
     op_default_channel = ChannelSupergroup\<rparr>"

definition topic_opts :: dispatch_opts where
  "topic_opts = \<lparr>op_require_app_id = True, op_require_recipients = False, op_allow_min_grade = True,
     op_default_channel = ChannelSupergroup\<rparr>"

definition broadcast_opts :: dispatch_opts where
  "broadcast_opts = \<lparr>op_require_app_id = False, op_require_recipients = False, op_allow_min_grade = True,
     op_default_channel = ChannelGeneral\<rparr>"

definition direct_dm_opts :: dispatch_opts where
  "direct_dm_opts = \<lparr>op_require_app_id = False, op_require_recipients = True, op_allow_min_grade = False,
     op_default_channel = ChannelDM\<rparr>"

definition DirectHandler :: "env \<Rightarrow> handler" where
  "DirectHandler e = runStrategyDispatch e ''direct'' DirectStrategy_Resolve Send CapMessagesDirect direct_opts"

definition TopicHandler :: "env \<Rightarrow> handler" where
  "TopicHandler e = runStrategyDispatch e ''topic'' TopicStrategy_Resolve Send CapMessagesTopic topic_opts"

definition BroadcastHandler :: "env \<Rightarrow> handler" where
  "BroadcastHandler e = runStrategyDispatch e ''broadcast-all'' BroadcastAllStrategy_Resolve Send
     CapMessagesBroadcast broadcast_opts"

definition DirectDMHandler :: "env \<Rightarrow> handler" where
  "DirectDMHandler e = runStrategyDispatch e ''direct-dm'' DirectDMStrategy_Resolve Send
     CapMessagesDirectDM direct_dm_opts"


section \<open>The loops\<close>

text \<open>The two contracts the pipeline relies on, together.\<close>

locale message_endpoint = route_strategy resolve + dispatcher send
  for resolve :: resolve_fn and send :: send_fn
begin

lemma deliver_only_audit: "only_audit e w (snd (deliver_loop e send base en rhs resp w))"
proof (induction rhs arbitrary: resp w)
  case (Cons rh rhs)
  define w1 where "w1 = snd (Write e (recipientEvent base StageDispatched (rc_channel rh) (rc_user rh) (rc_chat rh) []) w)"
  obtain x w2 where x: "send e rh en w1 = (x, w2)" by fastforce
  have "only_audit e w w1" by (simp add: w1_def)
  moreover have "only_audit e w1 w2" using send_db [of e rh en w1] x by (intro only_audit_refl) simp
  moreover have "only_audit e w2 (snd (deliver_loop e send base en rhs resp' (snd (Write e ev w2))))" for resp' ev
    by (rule only_audit_trans [OF only_audit_Write Cons])
  ultimately show ?case
    using x by (cases x) (auto simp: writeAuditSafe_def Let_def w1_def [symmetric] intro: only_audit_trans)
qed simp

lemma skip_only_audit: "only_audit e w (snd (skip_loop e base ch sks resp w))"
proof (induction sks arbitrary: resp w)
  case (Cons sk sks)
  show ?case
    using only_audit_trans [OF only_audit_Write Cons] by (simp add: writeAuditSafe_def Let_def)
qed simp

lemma skip_tg [simp]: "w_tg (snd (skip_loop e base ch sks resp w)) = w_tg w"
  by (induction sks arbitrary: resp w) (simp_all add: writeAuditSafe_def Let_def)

lemma deliver_calls:
  "\<exists>cs. w_tg (snd (deliver_loop e send base en rhs resp w)) = w_tg w @ cs \<and>
     subseq cs (map (\<lambda>h. sendParams h en) rhs) \<and>
     ds_delivered (fst (deliver_loop e send base en rhs resp w)) \<le> ds_delivered resp + length cs"
proof (induction rhs arbitrary: resp w)
  case (Cons rh rhs)
  define w1 where "w1 = snd (Write e (recipientEvent base StageDispatched (rc_channel rh) (rc_user rh) (rc_chat rh) []) w)"
  obtain x w2 where x: "send e rh en w1 = (x, w2)" by fastforce
  have w1: "w_tg w1 = w_tg w" by (simp add: w1_def)
  show ?case
  proof (cases x)
    case (Inl err)
    define w3 where "w3 = snd (Write e (recipientEvent base StageDeferred (rc_channel rh) (rc_user rh) (rc_chat rh)
        (classifyDispatchErr err)) w2)"
    define resp' where "resp' = resp\<lparr>ds_failed := Suc (ds_failed resp), ds_recipients := ds_recipients resp @
        [\<lparr>rp_user = rc_user rh, rp_status = ''failed'', rp_reason = classifyDispatchErr err, rp_message_id = 0\<rparr>]\<rparr>"
    have eq: "deliver_loop e send base en (rh # rhs) resp w = deliver_loop e send base en rhs resp' w3"
      using x Inl by (simp add: writeAuditSafe_def Let_def w1_def w3_def resp'_def)
    have "w_tg w3 = w_tg w \<or> w_tg w3 = w_tg w @ [sendParams rh en]"
      using send_calls [of e rh en w1] x w1 by (simp add: w3_def)
    moreover have "ds_delivered resp' = ds_delivered resp" by (simp add: resp'_def)
    ultimately show ?thesis
      unfolding eq using Cons [of resp' w3] by (fastforce intro: subseq_Cons')
  next
    case (Inr res)
    define w3 where "w3 = snd (Write e (recipientEvent base StageDelivered (rc_channel rh) (rc_user rh) (rc_chat rh) []) w2)"
    define resp' where "resp' = resp\<lparr>ds_delivered := Suc (ds_delivered resp), ds_recipients := ds_recipients resp @
        [\<lparr>rp_user = rc_user rh, rp_status = ''delivered'', rp_reason = [], rp_message_id = dr_message_id res\<rparr>]\<rparr>"
    have eq: "deliver_loop e send base en (rh # rhs) resp w = deliver_loop e send base en rhs resp' w3"
      using x Inr by (simp add: writeAuditSafe_def Let_def w1_def w3_def resp'_def)
    have "w_tg w3 = w_tg w @ [sendParams rh en]"
      using send_ok [of e rh en w1 res] x Inr w1 by (simp add: w3_def)
    moreover have "ds_delivered resp' = Suc (ds_delivered resp)" by (simp add: resp'_def)
    ultimately show ?thesis
      unfolding eq using Cons [of resp' w3] by fastforce
  qed
qed simp

end

section \<open>Reports and the audit trail\<close>

definition count_status :: "string \<Rightarrow> dispatch_report list \<Rightarrow> nat" where
  "count_status s reps = length (filter (\<lambda>r. rp_status r = s) reps)"

text \<open>The rows that a report stands for: an attempt and its outcome, or a denial.\<close>

definition report_trail :: "string \<Rightarrow> dispatch_report \<Rightarrow> (string \<times> string option \<times> int option) list" where
  "report_trail mid rep =
     (let key = (\<lambda>stage. (stage, nullif_text mid, nullif_int (rp_user rep)))
      in if rp_status rep = ''skipped'' then [key StageDenied]
         else [key StageDispatched,
               key (if rp_status rep = ''delivered'' then StageDelivered else StageDeferred)])"

definition grows_by :: "dispatch_report list \<Rightarrow> dispatch_response \<Rightarrow> dispatch_response \<Rightarrow> bool" where
  "grows_by reps resp resp' =
     (ds_recipients resp' = ds_recipients resp @ reps \<and> ds_message_id resp' = ds_message_id resp \<and>
      ds_delivered resp' = ds_delivered resp + count_status ''delivered'' reps \<and>
      ds_failed resp' = ds_failed resp + count_status ''failed'' reps \<and>
      ds_skipped resp' = ds_skipped resp + count_status ''skipped'' reps)"

lemma grows_by_Cons:
  assumes "grows_by [rep] resp resp1" "grows_by reps resp1 resp2"
  shows "grows_by (rep # reps) resp resp2"
  using assms by (auto simp: grows_by_def count_status_def)

lemma recipientEvent_ok:
  "stage \<in> set audit_stage_values \<Longrightarrow> ch \<in> set channel_values \<Longrightarrow> event_ok (recipientEvent base stage ch u c code)"
  by (simp add: event_ok_def recipientEvent_def flow_event_def)

lemma recipientEvent_key [simp]:
  "event_key (recipientEvent base stage ch u c code) = (stage, nullif_text (ev_message_id base), nullif_int u)"
  by (simp add: event_key_def recipientEvent_def flow_event_def)

context message_endpoint
begin

lemma deliver_reports:
  "\<exists>reps. grows_by reps resp (fst (deliver_loop e send base en rhs resp w)) \<and> map rp_user reps = map rc_user rhs \<and>
     set (map rp_status reps) \<subseteq> {''delivered'', ''failed''} \<and>
     (no_faults e \<and> (\<forall>h \<in> set rhs. rc_channel h \<in> set channel_values) \<longrightarrow>
        map row_key (d_audit (w_db (snd (deliver_loop e send base en rhs resp w)))) =
        map row_key (d_audit (w_db w)) @ concat (map (report_trail (ev_message_id base)) reps))"
proof (induction rhs arbitrary: resp w)
  case Nil
  show ?case by (intro exI [of _ "[]"]) (simp add: grows_by_def count_status_def)
next
  case (Cons rh rhs)
  define ev where "ev = (\<lambda>stage. recipientEvent base stage (rc_channel rh) (rc_user rh) (rc_chat rh))"
  define w1 where "w1 = snd (Write e (ev StageDispatched []) w)"
  obtain x w2 where x: "send e rh en w1 = (x, w2)" by fastforce
  have db2: "w_db w2 = w_db w1" using send_db [of e rh en w1] x by simp
  define out where "out = (case x of Inl err \<Rightarrow> (StageDeferred, classifyDispatchErr err) | Inr _ \<Rightarrow> (StageDelivered, []))"
  define w3 where "w3 = snd (Write e (ev (fst out) (snd out)) w2)"
  define rep where "rep = (case x of
      Inl err \<Rightarrow> \<lparr>rp_user = rc_user rh, rp_status = ''failed'', rp_reason = classifyDispatchErr err, rp_message_id = 0\<rparr>
    | Inr res \<Rightarrow> \<lparr>rp_user = rc_user rh, rp_status = ''delivered'', rp_reason = [], rp_message_id = dr_message_id res\<rparr>)"
  have rep: "rp_user rep = rc_user rh" "rp_status rep \<in> {''delivered'', ''failed''}"
    by (cases x; simp add: rep_def)+
  obtain resp' where step: "deliver_loop e send base en (rh # rhs) resp w = deliver_loop e send base en rhs resp' w3"
    and grow: "grows_by [rep] resp resp'"
    using x by (cases x) (auto simp: writeAuditSafe_def Let_def ev_def w1_def w3_def out_def rep_def grows_by_def count_status_def)
  obtain reps where reps: "grows_by reps resp' (fst (deliver_loop e send base en rhs resp' w3))"
    "map rp_user reps = map rc_user rhs" "set (map rp_status reps) \<subseteq> {''delivered'', ''failed''}"
    "no_faults e \<and> (\<forall>h \<in> set rhs. rc_channel h \<in> set channel_values) \<longrightarrow>
        map row_key (d_audit (w_db (snd (deliver_loop e send base en rhs resp' w3)))) =
        map row_key (d_audit (w_db w3)) @ concat (map (report_trail (ev_message_id base)) reps)"
    using Cons by blast
  have trail: "map row_key (d_audit (w_db w3)) = map row_key (d_audit (w_db w)) @ report_trail (ev_message_id base) rep"
    if nf: "no_faults e" and ch: "rc_channel rh \<in> set channel_values"
  proof -
    have ok: "event_ok (ev stage code)" if "stage \<in> set audit_stage_values" for stage code
      unfolding ev_def using that ch by (rule recipientEvent_ok)
    have "fst out \<in> set audit_stage_values" by (cases x) (simp_all add: out_def)
    then have "map row_key (d_audit (w_db w3)) = map row_key (d_audit (w_db w)) @
        [event_key (ev StageDispatched []), event_key (ev (fst out) (snd out))]"
      using Write_no_faults_keys [OF nf ok, of "fst out" "snd out" w2] Write_no_faults_keys [OF nf ok, of StageDispatched "[]" w]
      by (simp add: w3_def w1_def db2)
    then show ?thesis
      by (cases x) (simp_all add: ev_def report_trail_def rep_def out_def Let_def)
  qed
  show ?case
    unfolding step
    using grows_by_Cons [OF grow reps(1)] reps(2-4) rep trail by (intro exI [of _ "rep # reps"]) auto
qed

lemma skip_reports:
  "\<exists>reps. grows_by reps resp (fst (skip_loop e base ch sks resp w)) \<and> map rp_user reps = map re_user sks \<and>
     set (map rp_status reps) \<subseteq> {''skipped''} \<and>
     (no_faults e \<and> ch \<in> set channel_values \<longrightarrow>
        map row_key (d_audit (w_db (snd (skip_loop e base ch sks resp w)))) =
        map row_key (d_audit (w_db w)) @ concat (map (report_trail (ev_message_id base)) reps))"
proof (induction sks arbitrary: resp w)
  case Nil
  show ?case by (intro exI [of _ "[]"]) (simp add: grows_by_def count_status_def)
next
  case (Cons sk sks)
  define ev where "ev = recipientEvent base StageDenied ch (re_user sk) 0 (re_code sk)"
  define w1 where "w1 = snd (Write e ev w)"
  define rep where "rep = \<lparr>rp_user = re_user sk, rp_status = ''skipped'', rp_reason = re_code sk, rp_message_id = 0\<rparr>"
  obtain resp' where step: "skip_loop e base ch (sk # sks) resp w = skip_loop e base ch sks resp' w1"
    and grow: "grows_by [rep] resp resp'"
    by (auto simp: writeAuditSafe_def Let_def ev_def w1_def rep_def grows_by_def count_status_def)
  have trail: "map row_key (d_audit (w_db w1)) = map row_key (d_audit (w_db w)) @ report_trail (ev_message_id base) rep"
    if "no_faults e" "ch \<in> set channel_values"
    using Write_no_faults_keys [OF that(1), of ev w] recipientEvent_ok [OF _ that(2), of StageDenied]
    by (simp add: w1_def ev_def report_trail_def rep_def)
  from Cons [of resp' w1] obtain reps where reps: "grows_by reps resp' (fst (skip_loop e base ch sks resp' w1))"
    "map rp_user reps = map re_user sks" "set (map rp_status reps) \<subseteq> {''skipped''}"
    "no_faults e \<and> ch \<in> set channel_values \<longrightarrow>
        map row_key (d_audit (w_db (snd (skip_loop e base ch sks resp' w1)))) =
        map row_key (d_audit (w_db w1)) @ concat (map (report_trail (ev_message_id base)) reps)" by blast
  show ?case
    unfolding step
    using grows_by_Cons [OF grow reps(1)] reps(2-4) trail
    by (intro exI [of _ "rep # reps"]) (auto simp: rep_def)
qed

end

section \<open>The pipeline as a whole\<close>

definition flow_base :: "env \<Rightarrow> string \<Rightarrow> string \<Rightarrow> http_request \<Rightarrow> world \<Rightarrow> event" where
  "flow_base e name cap r w = (fst (newAuditFlow e r cap w))\<lparr>ev_route_strategy := name\<rparr>"

lemma flow_base_simps [simp]:
  "ev_message_id (flow_base e name cap r w) = env_uuid e (w_tick w)"
  "ev_recipient_user_id (flow_base e name cap r w) = 0" "ev_delivery_channel (flow_base e name cap r w) = []"
  by (simp_all add: flow_base_def newAuditFlow_def new_uuid_def zero_event_def)

lemma flow_event_key:
  "event_key (flow_event (flow_base e name cap r w) stage) = (stage, nullif_text (env_uuid e (w_tick w)), None)"
  "event_key ((flow_event (flow_base e name cap r w) stage)\<lparr>ev_details := j\<rparr>) = (stage, nullif_text (env_uuid e (w_tick w)), None)"
  "event_key ((flow_event (flow_base e name cap r w) stage)\<lparr>ev_error_code := c\<rparr>) = (stage, nullif_text (env_uuid e (w_tick w)), None)"
  by (simp_all add: event_key_def flow_event_def nullif_int_def)

lemma flow_event_ok:
  "stage \<in> set audit_stage_values \<Longrightarrow> event_ok (flow_event (flow_base e name cap r w) stage)"
  "stage \<in> set audit_stage_values \<Longrightarrow> event_ok ((flow_event (flow_base e name cap r w) stage)\<lparr>ev_details := j\<rparr>)"
  "stage \<in> set audit_stage_values \<Longrightarrow> event_ok ((flow_event (flow_base e name cap r w) stage)\<lparr>ev_error_code := c\<rparr>)"
  by (simp_all add: event_ok_def flow_event_def)

text \<open>The request as it is handed to the strategy.\<close>

definition route_of :: "dispatch_opts \<Rightarrow> dispatch_request \<Rightarrow> route_request" where
  "route_of opts req = \<lparr>rt_app_id = dq_app_id req, rt_recipients = dq_recipients req,
     rt_min_grade = (if op_allow_min_grade opts then dq_min_grade req else []), rt_envelope = dq_envelope req\<rparr>"

definition empty_response :: "string \<Rightarrow> dispatch_response" where
  "empty_response mid = \<lparr>ds_message_id = mid, ds_delivered = 0, ds_skipped = 0, ds_failed = 0, ds_recipients = []\<rparr>"

text \<open>The request is refused before anything is resolved.\<close>

definition body_fault :: "dispatch_opts \<Rightarrow> body \<Rightarrow> string option" where
  "body_fault opts b = (case b of Body_dispatch req \<Rightarrow> request_fault opts req | _ \<Rightarrow> Some ''malformed_json'')"

context message_endpoint
begin

lemma dispatch_cases:
  fixes e name cap opts r w
  defines "base \<equiv> flow_base e name cap r w"
    and "run \<equiv> runStrategyDispatch e name resolve send cap opts r w"
    and "w2 \<equiv> snd (Write e (flow_event (flow_base e name cap r w) StageReceived) (tick w))"
  obtains (unaudited) "run = (writeError 500 ''audit_unavailable'', w2)"
      "fst (Write e (flow_event base StageReceived) (tick w)) \<noteq> Inr ()"
    | (refused) code where "run = flow_deny e base code 400 w2" "body_fault opts (hr_body r) = Some code"
      "fst (Write e (flow_event base StageReceived) (tick w)) = Inr ()"
    | (unresolved) req code status w3 where "run = flow_deny e base code status w3" "hr_body r = Body_dispatch req"
      "request_fault opts req = None" "only_audit e w2 w3" "w_tg w3 = w_tg w" "status \<noteq> 200"
      "\<forall>res. fst (resolve e (route_of opts req) w2) \<noteq> Inr res"
      "fst (Write e (flow_event base StageReceived) (tick w)) = Inr ()"
    | (unvalidated) req ev w3 w4 where "run = (writeError 500 ''audit_unavailable'', w4)" "hr_body r = Body_dispatch req"
      "request_fault opts req = None" "only_audit e w2 w4" "w_tg w4 = w_tg w"
      "ev = (flow_event base StageValidated)\<lparr>ev_details := ev_details ev\<rparr>" "fst (Write e ev w3) \<noteq> Inr ()"
    | (complete) req resolved ev w3 resp1 w5 where "hr_body r = Body_dispatch req" "request_fault opts req = None"
      "resolve e (route_of opts req) w2 = (Inr resolved, w3)"
      "fst (Write e (flow_event base StageReceived) (tick w)) = Inr ()"
      "ev = (flow_event base StageValidated)\<lparr>ev_details := ev_details ev\<rparr>" "fst (Write e ev w3) = Inr ()"
      "deliver_loop e send base (dq_envelope req) (rr_recipients resolved)
         (empty_response (env_uuid e (w_tick w))) (snd (Write e ev w3)) = (resp1, w5)"
      "run = (writeJSON 200 (J_dispatch (fst (skip_loop e base (op_default_channel opts) (rr_skipped resolved) resp1 w5))),
         snd (skip_loop e base (op_default_channel opts) (rr_skipped resolved) resp1 w5))"
proof -
  have w2: "w_tg w2 = w_tg w" by (simp add: w2_def)
  obtain x where x: "Write e (flow_event base StageReceived) (tick w) = (x, w2)"
    by (metis base_def prod.collapse w2_def)
  obtain base0 where flow: "newAuditFlow e r cap w = (base0, tick w)" and base0: "base = base0\<lparr>ev_route_strategy := name\<rparr>"
    by (metis base_def flow_base_def newAuditFlow_world prod.collapse)
  have mid: "ev_message_id base = env_uuid e (w_tick w)" by (simp add: base_def)
  have run: "run = (case x of Inl _ \<Rightarrow> (writeError 500 ''audit_unavailable'', w2) | Inr _ \<Rightarrow>
      (case hr_body r of
         Body_dispatch req0 \<Rightarrow> (case request_fault opts req0 of
             Some code \<Rightarrow> flow_deny e base code 400 w2
           | None \<Rightarrow> (let req = (if op_allow_min_grade opts then req0 else req0\<lparr>dq_min_grade := []\<rparr>)
              in case resolve e (route_of opts req0) w2 of
                   (Inl err, w3) \<Rightarrow> (case resolve_denial err of (code, status) \<Rightarrow> flow_deny e base code status w3)
                 | (Inr resolved, w3) \<Rightarrow>
                    (case Write e ((flow_event base StageValidated)\<lparr>ev_details :=
                             [(''recipients_requested'', JInt (int (length (dq_recipients req)))),
                              (''recipients_resolved'', JInt (int (length (rr_recipients resolved)))),
                              (''recipients_skipped'', JInt (int (length (rr_skipped resolved))))]\<rparr>) w3 of
                       (Inl _, w4) \<Rightarrow> (writeError 500 ''audit_unavailable'', w4)
                     | (Inr _, w4) \<Rightarrow>
                         (case deliver_loop e send base (dq_envelope req) (rr_recipients resolved)
                                 (empty_response (env_uuid e (w_tick w))) w4 of (resp1, w5) \<Rightarrow>
                          case skip_loop e base (op_default_channel opts) (rr_skipped resolved) resp1 w5 of
                            (resp2, w6) \<Rightarrow> (writeJSON 200 (J_dispatch resp2), w6)))))
       | _ \<Rightarrow> flow_deny e base ''malformed_json'' 400 w2))"
    unfolding run_def runStrategyDispatch_def flow prod.case Let_def base0 [symmetric] writeAuditSafe_def x
      route_of_def empty_response_def mid
    by (auto split: sum.splits body.splits option.splits)
  show thesis
  proof (cases x)
    case (Inl err)
    with run x show thesis by (intro unaudited) simp_all
  next
    case (Inr u)
    note ok = x [unfolded Inr]
    show thesis
    proof (cases "\<exists>req. hr_body r = Body_dispatch req \<and> request_fault opts req = None")
      case False
      with run Inr ok show thesis
        by (cases "hr_body r") (auto simp: body_fault_def intro: refused split: option.splits)
    next
      case True
      then obtain req where req: "hr_body r = Body_dispatch req" "request_fault opts req = None" by blast
      obtain y w3 where y: "resolve e (route_of opts req) w2 = (y, w3)" by fastforce
      then have w3: "w_db w3 = w_db w2" "w_tg w3 = w_tg w"
        using resolve_keeps [of e "route_of opts req" w2] w2 by simp_all
      have "only_audit e w2 w3" using w3(1) by (rule only_audit_refl)
      show thesis
      proof (cases y)
        case (Inl err)
        obtain code status where cs: "resolve_denial err = (code, status)" "status \<noteq> 200"
          by (cases err) (auto simp: resolve_denial_def)
        have "run = flow_deny e base code status w3" using run Inr req y Inl cs(1) by simp
        from unresolved [OF this req \<open>only_audit e w2 w3\<close> w3(2) cs(2)] ok y Inl show thesis by simp
      next
        case resolved: (Inr resolved)
        define ev where "ev = (flow_event base StageValidated)\<lparr>ev_details :=
            [(''recipients_requested'', JInt (int (length (dq_recipients req)))),
             (''recipients_resolved'', JInt (int (length (rr_recipients resolved)))),
             (''recipients_skipped'', JInt (int (length (rr_skipped resolved))))]\<rparr>"
        obtain z w4 where z: "Write e ev w3 = (z, w4)" by fastforce
        have w4: "only_audit e w2 w4" "w_tg w4 = w_tg w"
          using only_audit_trans [OF \<open>only_audit e w2 w3\<close> only_audit_Write [of e w3 ev]] Write_tg(1) [of e ev w3] z w3(2)
          by simp_all
        show thesis
        proof (cases z)
          case (Inl err)
          have "run = (writeError 500 ''audit_unavailable'', w4)"
            using run \<open>x = Inr u\<close> req y resolved z Inl by (simp add: ev_def Let_def)
          moreover have "ev = (flow_event base StageValidated)\<lparr>ev_details := ev_details ev\<rparr>" by (simp add: ev_def)
          moreover have "fst (Write e ev w3) \<noteq> Inr ()" using z Inl by simp
          ultimately show thesis by (rule unvalidated [OF _ req w4])
        next
          case valid: (Inr u)
          obtain resp1 w5 where d: "deliver_loop e send base (dq_envelope req) (rr_recipients resolved)
              (empty_response (env_uuid e (w_tick w))) w4 = (resp1, w5)" by fastforce
          show thesis
          proof (rule complete [OF req])
            show "fst (Write e ev w3) = Inr ()" using z valid by simp
            show "ev = (flow_event base StageValidated)\<lparr>ev_details := ev_details ev\<rparr>" by (simp add: ev_def)
            show "deliver_loop e send base (dq_envelope req) (rr_recipients resolved)
                (empty_response (env_uuid e (w_tick w))) (snd (Write e ev w3)) = (resp1, w5)" using z d by simp
            show "run = (writeJSON 200 (J_dispatch (fst (skip_loop e base (op_default_channel opts) (rr_skipped resolved) resp1 w5))),
                snd (skip_loop e base (op_default_channel opts) (rr_skipped resolved) resp1 w5))"
              using run Inr req y resolved z valid d by (simp add: ev_def Let_def split: prod.splits if_splits)
          qed (use y resolved ok in simp_all)
        qed
      qed
    qed
  qed
qed

end


section \<open>Properties of the message endpoints\<close>

text \<open>Name, strategy, capability and options of the four handlers.\<close>

definition message_routes :: "(string \<times> resolve_fn \<times> string \<times> dispatch_opts) list" where
  "message_routes =
     [(''direct'', DirectStrategy_Resolve, CapMessagesDirect, direct_opts),
      (''topic'', TopicStrategy_Resolve, CapMessagesTopic, topic_opts),
      (''broadcast-all'', BroadcastAllStrategy_Resolve, CapMessagesBroadcast, broadcast_opts),
      (''direct-dm'', DirectDMStrategy_Resolve, CapMessagesDirectDM, direct_dm_opts)]"

interpretation direct_ep: message_endpoint DirectStrategy_Resolve Send ..

interpretation topic_ep: message_endpoint TopicStrategy_Resolve Send ..

interpretation broadcast_ep: message_endpoint BroadcastAllStrategy_Resolve Send ..

interpretation dm_ep: message_endpoint DirectDMStrategy_Resolve Send ..

lemma message_routes_endpoint:
  "(name, resolve, cap, opts) \<in> set message_routes \<Longrightarrow>
     message_endpoint resolve Send \<and> op_default_channel opts \<in> set channel_values"
  using direct_ep.message_endpoint_axioms topic_ep.message_endpoint_axioms
    broadcast_ep.message_endpoint_axioms dm_ep.message_endpoint_axioms
  by (auto simp: message_routes_def direct_opts_def topic_opts_def broadcast_opts_def direct_dm_opts_def
      channel_defs channel_values_def)

context message_endpoint
begin

lemma dispatch_only_audit: "only_audit e w (snd (runStrategyDispatch e name resolve send cap opts r w))"
proof -
  let ?w2 = "snd (Write e (flow_event (flow_base e name cap r w) StageReceived) (tick w))"
  have w2: "only_audit e w ?w2" by (rule only_audit_step(1) [OF tick_simps(1) only_audit_Write])
  show ?thesis
  proof (cases rule: dispatch_cases [of e name cap opts r w])
    case (complete req resolved ev w3 resp1 w5)
    have "only_audit e ?w2 w3"
      using resolve_keeps(1) [of e "route_of opts req" ?w2] complete(3) by (intro only_audit_refl) simp
    also have "only_audit e w3 (snd (Write e ev w3))" by simp
    also have "only_audit e (snd (Write e ev w3)) w5"
      using deliver_only_audit [of e "snd (Write e ev w3)"] complete(7) by (metis snd_conv)
    also have "only_audit e w5 (snd (runStrategyDispatch e name resolve send cap opts r w))"
      unfolding complete(8) snd_conv by (rule skip_only_audit)
    finally show ?thesis by (rule only_audit_trans [OF w2])
  qed (use w2 in \<open>auto intro: only_audit_trans [OF only_audit_trans] only_audit_trans\<close>)
qed

lemma dispatch_audited_first:
  assumes "w_tg (snd (runStrategyDispatch e name resolve send cap opts r w)) \<noteq> w_tg w"
  shows "\<exists>r1 r2 rest. d_audit (w_db (snd (runStrategyDispatch e name resolve send cap opts r w))) =
      d_audit (w_db w) @ r1 # r2 # rest \<and>
      row_key r1 = (StageReceived, nullif_text (env_uuid e (w_tick w)), None) \<and>
      row_key r2 = (StageValidated, nullif_text (env_uuid e (w_tick w)), None)"
proof -
  let ?ev1 = "flow_event (flow_base e name cap r w) StageReceived"
  let ?w2 = "snd (Write e ?ev1 (tick w))"
  show ?thesis
  proof (cases rule: dispatch_cases [of e name cap opts r w])
    case (complete req resolved ev w3 resp1 w5)
    obtain r1 where r1: "d_audit (w_db ?w2) = d_audit (w_db w) @ [r1]" "row_key r1 = event_key ?ev1"
      using Write_Inr_row [OF complete(4)] by auto
    have w3: "w_db w3 = w_db ?w2"
      using resolve_keeps(1) [of e "route_of opts req" ?w2] complete(3) by simp
    obtain r2 where r2: "d_audit (w_db (snd (Write e ev w3))) = d_audit (w_db w3) @ [r2]" "row_key r2 = event_key ev"
      using Write_Inr_row [OF complete(6)] by auto
    have "only_audit e (snd (Write e ev w3)) w5"
      using deliver_only_audit [of e "snd (Write e ev w3)"] complete(7) by (metis snd_conv)
    also have "only_audit e w5 (snd (runStrategyDispatch e name resolve send cap opts r w))"
      unfolding complete(8) snd_conv by (rule skip_only_audit)
    finally obtain rest where "d_audit (w_db (snd (runStrategyDispatch e name resolve send cap opts r w))) =
        d_audit (w_db (snd (Write e ev w3))) @ rest" by (auto simp: only_audit_def)
    moreover have "event_key ev = (StageValidated, nullif_text (env_uuid e (w_tick w)), None)"
      by (subst complete(5)) (rule flow_event_key(2))
    ultimately show ?thesis using r1 r2 w3 flow_event_key(1) [of e name cap r w StageReceived] by auto
  qed (use assms in simp_all)
qed

end

context message_endpoint
begin

lemma dispatch_report:
  assumes "runStrategyDispatch e name resolve send cap opts r w = (resp, w')" "rs_reply resp = J_dispatch d"
  shows "\<exists>req resolved w2 w3. hr_body r = Body_dispatch req \<and> request_fault opts req = None \<and>
     only_audit e w w2 \<and> resolve e (route_of opts req) w2 = (Inr resolved, w3) \<and>
     rs_status resp = 200 \<and>
     map rp_user (ds_recipients d) = map rc_user (rr_recipients resolved) @ map re_user (rr_skipped resolved) \<and>
     ds_delivered d + ds_failed d = length (rr_recipients resolved) \<and> ds_skipped d = length (rr_skipped resolved) \<and>
     ds_delivered d = count_status ''delivered'' (ds_recipients d) \<and> ds_failed d = count_status ''failed'' (ds_recipients d) \<and>
     (\<exists>cs. w_tg w' = w_tg w @ cs \<and> subseq cs (map (\<lambda>h. sendParams h (dq_envelope req)) (rr_recipients resolved)) \<and>
       ds_delivered d \<le> length cs) \<and>
     (no_faults e \<and> op_default_channel opts \<in> set channel_values \<and>
        (\<forall>h \<in> set (rr_recipients resolved). rc_channel h \<in> set channel_values) \<longrightarrow>
      map row_key (d_audit (w_db w')) = map row_key (d_audit (w_db w)) @
        (StageReceived, nullif_text (env_uuid e (w_tick w)), None) #
        (StageValidated, nullif_text (env_uuid e (w_tick w)), None) #
        concat (map (report_trail (env_uuid e (w_tick w))) (ds_recipients d)))"
proof -
  let ?base = "flow_base e name cap r w" and ?mid = "env_uuid e (w_tick w)"
  let ?w2 = "snd (Write e (flow_event ?base StageReceived) (tick w))"
  show ?thesis
  proof (cases rule: dispatch_cases [of e name cap opts r w])
    case (complete req resolved ev w3 resp1 w5)
    note loop = complete(7)
    have d: "d = fst (skip_loop e ?base (op_default_channel opts) (rr_skipped resolved) resp1 w5)"
      and w': "w' = snd (skip_loop e ?base (op_default_channel opts) (rr_skipped resolved) resp1 w5)"
      and st: "rs_status resp = 200"
      using complete(8) assms by (auto simp: writeJSON_def)
    have w3: "w_db w3 = w_db ?w2" "w_tg w3 = w_tg w"
      using resolve_keeps [of e "route_of opts req" ?w2] complete(3) by simp_all
    obtain reps1 where r1: "grows_by reps1 (empty_response ?mid) resp1" "map rp_user reps1 = map rc_user (rr_recipients resolved)"
      "set (map rp_status reps1) \<subseteq> {''delivered'', ''failed''}"
      "no_faults e \<and> (\<forall>h \<in> set (rr_recipients resolved). rc_channel h \<in> set channel_values) \<longrightarrow>
        map row_key (d_audit (w_db w5)) = map row_key (d_audit (w_db (snd (Write e ev w3)))) @ concat (map (report_trail ?mid) reps1)"
      using deliver_reports [of "empty_response ?mid" e ?base "dq_envelope req" "rr_recipients resolved" "snd (Write e ev w3)"] loop
      by auto
    obtain reps2 where r2: "grows_by reps2 resp1 d" "map rp_user reps2 = map re_user (rr_skipped resolved)"
      "set (map rp_status reps2) \<subseteq> {''skipped''}"
      "no_faults e \<and> op_default_channel opts \<in> set channel_values \<longrightarrow>
        map row_key (d_audit (w_db w')) = map row_key (d_audit (w_db w5)) @ concat (map (report_trail ?mid) reps2)"
      using skip_reports [of resp1 e ?base "op_default_channel opts" "rr_skipped resolved" w5] unfolding d w' by auto
    have n1: "count_status ''delivered'' reps1 + count_status ''failed'' reps1 = length reps1" "count_status ''skipped'' reps1 = 0"
      using r1(3) by (induction reps1) (auto simp: count_status_def)
    have n2: "count_status ''delivered'' reps2 = 0" "count_status ''failed'' reps2 = 0" "count_status ''skipped'' reps2 = length reps2"
      using r2(3) by (induction reps2) (auto simp: count_status_def)
    have recs: "ds_recipients d = reps1 @ reps2" using r1(1) r2(1) by (simp add: grows_by_def empty_response_def)
    have lens: "length reps1 = length (rr_recipients resolved)" "length reps2 = length (rr_skipped resolved)"
      using r1(2) r2(2) by (metis length_map)+
    have counts: "ds_delivered d + ds_failed d = length (rr_recipients resolved)" "ds_skipped d = length (rr_skipped resolved)"
      "ds_delivered d = count_status ''delivered'' (ds_recipients d)" "ds_failed d = count_status ''failed'' (ds_recipients d)"
      using r1(1) r2(1) n1 n2 lens recs by (simp_all add: grows_by_def empty_response_def count_status_def)
    have calls: "\<exists>cs. w_tg w' = w_tg w @ cs \<and> subseq cs (map (\<lambda>h. sendParams h (dq_envelope req)) (rr_recipients resolved)) \<and>
       ds_delivered d \<le> length cs"
      using deliver_calls [of e ?base "dq_envelope req" "rr_recipients resolved" "empty_response ?mid" "snd (Write e ev w3)"]
        loop w3(2) r2(1) n2(1) by (auto simp: w' grows_by_def empty_response_def)
    have keys: "map row_key (d_audit (w_db (snd (Write e ev w3)))) = map row_key (d_audit (w_db w)) @
        [(StageReceived, nullif_text ?mid, None), (StageValidated, nullif_text ?mid, None)]"
      using Write_Inr_row [OF complete(4)] Write_Inr_row [OF complete(6)] flow_event_key(1) [of e name cap r w StageReceived]
        flow_event_key(2) [where e = e and name = name and cap = cap and r = r and w = w and stage = StageValidated
          and j = "ev_details ev", folded complete(5)]
      by (auto simp: w3(1))
    have "only_audit e w ?w2" by (rule only_audit_step(1) [OF tick_simps(1) only_audit_Write])
    moreover have "map rp_user (ds_recipients d) = map rc_user (rr_recipients resolved) @ map re_user (rr_skipped resolved)"
      using r1(2) r2(2) recs by simp
    ultimately show ?thesis
      using complete(1-3) st counts calls r1(4) r2(4) keys recs
      by (intro exI [of _ req] exI [of _ resolved] exI [of _ ?w2] exI [of _ w3]) auto
  qed (use assms in \<open>auto simp: writeError_def writeJSON_def flow_deny_def split: prod.splits\<close>)
qed

lemma dispatch_refuses:
  assumes "no_faults e" "body_fault opts (hr_body r) = Some code"
  shows "fst (runStrategyDispatch e name resolve send cap opts r w) = writeError 400 code \<and>
    w_tg (snd (runStrategyDispatch e name resolve send cap opts r w)) = w_tg w \<and>
    map row_key (d_audit (w_db (snd (runStrategyDispatch e name resolve send cap opts r w)))) =
      map row_key (d_audit (w_db w)) @ [(StageReceived, nullif_text (env_uuid e (w_tick w)), None),
        (StageDenied, nullif_text (env_uuid e (w_tick w)), None)]"
proof -
  let ?base = "flow_base e name cap r w"
  have rec: "fst (Write e (flow_event ?base StageReceived) (tick w)) = Inr ()"
    by (rule Write_no_faults [OF assms(1) flow_event_ok(1)]) simp
  have body: "request_fault opts req \<noteq> None" if "hr_body r = Body_dispatch req" for req
    using assms(2) that by (simp add: body_fault_def)
  show ?thesis
  proof (cases rule: dispatch_cases [of e name cap opts r w])
    case (refused code')
    then have "code' = code" using assms(2) by simp
    with refused(1) show ?thesis
      using Write_no_faults_keys [OF assms(1) flow_event_ok(3) [where stage = StageDenied and e = e and name = name and cap = cap and r = r
          and w = w and c = code]]
        Write_no_faults_keys [OF assms(1) flow_event_ok(1) [where stage = StageReceived and e = e and name = name and cap = cap and r = r and w = w], of "tick w"]
      by (simp add: flow_deny_def writeAuditSafe_def split_beta flow_event_key)
    qed (use rec body in auto)
qed

end

context message_endpoint
begin

text \<open>When nothing fails and the strategy resolves the request, it is dispatched and answered with a report.\<close>

lemma dispatch_completes:
  assumes "no_faults e" "hr_body r = Body_dispatch req" "request_fault opts req = None"
    and "\<And>w2. only_audit e w w2 \<Longrightarrow> \<exists>res. fst (resolve e (route_of opts req) w2) = Inr res"
  shows "\<exists>d. rs_reply (fst (runStrategyDispatch e name resolve send cap opts r w)) = J_dispatch d"
proof -
  let ?w2 = "snd (Write e (flow_event (flow_base e name cap r w) StageReceived) (tick w))"
  have "only_audit e w ?w2" by (rule only_audit_step(1) [OF tick_simps(1) only_audit_Write])
  then obtain res where res: "fst (resolve e (route_of opts req) ?w2) = Inr res" using assms(4) by blast
  have ok: "fst (Write e (flow_event (flow_base e name cap r w) StageReceived) (tick w)) = Inr ()"
    by (rule Write_no_faults [OF assms(1) flow_event_ok(1)]) simp
  show ?thesis
  proof (cases rule: dispatch_cases [of e name cap opts r w])
    case (unvalidated req' ev w3 w4)
    have "event_ok ev" by (subst unvalidated(6)) (rule flow_event_ok(2), simp)
    then have "fst (Write e ev w3) = Inr ()" by (rule Write_no_faults [OF assms(1)])
    with unvalidated(7) show ?thesis by simp
  qed (use ok res assms(2,3) in \<open>auto simp: body_fault_def writeJSON_def\<close>)
qed

lemma deliver_single:
  "w_tg (snd (deliver_loop e send base en [rh] resp w)) = w_tg (snd (send e rh en
     (snd (Write e (recipientEvent base StageDispatched (rc_channel rh) (rc_user rh) (rc_chat rh) []) w))))"
  by (auto simp: writeAuditSafe_def Let_def split: prod.splits sum.splits)

end

text \<open>C9: A message endpoint calls Telegram only after the request's received and validated rows, both
  with the message id of this request, are in the audit log; whatever happens, no other table changes
  and the audit chain stays intact.\<close>

theorem message_audited_before_sent:
  assumes "(name, resolve, cap, opts) \<in> set message_routes"
    and "runStrategyDispatch e name resolve Send cap opts r w = (resp, w')" "w_tg w' \<noteq> w_tg w"
  shows "only_audit e w w' \<and>
    (\<exists>r1 r2 rest. d_audit (w_db w') = d_audit (w_db w) @ r1 # r2 # rest \<and>
      row_key r1 = (StageReceived, nullif_text (env_uuid e (w_tick w)), None) \<and>
      row_key r2 = (StageValidated, nullif_text (env_uuid e (w_tick w)), None))"
proof -
  from message_routes_endpoint [OF assms(1)] have ep: "message_endpoint resolve Send" by simp
  show ?thesis
    using message_endpoint.dispatch_audited_first [OF ep, of e name cap opts r w]
      message_endpoint.dispatch_only_audit [OF ep, of e w name cap opts r] assms(2,3) by simp
qed

text \<open>C10: A dispatch report is true to what happened: it lists the resolved recipients and then the
  skipped users, one entry each, its counters are the numbers of entries with each status, the
  calls made to Telegram are an ordered selection of one call per resolved recipient with the text
  of the request, and no more messages are reported as delivered than calls were made.\<close>

theorem message_report_exact:
  assumes "(name, resolve, cap, opts) \<in> set message_routes"
    and "runStrategyDispatch e name resolve Send cap opts r w = (resp, w')" "rs_reply resp = J_dispatch d"
  shows "\<exists>req resolved w2 w3 cs. hr_body r = Body_dispatch req \<and> only_audit e w w2 \<and>
     resolve e (route_of opts req) w2 = (Inr resolved, w3) \<and> rs_status resp = 200 \<and>
     map rp_user (ds_recipients d) = map rc_user (rr_recipients resolved) @ map re_user (rr_skipped resolved) \<and>
     ds_delivered d + ds_failed d = length (rr_recipients resolved) \<and> ds_skipped d = length (rr_skipped resolved) \<and>
     ds_delivered d = count_status ''delivered'' (ds_recipients d) \<and>
     ds_failed d = count_status ''failed'' (ds_recipients d) \<and>
     w_tg w' = w_tg w @ cs \<and>
     subseq cs (map (\<lambda>h. sendParams h (dq_envelope req)) (rr_recipients resolved)) \<and> ds_delivered d \<le> length cs"
proof -
  from message_routes_endpoint [OF assms(1)] have ep: "message_endpoint resolve Send" by simp
  from message_endpoint.dispatch_report [OF ep assms(2,3)] show ?thesis by blast
qed

text \<open>C20: When no database round trip fails, the audit rows of a dispatched message are exactly:
  received, validated, then for every resolved recipient dispatched followed by delivered or deferred,
  then denied for every skipped user, in the order of the report and all with the request's message id.\<close>

theorem message_audit_trail:
  assumes "(name, resolve, cap, opts) \<in> set message_routes" "db_ok (w_db w)" "orders_rows e" "no_faults e"
    and "runStrategyDispatch e name resolve Send cap opts r w = (resp, w')" "rs_reply resp = J_dispatch d"
  shows "map row_key (d_audit (w_db w')) = map row_key (d_audit (w_db w)) @
    (StageReceived, nullif_text (env_uuid e (w_tick w)), None) #
    (StageValidated, nullif_text (env_uuid e (w_tick w)), None) #
    concat (map (report_trail (env_uuid e (w_tick w))) (ds_recipients d))"
proof -
  from message_routes_endpoint [OF assms(1)] have ep: "message_endpoint resolve Send"
    and ch: "op_default_channel opts \<in> set channel_values" by simp_all
  obtain req resolved w2 w3 where w2: "only_audit e w w2" "resolve e (route_of opts req) w2 = (Inr resolved, w3)"
    and trail: "no_faults e \<and> op_default_channel opts \<in> set channel_values \<and>
        (\<forall>h \<in> set (rr_recipients resolved). rc_channel h \<in> set channel_values) \<longrightarrow>
      map row_key (d_audit (w_db w')) = map row_key (d_audit (w_db w)) @
        (StageReceived, nullif_text (env_uuid e (w_tick w)), None) #
        (StageValidated, nullif_text (env_uuid e (w_tick w)), None) #
        concat (map (report_trail (env_uuid e (w_tick w))) (ds_recipients d))"
    using message_endpoint.dispatch_report [OF ep assms(5,6)] by blast
  have "route_strategy resolve" using ep by (simp add: message_endpoint_def)
  then have "\<forall>h \<in> set (rr_recipients resolved). recipient_ok (w_db w2) h"
    using route_strategy.recipients [of resolve w2 e "route_of opts req" resolved] only_audit_db_ok [OF w2(1) assms(2)]
      assms(3) w2(2) by simp
  then have "\<forall>h \<in> set (rr_recipients resolved). rc_channel h \<in> set channel_values"
    by (simp add: recipient_ok_def)
  with trail assms(4) ch show ?thesis by blast
qed

text \<open>C21: A request that is malformed (undecodable, wrong envelope version, empty text, or without the
  app or the recipients that its endpoint needs) is answered with status 400 and the error code of the
  first check that fails; nothing is sent, and its audit rows are received and denied.\<close>

theorem malformed_message_refused:
  assumes "(name, resolve, cap, opts) \<in> set message_routes" "no_faults e" "body_fault opts (hr_body r) = Some code"
  shows "fst (runStrategyDispatch e name resolve Send cap opts r w) = writeError 400 code \<and>
    w_tg (snd (runStrategyDispatch e name resolve Send cap opts r w)) = w_tg w \<and>
    map row_key (d_audit (w_db (snd (runStrategyDispatch e name resolve Send cap opts r w)))) =
      map row_key (d_audit (w_db w)) @ [(StageReceived, nullif_text (env_uuid e (w_tick w)), None),
        (StageDenied, nullif_text (env_uuid e (w_tick w)), None)]"
  by (rule message_endpoint.dispatch_refuses [OF message_routes_endpoint [OF assms(1), THEN conjunct1] assms(2,3)])


section \<open>A concrete message\<close>

definition demo_message :: http_request where
  "demo_message = \<lparr>hr_method = ''POST'', hr_path = ''/v1/messages/direct-dm'', hr_authorization = [],
     hr_trace_header = [], hr_remote = [], hr_query = [], hr_params = [],
     hr_body = Body_dispatch \<lparr>dq_recipients = [103], dq_app_id = [], dq_min_grade = [],
       dq_envelope = \<lparr>en_text = ''hi'', en_schema_version = 1\<rparr>\<rparr>,
     hr_trace = ''t'', hr_requester = None\<rparr>"

lemma demo_no_faults [simp]: "no_faults demo_env"
  by (simp add: no_faults_def)

lemma demo_Write: "event_ok ev \<Longrightarrow> Write demo_env ev w = (Inr (), snd (Write demo_env ev w))"
  using Write_no_faults [OF demo_no_faults] by (metis prod.collapse)

text \<open>A limiter with a token in the global bucket and no bucket yet for the chat lets a message pass.\<close>

lemma dispatch_Allow_fresh:
  assumes "1 \<le> dl_gTokens l" "0 \<le> dl_gRate l" "1 \<le> dl_gBurst l" "dl_per l key = None" "1 \<le> dl_pBurst l"
  shows "dec_allowed (fst (dispatch_Allow key now l))"
proof -
  let ?el = "Seconds (time_sub now (dl_gRefill l))"
  have "1 \<le> f_add (dl_gTokens l) (f_mul ?el (dl_gRate l))" if "0 < ?el"
    using f64_le [of 1 "dl_gTokens l + f_mul ?el (dl_gRate l)"] f64_nonneg [of "?el * dl_gRate l"] that assms(1,2)
    by (simp add: f_add_def f_mul_def del: Seconds_pos)
  moreover have "time_sub now now = 0" by (simp add: time_sub_def)
  ultimately show ?thesis using assms
    by (cases "0 < ?el") (auto simp: dispatch_Allow_def takeGlobal_def takePerChat_def Let_def
        simp del: Seconds_pos)
qed

lemma Send_fresh:
  assumes "1 \<le> dl_gTokens (w_dispatch w)" "0 \<le> dl_gRate (w_dispatch w)" "1 \<le> dl_gBurst (w_dispatch w)"
    and "dl_per (w_dispatch w) = Map.empty" "1 \<le> dl_pBurst (w_dispatch w)"
  shows "w_tg (snd (Send e h en w)) = w_tg w @ [sendParams h en]"
proof -
  obtain d w1 where a: "limiter_Allow e (''chat:'' @ FormatInt (rc_chat h)) w = (d, w1)" by fastforce
  then have "dec_allowed d"
    using dispatch_Allow_fresh [of "w_dispatch w" "''chat:'' @ FormatInt (rc_chat h)" "env_now e (w_tick w)"] assms
    by (auto simp: limiter_Allow_def read_clock_def split: prod.splits)
  moreover have "w_tg w1 = w_tg w" by (metis a limiter_Allow_keeps(2) snd_conv)
  ultimately show ?thesis using a by (simp add: Send_def)
qed

lemma demo_resolved:
  assumes "d_users (w_db w) = d_users (w_db demo_route_world)"
  shows "DirectDMStrategy_Resolve demo_env (route_of direct_dm_opts \<lparr>dq_recipients = [103], dq_app_id = [],
      dq_min_grade = [], dq_envelope = en\<rparr>) w =
    (Inr \<lparr>rr_recipients = [\<lparr>rc_user = 3, rc_chat = 103, rc_topic = 0, rc_channel = ''dm''\<rparr>], rr_skipped = []\<rparr>, tick w)"
  using assms by (simp add: DirectDMStrategy_Resolve_def ResolveDirectDM_def route_of_def dm_row_def demo_route_simps)

definition demo_run :: "response \<times> world" where
  "demo_run = runStrategyDispatch demo_env ''direct-dm'' DirectDMStrategy_Resolve Send CapMessagesDirectDM direct_dm_opts
     demo_message demo_route_world"

lemma demo_run_complete: "\<exists>d. rs_reply (fst demo_run) = J_dispatch d"
  unfolding demo_run_def
proof (rule dm_ep.dispatch_completes)
  show "hr_body demo_message = Body_dispatch \<lparr>dq_recipients = [103], dq_app_id = [], dq_min_grade = [],
      dq_envelope = \<lparr>en_text = ''hi'', en_schema_version = 1\<rparr>\<rparr>" by (simp add: demo_message_def)
next
  fix w2
  assume "only_audit demo_env demo_route_world w2"
  then show "\<exists>res. fst (DirectDMStrategy_Resolve demo_env (route_of direct_dm_opts \<lparr>dq_recipients = [103], dq_app_id = [],
      dq_min_grade = [], dq_envelope = \<lparr>en_text = ''hi'', en_schema_version = 1\<rparr>\<rparr>) w2) = Inr res"
    using demo_resolved [of w2 "\<lparr>en_text = ''hi'', en_schema_version = 1\<rparr>"] only_audit_fields [of demo_env demo_route_world w2]
    by simp
qed (simp_all add: request_fault_def direct_dm_opts_def)

lemma demo_run_sends: "w_tg (snd demo_run) = [SendMessage 103 None ''hi'']"
proof (cases rule: dm_ep.dispatch_cases [of demo_env "''direct-dm''" CapMessagesDirectDM direct_dm_opts demo_message
      demo_route_world])
  case (complete req resolved ev w3 resp1 w5)
  have req: "req = \<lparr>dq_recipients = [103], dq_app_id = [], dq_min_grade = [], dq_envelope = \<lparr>en_text = ''hi'', en_schema_version = 1\<rparr>\<rparr>"
    using complete(1) by (simp add: demo_message_def)
  have res: "resolved = \<lparr>rr_recipients = [\<lparr>rc_user = 3, rc_chat = 103, rc_topic = 0, rc_channel = ''dm''\<rparr>], rr_skipped = []\<rparr>"
    and w3: "w_tg w3 = []" "w_dispatch w3 = w_dispatch empty_world"
    using complete(3) unfolding req by (auto simp: demo_resolved demo_route_world_def empty_world_def)
  let ?w4 = "snd (Write demo_env ev w3)"
  have "w_tg w5 = w_tg (snd (deliver_loop demo_env Send (flow_base demo_env ''direct-dm'' CapMessagesDirectDM demo_message
      demo_route_world) (dq_envelope req) (rr_recipients resolved) (empty_response (env_uuid demo_env (w_tick demo_route_world))) ?w4))"
    unfolding complete(7) by simp
  also have "\<dots> = [SendMessage 103 None ''hi'']"
    unfolding res req dispatch_request.simps resolve_result.simps dm_ep.deliver_single
    by (subst Send_fresh) (simp_all add: w3 empty_world_def sendParams_def)
  finally have "w_tg w5 = [SendMessage 103 None ''hi'']" .
  then show ?thesis using complete(8) unfolding res demo_run_def by simp
qed (use demo_run_complete in \<open>auto simp: demo_run_def writeError_def writeJSON_def flow_deny_def split: prod.splits\<close>)

theorem message_audited_before_sent_witness:
  "only_audit demo_env demo_route_world (snd demo_run)"
  using message_audited_before_sent [of "''direct-dm''" DirectDMStrategy_Resolve CapMessagesDirectDM direct_dm_opts
      demo_env demo_message demo_route_world "fst demo_run" "snd demo_run"] demo_run_sends
  by (simp add: message_routes_def demo_run_def demo_route_world_def empty_world_def)

theorem message_report_exact_witness:
  "\<exists>d. rs_reply (fst demo_run) = J_dispatch d \<and> ds_delivered d = count_status ''delivered'' (ds_recipients d)"
proof -
  obtain d where d: "rs_reply (fst demo_run) = J_dispatch d" using demo_run_complete by blast
  have "runStrategyDispatch demo_env ''direct-dm'' DirectDMStrategy_Resolve Send CapMessagesDirectDM direct_dm_opts
      demo_message demo_route_world = (fst demo_run, snd demo_run)" by (simp add: demo_run_def)
  from message_report_exact [OF _ this d] d show ?thesis by (auto simp: message_routes_def)
qed

theorem message_audit_trail_witness:
  "\<exists>d. rs_reply (fst demo_run) = J_dispatch d \<and>
     map row_key (d_audit (w_db (snd demo_run))) =
       (StageReceived, Some ''uuid-0'', None) # (StageValidated, Some ''uuid-0'', None) #
       concat (map (report_trail ''uuid-0'') (ds_recipients d))"
proof -
  obtain d where d: "rs_reply (fst demo_run) = J_dispatch d" using demo_run_complete by blast
  have run: "runStrategyDispatch demo_env ''direct-dm'' DirectDMStrategy_Resolve Send CapMessagesDirectDM direct_dm_opts
      demo_message demo_route_world = (fst demo_run, snd demo_run)" by (simp add: demo_run_def)
  have uuid: "env_uuid demo_env (w_tick demo_route_world) = ''uuid-0''"
    by (simp add: demo_route_world_def empty_world_def nat_dec.simps digit_chars)
  from message_audit_trail [OF _ demo_route_ok demo_env_orders demo_no_faults run d] d show ?thesis
    unfolding uuid by (simp add: message_routes_def nullif_text_def demo_route_world_def empty_world_def empty_db_def)
qed

theorem malformed_message_refused_witness:
  "fst (runStrategyDispatch demo_env ''topic'' TopicStrategy_Resolve Send CapMessagesTopic topic_opts
      (demo_message\<lparr>hr_body := Bad_body\<rparr>) empty_world) = writeError 400 ''malformed_json''"
  using malformed_message_refused [of "''topic''" TopicStrategy_Resolve CapMessagesTopic topic_opts demo_env
      "demo_message\<lparr>hr_body := Bad_body\<rparr>" "''malformed_json''" empty_world]
  by (simp add: message_routes_def body_fault_def)

end
