(* ===== verification/Api_Router.thy ===== *)
theory Api_Router
  imports Api_Messages Api_Admin Api_Audit
begin

text \<open>
  The router of \<^verbatim>\<open>src/internal/api/server.go\<close>: which middlewares stand before which handler, with
  which capability. How chi matches paths is a parameter: which mounted prefix a request belongs to,
  whether it matches a method and pattern and with which parameters, and what is answered when nothing
  matches. The deadline middleware only makes database round trips fail, which they may do at any
  time; access-log lines are not part of the state.
\<close>

section \<open>Routes\<close>

record chi =
  chi_mounted :: "string \<Rightarrow> http_request \<Rightarrow> bool"
  chi_match :: "string \<Rightarrow> string \<Rightarrow> http_request \<Rightarrow> (string \<times> string) list option"
  chi_not_found :: "http_request \<Rightarrow> response"

type_synonym route_table = "(string \<times> string \<times> string \<times> (env \<Rightarrow> handler)) list"

definition admin_table :: route_table where
  "admin_table =
     [(''POST'', ''/apps'', CapAppsRegister, Create),
      (''PATCH'', ''/apps/{id}'', CapAppsRegister, Patch_app),
      (''DELETE'', ''/apps/{id}'', CapAppsRegister, Delete),
      (''DELETE'', ''/apps/{id}/purge'', CapAppsRegister, Purge),
      (''PATCH'', ''/users/{telegram_id}'', CapUsersPromote, Patch_user),
      (''POST'', ''/users/{telegram_id}/subscriptions/{app_id}'', CapAppsRegister, Subscribe),
      (''DELETE'', ''/users/{telegram_id}/subscriptions/{app_id}'', CapAppsRegister, Unsubscribe),
      (''GET'', ''/audit/search'', CapAuditSearch, Search)]"

definition v1_table :: route_table where
  "v1_table =
     [(''POST'', ''/messages/direct'', CapMessagesDirect, DirectHandler),
      (''POST'', ''/messages/topic'', CapMessagesTopic, TopicHandler),
      (''POST'', ''/messages/broadcast'', CapMessagesBroadcast, BroadcastHandler),
      (''POST'', ''/messages/direct-dm'', CapMessagesDirectDM, DirectDMHandler)]"

fun serve :: "env \<Rightarrow> chi \<Rightarrow> route_table \<Rightarrow> handler" where
  "serve e c [] r w = (chi_not_found c r, w)"
| "serve e c ((m, p, cap, h) # table) r w =
     (case chi_match c m p r of
        Some params \<Rightarrow> RequireCapability e cap (h e) (r\<lparr>hr_params := params\<rparr>) w
      | None \<Rightarrow> serve e c table r w)"

definition mounted_routes :: "env \<Rightarrow> chi \<Rightarrow> (string \<Rightarrow> policy) option \<Rightarrow> route_table \<Rightarrow> handler" where
  "mounted_routes e c rl table = Auth_mw e Resolve (RateLimit e rl (serve e c table))"

definition root_routes :: "env \<Rightarrow> chi \<Rightarrow> (string \<Rightarrow> policy) option \<Rightarrow> handler" where
  "root_routes e c rl r w =
     (if chi_match c ''GET'' ''/healthz'' r \<noteq> None then HealthHandler e r w
      else if chi_mounted c ''/admin'' r then mounted_routes e c rl admin_table r w
      else if chi_mounted c ''/v1'' r then mounted_routes e c rl v1_table r w
      else (chi_not_found c r, w))"

text \<open>No handler panics: what reaches \<^verbatim>\<open>Recover\<close> is always an answer.\<close>

definition NewRouter :: "env \<Rightarrow> chi \<Rightarrow> (string \<Rightarrow> policy) option \<Rightarrow> handler" where
  "NewRouter e c rl =
     RequestID e (Recover (\<lambda>r w. case root_routes e c rl r w of (resp, w1) \<Rightarrow> (Some resp, w1)))"


section \<open>What a request may do\<close>

text \<open>The effect that every request has: audit rows, and nothing else unless the handler of a route
  ran for an identity that holds the route's capability.\<close>

definition quiet :: "env \<Rightarrow> world \<Rightarrow> world \<Rightarrow> bool" where
  "quiet e w w' = (only_audit e w w' \<and> w_tg w' = w_tg w)"

lemma quiet_trans: "quiet e w w' \<Longrightarrow> quiet e w' w'' \<Longrightarrow> quiet e w w''"
  by (auto simp: quiet_def intro: only_audit_trans)

lemma quiet_same [simp]: "w_db w' = w_db w \<Longrightarrow> w_tg w' = w_tg w \<Longrightarrow> quiet e w w'"
  by (simp add: quiet_def)

lemma RequireCapability_cases:
  obtains (passed) i where "hr_requester r = Some i" "cap \<in> rq_capabilities i" "RequireCapability e cap nxt r w = nxt r w"
    | (denied) "quiet e w (snd (RequireCapability e cap nxt r w))"
proof (cases "Require (hr_requester r) cap")
  case None
  then obtain i where "hr_requester r = Some i" "cap \<in> rq_capabilities i"
    by (auto simp: Require_def Has_def split: option.splits if_splits)
  with None passed show thesis by (simp add: RequireCapability_def)
next
  case (Some err)
  then show thesis by (intro denied) (simp add: RequireCapability_def Let_def split_beta quiet_def)
qed

lemma serve_cases:
  obtains (passed) m p cap h params i where "(m, p, cap, h) \<in> set table" "chi_match c m p r = Some params"
      "hr_requester r = Some i" "cap \<in> rq_capabilities i" "serve e c table r w = h e (r\<lparr>hr_params := params\<rparr>) w"
    | (denied) "quiet e w (snd (serve e c table r w))"
proof (induction table)
  case (Cons entry table)
  obtain m p cap h where entry: "entry = (m, p, cap, h)" by (cases entry) auto
  show thesis
  proof (cases "chi_match c m p r")
    case None
    with Cons show thesis by (simp add: entry) blast
  next
    case (Some params)
    show thesis
    proof (cases rule: RequireCapability_cases [of "r\<lparr>hr_params := params\<rparr>" cap e "h e" w])
      case (passed i)
      with Some show thesis by (intro Cons.prems(1) [of m p cap h params i]) (simp_all add: entry)
    next
      case denied
      with Some show thesis by (intro Cons.prems(2)) (simp add: entry)
    qed
  qed
qed auto

lemma RateLimit_cases:
  obtains (passed) w1 where "RateLimit e rl nxt r w = nxt r w1" "w_db w1 = w_db w" "w_tg w1 = w_tg w"
    | (denied) "w_db (snd (RateLimit e rl nxt r w)) = w_db w" "w_tg (snd (RateLimit e rl nxt r w)) = w_tg w"
proof (cases rl)
  case None
  then show thesis by (intro passed [of w]) (simp_all add: RateLimit_def)
next
  case (Some pol)
  let ?key = "case hr_requester r of None \<Rightarrow> hr_remote r | Some i \<Rightarrow> ''app:'' @ rq_app_id i"
  obtain d bs where d: "bucket_Allow pol ?key (env_now e (w_tick w)) (w_buckets w) = (d, bs)" by fastforce
  show thesis
  proof (cases "dec_allowed d")
    case True
    with d show thesis
      by (intro passed [of "(tick w)\<lparr>w_buckets := bs\<rparr>"]) (simp_all add: RateLimit_def Some Let_def read_clock_def)
  next
    case False
    with d show thesis by (intro denied) (simp_all add: RateLimit_def Some Let_def read_clock_def)
  qed
qed

lemma mounted_cases:
  obtains (passed) m p cap h params i r' w1 where "(m, p, cap, h) \<in> set table" "chi_match c m p (r\<lparr>hr_requester := Some i\<rparr>) = Some params"
      "grants e (w_db w) (TrimSpace (drop 7 (hr_authorization r))) i" "cap \<in> rq_capabilities i"
      "w_db w1 = w_db w" "w_tg w1 = w_tg w" "mounted_routes e c rl table r w = h e r' w1"
    | (denied) "quiet e w (snd (mounted_routes e c rl table r w))"
proof (cases rule: pgauth.Auth_cases [of e "RateLimit e rl (serve e c table)" r w])
  case (passed b i w1)
  let ?r = "r\<lparr>hr_requester := Some i\<rparr>"
  note run = passed(1) [folded mounted_routes_def]
  show thesis
  proof (cases rule: RateLimit_cases [of e rl "serve e c table" ?r w1])
    case limited: (passed w2)
    show thesis
    proof (cases rule: serve_cases [of table c ?r e w2])
      case served: (passed m p cap h params j)
      then have "j = i" by simp
      with served limited passed run that(1) show thesis by fastforce
    next
      case denied
      then have "quiet e w (snd (mounted_routes e c rl table r w))"
        unfolding run limited(1) by (rule quiet_trans [rotated]) (use passed limited in simp)
      then show thesis by (rule that(2))
    qed
  next
    case denied
    then show thesis using passed run that(2) by simp
  qed
next
  case (denied code w1)
  then have "quiet e w (snd (mounted_routes e c rl table r w))"
    unfolding mounted_routes_def denied(1) quiet_def by (auto intro: only_audit_step(1))
  then show thesis by (rule that(2))
qed

lemma NewRouter_eq:
  obtains r' w0 where "snd (NewRouter e c rl r w) = snd (root_routes e c rl r' w0)" "w_db w0 = w_db w" "w_tg w0 = w_tg w"
    "hr_authorization r' = hr_authorization r" "r' = r\<lparr>hr_trace := hr_trace r'\<rparr>"
proof -
  obtain tr w0 where t: "(if hr_trace_header r = [] then new_uuid e w else (hr_trace_header r, w)) = (tr, w0)" by fastforce
  then have "w_db w0 = w_db w" "w_tg w0 = w_tg w" by (auto simp: new_uuid_def split: if_splits)
  moreover have "snd (NewRouter e c rl r w) = snd (root_routes e c rl (r\<lparr>hr_trace := tr\<rparr>) w0)"
    unfolding NewRouter_def RequestID_def t by (simp add: Recover_def split: prod.splits)
  ultimately show thesis using that [of "r\<lparr>hr_trace := tr\<rparr>" w0] by simp
qed

text \<open>A request is quiet, or it is the work of one handler for an identity with its capability.\<close>

lemma NewRouter_cases:
  obtains (passed) m p cap h params r1 i r' w1 where "(m, p, cap, h) \<in> set (admin_table @ v1_table)"
      "chi_match c m p r1 = Some params" "grants e (w_db w) (TrimSpace (drop 7 (hr_authorization r))) i"
      "cap \<in> rq_capabilities i" "w_db w1 = w_db w" "w_tg w1 = w_tg w" "snd (NewRouter e c rl r w) = snd (h e r' w1)"
      "r1 = r\<lparr>hr_trace := hr_trace r1, hr_requester := Some i\<rparr>"
    | (denied) "quiet e w (snd (NewRouter e c rl r w))"
proof -
  note hit = passed and miss = denied
  obtain r' w0 where run: "snd (NewRouter e c rl r w) = snd (root_routes e c rl r' w0)" and w0: "w_db w0 = w_db w" "w_tg w0 = w_tg w"
    and r': "hr_authorization r' = hr_authorization r" "r' = r\<lparr>hr_trace := hr_trace r'\<rparr>"
    by (rule NewRouter_eq)
  have mounted: thesis if tab: "set table \<subseteq> set (admin_table @ v1_table)"
    and go: "root_routes e c rl r' w0 = mounted_routes e c rl table r' w0" for table
  proof (cases rule: mounted_cases [of table c r' e w0 rl])
    case (passed m p cap h params i r2 w1)
    have "(m, p, cap, h) \<in> set (admin_table @ v1_table)" using passed(1) tab by blast
    moreover have "r'\<lparr>hr_requester := Some i\<rparr> = r\<lparr>hr_trace := hr_trace (r'\<lparr>hr_requester := Some i\<rparr>), hr_requester := Some i\<rparr>"
      by (subst r'(2)) simp
    ultimately show thesis
      using hit [OF _ passed(2)] passed w0 run go r'(1) by simp
  next
    case denied
    then show thesis using miss run go w0 by (auto simp: quiet_def intro: only_audit_step(1))
  qed
  have quiet: thesis if "w_db (snd (root_routes e c rl r' w0)) = w_db w0" "w_tg (snd (root_routes e c rl r' w0)) = w_tg w0"
    using that run w0 by (intro miss) simp
  have "root_routes e c rl r' w0 = mounted_routes e c rl admin_table r' w0 \<or>
    root_routes e c rl r' w0 = mounted_routes e c rl v1_table r' w0 \<or>
    w_db (snd (root_routes e c rl r' w0)) = w_db w0 \<and> w_tg (snd (root_routes e c rl r' w0)) = w_tg w0"
    by (simp add: root_routes_def HealthHandler_def db_trip_def)
  then consider "root_routes e c rl r' w0 = mounted_routes e c rl admin_table r' w0"
    | "root_routes e c rl r' w0 = mounted_routes e c rl v1_table r' w0"
    | "w_db (snd (root_routes e c rl r' w0)) = w_db w0" "w_tg (snd (root_routes e c rl r' w0)) = w_tg w0"
    by (elim disjE conjE)
  then show thesis
  proof cases
    case 1 then show thesis by (rule mounted [rotated]) simp
  next
    case 2 then show thesis by (rule mounted [rotated]) simp
  next
    case 3 then show thesis by (rule quiet)
  qed
qed

text \<open>Every handler of the tables keeps the constraints, the chain and the log's past.\<close>

lemma table_handler_keeps:
  assumes "(m, p, cap, h) \<in> set (admin_table @ v1_table)" "db_ok (w_db w)" "chain_ok e (w_db w)"
  shows "db_ok (w_db (snd (h e r w)))" "chain_ok e (w_db (snd (h e r w)))"
    "prefix (d_audit (w_db w)) (d_audit (w_db (snd (h e r w))))"
proof -
  have ok: "audit_ok (w_db w)" using assms(2) by (simp add: db_ok_def)
  have audit_only: "db_ok (w_db w') \<and> chain_ok e (w_db w') \<and> prefix (d_audit (w_db w)) (d_audit (w_db w'))"
    if "only_audit e w w'" for w'
    using that assms(2,3) ok only_audit_db_ok [OF that] by (auto simp: only_audit_def prefix_def)
  from assms(1) consider (admin) eff where "(h, eff) \<in> set admin_routes" | (search) "h = Search"
    | (message) name resolve opts where "(name, resolve, cap, opts) \<in> set message_routes"
        "h = (\<lambda>e. runStrategyDispatch e name resolve Send cap opts)"
    by (fastforce simp: admin_table_def v1_table_def admin_routes_def message_routes_def DirectHandler_def [abs_def]
        TopicHandler_def [abs_def] BroadcastHandler_def [abs_def] DirectDMHandler_def [abs_def])
  then have "db_ok (w_db (snd (h e r w))) \<and> chain_ok e (w_db (snd (h e r w))) \<and>
    prefix (d_audit (w_db w)) (d_audit (w_db (snd (h e r w))))"
  proof cases
    case admin
    from admin_endpoint.request_keeps [OF admin_routes_endpoint [OF admin], where e = e and r = r and w = w] assms ok
    show ?thesis by (auto simp: prefix_def)
  next
    case search
    have "only_audit e w (snd (Search e r w))"
      by (cases rule: Search_cases [of e r w]) (auto intro: only_audit_trans)
    with audit_only search show ?thesis by simp
  next
    case message
    from message_routes_endpoint [OF message(1)] have "message_endpoint resolve Send" by simp
    from message_endpoint.dispatch_only_audit [OF this] audit_only message(2) show ?thesis by simp
  qed
  then show "db_ok (w_db (snd (h e r w)))" "chain_ok e (w_db (snd (h e r w)))"
    "prefix (d_audit (w_db w)) (d_audit (w_db (snd (h e r w))))" by simp_all
qed

lemma NewRouter_keeps:
  assumes "db_ok (w_db w)" "chain_ok e (w_db w)"
  shows "db_ok (w_db (snd (NewRouter e c rl r w))) \<and> chain_ok e (w_db (snd (NewRouter e c rl r w))) \<and>
    prefix (d_audit (w_db w)) (d_audit (w_db (snd (NewRouter e c rl r w))))"
proof (cases rule: NewRouter_cases [of c e w r rl])
  case (passed m p cap h params r1 i r' w1)
  from table_handler_keeps [OF passed(1), of w1 e r'] assms passed(5) show ?thesis unfolding passed(7) by simp
next
  case denied
  have "audit_ok (w_db w)" using assms(1) by (simp add: db_ok_def)
  with denied assms only_audit_db_ok show ?thesis by (auto simp: quiet_def only_audit_def prefix_def)
qed

section \<open>Properties of the server\<close>

text \<open>C4: Whatever a request does beyond writing audit rows -- any other change of the tables, any call
  to Telegram -- is the work of a route of the tables whose capability is held by the application
  that the request's bearer token belongs to: an unrevoked key of an active application that
  verifies against the token, and a row of the capability table.\<close>

theorem privileged_effects_need_capability:
  assumes "NewRouter e c rl r w = (resp, w')" "\<not> only_audit e w w' \<or> w_tg w' \<noteq> w_tg w"
  shows "\<exists>m p cap h r1 i. (m, p, cap, h) \<in> set (admin_table @ v1_table) \<and> chi_match c m p r1 \<noteq> None \<and>
    r1 = r\<lparr>hr_trace := hr_trace r1, hr_requester := Some i\<rparr> \<and>
    grants e (w_db w) (TrimSpace (drop 7 (hr_authorization r))) i \<and> (rq_app_id i, cap) \<in> set (d_caps (w_db w))"
proof (cases rule: NewRouter_cases [of c e w r rl])
  case (passed m p cap h params r1 i r' w1)
  moreover have "(rq_app_id i, cap) \<in> set (d_caps (w_db w))"
    using passed(3,4) by (auto simp: grants_def app_caps_def)
  ultimately show ?thesis by blast
next
  case denied
  with assms show ?thesis by (auto simp: quiet_def)
qed

text \<open>Any sequence of requests to the server, with any failures of the database on the way, keeps
  every constraint of the schema, keeps the audit chain intact and only ever appends to the audit log.\<close>

theorem server_keeps_invariants:
  assumes "db_ok (w_db w)" "chain_ok e (w_db w)"
  shows "db_ok (w_db (foldl (\<lambda>w r. snd (NewRouter e c rl r w)) w rs)) \<and>
    chain_ok e (w_db (foldl (\<lambda>w r. snd (NewRouter e c rl r w)) w rs)) \<and>
    prefix (d_audit (w_db w)) (d_audit (w_db (foldl (\<lambda>w r. snd (NewRouter e c rl r w)) w rs)))"
  using assms
proof (induction rs arbitrary: w)
  case (Cons r rs)
  let ?w1 = "snd (NewRouter e c rl r w)"
  note step = NewRouter_keeps [OF Cons.prems, of c rl r]
  from step have "db_ok (w_db ?w1)" "chain_ok e (w_db ?w1)" by simp_all
  note rest = Cons.IH [OF this]
  from step have "prefix (d_audit (w_db w)) (d_audit (w_db ?w1))" by simp
  with rest show ?case unfolding foldl_Cons by (auto intro: prefix_order.order_trans)
qed simp


section \<open>A concrete server\<close>

definition demo_chi :: chi where
  "demo_chi = \<lparr>chi_mounted = (\<lambda>prefix r. prefix = ''/admin''),
     chi_match = (\<lambda>m p r. if m = ''POST'' \<and> p = ''/apps'' then Some [] else None),
     chi_not_found = (\<lambda>r. httpError 404 ''not_found'')\<rparr>"

definition demo_server_world :: world where
  "demo_server_world = empty_world\<lparr>w_db := demo_app_db\<lparr>d_caps := [(''ops'', CapAppsRegister)]\<rparr>\<rparr>"

definition demo_server_request :: http_request where
  "demo_server_request = demo_admin_request\<lparr>hr_authorization := ''Bearer tg_ab_cd''\<rparr>"

lemma demo_server_resolves:
  assumes "w_db w = w_db demo_server_world"
  shows "\<exists>i w1. Resolve demo_env ''tg_ab_cd'' w = (Inr i, w1) \<and> CapAppsRegister \<in> rq_capabilities i \<and> w_db w1 = w_db w"
proof -
  have "ParseBearer ''tg_ab_cd'' = Some ''ab''" by code_simp
  then have "grants demo_env (w_db w) ''tg_ab_cd'' \<lparr>rq_app_id = ''ops'', rq_capabilities = {CapAppsRegister},
     rq_capability_set_ver = 2, rq_key_prefix = ''ab''\<rparr>"
    by (auto simp: assms demo_server_world_def grants_def demo_app_db_def app_caps_def VerifyAPIKey_encoded)
  then obtain i w1 where i: "Resolve demo_env ''tg_ab_cd'' w = (Inr i, w1)"
    using Resolve_complete [of demo_env w] by (metis demo_env_simps(1) prod.collapse)
  then have "grants demo_env (w_db w) ''tg_ab_cd'' i" using Resolve_grants by (metis fst_conv)
  then have "CapAppsRegister \<in> rq_capabilities i"
    by (auto simp: assms demo_server_world_def grants_def demo_app_db_def app_caps_def)
  with i Resolve_db(1) [of demo_env "''tg_ab_cd''" w] show ?thesis by simp
qed

lemma demo_server_runs:
  "\<not> only_audit demo_env demo_server_world (snd (NewRouter demo_env demo_chi None demo_server_request demo_server_world))"
proof -
  let ?r = "demo_server_request\<lparr>hr_trace := env_uuid demo_env (w_tick demo_server_world)\<rparr>" and ?w = "tick demo_server_world"
  have "hr_authorization ?r = ''Bearer tg_ab_cd''" "TrimSpace ''tg_ab_cd'' = ''tg_ab_cd''" "HasPrefix ''Bearer tg_ab_cd'' ''Bearer ''"
    by (simp add: demo_server_request_def, code_simp, code_simp)
  note hdr = this
  obtain i w1 where i: "Resolve demo_env ''tg_ab_cd'' ?w = (Inr i, w1)" "CapAppsRegister \<in> rq_capabilities i"
    "w_db w1 = w_db demo_server_world"
    using demo_server_resolves [of ?w] by auto
  let ?r2 = "?r\<lparr>hr_requester := Some i, hr_params := []\<rparr>"
  have run: "snd (NewRouter demo_env demo_chi None demo_server_request demo_server_world) = snd (Create demo_env ?r2 w1)"
    using hdr i by (simp add: NewRouter_def RequestID_def Recover_def root_routes_def mounted_routes_def Auth_mw_def RateLimit_def
        new_uuid_def demo_chi_def demo_server_request_def demo_admin_request_def admin_table_def RequireCapability_def Require_def
        Has_def split: prod.splits)
  have "create_effect ?r2 t (w_db w1) \<noteq> None" for t
    by (simp add: i(3) demo_server_world_def create_effect_def demo_server_request_def demo_admin_request_def create_fault_def
        id_head_char_def id_tail_char_def forbiddenCapabilities_def allowedCapabilities_def app_ids_def demo_app_db_def)
  then have "rs_status (fst (Create demo_env ?r2 w1)) < 300"
    by (intro create_ep.request_accepted [where t = 0]) (simp_all add: no_faults_def)
  then obtain t d' where d': "create_effect ?r2 t (w_db w1) = Some d'" "same_but_audit d' (w_db (snd (Create demo_env ?r2 w1)))"
    using create_ep.request_atomic [of demo_env ?r2 w1] by auto
  have "length (d_apps d') = Suc (length (d_apps (w_db demo_server_world)))"
    using d'(1) i(3) by (auto simp: create_effect_def split: body.splits if_splits)
  then have "d_apps (w_db (snd (Create demo_env ?r2 w1))) \<noteq> d_apps (w_db demo_server_world)"
    unfolding same_but_audit_fields(1) [OF d'(2)] by (metis n_not_Suc_n)
  then show ?thesis unfolding run using only_audit_fields(1) by blast
qed

theorem privileged_effects_need_capability_witness:
  "\<exists>m p cap h. \<exists>i :: requester. (m, p, cap, h) \<in> set (admin_table @ v1_table) \<and> chi_match demo_chi m p demo_server_request \<noteq> None \<and>
    (rq_app_id i, cap) \<in> set (d_caps (w_db demo_server_world))"
proof -
  let ?run = "NewRouter demo_env demo_chi None demo_server_request demo_server_world"
  have "?run = (fst ?run, snd ?run)" by simp
  from privileged_effects_need_capability [OF this disjI1 [OF demo_server_runs]]
  obtain m p cap h r1 and i :: requester where "(m, p, cap, h) \<in> set (admin_table @ v1_table)" "chi_match demo_chi m p r1 \<noteq> None"
    "(rq_app_id i, cap) \<in> set (d_caps (w_db demo_server_world))" by (elim exE conjE) (rule that)
  moreover from this(2) have "chi_match demo_chi m p demo_server_request \<noteq> None" by (simp add: demo_chi_def)
  ultimately show ?thesis by blast
qed

theorem server_keeps_invariants_witness:
  "db_ok (w_db (foldl (\<lambda>w r. snd (NewRouter demo_env demo_chi None r w)) empty_world [demo_server_request, demo_message]))"
  using server_keeps_invariants [of empty_world demo_env demo_chi None "[demo_server_request, demo_message]"]
  by (simp add: empty_world_def empty_db_def db_ok_defs chain_ok_def)

end
