(* ===== verification/Ui_Server.thy ===== *)
theory Ui_Server
  imports Ui_Pages Ui_Test_Send Ui_Session_Safe Api_Router
begin

text \<open>
  The admin UI as a whole (\<^verbatim>\<open>NewServer\<close> of \<^verbatim>\<open>src/internal/adminui/server.go\<close>): its routes with their
  middlewares. How the router matches a path is an argument. What the pages keep of the
  shared state is in \<open>Ui_Invariant\<close>.
\<close>

type_synonym ui_route_table = "(string \<times> string \<times> bool \<times> ui_handler) list"

text \<open>Method, pattern, whether \<^verbatim>\<open>RequireCSRF\<close> guards it, handler.\<close>

definition ui_table :: "env \<Rightarrow> api \<Rightarrow> ui_config \<Rightarrow> ui_route_table" where
  "ui_table e api c =
     [(''GET'', ''/'', False, handleDashboard e api c),
      (''GET'', ''/delivery'', False, handleDeliveryPage e c),
      (''POST'', ''/logout'', True, handleLogout e),
      (''GET'', ''/apps'', False, handleAppsList e c),
      (''GET'', ''/apps/new'', False, handleAppNewForm e c),
      (''POST'', ''/apps'', True, handleAppCreate e api c),
      (''GET'', ''/apps/{id}'', False, handleAppDetail e c),
      (''POST'', ''/apps/{id}/patch'', True, handleAppPatch e api c),
      (''POST'', ''/apps/{id}/deactivate'', True, handleAppDeactivate e api c),
      (''POST'', ''/apps/{id}/delete'', True, handleAppDelete e api c),
      (''GET'', ''/keys'', False, handleKeysPage e c),
      (''POST'', ''/keys'', True, handleKeyIssue e c),
      (''POST'', ''/keys/{app}/{prefix}/revoke'', True, handleKeyRevoke e c),
      (''POST'', ''/keys/{app}/{prefix}/label'', True, handleKeyLabel e c),
      (''GET'', ''/apps/{id}/keys'', False, handleKeysLegacyRedirect),
      (''GET'', ''/audit'', False, handleAuditPage e api c),
      (''POST'', ''/audit/verify'', True, handleAuditVerify e api c),
      (''GET'', ''/test-send'', False, handleTestSendPage e c),
      (''POST'', ''/test-send'', True, handleTestSendSubmit e api c),
      (''GET'', ''/users'', False, handleUsersPage e c),
      (''POST'', ''/users/{id}/grade'', True, handleUserGrade e api c),
      (''POST'', ''/users/{id}/subscriptions'', True, handleUserSubscribe e api c),
      (''POST'', ''/users/{id}/subscriptions/{app}/delete'', True, handleUserUnsubscribe e api c)]"

text \<open>What the router finds for a method and a pattern: the values of the pattern's parameters, if it matches.\<close>

type_synonym ui_match = "string \<Rightarrow> string \<Rightarrow> ui_request \<Rightarrow> (string \<times> string) list option"

text \<open>The group's session middleware and the route's own middleware run after the match.\<close>

fun ui_serve :: "env \<Rightarrow> ui_match \<Rightarrow> ui_route_table \<Rightarrow> ui_handler" where
  "ui_serve e mat [] r u = (ui_error 404 ''404 page not found'', u)"
| "ui_serve e mat ((m, p, csrf, h) # table) r u =
     (case mat m p r of
        Some params \<Rightarrow> Session_mw e (if csrf then RequireCSRF e h else h) (r\<lparr>ur_params := params\<rparr>) u
      | None \<Rightarrow> ui_serve e mat table r u)"

definition ui_routes :: "env \<Rightarrow> ui_match \<Rightarrow> api \<Rightarrow> ui_config \<Rightarrow> ui_handler" where
  "ui_routes e mat api c r u =
     (if mat ''GET'' ''/login'' r \<noteq> None then handleLoginPage e c r u
      else if mat ''POST'' ''/login'' r \<noteq> None then RequireCSRF e (handleLoginSubmit e c) r u
      else ui_serve e mat (ui_table e api c) r u)"

definition ui_RequestID :: "env \<Rightarrow> ui_handler \<Rightarrow> ui_handler" where
  "ui_RequestID e nxt r u =
     (case (if ur_trace_header r = [] then ui_do (new_uuid e) u else (ur_trace_header r, u)) of (traceID, u1) \<Rightarrow>
      case nxt (r\<lparr>ur_trace := traceID\<rparr>) u1 of (resp, u2) \<Rightarrow>
      (resp\<lparr>ux_headers := (''X-Trace-Id'', traceID) # ux_headers resp\<rparr>, u2))"

text \<open>The context of a request that arrives holds no session.\<close>

definition NewServer :: "env \<Rightarrow> ui_match \<Rightarrow> api \<Rightarrow> ui_config \<Rightarrow> ui_handler" where
  "NewServer e mat api c r =
     ui_RequestID e (securityHeaders (ui_routes e mat api c)) (r\<lparr>ur_nonce := [], ur_expiry := 0\<rparr>)"

text \<open>The request and the state as the routes get them, and the route that the request is matched to.\<close>

definition ui_arrival :: "env \<Rightarrow> ui_request \<Rightarrow> ui_state \<Rightarrow> ui_request \<times> ui_state" where
  "ui_arrival e r u =
     (if ur_trace_header r = []
      then (r\<lparr>ur_nonce := [], ur_expiry := 0, ur_trace := env_uuid e (w_tick (ui_w u))\<rparr>, u\<lparr>ui_w := tick (ui_w u)\<rparr>)
      else (r\<lparr>ur_nonce := [], ur_expiry := 0, ur_trace := ur_trace_header r\<rparr>, u))"

definition matched_route :: "ui_match \<Rightarrow> (string \<times> string) list \<Rightarrow> ui_request \<Rightarrow> (string \<times> string) option" where
  "matched_route mat routes r = find (\<lambda>(m, p). mat m p r \<noteq> None) routes"

definition table_routes :: "ui_route_table \<Rightarrow> (string \<times> string) list" where
  "table_routes table = map (\<lambda>(m, p, csrf, h). (m, p)) table"

definition ui_patterns :: "env \<Rightarrow> api \<Rightarrow> ui_config \<Rightarrow> (string \<times> string) list" where
  "ui_patterns e api c = [(''GET'', ''/login''), (''POST'', ''/login'')] @ table_routes (ui_table e api c)"


section \<open>Pages\<close>

text \<open>The contract of the pages a \<^verbatim>\<open>GET\<close> shows: they read.\<close>

locale ui_page =
  fixes h :: ui_handler
  assumes reads: "only_reads u (snd (h r u))"
begin

lemma page_db: "w_db (ui_w (snd (h r u))) = w_db (ui_w u)" "w_tg (ui_w (snd (h r u))) = w_tg (ui_w u)"
  using only_reads_fields [OF reads] by simp_all

end

lemma only_reads_bind:
  "only_reads u (snd p) \<Longrightarrow> (\<And>x u1. p = (x, u1) \<Longrightarrow> only_reads u1 (snd (f x u1))) \<Longrightarrow>
     only_reads u (snd (case p of (x, u1) \<Rightarrow> f x u1))"
  by (cases p) (auto intro: only_reads_trans)

lemma store_world [simp]:
  "snd (ListApps e w) = tick w" "snd (GetApp e app w) = tick w" "snd (ListUsers e w) = tick w"
  by (auto simp: ListApps_def GetApp_def ListUsers_def db_query_cases split: option.split)

lemma with_apps_reads [simp]: "only_reads u (snd (with_apps e data u))"
  unfolding with_apps_def by (rule only_reads_bind) (auto split: sum.split)

lemma renderAppDetailError_reads [simp]: "only_reads u (snd (renderAppDetailError e c r app msg u))"
proof -
  have "only_reads u1 (snd (case ui_do (GetApp e app) u1 of (Inl _, u2) \<Rightarrow> (x, u2) | (Inr a, u2) \<Rightarrow> (f a, u2)))" for u1 x f
    by (rule only_reads_bind) (auto split: sum.split)
  then show ?thesis unfolding renderAppDetailError_def Let_def by (intro only_reads_bind) auto
qed

lemma listed_users_reads:
  "only_reads u (snd (case ui_do (ListUsers e) u of
      (Inl _, u2) \<Rightarrow> (x, u2)
    | (Inr users, u2) \<Rightarrow> (case with_apps e (f users) u2 of (data, u3) \<Rightarrow> (g data, u3))))"
  by (rule only_reads_bind) (auto split: sum.split intro: only_reads_bind)

lemma renderUsersError_reads [simp]: "only_reads u (snd (renderUsersError e c r tg msg u))"
  unfolding renderUsersError_def Let_def by (rule only_reads_bind) (auto intro: listed_users_reads)

interpretation keys_page: ui_page "handleKeysPage e c" for e c
  by unfold_locales (simp add: handleKeysPage_def Let_def only_reads_bind)

interpretation legacy_page: ui_page handleKeysLegacyRedirect
  by unfold_locales (simp add: handleKeysLegacyRedirect_def)

interpretation new_app_form: ui_page "handleAppNewForm e c" for e c
  by unfold_locales (simp add: handleAppNewForm_def only_reads_bind)

interpretation apps_page: ui_page "handleAppsList e c" for e c
proof
  fix r u
  have "only_reads u1 (snd (case ui_do (ListApps e) u1 of (Inl _, u2) \<Rightarrow> (x, u2) | (Inr apps, u2) \<Rightarrow> (f apps, u2)))" for u1 x f
    by (rule only_reads_bind) (auto split: sum.split)
  then show "only_reads u (snd (handleAppsList e c r u))"
    unfolding handleAppsList_def Let_def by (intro only_reads_bind) auto
qed

interpretation detail_page: ui_page "handleAppDetail e c" for e c
proof
  fix r u
  have "only_reads u1 (snd (case ui_do (GetApp e app) u1 of (Inl ErrAppNotFound, u2) \<Rightarrow> (x, u2) | (Inl _, u2) \<Rightarrow> (y, u2)
      | (Inr a, u2) \<Rightarrow> (f a, u2)))" for u1 app x y f
    by (rule only_reads_bind) (auto split: sum.split store_error.split)
  then show "only_reads u (snd (handleAppDetail e c r u))"
    unfolding handleAppDetail_def Let_def by (intro only_reads_bind) auto
qed

interpretation users_page: ui_page "handleUsersPage e c" for e c
proof
  fix r u
  show "only_reads u (snd (handleUsersPage e c r u))"
    unfolding handleUsersPage_def Let_def by (rule only_reads_bind) (auto intro: listed_users_reads)
qed

interpretation test_page: ui_page "handleTestSendPage e c" for e c
proof
  fix r u
  have "only_reads u (snd (testSendPageData e c r u))"
    unfolding testSendPageData_def Let_def by (rule only_reads_bind) auto
  then show "only_reads u (snd (handleTestSendPage e c r u))"
    unfolding handleTestSendPage_def by (rule only_reads_bind) auto
qed

lemma stats_world [simp]:
  "snd (DashboardStats e w) = tick w" "snd (StageCounts e days app w) = tick w" "snd (RecentFailures e days lm app stage code w) = tick w"
  "snd (DeliveryKPICounts e w) = tick w" "snd (PipelineStageCounts e w) = tick w" "snd (FailureCauseCounts e w) = tick w"
  "snd (DeliveryLatency e w) = tick w" "snd (LatencySamples e lm w) = tick w" "snd (DeliveryDailyCounts e days app stage code w) = tick w"
  "snd (FailureErrorCodes e days w) = tick w"
  by (simp_all add: DashboardStats_def StageCounts_def RecentFailures_def DeliveryKPICounts_def PipelineStageCounts_def
      FailureCauseCounts_def DeliveryLatency_def LatencySamples_def DeliveryDailyCounts_def FailureErrorCodes_def db_query_cases)

lemma RequestBuckets_reads [simp]: "only_reads u (snd (ui_do (RequestBuckets e spec) u))"
  by (auto simp: RequestBuckets_def db_query_cases split: sum.split)

lemma ui_now_reads [simp]: "only_reads u (snd (ui_now e u))"
  by (simp add: ui_now_eq)

lemma read_section_reads: "only_reads u (snd (ui_do q u)) \<Longrightarrow> only_reads u (snd (read_section q good bad v u))"
  unfolding read_section_def by (rule only_reads_bind) (auto split: sum.split)

interpretation delivery_page: ui_page "handleDeliveryPage e c" for e c
proof
  fix r u
  have options: "only_reads u1 (snd (delivery_options e days d u1))" for u1 days d
    unfolding delivery_options_def Let_def by (intro only_reads_bind read_section_reads) auto
  have trend: "only_reads u1 (snd (case ui_do (DeliveryDailyCounts e days app stage code) u1 of (Inl _, u1) \<Rightarrow> (x, u1)
      | (Inr daily, u1) \<Rightarrow> (case ui_now e u1 of (now, u2) \<Rightarrow> (f daily now, u2))))" for u1 days app stage code x f
    by (rule only_reads_bind) (auto split: sum.split intro: only_reads_bind)
  have data: "only_reads u1 (snd (delivery_data e c days d u1))" for u1 days d
    using trend by (auto simp: delivery_data_def intro: read_section_reads)
  show "only_reads u (snd (handleDeliveryPage e c r u))"
    unfolding handleDeliveryPage_def Let_def
  proof (cases "delivery_start r", simp only: prod.case)
    fix d :: delivery_view and days
    have full: "only_reads u1 (snd (case delivery_options e days d u1 of (d1, u2) \<Rightarrow> case delivery_data e c days d1 u2 of (d2, u3) \<Rightarrow> (f d2, u3)))"
      for u1 f by (intro only_reads_bind options data) auto
    show "only_reads u (snd (case basePageData e r t_delivery_title ''delivery'' u of (data, u1) \<Rightarrow>
        if \<not> uc_store c then (render c ''delivery.html'' (data\<lparr>pg_subtitle := dy_window_label d @ t_delivery_subtitle, pg_db_unavailable := True,
            pg_delivery := Some d\<rparr>), u1)
        else (case delivery_options e days d u1 of (d1, u2) \<Rightarrow> case delivery_data e c days d1 u2 of (d2, u3) \<Rightarrow>
          (render c ''delivery.html'' (data\<lparr>pg_subtitle := dy_window_label d @ t_delivery_subtitle, pg_delivery := Some d2\<rparr>), u3))))"
      by (rule only_reads_bind) (auto intro: full)
  qed
qed

text \<open>The routes without a token check are pages; two of them call the API.\<close>

definition proxied_pages :: "(string \<times> string) list" where
  "proxied_pages = [(''GET'', ''/''), (''GET'', ''/audit'')]"

lemma unguarded_is_page: "list_all (\<lambda>(m, p, csrf, h). csrf \<or> ui_page h \<or> (m, p) \<in> set proxied_pages) (ui_table e api c)"
  by (simp add: ui_table_def proxied_pages_def keys_page.ui_page_axioms legacy_page.ui_page_axioms new_app_form.ui_page_axioms
      apps_page.ui_page_axioms detail_page.ui_page_axioms users_page.ui_page_axioms delivery_page.ui_page_axioms
      test_page.ui_page_axioms)



section \<open>Access\<close>

lemma Session_mw_cases:
  obtains (passed) val nonce expiry where "map_of (ur_cookies r) sessionCookieName = Some val"
      "fst (verify e val u) = Some (nonce, expiry)"
      "Session_mw e nxt r u = nxt (r\<lparr>ur_nonce := nonce, ur_expiry := expiry\<rparr>) (snd (verify e val u))"
  | (refused) "only_reads u (snd (Session_mw e nxt r u))"
proof -
  have reads: "only_reads u (snd (verify e val u))" for val
    by (auto simp: verify_def Let_def ui_now_eq split: option.split)
  show thesis
  proof (cases "map_of (ur_cookies r) sessionCookieName")
    case (Some val)
    obtain res u1 where v: "verify e val u = (res, u1)" by fastforce
    show thesis
    proof (cases res)
      case None
      with Some v reads [of val] show thesis by (intro refused) (simp add: Session_mw_def)
    next
      case ne: (Some ne)
      obtain nonce expiry where "ne = (nonce, expiry)" by (cases ne)
      with Some ne v show thesis by (intro passed [of val nonce expiry]) (simp_all add: Session_mw_def)
    qed
  qed (auto intro: refused simp: Session_mw_def)
qed

lemma verify_sm [simp]: "ui_sm (snd (verify e val u)) = ui_sm u" "w_db (ui_w (snd (verify e val u))) = w_db (ui_w u)"
  "w_tg (ui_w (snd (verify e val u))) = w_tg (ui_w u)" "w_tick (ui_w u) \<le> w_tick (ui_w (snd (verify e val u)))"
  by (auto simp: verify_def Let_def ui_now_eq split: option.splits)

text \<open>A request reaches a handler with a session, and with its token if the route asks for it, or it only reads.\<close>

lemma ui_serve_cases:
  assumes "list_all (\<lambda>(m, p, csrf, h). csrf \<or> ui_page h \<or> (m, p) \<in> set proxied_pages) table"
  obtains (served) m p csrf h params val nonce expiry where "(m, p, csrf, h) \<in> set table" "mat m p r = Some params"
      "matched_route mat (table_routes table) r = Some (m, p)"
      "map_of (ur_cookies r) sessionCookieName = Some val" "fst (verify e val u) = Some (nonce, expiry)"
      "if csrf then VerifyCSRF e (ui_sm u) (r\<lparr>ur_params := params, ur_nonce := nonce, ur_expiry := expiry\<rparr>)
       else (m, p) \<in> set proxied_pages"
      "ui_serve e mat table r u = h (r\<lparr>ur_params := params, ur_nonce := nonce, ur_expiry := expiry\<rparr>) (snd (verify e val u))"
  | (reads) "only_reads u (snd (ui_serve e mat table r u))"
  using assms
proof (induction table)
  case (Cons entry table)
  obtain m p csrf h where entry: "entry = (m, p, csrf, h)" by (cases entry) auto
  show thesis
  proof (cases "mat m p r")
    case None
    then have "matched_route mat (table_routes (entry # table)) r = matched_route mat (table_routes table) r"
      by (simp add: entry matched_route_def table_routes_def)
    with Cons None show thesis by (simp add: entry) blast
  next
    case (Some params)
    then have first: "matched_route mat (table_routes (entry # table)) r = Some (m, p)"
      by (simp add: entry matched_route_def table_routes_def)
    let ?r = "r\<lparr>ur_params := params\<rparr>" and ?h = "if csrf then RequireCSRF e h else h"
    show thesis
    proof (cases rule: Session_mw_cases [of ?r e u ?h])
      case (passed val nonce expiry)
      let ?r1 = "r\<lparr>ur_params := params, ur_nonce := nonce, ur_expiry := expiry\<rparr>" and ?u1 = "snd (verify e val u)"
      have seen: "only_reads u ?u1" by (auto simp: verify_def Let_def ui_now_eq split: option.split)
      show thesis
      proof (cases csrf)
        case True
        show thesis
        proof (cases "ur_form r \<noteq> None \<and> VerifyCSRF e (ui_sm u) ?r1")
          case ok: True
          show thesis
            by (rule Cons.prems(1) [of m p True h params val nonce expiry])
              (use passed ok True Some first in \<open>simp_all add: entry RequireCSRF_def\<close>)
        next
          case False
          with passed True Some seen show thesis by (intro Cons.prems(2)) (auto simp: entry RequireCSRF_def)
        qed
      next
        case False
        then consider "ui_page h" | "(m, p) \<in> set proxied_pages" using Cons.prems(3) entry by auto
        then show thesis
        proof cases
          case 1
          then have "only_reads ?u1 (snd (h ?r1 ?u1))" by (rule ui_page.reads)
          with passed False Some seen show thesis by (intro Cons.prems(2)) (auto simp: entry intro: only_reads_trans)
        next
          case 2
          show thesis
            by (rule Cons.prems(1) [of m p False h params val nonce expiry])
              (use passed False Some 2 first in \<open>simp_all add: entry\<close>)
        qed
      qed
    next
      case refused
      with Some show thesis by (intro Cons.prems(2)) (simp add: entry)
    qed
  qed
qed (auto intro: only_reads_refl)

lemma handleLoginPage_db [simp]:
  "w_db (ui_w (snd (handleLoginPage e c r u))) = w_db (ui_w u)" "w_tg (ui_w (snd (handleLoginPage e c r u))) = w_tg (ui_w u)"
  by (auto simp: handleLoginPage_def IssueCSRFCookie_def Let_def randomHex_def rand_read_def split: option.splits prod.splits)

lemma handleLoginSubmit_db [simp]:
  "w_db (ui_w (snd (handleLoginSubmit e c r u))) = w_db (ui_w u)" "w_tg (ui_w (snd (handleLoginSubmit e c r u))) = w_tg (ui_w u)"
  by (auto simp: handleLoginSubmit_def Issue_def ui_now_eq Let_def randomHex_def rand_read_def split: option.splits prod.splits)

lemma RequireCSRF_db:
  assumes "w_db (ui_w (snd (nxt r u))) = w_db (ui_w u)" "w_tg (ui_w (snd (nxt r u))) = w_tg (ui_w u)"
  shows "w_db (ui_w (snd (RequireCSRF e nxt r u))) = w_db (ui_w u)" "w_tg (ui_w (snd (RequireCSRF e nxt r u))) = w_tg (ui_w u)"
  using assms by (simp_all add: RequireCSRF_def)

lemma NewServer_arrival:
  "snd (NewServer e mat api c r u) = snd (ui_routes e mat api c (fst (ui_arrival e r u)) (snd (ui_arrival e r u)))"
  by (simp add: NewServer_def ui_arrival_def ui_RequestID_def securityHeaders_def new_uuid_def ui_do_def split: prod.split)

lemma ui_arrival_keeps [simp]:
  "ur_cookies (fst (ui_arrival e r u)) = ur_cookies r" "ur_form (fst (ui_arrival e r u)) = ur_form r"
  "only_reads u (snd (ui_arrival e r u))" "w_tick (ui_w (snd (ui_arrival e r u))) \<le> Suc (w_tick (ui_w u))"
  by (simp_all add: ui_arrival_def)

lemma NewServer_run:
  obtains r1 u1 where "snd (NewServer e mat api c r u) = snd (ui_routes e mat api c r1 u1)" "only_reads u u1"
    "r1 = r\<lparr>ur_nonce := [], ur_expiry := 0, ur_trace := ur_trace r1\<rparr>" "w_tick (ui_w u1) \<le> Suc (w_tick (ui_w u))"
  by (rule that [OF NewServer_arrival [of e mat api c r u]]) (simp_all add: ui_arrival_def)

lemma verify_accepts:
  "fst (verify e val u) = Some (nonce, expiry) \<Longrightarrow>
     time_unix (env_now e (w_tick (ui_w u))) \<le> time_unix expiry \<and> \<not> isRevoked nonce (ui_sm u)"
  by (auto simp: verify_def Let_def ui_now_eq split: if_splits option.splits)

text \<open>C5: Take a request to the UI that changes a table or sends to Telegram, and the route it is matched to (the
  first of the UI's routes that the router accepts). The request carries a session cookie that the UI
  accepts when the request arrives: signed, not expired by the clock of that moment, not revoked. And unless the route is
  \<^verbatim>\<open>GET /\<close> or \<^verbatim>\<open>GET /audit\<close>, the two pages that show what the API answers (the API writes audit rows when
  it is asked), the form carries the token that belongs to that session's nonce (or to the login page's cookie, for a
  session with an empty nonce, which the UI never issues). Without these no request has any effect, whatever the server
  behind the client does.\<close>

theorem ui_effects_need_session:
  assumes "NewServer e mat api c r u = (resp, u')" "w_db (ui_w u') \<noteq> w_db (ui_w u) \<or> w_tg (ui_w u') \<noteq> w_tg (ui_w u)"
  shows "\<exists>m p val nonce expiry.
    matched_route mat (ui_patterns e api c) (fst (ui_arrival e r u)) = Some (m, p) \<and>
    map_of (ur_cookies r) sessionCookieName = Some val \<and>
    fst (verify e val (snd (ui_arrival e r u))) = Some (nonce, expiry) \<and>
    time_unix (env_now e (w_tick (ui_w (snd (ui_arrival e r u))))) \<le> time_unix expiry \<and> \<not> isRevoked nonce (ui_sm u) \<and>
    ((m, p) = (''GET'', ''/'') \<or> (m, p) = (''GET'', ''/audit'') \<or>
     FormValue r ''csrf_token'' = CSRFToken e (ui_sm u) (if nonce \<noteq> [] then nonce else get_value (ur_cookies r) csrfCookieName))"
proof -
  define r1 u1 where "r1 = fst (ui_arrival e r u)" and "u1 = snd (ui_arrival e r u)"
  have run: "u' = snd (ui_routes e mat api c r1 u1)"
    using NewServer_arrival [of e mat api c r u] assms(1) by (simp add: r1_def u1_def)
  have kept: "ur_cookies r1 = ur_cookies r" "ur_form r1 = ur_form r" by (simp_all add: r1_def)
  note same = only_reads_fields [OF ui_arrival_keeps(3) [of u e r], folded u1_def]
  have effect: "w_db (ui_w u') \<noteq> w_db (ui_w u1) \<or> w_tg (ui_w u') \<noteq> w_tg (ui_w u1)" using assms(2) same by simp
  have served: "u' = snd (ui_serve e mat (ui_table e api c) r1 u1)"
    and no_login: "mat ''GET'' ''/login'' r1 = None" "mat ''POST'' ''/login'' r1 = None"
    using effect run RequireCSRF_db [of "handleLoginSubmit e c" r1 u1] by (auto simp: ui_routes_def split: if_splits)
  from unguarded_is_page [of e api c] show ?thesis
  proof (cases rule: ui_serve_cases [where mat = mat and r = r1 and e = e and u = u1])
    case (served m p csrf h params val nonce expiry)
    have "matched_route mat (ui_patterns e api c) r1 = Some (m, p)"
      using served(3) no_login by (simp add: matched_route_def ui_patterns_def)
    moreover have "(m, p) = (''GET'', ''/'') \<or> (m, p) = (''GET'', ''/audit'') \<or>
        FormValue r ''csrf_token'' = CSRFToken e (ui_sm u1) (if nonce \<noteq> [] then nonce else get_value (ur_cookies r) csrfCookieName)"
      using served(6) kept by (auto simp: VerifyCSRF_def Let_def csrfNonce_def FormValue_def proxied_pages_def split: if_splits)
    ultimately show ?thesis
      using served(4,5) verify_accepts [OF served(5)] same(2) kept(1) unfolding r1_def u1_def by metis
  next
    case reads
    with effect served only_reads_fields show ?thesis by metis
  qed
qed

definition demo_match :: ui_match where
  "demo_match m p r = (if m = ''POST'' \<and> p = ''/keys/{app}/{prefix}/label'' then Some [(''app'', ''ops''), (''prefix'', ''abcd'')] else None)"

definition demo_label_ui :: ui_state where
  "demo_label_ui = demo_key_ui\<lparr>ui_w := empty_world\<lparr>w_db := demo_app_db\<lparr>d_keys := map (\<lambda>k. k\<lparr>key_prefix := ''abcd''\<rparr>) (d_keys demo_app_db)\<rparr>\<rparr>\<rparr>"

definition demo_label_request :: ui_request where
  "demo_label_request = demo_ui_request\<lparr>ur_trace_header := ''t1'',
     ur_cookies := [(sessionCookieName, sign demo_env (ui_sm demo_label_ui) 1800000000 ''ab'')],
     ur_form := Some [(''csrf_token'', CSRFToken demo_env (ui_sm demo_label_ui) ''ab''), (''label'', ''x'')]\<rparr>"

theorem ui_effects_need_session_witness:
  "\<exists>m p val nonce expiry.
    matched_route demo_match (ui_patterns demo_env (\<lambda>r w. (None, w)) demo_ui_config)
      (fst (ui_arrival demo_env demo_label_request demo_label_ui)) = Some (m, p) \<and>
    map_of (ur_cookies demo_label_request) sessionCookieName = Some val \<and>
    fst (verify demo_env val (snd (ui_arrival demo_env demo_label_request demo_label_ui))) = Some (nonce, expiry) \<and>
    time_unix (env_now demo_env (w_tick (ui_w (snd (ui_arrival demo_env demo_label_request demo_label_ui))))) \<le> time_unix expiry \<and>
    \<not> isRevoked nonce (ui_sm demo_label_ui) \<and>
    ((m, p) = (''GET'', ''/'') \<or> (m, p) = (''GET'', ''/audit'') \<or>
     FormValue demo_label_request ''csrf_token'' = CSRFToken demo_env (ui_sm demo_label_ui)
       (if nonce \<noteq> [] then nonce else get_value (ur_cookies demo_label_request) csrfCookieName))"
proof -
  let ?run = "NewServer demo_env demo_match (\<lambda>r w. (None, w)) demo_ui_config demo_label_request demo_label_ui"
  let ?r = "\<lambda>ps n x. demo_label_request\<lparr>ur_trace := ''t1'', ur_params := ps, ur_nonce := n, ur_expiry := x\<rparr>"
  have token: "CSRFToken demo_env sm n \<noteq> []" for sm n
    proof -
    have "length (CSRFToken demo_env sm n) = 64" by (simp add: CSRFToken_def signature_def hmac_sha256_def Let_def)
    then show ?thesis by force
  qed
  have ok: "verify demo_env (sign demo_env (ui_sm demo_label_ui) 1800000000 ''ab'') demo_label_ui =
      (Some (''ab'', unix_time 1800000000), demo_label_ui\<lparr>ui_w := tick (ui_w demo_label_ui)\<rparr>)"
    by (rule verify_signed) (simp_all add: demo_label_ui_def demo_key_ui_def empty_world_def)
  have csrf: "VerifyCSRF demo_env (ui_sm demo_label_ui) (?r ps ''ab'' x)" for ps x
    by (simp add: VerifyCSRF_def csrfNonce_def FormValue_def get_value_def demo_label_request_def token)
  have "d_keys (w_db (ui_w (snd (handleKeyLabel demo_env demo_ui_config (?r [(''app'', ''ops''), (''prefix'', ''abcd'')] ''ab'' x)
      (demo_label_ui\<lparr>ui_w := tick (ui_w demo_label_ui)\<rparr>))))) \<noteq> d_keys (w_db (ui_w demo_label_ui))" for x
  proof -
    have "TrimSpace ''x'' = ''x''" "rune_count ''x'' \<le> 100" by code_simp+
    then show ?thesis
      by (simp add: handleKeyLabel_def Let_def demo_label_request_def get_value_def id_head_char_def id_tail_char_def keyPrefixPattern_def
        FormValue_def demo_ui_config_def ui_do_def UpdateKeyLabel_def update_keys_def db_exec_def demo_label_ui_def demo_key_ui_def demo_app_db_def
        live_key_def keyLabelMaxLen_def)
  qed
  then have "d_keys (w_db (ui_w (snd ?run))) \<noteq> d_keys (w_db (ui_w demo_label_ui))"
    using ok csrf
    by (simp add: NewServer_def ui_RequestID_def securityHeaders_def ui_routes_def demo_match_def ui_table_def Session_mw_def
        RequireCSRF_def demo_label_request_def case_prod_beta)
  then show ?thesis using ui_effects_need_session [OF surjective_pairing, of demo_env demo_match "\<lambda>r w. (None, w)" demo_ui_config demo_label_request demo_label_ui] by metis
qed

end
