(* ===== verification/Ui_Invariant.thy ===== *)
theory Ui_Invariant
  imports Ui_Server
begin

text \<open>
  The admin UI in front of the API: with the API's router as the server behind the client, over a network that loses requests
  and answers, every request to the UI keeps the constraints of the schema, the hash chain and the past of the audit log. Each
  handler fulfils the contract \<open>ui_action\<close>.
\<close>

section \<open>The server behind the client\<close>

text \<open>The network between the UI and the API: a request arrives and is answered, does not arrive, or is
  processed and its answer is lost.\<close>

datatype net_outcome = Answered | Unsent | Unanswered

definition server_api :: "env \<Rightarrow> chi \<Rightarrow> (string \<Rightarrow> policy) option \<Rightarrow> (nat \<Rightarrow> net_outcome) \<Rightarrow> api" where
  "server_api e ch rl net r w =
     (case net (w_tick w) of
        Unsent \<Rightarrow> (None, w)
      | Unanswered \<Rightarrow> (None, snd (NewRouter e ch rl r w))
      | Answered \<Rightarrow> (case NewRouter e ch rl r w of (resp, w1) \<Rightarrow> (Some resp, w1)))"


section \<open>What every page keeps\<close>

text \<open>The invariants of the shared state over a step: the constraints of the schema, the hash chain, the past of the log.\<close>

definition intact :: "env \<Rightarrow> world \<Rightarrow> world \<Rightarrow> bool" where
  "intact e w w' = (db_ok (w_db w) \<and> chain_ok e (w_db w) \<longrightarrow>
     db_ok (w_db w') \<and> chain_ok e (w_db w') \<and> prefix (d_audit (w_db w)) (d_audit (w_db w')))"

lemma intact_refl [simp]: "w_db w' = w_db w \<Longrightarrow> intact e w w'"
  by (simp add: intact_def)

lemma intact_trans [trans]: "intact e w w' \<Longrightarrow> intact e w' w'' \<Longrightarrow> intact e w w''"
  unfolding intact_def by (auto intro: prefix_order.order_trans)

lemma intact_Write [simp]: "intact e w (snd (Write e ev w))"
  using pgw.write_appends [of e ev w] Write_chain_ok [of w e ev] Write_db_ok [of w e ev]
  by (auto simp: intact_def prefix_def db_ok_def)

lemma intact_router [simp]: "intact e w (snd (NewRouter e ch rl r w))"
  using NewRouter_keeps [of w e ch rl r] by (simp add: intact_def)

lemma intact_api [simp]: "intact e w (snd (server_api e ch rl net r w))"
  using intact_router [of e w ch rl r] by (auto simp: server_api_def simp del: intact_router split: net_outcome.split prod.split)

lemma intact_only_reads: "only_reads u u' \<Longrightarrow> intact e (ui_w u) (ui_w u')"
  by (simp add: only_reads_fields)

lemma intact_tables:
  assumes "db_ok (w_db w) \<Longrightarrow> db_ok (w_db w')" "d_audit (w_db w') = d_audit (w_db w)"
  shows "intact e w w'"
  using assms by (simp add: intact_def chain_ok_def)

text \<open>The contract of every handler; a page fulfils it.\<close>

locale ui_action =
  fixes e :: env and h :: ui_handler
  assumes action_intact: "intact e (ui_w u) (ui_w (snd (h r u)))"

sublocale ui_page \<subseteq> page_action: ui_action e h for e
  by unfold_locales (rule intact_only_reads [OF reads])

lemma intact_bind:
  "intact e (ui_w u) (ui_w (snd p)) \<Longrightarrow> (\<And>x u1. p = (x, u1) \<Longrightarrow> intact e (ui_w u1) (ui_w (snd (f x u1)))) \<Longrightarrow>
     intact e (ui_w u) (ui_w (snd (case p of (x, u1) \<Rightarrow> f x u1)))"
  by (cases p) (auto intro: intact_trans)

lemma intact_errors [simp]:
  "intact e (ui_w u) (ui_w (snd (renderAppDetailError e c r app msg u)))" "intact e (ui_w u) (ui_w (snd (renderUsersError e c r tg msg u)))"
  "intact e (ui_w u) (ui_w (snd (renderKeysError e c r msg u)))" "intact e (ui_w u) (ui_w (snd (renderIssueError e c r msg app pre label u)))"
  "intact e (ui_w u) (ui_w (snd (basePageData e r title active u)))"
  by (rule intact_only_reads; simp)+

lemma intact_doAdmin [simp]: "intact e (ui_w u) (ui_w (snd (doAdmin (server_api e ch rl net) c trace m path body u)))"
  unfolding doAdmin_def by (rule intact_bind) (auto split: option.split)

lemmas client_defs = client_CreateApp_def client_PatchApp_def client_DeleteApp_def client_PurgeApp_def
  client_PatchUserGrade_def client_Subscribe_def client_Unsubscribe_def

lemma intact_send_patch [simp]: "intact e (ui_w u) (ui_w (snd (send_patch e (server_api e ch rl net) c r app req u)))"
  unfolding send_patch_def client_defs by (rule intact_bind) (auto split: option.split)

lemma intact_user_action:
  assumes "\<And>tg u. intact e (ui_w u) (ui_w (snd (call tg u)))"
  shows "intact e (ui_w u) (ui_w (snd (user_action e c call saved r u)))"
proof -
  have "intact e (ui_w u) (ui_w (snd (case call tg u of (Some err, u1) \<Rightarrow> renderUsersError e c r i (friendlyAPIError err) u1
      | (None, u1) \<Rightarrow> (x, u1))))" for tg i x
    by (rule intact_bind) (auto simp: assms split: option.split)
  then show ?thesis by (simp add: user_action_def Let_def split: option.split)
qed

interpretation create_action: ui_action e "handleAppCreate e (server_api e ch rl net) c" for e ch rl net c
proof
  fix r u
  have page: "intact e (ui_w u1) (ui_w (snd (case basePageData e r title act u1 of (data, u2) \<Rightarrow> (f data, u2))))" for u1 title act f
    by (rule intact_bind) auto
  show "intact e (ui_w u) (ui_w (snd (handleAppCreate e (server_api e ch rl net) c r u)))"
    unfolding handleAppCreate_def Let_def client_defs by (rule intact_bind) (auto split: option.split intro: page)
qed

interpretation patch_action: ui_action e "handleAppPatch e (server_api e ch rl net) c" for e ch rl net c
proof
  fix r u
  have diff: "intact e (ui_w u) (ui_w (snd (case ui_do (GetApp e app) u of
      (Inl _, u1) \<Rightarrow> renderAppDetailError e c r app msg u1
    | (Inr a, u1) \<Rightarrow> (case f a of (add, remove) \<Rightarrow> send_patch e (server_api e ch rl net) c r app (g add remove) u1))))" for app msg f g
    by (rule intact_bind) (auto split: sum.split prod.split)
  show "intact e (ui_w u) (ui_w (snd (handleAppPatch e (server_api e ch rl net) c r u)))"
    unfolding handleAppPatch_def Let_def by (auto intro: diff)
qed

interpretation delete_action: ui_action e "handleAppDelete e (server_api e ch rl net) c" for e ch rl net c
proof
  fix r u
  have "intact e (ui_w u) (ui_w (snd (case doAdmin (server_api e ch rl net) c t m p b u of
      (Some err, u1) \<Rightarrow> renderAppDetailError e c r app (friendlyAPIError err) u1 | (None, u1) \<Rightarrow> (x, u1))))" for t m p b app x
    by (rule intact_bind) (auto split: option.split)
  then show "intact e (ui_w u) (ui_w (snd (handleAppDelete e (server_api e ch rl net) c r u)))"
    by (simp add: handleAppDelete_def Let_def client_defs)
qed

interpretation deactivate_action: ui_action e "handleAppDeactivate e (server_api e ch rl net) c" for e ch rl net c
proof
  fix r u
  show "intact e (ui_w u) (ui_w (snd (handleAppDeactivate e (server_api e ch rl net) c r u)))"
    unfolding handleAppDeactivate_def Let_def client_defs by (rule intact_bind) (auto split: option.split)
qed

interpretation grade_action: ui_action e "handleUserGrade e (server_api e ch rl net) c" for e ch rl net c
  by unfold_locales (simp add: handleUserGrade_def client_defs intact_user_action)

interpretation subscribe_action: ui_action e "handleUserSubscribe e (server_api e ch rl net) c" for e ch rl net c
  by unfold_locales (simp add: handleUserSubscribe_def client_defs intact_user_action)

interpretation unsubscribe_action: ui_action e "handleUserUnsubscribe e (server_api e ch rl net) c" for e ch rl net c
  by unfold_locales (simp add: handleUserUnsubscribe_def client_defs intact_user_action)

interpretation logout_action: ui_action e "handleLogout e" for e
  by unfold_locales (simp add: handleLogout_def Revoke_def ui_now_eq Let_def)

lemma insert_key_audit: "insert_key app pre hash label t d = Inr d' \<Longrightarrow> d_audit d' = d_audit d"
  by (auto simp: insert_key_def split: if_splits)

lemma intact_IssueKey [simp]: "intact e w (snd (IssueKey e app pre hash label w))"
proof (cases rule: IssueKey_outcomes [of e app pre hash label w])
  case issued
  then have "d_audit (w_db (snd (IssueKey e app pre hash label w))) = d_audit (w_db w)"
    by (metis insert_key_audit)
  with issued keys_ok_insert show ?thesis by (intro intact_tables) blast+
qed simp

lemma intact_update_keys [simp]:
  "intact e w (snd (RevokeKey e app pre w))" "intact e w (snd (UpdateKeyLabel e app pre label w))"
  unfolding RevokeKey_def UpdateKeyLabel_def by (intro intact_tables update_keys_ok; simp add: update_keys_db)+

lemma intact_writeKeyAudit [simp]: "intact e (ui_w u) (ui_w (writeKeyAudit e c r stage app pre u))"
  by (simp add: writeKeyAudit_def)

interpretation revoke_action: ui_action e "handleKeyRevoke e c" for e c
proof
  fix r u
  have "intact e (ui_w u) (ui_w (snd (case ui_do (RevokeKey e app pre) u of
      (Inl err, u1) \<Rightarrow> renderKeysError e c r (f err) u1 | (Inr _, u1) \<Rightarrow> (x, writeKeyAudit e c r stage app pre u1))))" for app pre f x stage
    by (rule intact_bind) (auto split: sum.split)
  then show "intact e (ui_w u) (ui_w (snd (handleKeyRevoke e c r u)))" by (simp add: handleKeyRevoke_def Let_def)
qed

interpretation label_action: ui_action e "handleKeyLabel e c" for e c
proof
  fix r u
  have "intact e (ui_w u) (ui_w (snd (case ui_do (UpdateKeyLabel e app pre label) u of
      (Inl err, u1) \<Rightarrow> renderKeysError e c r (f err) u1 | (Inr _, u1) \<Rightarrow> (x, u1))))" for app pre label f x
    by (rule intact_bind) (auto split: sum.split)
  then show "intact e (ui_w u) (ui_w (snd (handleKeyLabel e c r u)))" by (simp add: handleKeyLabel_def Let_def)
qed

interpretation issue_action: ui_action e "handleKeyIssue e c" for e c
proof
  fix r u
  have page: "intact e (ui_w v) (ui_w (snd (case basePageData e r title act v of (data, u5) \<Rightarrow> (f data, u5))))" for v title act f
    by (rule intact_bind) auto
  have shown: "intact e (ui_w u3) (ui_w (snd (case basePageData e r title act (writeKeyAudit e c r stage app pre u3) of (data, u5) \<Rightarrow> (f data, u5))))"
    for u3 stage app pre title act f
    by (rule intact_trans [OF intact_writeKeyAudit page])
  have issued: "intact e (ui_w u2) (ui_w (snd (case ui_do (IssueKey e app pre hash label) u2 of
      (Inl err, u3) \<Rightarrow> renderIssueError e c r (g err) app pre label u3
    | (Inr _, u3) \<Rightarrow> if b then (x, writeKeyAudit e c r stage app pre u3)
        else (case basePageData e r title act (writeKeyAudit e c r stage app pre u3) of (data, u5) \<Rightarrow> (f data, u5)))))"
    for u2 app pre hash label g b x stage title act f
    by (rule intact_bind) (auto split: sum.split intro: shown)
  have hashed: "intact e (ui_w u1) (ui_w (snd (case ui_do (HashAPIKey e plain) u1 of
      (Inl _, u2) \<Rightarrow> (y, u2)
    | (Inr hash, u2) \<Rightarrow> (case ui_do (IssueKey e app pre hash label) u2 of
      (Inl err, u3) \<Rightarrow> renderIssueError e c r (g err) app pre label u3
    | (Inr _, u3) \<Rightarrow> if b then (x, writeKeyAudit e c r stage app pre u3)
        else (case basePageData e r title act (writeKeyAudit e c r stage app pre u3) of (data, u5) \<Rightarrow> (f data, u5))))))"
    for u1 plain y app pre label g b x stage title act f
  proof (rule intact_bind)
    have "w_db (snd (HashAPIKey e plain (ui_w u1))) = w_db (ui_w u1)"
      by (simp add: HashAPIKey_def rand_read_def split: option.split)
    then show "intact e (ui_w u1) (ui_w (snd (ui_do (HashAPIKey e plain) u1)))" by simp
  qed (auto split: sum.split intro: issued)
  have rand: "intact e (ui_w u) (ui_w (snd (randomHex e n u)))" for n
    by (auto simp: randomHex_def rand_read_def split: option.split)
  have drawn: "intact e (ui_w u) (ui_w (snd (case randomHex e n u of
      (None, u1) \<Rightarrow> (z, u1)
    | (Some secret, u1) \<Rightarrow> (case ui_do (HashAPIKey e (k secret)) u1 of
      (Inl _, u2) \<Rightarrow> (y, u2)
    | (Inr hash, u2) \<Rightarrow> (case ui_do (IssueKey e app pre hash label) u2 of
      (Inl err, u3) \<Rightarrow> renderIssueError e c r (g err) app pre label u3
    | (Inr _, u3) \<Rightarrow> if b then (x, writeKeyAudit e c r stage app pre u3)
        else (case basePageData e r title act (writeKeyAudit e c r stage app pre u3) of (data, u5) \<Rightarrow> (f secret data, u5)))))))"
    for n z k y app pre label g b x stage title act f
    by (rule intact_bind [OF rand]) (auto split: option.split intro: hashed)
  show "intact e (ui_w u) (ui_w (snd (handleKeyIssue e c r u)))"
    unfolding handleKeyIssue_def Let_def by (simp add: drawn del: renderKeysError_reads)
qed

lemma intact_api_do [simp]: "intact e (ui_w u) (ui_w (snd (ui_do (server_api e ch rl net r) u)))"
  by simp

lemma intact_bind_reads:
  "only_reads u (snd p) \<Longrightarrow> (\<And>x u1. p = (x, u1) \<Longrightarrow> intact e (ui_w u1) (ui_w (snd (f x u1)))) \<Longrightarrow>
     intact e (ui_w u) (ui_w (snd (case p of (x, u1) \<Rightarrow> f x u1)))"
  by (rule intact_bind [OF intact_only_reads])

lemma auditPageData_intact: "intact e (ui_w u) (ui_w (snd (auditPageData e (server_api e ch rl net) c r f u)))"
proof -
  have search: "intact e (ui_w u1) (ui_w (snd (client_SearchAudit (server_api e ch rl net) c trace p u1)))" for u1 trace p
    unfolding client_SearchAudit_def by (rule intact_bind) (auto split: option.split)
  have shown: "intact e (ui_w u1) (ui_w (snd (case client_SearchAudit (server_api e ch rl net) c trace p u1 of
      (Inl err, u3) \<Rightarrow> (g err, u3) | (Inr rows, u3) \<Rightarrow> (k rows, u3))))" for u1 trace p g k
    by (rule intact_bind [OF search]) (auto split: sum.split)
  have options: "only_reads u1 (snd (audit_app_options e c f u1))" for u1
    unfolding audit_app_options_def Let_def by (auto intro!: only_reads_bind split: sum.split)
  show ?thesis
    unfolding auditPageData_def Let_def by (intro intact_bind_reads shown options) auto
qed

interpretation audit_action: ui_action e "handleAuditPage e (server_api e ch rl net) c" for e ch rl net c
proof
  fix r u
  have page: "intact e (ui_w u1) (ui_w (snd (case auditPageData e (server_api e ch rl net) c r f u1 of (data, u2) \<Rightarrow> (g data, u2))))" for u1 f g
    by (rule intact_bind [OF auditPageData_intact]) auto
  have "only_reads u (snd (if b then (case ui_now e u of (now, u1) \<Rightarrow> (g now, u1)) else (f, u)))" for b g f
    by (auto simp: ui_now_eq)
  from intact_bind_reads [OF this page] show "intact e (ui_w u) (ui_w (snd (handleAuditPage e (server_api e ch rl net) c r u)))"
    unfolding handleAuditPage_def .
qed

interpretation verify_action: ui_action e "handleAuditVerify e (server_api e ch rl net) c" for e ch rl net c
proof
  fix r u
  have "intact e (ui_w (u\<lparr>ui_w := tick (ui_w u)\<rparr>)) (ui_w (snd (handleAuditVerify e (server_api e ch rl net) c r u)))"
    using auditPageData_intact [of e "u\<lparr>ui_w := tick (ui_w u)\<rparr>" ch rl net c r] by (simp add: intact_def handleAuditVerify_db)
  then show "intact e (ui_w u) (ui_w (snd (handleAuditVerify e (server_api e ch rl net) c r u)))" by (simp add: intact_def)
qed

interpretation test_action: ui_action e "handleTestSendSubmit e (server_api e ch rl net) c" for e ch rl net c
proof
  fix r u
  have proxy: "intact e (ui_w u1) (ui_w (snd (proxyTestSend (server_api e ch rl net) c r key app n msg u1)))" for u1 key app n msg
    unfolding proxyTestSend_def by (rule intact_bind) (auto split: option.split prod.split)
  have sent: "intact e (ui_w u1) (ui_w (snd (case proxyTestSend (server_api e ch rl net) c r key app n msg u1 of
      (None, u2) \<Rightarrow> (x, u2) | (Some result, u2) \<Rightarrow> (f result, u2))))" for u1 key app n msg x f
    by (rule intact_bind [OF proxy]) (auto split: option.split)
  have "only_reads u (snd (testSendPageData e c r u))"
    unfolding testSendPageData_def Let_def by (rule only_reads_bind) auto
  then show "intact e (ui_w u) (ui_w (snd (handleTestSendSubmit e (server_api e ch rl net) c r u)))"
    unfolding handleTestSendSubmit_def Let_def by (rule intact_bind_reads) (auto intro: sent)
qed

interpretation dashboard_action: ui_action e "handleDashboard e (server_api e ch rl net) c" for e ch rl net c
proof
  fix r u
  have health: "intact e (ui_w u1) (ui_w (snd (client_Health (server_api e ch rl net) c trace u1)))" for u1 trace
    unfolding client_Health_def by (rule intact_bind) (auto split: option.split)
  have strip: "only_reads u1 (snd (dash_strip e v u1))" for v u1
    unfolding dash_strip_def by (rule only_reads_bind) (auto split: sum.split intro: read_section_reads)
  have sections: "only_reads u1 (snd (dash_sections e u1))" for u1
    unfolding dash_sections_def by (intro only_reads_bind read_section_reads strip) auto
  have chart: "only_reads u1 (snd (dash_chart e cr data u1))" for cr data u1
    unfolding dash_chart_def by (rule only_reads_bind [OF RequestBuckets_reads]) (auto split: sum.split intro: only_reads_bind)
  have full: "only_reads u3 (snd (case dash_sections e u3 of (dash, u4) \<Rightarrow> case dash_chart e cr (g dash) u4 of (data, u5) \<Rightarrow>
      case read_section (DashboardStats e) good bad data u5 of (data, u6) \<Rightarrow> (k data, u6)))" for u3 cr g good bad k
    by (intro only_reads_bind sections chart read_section_reads) auto
  have rest: "intact e (ui_w u2) (ui_w (snd (case ui_now e u2 of (now, u3) \<Rightarrow>
      if b then (x now, u3) else (case dash_sections e u3 of (dash, u4) \<Rightarrow> case dash_chart e cr (g now dash) u4 of (data, u5) \<Rightarrow>
      case read_section (DashboardStats e) good bad data u5 of (data, u6) \<Rightarrow> (k data, u6)))))" for u2 b x cr g good bad k
    by (rule intact_only_reads, rule only_reads_bind) (auto intro: full)
  show "intact e (ui_w u) (ui_w (snd (handleDashboard e (server_api e ch rl net) c r u)))"
    unfolding handleDashboard_def Let_def by (rule intact_bind_reads, simp, rule intact_bind [OF health rest])
qed

lemma ui_table_intact: "(m, p, csrf, h) \<in> set (ui_table e (server_api e ch rl net) c) \<Longrightarrow> ui_action e h"
  unfolding ui_table_def set_simps insert_iff prod.inject empty_iff
  by (elim disjE conjE; simp only:; rule logout_action.ui_action_axioms apps_page.page_action.ui_action_axioms
      new_app_form.page_action.ui_action_axioms create_action.ui_action_axioms detail_page.page_action.ui_action_axioms
      patch_action.ui_action_axioms deactivate_action.ui_action_axioms delete_action.ui_action_axioms
      keys_page.page_action.ui_action_axioms issue_action.ui_action_axioms revoke_action.ui_action_axioms
      label_action.ui_action_axioms legacy_page.page_action.ui_action_axioms users_page.page_action.ui_action_axioms
      delivery_page.page_action.ui_action_axioms test_page.page_action.ui_action_axioms dashboard_action.ui_action_axioms
      audit_action.ui_action_axioms verify_action.ui_action_axioms test_action.ui_action_axioms
      grade_action.ui_action_axioms subscribe_action.ui_action_axioms unsubscribe_action.ui_action_axioms)

lemma NewServer_intact: "intact e (ui_w u) (ui_w (snd (NewServer e mat (server_api e ch rl net) c r u)))"
proof -
  let ?api = "server_api e ch rl net"
  obtain r1 u1 where run: "snd (NewServer e mat ?api c r u) = snd (ui_routes e mat ?api c r1 u1)" "only_reads u u1"
    by (rule NewServer_run [of e mat ?api c r u])
  have "intact e (ui_w u1) (ui_w (snd (ui_serve e mat (ui_table e ?api c) r1 u1)))"
    using unguarded_is_page [of e ?api c]
  proof (cases rule: ui_serve_cases [where mat = mat and r = r1 and e = e and u = u1])
    case (served m p csrf h params val nonce expiry)
    let ?u2 = "snd (verify e val u1)"
    have "intact e (ui_w u1) (ui_w ?u2)" by simp
    also have "intact e (ui_w ?u2) (ui_w (snd (ui_serve e mat (ui_table e ?api c) r1 u1)))"
      unfolding served(7) by (rule ui_action.action_intact [OF ui_table_intact [OF served(1)]])
    finally show ?thesis .
  qed (rule intact_only_reads)
  moreover have "intact e (ui_w u1) (ui_w (snd (RequireCSRF e (handleLoginSubmit e c) r1 u1)))"
    using RequireCSRF_db [of "handleLoginSubmit e c" r1 u1] by simp
  ultimately have "intact e (ui_w u1) (ui_w (snd (ui_routes e mat ?api c r1 u1)))" by (simp add: ui_routes_def)
  with run intact_only_reads [OF run(2)] show ?thesis by (metis intact_trans)
qed

end
