(* ===== verification/Api_Contract.thy ===== *)
theory Api_Contract
  imports Ui_Invariant
begin

text \<open>
  The types of the API's answers: which status and which JSON object each route answers with, and what the client of the admin UI
  (\<^verbatim>\<open>src/internal/adminui/apiclient\<close>) may rely on when it decodes them. The handlers write their answers in many places; the
  typing relation says for every route what they have in common.
\<close>

section \<open>Types of answers\<close>

text \<open>A refusal is a code in a JSON object under one of seven statuses.\<close>

definition refused :: "response \<Rightarrow> bool" where
  "refused resp = (case rs_reply resp of
     J_error code \<Rightarrow> code \<noteq> [] \<and> rs_status resp \<in> {400, 401, 403, 404, 409, 429, 500}
   | _ \<Rightarrow> False)"

text \<open>What a route answers with when it succeeds.\<close>

inductive answers :: "string \<Rightarrow> string \<Rightarrow> int \<Rightarrow> reply \<Rightarrow> bool" where
  created: "appIDRegex i \<Longrightarrow> answers ''POST'' ''/apps'' 201 (J_fields [(''id'', JStr i)])"
| patched: "answers ''PATCH'' ''/apps/{id}'' 200 (J_fields [(''id'', JStr i), (''updated'', JBool True)])"
| deactivated: "answers ''DELETE'' ''/apps/{id}'' 200 (J_fields [(''id'', JStr i), (''active'', JBool False)])"
| purged: "answers ''DELETE'' ''/apps/{id}/purge'' 200 (J_fields [(''id'', JStr i), (''purged'', JBool True)])"
| graded: "g \<in> set validGrades \<Longrightarrow>
    answers ''PATCH'' ''/users/{telegram_id}'' 200 (J_fields [(''telegram_id'', JInt t), (''grade'', JStr g)])"
| subscribed: "answers ''POST'' ''/users/{telegram_id}/subscriptions/{app_id}'' 200
    (J_fields [(''telegram_id'', JInt t), (''app_id'', JStr a), (''subscribed'', JBool True)])"
| unsubscribed: "answers ''DELETE'' ''/users/{telegram_id}/subscriptions/{app_id}'' 200
    (J_fields [(''telegram_id'', JInt t), (''app_id'', JStr a), (''subscribed'', JBool False)])"
| found: "0 < limit \<Longrightarrow> limit \<le> 500 \<Longrightarrow> int (length rows) \<le> limit \<Longrightarrow> answers ''GET'' ''/audit/search'' 200 (J_audit rows limit)"
| dispatched: "p \<in> {''/messages/direct'', ''/messages/topic'', ''/messages/broadcast'', ''/messages/direct-dm''} \<Longrightarrow>
    ds_delivered d + ds_failed d + ds_skipped d = length (ds_recipients d) \<Longrightarrow> answers ''POST'' p 200 (J_dispatch d)"

inductive_cases answersE: "answers m p s v"

definition typed :: "string \<Rightarrow> string \<Rightarrow> response \<Rightarrow> bool" where
  "typed m p resp = (refused resp \<or> answers m p (rs_status resp) (rs_reply resp))"

lemma answers_ok: "answers m p s v \<Longrightarrow> s \<in> {200, 201} \<and> (\<forall>code. v \<noteq> J_error code)"
  by (erule answersE) simp_all


section \<open>The handlers\<close>

lemma refused_writeError [simp]:
  "refused (writeError s code) = (code \<noteq> [] \<and> s \<in> {400, 401, 403, 404, 409, 429, 500})"
  "refused (httpError s code) = (code \<noteq> [] \<and> s \<in> {400, 401, 403, 404, 409, 429, 500})"
  by (simp_all add: refused_def writeError_def writeJSON_def httpError_def)

lemma typed_writeError: "code \<noteq> [] \<Longrightarrow> s \<in> {400, 401, 403, 404, 409, 429, 500} \<Longrightarrow> typed m p (writeError s code)"
  by (simp add: typed_def)

lemma typed_flow_deny:
  "code \<noteq> [] \<Longrightarrow> s \<in> {400, 401, 403, 404, 409, 429, 500} \<Longrightarrow> typed m p (fst (flow_deny e base code s w))"
  by (simp add: flow_deny_def typed_def split: prod.split)

lemma typed_writeJSON: "answers m p s v \<Longrightarrow> typed m p (writeJSON s v)"
  by (simp add: typed_def writeJSON_def)

lemma grant_fault: "validateCapabilityGrant cs = Some (code, s) \<Longrightarrow> code \<noteq> [] \<and> s \<in> {400, 403}"
  by (induction cs rule: validateCapabilityGrant.induct) (auto split: if_splits)

lemma create_fault_typed: "create_fault req = Some (code, s) \<Longrightarrow> code \<noteq> [] \<and> s \<in> {400, 403}"
  using grant_fault [of "ca_capabilities req"] by (auto simp: create_fault_def split: if_splits)

lemma patch_fault_typed: "patch_fault req = Some (code, s) \<Longrightarrow> code \<noteq> [] \<and> s \<in> {400, 403}"
  using grant_fault [of "pa_add_capabilities req"] by (auto simp: patch_fault_def split: if_splits)

lemma create_fault_id: "create_fault req = None \<Longrightarrow> appIDRegex (ca_id req)"
  by (simp add: create_fault_def split: if_splits)

lemmas typed_rules = typed_flow_deny typed_writeJSON typed_writeError

lemma Create_typed: "typed ''POST'' ''/apps'' (fst (Create e r w))"
  unfolding Create_def Let_def
  by (auto split: prod.split sum.split option.split body.split dest: create_fault_typed create_fault_id
      intro!: typed_rules answers.intros)

lemma Patch_app_typed: "typed ''PATCH'' ''/apps/{id}'' (fst (Patch_app e r w))"
  unfolding Patch_app_def Let_def
  by (auto split: prod.split sum.split option.split body.split bool.split dest: patch_fault_typed intro!: typed_rules answers.intros)

lemma locked_change_typed:
  "answers m p 200 answer \<Longrightarrow> typed m p (fst (locked_change e r s dets answer w))"
  unfolding locked_change_def Let_def
  by (auto split: prod.split sum.split intro!: typed_rules)

lemma Delete_typed: "typed ''DELETE'' ''/apps/{id}'' (fst (Delete e r w))"
  unfolding Delete_def Let_def by (intro locked_change_typed answers.intros)

lemma Purge_typed: "typed ''DELETE'' ''/apps/{id}/purge'' (fst (Purge e r w))"
  unfolding Purge_def Let_def by (intro locked_change_typed answers.intros)

lemma Patch_user_typed: "typed ''PATCH'' ''/users/{telegram_id}'' (fst (Patch_user e r w))"
  unfolding Patch_user_def Let_def
  by (auto split: prod.split sum.split option.split body.split intro!: typed_rules answers.intros)

lemma Subscribe_typed: "typed ''POST'' ''/users/{telegram_id}/subscriptions/{app_id}'' (fst (Subscribe e r w))"
  unfolding Subscribe_def Let_def
  by (auto split: prod.split sum.split option.split bool.split intro!: typed_rules answers.intros)

lemma Unsubscribe_typed: "typed ''DELETE'' ''/users/{telegram_id}/subscriptions/{app_id}'' (fst (Unsubscribe e r w))"
  unfolding Unsubscribe_def Let_def
  by (auto split: prod.split sum.split option.split intro!: typed_rules answers.intros)

lemma parse_filter_typed: "parse_filter q = Inl code \<Longrightarrow> code \<noteq> []"
  by (auto simp: parse_filter_def Let_def split: option.splits if_splits)

lemma parse_filter_limit:
  assumes "parse_filter q = Inr f"
  shows "0 < af_limit f \<and> af_limit f \<le> 500"
proof -
  have "optional (get_value q ''limit'') 50 parse_limit = Some (af_limit f)"
    using assms by (auto simp: parse_filter_def Let_def split: option.splits if_splits)
  then show ?thesis by (auto simp: optional_def parse_limit_def split: option.splits if_splits)
qed

lemma Search_typed: "typed ''GET'' ''/audit/search'' (fst (Search e r w))"
proof -
  have rows: "answers ''GET'' ''/audit/search'' 200 (J_audit (map scan_audit_row rows) (af_limit f))"
    if "parse_filter (hr_query r) = Inr f" "db_query e (\<lambda>t d. search_rows f d) w2 = (Inr rows, w3)" for f rows w2 w3
    using parse_filter_limit [OF that(1)] that(2)
    by (intro answers.found) (auto simp: db_query_cases search_rows_def split: if_splits)
  show ?thesis
    unfolding Search_def Let_def
    by (auto split: prod.split sum.split intro!: typed_rules rows dest: parse_filter_typed)
qed

lemma request_fault_typed: "request_fault opts req = Some code \<Longrightarrow> code \<noteq> []"
  by (auto simp: request_fault_def split: if_splits)

lemma message_typed:
  assumes "(name, resolve, cap, opts) \<in> set message_routes"
    and "p \<in> {''/messages/direct'', ''/messages/topic'', ''/messages/broadcast'', ''/messages/direct-dm''}"
  shows "typed ''POST'' p (fst (runStrategyDispatch e name resolve Send cap opts r w))"
proof -
  from message_routes_endpoint [OF assms(1)] have ep: "message_endpoint resolve Send" by simp
  obtain resp w' where run: "runStrategyDispatch e name resolve Send cap opts r w = (resp, w')" by fastforce
  show ?thesis
  proof (cases "\<exists>d. rs_reply resp = J_dispatch d")
    case True
    then obtain d where d: "rs_reply resp = J_dispatch d" by blast
    from message_endpoint.dispatch_report [OF ep run d] obtain resolved :: resolve_result where
      "rs_status resp = 200" "map rp_user (ds_recipients d) = map rc_user (rr_recipients resolved) @ map re_user (rr_skipped resolved)"
      "ds_delivered d + ds_failed d = length (rr_recipients resolved)" "ds_skipped d = length (rr_skipped resolved)" by blast
    moreover from this(2) have "length (ds_recipients d) = length (rr_recipients resolved) + length (rr_skipped resolved)"
      by (metis length_append length_map)
    ultimately show ?thesis using d assms(2) run by (simp add: typed_def answers.dispatched)
  next
    case False
    have codes: "resolve_denial err = (code, s) \<Longrightarrow> code \<noteq> [] \<and> s \<in> {400, 500}" for err code s
      by (cases err) (auto simp: resolve_denial_def)
    have "refused resp"
      using False run unfolding runStrategyDispatch_def Let_def flow_deny_def
      by (auto simp: writeJSON_def split: prod.splits sum.splits option.splits body.splits dest: codes request_fault_typed)
    then show ?thesis using run by (simp add: typed_def)
  qed
qed

lemma table_typed:
  assumes "(m, p, cap, h) \<in> set (admin_table @ v1_table)"
  shows "typed m p (fst (h e r w))"
proof -
  have msg: "typed ''POST'' ''/messages/direct'' (fst (DirectHandler e r w))" "typed ''POST'' ''/messages/topic'' (fst (TopicHandler e r w))"
    "typed ''POST'' ''/messages/broadcast'' (fst (BroadcastHandler e r w))" "typed ''POST'' ''/messages/direct-dm'' (fst (DirectDMHandler e r w))"
    unfolding DirectHandler_def TopicHandler_def BroadcastHandler_def DirectDMHandler_def
    by (rule message_typed; simp add: message_routes_def)+
  show ?thesis
    using assms unfolding admin_table_def v1_table_def append.simps list.set insert_iff empty_iff prod.inject
    by (elim disjE conjE FalseE; hypsubst)
      (simp_all only: msg Create_typed Patch_app_typed Delete_typed Purge_typed Patch_user_typed Subscribe_typed Unsubscribe_typed Search_typed)
qed


section \<open>The router\<close>

text \<open>An answer that is none of the routes': the health check, or the router's own.\<close>

definition health_answer :: "response \<Rightarrow> bool" where
  "health_answer resp = (case rs_reply resp of J_ok b err \<Rightarrow> (rs_status resp, err) = (if b then (200, None) else (503, Some ''db_unreachable'')) | _ \<Rightarrow> False)"

definition routed_answer :: "chi \<Rightarrow> http_request \<Rightarrow> response \<Rightarrow> bool" where
  "routed_answer c r resp \<longleftrightarrow>
     refused resp \<or> resp = chi_not_found c r \<or>
     (\<exists>m p cap h. (m, p, cap, h) \<in> set (admin_table @ v1_table) \<and> chi_match c m p r \<noteq> None \<and> answers m p (rs_status resp) (rs_reply resp))"

lemma serve_routed:
  assumes "set table \<subseteq> set (admin_table @ v1_table)"
  shows "routed_answer c r (fst (serve e c table r w))"
  using assms
proof (induction table)
  case (Cons entry table)
  obtain m p cap h where entry: "entry = (m, p, cap, h)" by (cases entry) auto
  show ?case
  proof (cases "chi_match c m p r")
    case (Some params)
    have deny: "refused (fst (RequireCapability e cap (h e) r' w)) \<or> fst (RequireCapability e cap (h e) r' w) = fst (h e r' w)" for r'
      by (auto simp: RequireCapability_def Let_def split: option.split access_error.split prod.split)
    let ?resp = "fst (RequireCapability e cap (h e) (r\<lparr>hr_params := params\<rparr>) w)"
    have mem: "(m, p, cap, h) \<in> set (admin_table @ v1_table)" using Cons.prems entry by auto
    have "refused ?resp \<or> answers m p (rs_status ?resp) (rs_reply ?resp)"
      using deny [of "r\<lparr>hr_params := params\<rparr>"] table_typed [OF mem, of e "r\<lparr>hr_params := params\<rparr>" w] unfolding typed_def by metis
    then have "routed_answer c r ?resp" unfolding routed_answer_def using mem Some by blast
    with Some entry show ?thesis by simp
  qed (use Cons entry in auto)
qed (simp add: routed_answer_def)

lemma mounted_routed:
  assumes "set table \<subseteq> set (admin_table @ v1_table)"
  shows "\<exists>q. routed_answer c (r\<lparr>hr_requester := q\<rparr>) (fst (mounted_routes e c rl table r w))"
proof -
  have lim: "\<exists>w1. fst (RateLimit e rl (serve e c table) r' w0) = fst (serve e c table r' w1) \<or> refused (fst (RateLimit e rl (serve e c table) r' w0))" for r' w0
    by (auto simp: RateLimit_def Let_def refused_def httpError_def split: option.split prod.split)
  have "refused (fst (mounted_routes e c rl table r w)) \<or>
      (\<exists>i w0. fst (mounted_routes e c rl table r w) = fst (RateLimit e rl (serve e c table) (r\<lparr>hr_requester := Some i\<rparr>) w0))"
    by (auto simp: mounted_routes_def Auth_mw_def denyAndAudit_def Let_def split: prod.split sum.split auth_error.split)
  then show ?thesis using lim serve_routed [OF assms] by (metis routed_answer_def)
qed

lemma root_routed:
  "chi_match c ''GET'' ''/healthz'' r \<noteq> None \<and> health_answer (fst (root_routes e c rl r w)) \<or>
   (\<exists>q. routed_answer c (r\<lparr>hr_requester := q\<rparr>) (fst (root_routes e c rl r w)))"
proof (cases "chi_match c ''GET'' ''/healthz'' r = None")
  case True
  have "\<exists>q. routed_answer c (r\<lparr>hr_requester := q\<rparr>) (chi_not_found c r)"
    by (rule exI [of _ "hr_requester r"]) (simp add: routed_answer_def)
  with True mounted_routed [of admin_table c r e rl w] mounted_routed [of v1_table c r e rl w] show ?thesis
    unfolding root_routes_def by (auto simp del: not_None_eq)
qed (simp add: root_routes_def HealthHandler_def health_answer_def writeJSON_def split: prod.split)

lemma NewRouter_routed:
  fixes e r w
  defines "trace \<equiv> (if hr_trace_header r = [] then env_uuid e (w_tick w) else hr_trace_header r)"
  obtains resp w0 where "fst (NewRouter e c rl r w) = resp\<lparr>rs_headers := (''X-Trace-Id'', trace) # rs_headers resp\<rparr>"
    "resp = fst (root_routes e c rl (r\<lparr>hr_trace := trace\<rparr>) w0)"
proof -
  obtain t w0 where t: "(if hr_trace_header r = [] then new_uuid e w else (hr_trace_header r, w)) = (t, w0)" by fastforce
  then have "t = trace" by (auto simp: trace_def new_uuid_def split: if_splits)
  with t show thesis
    by (intro that [of "fst (root_routes e c rl (r\<lparr>hr_trace := trace\<rparr>) w0)" w0])
      (auto simp: NewRouter_def RequestID_def Recover_def split: prod.split)
qed


section \<open>The client of the admin UI\<close>

text \<open>The audit page shows what the search found: when the request of the client is routed to the search and comes back with status
  200, its body is a list of rows, no more than were asked for.\<close>

lemma client_search_decodes:
  assumes "client_SearchAudit (server_api e ch rl net) c trace p u = (Inr rows, u')"
    and "\<And>m q r. chi_match ch m q (r\<lparr>hr_method := ''GET'', hr_path := ''/admin/audit/search''\<rparr>) \<noteq> None \<Longrightarrow> m = ''GET'' \<and> q = ''/audit/search''"
    and "\<And>r. rs_status (chi_not_found ch r) \<noteq> 200"
  shows "\<exists>limit. answers ''GET'' ''/audit/search'' 200 (J_audit rows limit)"
proof -
  let ?q = "search_request c trace p"
  have get: "?q\<lparr>hr_trace := t\<rparr> = (?q\<lparr>hr_trace := t\<rparr>)\<lparr>hr_method := ''GET'', hr_path := ''/admin/audit/search''\<rparr>"
    "?q\<lparr>hr_trace := t, hr_requester := i\<rparr> = (?q\<lparr>hr_trace := t, hr_requester := i\<rparr>)\<lparr>hr_method := ''GET'', hr_path := ''/admin/audit/search''\<rparr>" for t i
    by (simp_all add: search_request_def admin_request_def)
  from assms(1) obtain resp where resp: "resp = fst (NewRouter e ch rl ?q (ui_w u))" "rs_status resp = 200"
      "rows = (case rs_reply resp of J_audit rows _ \<Rightarrow> rows | _ \<Rightarrow> [])"
    by (auto simp: client_SearchAudit_def ui_do_def server_api_def split: prod.splits option.splits if_splits net_outcome.splits)
  obtain resp0 w0 t where r0: "resp = resp0\<lparr>rs_headers := (''X-Trace-Id'', t) # rs_headers resp0\<rparr>"
      "resp0 = fst (root_routes e ch rl (?q\<lparr>hr_trace := t\<rparr>) w0)"
    unfolding resp(1) by (rule NewRouter_routed)
  have "chi_match ch ''GET'' ''/healthz'' (?q\<lparr>hr_trace := t\<rparr>) \<noteq> None \<longrightarrow> ''/healthz'' = ''/audit/search''"
    using assms(2) [of "''GET''" "''/healthz''" "?q\<lparr>hr_trace := t\<rparr>"] get(1) [of t] by metis
  then have "chi_match ch ''GET'' ''/healthz'' (?q\<lparr>hr_trace := t\<rparr>) = None" by simp
  with root_routed [of ch "?q\<lparr>hr_trace := t\<rparr>" e rl w0] obtain i where "routed_answer ch (?q\<lparr>hr_trace := t, hr_requester := i\<rparr>) resp0"
    by (auto simp: r0(2))
  moreover have ok: "rs_status resp0 = 200" "rs_reply resp0 = rs_reply resp" using r0(1) resp(2) by simp_all
  moreover have "\<not> refused resp0" using ok(1) by (simp add: refused_def split: reply.split)
  moreover have "resp0 \<noteq> chi_not_found ch (?q\<lparr>hr_trace := t, hr_requester := i\<rparr>)" using ok(1) assms(3) by metis
  ultimately obtain m pa where "chi_match ch m pa (?q\<lparr>hr_trace := t, hr_requester := i\<rparr>) \<noteq> None" "answers m pa 200 (rs_reply resp)"
    unfolding routed_answer_def by metis
  moreover from this(1) have "m = ''GET'' \<and> pa = ''/audit/search''"
    using assms(2) [of m pa "?q\<lparr>hr_trace := t, hr_requester := i\<rparr>"] get(2) [where t = t and i = i] by metis
  ultimately have "answers ''GET'' ''/audit/search'' 200 (rs_reply resp)" by simp
  moreover from this obtain found limit where "rs_reply resp = J_audit found limit" by (rule answersE) auto
  ultimately show ?thesis using resp(3) by auto
qed


section \<open>Properties\<close>

text \<open>C40: Every answer of the API has the type of its route. It carries the trace of the request, the caller's or a new one; and it is
  the answer of the health check with 200 or 503, or a refusal, which names a code under one of seven statuses, or the router's answer
  for an unknown path, or the answer of the route that was matched: 201 with the id of the application, 200 with the fields of that
  route, a page of at most the 500 rows asked for, or a report whose counters add up to its entries.\<close>

theorem api_answers_typed:
  "\<exists>resp q. fst (NewRouter e c rl r w) = resp\<lparr>rs_headers :=
       (''X-Trace-Id'', if hr_trace_header r = [] then env_uuid e (w_tick w) else hr_trace_header r) # rs_headers resp\<rparr> \<and>
     (health_answer resp \<or>
      routed_answer c (r\<lparr>hr_trace := if hr_trace_header r = [] then env_uuid e (w_tick w) else hr_trace_header r, hr_requester := q\<rparr>) resp)"
proof -
  let ?trace = "if hr_trace_header r = [] then env_uuid e (w_tick w) else hr_trace_header r"
  obtain resp w0 where "fst (NewRouter e c rl r w) = resp\<lparr>rs_headers := (''X-Trace-Id'', ?trace) # rs_headers resp\<rparr>"
    "resp = fst (root_routes e c rl (r\<lparr>hr_trace := ?trace\<rparr>) w0)" by (rule NewRouter_routed)
  with root_routed [of c "r\<lparr>hr_trace := ?trace\<rparr>" e rl w0] show ?thesis by auto
qed

end
