(* ===== verification/Ui_Drawings.thy ===== *)
theory Ui_Drawings
  imports Ui_Pages
begin

text \<open>
  What the drawings of the dashboard and of the delivery page keep: whatever the database holds, no text in a drawing can end a
  string or open a tag, every anchor, line and visible dot lies within the picture, and the failure ring shows its legend. The drawings are inserted into the page as they are
  (\<^verbatim>\<open>template.HTML\<close>), so that nothing else protects the operator's browser from the names and error codes they show.
\<close>

section \<open>Texts without markup\<close>

definition plain_char :: "char \<Rightarrow> bool" where
  "plain_char c = (c \<notin> set [CHR 0x22, CHR 0x27, CHR 0x3C, CHR 0x3E, CHR 0x00])"

definition plain :: "string \<Rightarrow> bool" where "plain s = list_all plain_char s"

lemma plain_append [simp]: "plain (s @ t) \<longleftrightarrow> plain s \<and> plain t" and plain_Nil [simp]: "plain []"
  and plain_Cons [simp]: "plain (c # s) \<longleftrightarrow> plain_char c \<and> plain s"
  by (simp_all add: plain_def)

lemma plain_subset: "plain s \<Longrightarrow> set t \<subseteq> set s \<Longrightarrow> plain t"
  by (auto simp: plain_def list_all_iff)

lemma plain_char_lit [simp]: "plain_char (Char b0 b1 b2 b3 b4 b5 b6 b7) \<longleftrightarrow>
    Char b0 b1 b2 b3 b4 b5 b6 b7 \<notin> set [CHR 0x22, CHR 0x27, CHR 0x3C, CHR 0x3E, CHR 0x00]"
  by (simp only: plain_char_def)

lemma escape_plain: "plain (escape_char c)"
proof (cases "plain_char c")
  case True
  then have "c \<noteq> CHR 0x00" "c \<noteq> CHR 0x22" "c \<noteq> CHR 0x27" "c \<noteq> CHR 0x3C" "c \<noteq> CHR 0x3E" by (simp_all add: plain_char_def)
  with True show ?thesis by (simp add: escape_char_def)
next
  case False
  then consider "c = CHR 0x00" | "c = CHR 0x22" | "c = CHR 0x27" | "c = CHR 0x3C" | "c = CHR 0x3E" by (auto simp: plain_char_def)
  then show ?thesis
  proof cases
    case 1
    have "plain (utf8 [0xEF, 0xBF, 0xBD])" by code_simp
    then show ?thesis by (simp add: 1 escape_char_def)
  qed (simp_all add: escape_char_def)
qed

lemma HTMLEscapeString_plain [simp]: "plain (HTMLEscapeString s)"
  by (induction s) (simp_all add: HTMLEscapeString_def escape_plain)

lemma digit_plain: "is_digit_char c \<Longrightarrow> plain_char c"
  by (auto simp: is_digit_char_def plain_char_def)

lemma nat_dec_plain [simp]: "plain (nat_dec n)"
  using nat_dec_digits [of n] by (simp add: plain_def list_all_iff digit_plain)

lemma replicate_plain: "plain (replicate k (CHR ''0''))"
  by (induction k) simp_all

lemma FormatInt_plain [simp]: "plain (FormatInt i)"
  by (simp add: FormatInt_def)

lemma pad_int_plain [simp]: "plain (pad_int k i)"
  by (simp add: pad_int_def Let_def replicate_plain)

lemma plain_utf8: "plain (utf8 bs)" if "list_all (\<lambda>b. b < 256 \<and> b \<noteq> 0 \<and> b \<noteq> 34 \<and> b \<noteq> 39 \<and> b \<noteq> 60 \<and> b \<noteq> 62) bs"
proof -
  have "plain_char (char_of b)" if "b < 256" "b \<noteq> 0" "b \<noteq> 34" "b \<noteq> 39" "b \<noteq> 60" "b \<noteq> 62" for b :: nat
  proof -
    have "of_char (char_of b :: char) = b" using that by simp
    moreover have "c \<in> set [CHR 0x22, CHR 0x27, CHR 0x3C, CHR 0x3E, CHR 0x00] \<Longrightarrow> of_char c \<in> set [34, 39, 60, 62, 0 :: nat]" for c by auto
    ultimately have "\<not> char_of b \<in> set [CHR 0x22, CHR 0x27, CHR 0x3C, CHR 0x3E, CHR 0x00]" using that by fastforce
    then show ?thesis unfolding plain_char_def .
  qed
  with that show ?thesis by (auto simp: plain_def utf8_def list_all_iff)
qed

lemma texts_plain [simp]:
  "plain t_dot" "plain t_times" "plain t_hour" "plain t_month" "plain t_day" "plain t_year" "plain t_rest" "plain t_pieces" "plain t_kinds"
  "plain t_chart_label" "plain t_pie_label" "plain t_pie_center" "plain t_strip_label" "plain t_trend_label" "plain t_days" "plain t_arrow"
  "plain t_failed" "list_all plain koreanWeekdays"
  unfolding t_dot_def t_times_def t_hour_def t_month_def t_day_def t_year_def t_rest_def t_pieces_def t_kinds_def t_chart_label_def
    t_pie_label_def t_pie_center_def t_strip_label_def t_trend_label_def t_days_def t_arrow_def t_failed_def koreanWeekdays_def
    t_sun_def t_mon_def t_tue_def t_wed_def t_thu_def t_fri_def t_sat_def
  by (simp_all add: plain_utf8)

lemma palettes_plain [simp]: "list_all plain chartPalette" "plain restLineColor" "list_all plain piePalette"
  by (simp_all add: chartPalette_def restLineColor_def piePalette_def)

lemma weekday_plain [simp]: "plain (weekday_of t)"
proof -
  have "nat ((t div second_ns div 86400 + 1) mod 7) < length koreanWeekdays" by (simp add: koreanWeekdays_def)
  then have "weekday_of t \<in> set koreanWeekdays" unfolding weekday_of_def by (rule nth_mem)
  then show ?thesis using texts_plain(18) by (simp add: list_all_iff)
qed

lemma formats_plain [simp]: "plain (format_0f x)" "plain (format_1f x)" "plain (formatLatency x)"
  by (simp_all add: format_0f_def format_1f_def formatLatency_def Let_def)

lemma trim_zeros_plain: "plain s \<Longrightarrow> plain (trim_zeros s)"
proof -
  have "set (trim_zeros s) \<subseteq> set s"
    by (auto simp: trim_zeros_def Let_def dest: set_dropWhileD list.set_sel(2) split: if_splits)
       (metis dropWhile_eq_Nil_conv empty_iff list.sel(2) list.set(1) list.set_sel(2) set_dropWhileD set_rev)
  then show "plain s \<Longrightarrow> plain (trim_zeros s)" by (rule plain_subset [rotated])
qed


section \<open>Elements within the picture\<close>

definition inside :: "rat \<Rightarrow> rat \<Rightarrow> rat \<Rightarrow> rat \<Rightarrow> bool" where
  "inside w h x y \<longleftrightarrow> 0 \<le> x \<and> x \<le> w \<and> 0 \<le> y \<and> y \<le> h"

text \<open>A disc that reaches at most \<open>m\<close> beyond the picture.\<close>

definition disc_inside :: "rat \<Rightarrow> rat \<Rightarrow> rat \<Rightarrow> rat \<Rightarrow> rat \<Rightarrow> rat \<Rightarrow> bool" where
  "disc_inside m w h x y r \<longleftrightarrow> r \<le> x + m \<and> x + r \<le> w + m \<and> r \<le> y + m \<and> y + r \<le> h + m"

fun tip_safe :: "rat \<Rightarrow> rat \<Rightarrow> svg_tip \<Rightarrow> bool" where
  "tip_safe w h (x, y, anchor, label) \<longleftrightarrow> inside w h x y \<and> plain anchor \<and> plain label"

fun element_safe :: "rat \<Rightarrow> rat \<Rightarrow> svg_element \<Rightarrow> bool" where
  "element_safe w h (El_line x1 y1 x2 y2) \<longleftrightarrow> inside w h x1 y1 \<and> inside w h x2 y2"
| "element_safe w h (El_text x y anchor label) \<longleftrightarrow> inside w h x y \<and> plain anchor \<and> plain label"
| "element_safe w h (El_polyline ps color) \<longleftrightarrow> list_all (\<lambda>(x, y). inside w h x y) ps \<and> plain color"
| "element_safe w h (El_point x y hover dot color tip) \<longleftrightarrow> disc_inside 1 w h x y hover \<and> disc_inside 0 w h x y dot \<and> 0 < dot \<and> dot \<le> hover \<and>
     plain color \<and> tip_safe w h tip"
| "element_safe w h (El_slice x y r ring color share start tip) \<longleftrightarrow> disc_inside 0 w h x y (r + ring / 2) \<and> 0 \<le> start \<and> 0 \<le> share \<and>
     plain color \<and> tip_safe w h tip"

definition drawn_safely :: "svg \<Rightarrow> bool" where
  "drawn_safely v \<longleftrightarrow> plain (sv_label v) \<and> list_all (element_safe (sv_width v) (sv_height v)) (sv_elements v)"

lemma svgHoverTip_safe [simp]: "tip_safe w h (svgHoverTip x y w' label) \<longleftrightarrow> inside w h x y"
  by (simp add: svgHoverTip_def)

text \<open>A plane of columns and counts.\<close>

definition plane_ok :: "plane \<Rightarrow> bool" where
  "plane_ok p \<longleftrightarrow> padL + padR \<le> pw p \<and> 100 \<le> ph p \<and> 0 < pmax p"

lemmas pads = padL_def padR_def padT_def padB_def

lemma share_bounds: "0 \<le> w \<Longrightarrow> 0 \<le> s \<Longrightarrow> s \<le> 1 \<Longrightarrow> 0 \<le> w * s \<and> w * s \<le> (w :: rat)"
  by (simp add: mult_left_le)

lemma x_at_bounds:
  assumes "plane_ok p" "i < pcols p"
  shows "padL \<le> x_at p i \<and> x_at p i \<le> pw p - padR"
proof (cases "pcols p = 1")
  case True
  with assms show ?thesis by (auto simp: x_at_def plane_ok_def pads field_simps)
next
  case False
  let ?w = "pw p - padL - padR" and ?s = "of_nat i / of_nat (pcols p - 1) :: rat"
  have "0 \<le> ?w" using assms by (simp add: plane_ok_def pads)
  moreover have "0 \<le> ?s" "?s \<le> 1" using assms(2) False by (simp_all add: divide_le_eq_1)
  ultimately have "0 \<le> ?w * ?s \<and> ?w * ?s \<le> ?w" by (rule share_bounds)
  with False show ?thesis by (simp add: x_at_def Let_def)
qed

lemma y_at_bounds:
  assumes "plane_ok p" "c \<le> pmax p"
  shows "padT \<le> y_at p c \<and> y_at p c \<le> ph p - padB"
proof -
  let ?h = "ph p - padT - padB" and ?s = "1 - of_nat c / of_nat (pmax p) :: rat"
  have "0 \<le> ?h" using assms by (simp add: plane_ok_def pads)
  moreover have "0 \<le> ?s" "?s \<le> 1" using assms by (simp_all add: plane_ok_def divide_le_eq_1)
  ultimately have "0 \<le> ?h * ?s \<and> ?h * ?s \<le> ?h" by (rule share_bounds)
  then show ?thesis by (simp add: y_at_def Let_def)
qed

lemma gridlines_safe: "plane_ok p \<Longrightarrow> list_all (element_safe (pw p) (ph p)) (gridlines p)"
proof -
  assume p: "plane_ok p"
  let ?h = "ph p - padT - padB"
  have "element_safe (pw p) (ph p) (let y = padT + ?h * of_nat g / 4 in El_line padL y (pw p - padR) y)" if "g < 5" for g
  proof -
    have "0 \<le> ?h * (of_nat g / 4) \<and> ?h * (of_nat g / 4) \<le> ?h"
      using p that by (intro share_bounds) (simp_all add: plane_ok_def pads divide_le_eq)
    then show ?thesis using p by (simp add: inside_def plane_ok_def pads Let_def field_simps)
  qed
  then show ?thesis unfolding gridlines_def list_all_iff by auto
qed

lemma polyline_safe:
  assumes "plane_ok p" "length cs \<le> pcols p" "\<forall>c \<in> set cs. c \<le> pmax p" "plain color"
  shows "element_safe (pw p) (ph p) (polyline p cs color)"
proof -
  have "inside (pw p) (ph p) (x_at p i) (y_at p c)" if "(i, c) \<in> set (enumerate 0 cs)" for i c
    using that assms x_at_bounds [OF assms(1), of i] y_at_bounds [OF assms(1), of c]
    by (auto simp: in_set_enumerate_eq inside_def pads)
  with assms(4) show ?thesis by (auto simp: polyline_def list_all_iff)
qed

lemma points_safe:
  assumes "plane_ok p" "length cs \<le> pcols p" "\<forall>c \<in> set cs. c \<le> pmax p" "plain color"
  shows "list_all (element_safe (pw p) (ph p)) (points p label cs color)"
proof -
  have "element_safe (pw p) (ph p) (let x = x_at p i; y = y_at p c; tipY = (if y - 10 < 16 then y + 20 else y - 10)
      in El_point x y 9 3 color (svgHoverTip x tipY (pw p) (label i c)))" if "(i, c) \<in> set (enumerate 0 cs)" for i c
    using that assms x_at_bounds [OF assms(1), of i] y_at_bounds [OF assms(1), of c]
    by (auto simp: in_set_enumerate_eq inside_def disc_inside_def pads Let_def)
  then show ?thesis by (auto simp: points_def list_all_iff)
qed

lemma foldl_max_le: "n \<le> foldl max n xs \<and> (\<forall>x \<in> set xs. x \<le> foldl max (n :: nat) xs)"
proof (induction xs arbitrary: n)
  case (Cons y xs)
  show ?case using Cons.IH [of "max n y"] by auto
qed simp

lemma max_count_bounds: "0 < max_count css" "cs \<in> set css \<Longrightarrow> c \<in> set cs \<Longrightarrow> c \<le> max_count css"
  using foldl_max_le [of 1 "concat css"] by (auto simp: max_count_def)


section \<open>The request chart\<close>

lemma set_insert_by [simp]: "set (insert_by le x xs) = insert x (set xs)"
  by (induction xs) auto

lemma set_sort_by [simp]: "set (sort_by le xs) = set xs"
  by (induction xs) (simp_all add: sort_by_def)

lemma length_add_counts [simp]: "length (add_counts xs ys) = min (length xs) (length ys)"
  by (simp add: add_counts_def)

lemma length_rest_counts: "\<forall>x \<in> set xs. length (snd x) = n \<Longrightarrow> length acc = n \<Longrightarrow>
    length (foldl (\<lambda>acc x. add_counts acc (snd x)) acc xs) = n"
  by (induction xs arbitrary: acc) simp_all

lemma selectLineSeries_length:
  assumes "\<forall>x \<in> set perApp. length (snd x) = buckets" "li \<in> set (selectLineSeries perApp buckets)"
  shows "length (ln_counts li) = buckets"
proof -
  have "\<forall>x \<in> set (drop topLineChartApps (sort_by busier perApp)). length (snd x) = buckets"
    "\<forall>x \<in> set (take topLineChartApps (sort_by busier perApp)). length (snd x) = buckets"
    using assms(1) by (metis in_set_dropD set_sort_by, metis in_set_takeD set_sort_by)
  then show ?thesis
    using assms length_rest_counts [of "drop topLineChartApps (sort_by busier perApp)" buckets "replicate buckets 0"]
    by (auto simp: selectLineSeries_def Let_def split: if_splits)
qed

lemma list_all_concat_map: "list_all P (concat (map f xs)) \<longleftrightarrow> (\<forall>x \<in> set xs. list_all P (f x))"
  by (auto simp: list_all_iff)

lemma enumerate_set: "(n, x) \<in> set (enumerate 0 xs) \<Longrightarrow> x \<in> set xs"
  by (auto simp: in_set_enumerate_eq)

lemma palette_plain: "ps \<noteq> [] \<Longrightarrow> list_all plain ps \<Longrightarrow> plain (ps ! (n mod length ps))"
  by (simp add: list_all_length)

lemma line_color_plain [simp]: "plain (line_color n li)"
  using palette_plain [of chartPalette n] by (simp add: line_color_def) (simp add: chartPalette_def)

lemma axisLabel_plain [simp]: "plain (axisLabel spec i t)"
  by (simp add: axisLabel_def)

lemma buildLineChart_safe: "pred_option (\<lambda>c. drawn_safely (lc_svg c)) (buildLineChart series cr now)"
proof (cases "buildLineChart series cr now")
  case (Some c)
  let ?n = "nat (sc_buckets (cr_spec cr))" and ?axis = "bucketAxis (cr_spec cr) now"
  obtain perApp where c: "c = draw_lines cr ?axis (selectLineSeries perApp ?n)" and len: "\<forall>x \<in> set perApp. length (snd x) = ?n"
    using Some by (auto simp: buildLineChart_def Let_def bucket_counts_def split: if_splits)
  define lns where "lns = selectLineSeries perApp ?n"
  define p where "p = \<lparr>pw = 640, ph = 240, pcols = ?n, pmax = max_count (map ln_counts lns)\<rparr>"
  have p: "plane_ok p" by (simp add: p_def plane_ok_def pads max_count_bounds)
  have wh: "pw p = 640" "ph p = 240" "pcols p = ?n" by (simp_all add: p_def)
  have cs: "length (ln_counts li) \<le> pcols p" "\<forall>k \<in> set (ln_counts li). k \<le> pmax p" if "li \<in> set lns" for li
    using that selectLineSeries_length [OF len, of li] max_count_bounds(2) [of "ln_counts li" "map ln_counts lns"]
    by (auto simp: p_def lns_def)
  have label: "element_safe 640 240 (El_text (x_at p i) (ph p - 8) ''middle'' (axisLabel (cr_spec cr) i t))"
    if "(i, t) \<in> set (enumerate 0 ?axis)" for i t
    using that x_at_bounds [OF p, of i] by (simp add: in_set_enumerate_eq bucketAxis_def inside_def wh pads)
  have "list_all (element_safe 640 240) (gridlines p)" using gridlines_safe [OF p] by (simp add: wh)
  moreover have "list_all (element_safe 640 240) (concat (map (\<lambda>(i, t). let lab = axisLabel (cr_spec cr) i t
      in if lab = [] then [] else [El_text (x_at p i) (ph p - 8) ''middle'' lab]) (enumerate 0 ?axis)))"
    using label by (auto simp: list_all_iff Let_def)
  moreover have "list_all (element_safe 640 240) (map (\<lambda>(n, li). polyline p (ln_counts li) (line_color n li)) (enumerate 0 lns))"
    using polyline_safe [OF p cs] enumerate_set [of _ _ lns] by (fastforce simp: list_all_iff wh)
  moreover have "list_all (element_safe 640 240) (concat (map (\<lambda>(n, li). points p (tip li) (ln_counts li) (line_color n li)) (enumerate 0 lns)))" for tip
    using points_safe [OF p cs] unfolding list_all_concat_map wh by (auto dest: enumerate_set)
  moreover have "lc_svg c = \<lparr>sv_width = 640, sv_height = 240, sv_label = t_chart_label @ HTMLEscapeString (cr_title cr) @ '')'',
      sv_elements = gridlines p @ concat (map (\<lambda>(i, t). let lab = axisLabel (cr_spec cr) i t
          in if lab = [] then [] else [El_text (x_at p i) (ph p - 8) ''middle'' lab]) (enumerate 0 ?axis)) @
        map (\<lambda>(n, li). polyline p (ln_counts li) (line_color n li)) (enumerate 0 lns) @
        concat (map (\<lambda>(n, li). points p (\<lambda>i k. pointLabel (cr_spec cr) (?axis ! i) @ t_dot @ ln_label li @ t_dot @ FormatInt (int k) @ t_times)
          (ln_counts li) (line_color n li)) (enumerate 0 lns))\<rparr>"
    unfolding p_def lns_def by (simp add: c draw_lines_def Let_def)
  ultimately have "drawn_safely (lc_svg c)" by (simp add: drawn_safely_def)
  then show ?thesis using Some by simp
qed simp


section \<open>The failure donut\<close>

text \<open>Folding the small causes keeps the number of failures.\<close>

lemma fold_causes_sum: "sum_list (map snd (fold_causes counts)) = sum_list (map snd counts)"
proof -
  have "sum_list (map snd counts) = sum_list (map snd (take pieFoldAfter counts)) + sum_list (map snd (drop pieFoldAfter counts))"
    by (metis append_take_drop_id map_append sum_list_append)
  then show ?thesis by (simp add: fold_causes_def)
qed

text \<open>The share of a count, as it is computed, and the shares of all causes laid end to end.\<close>

definition share_of :: "nat \<Rightarrow> nat \<Rightarrow> rat" where
  "share_of whole n = f_div (f_of_int (int n)) (f_of_int (int whole))"

lemma share_nonneg: "0 \<le> share_of whole n"
  by (simp add: share_of_def f_div_def f_of_int_def f64_nonneg)

lemma growth: "1 / (1 - f_eps) \<le> (1 + f_eps) ^ 2"
  by (simp add: f_eps_def power2_eq_square)

lemma share_bound:
  assumes "0 < whole"
  shows "share_of whole n \<le> of_nat n / of_nat whole * (1 + f_eps) ^ 4"
proof -
  have e: "0 < 1 - f_eps" by (simp add: f_eps_def)
  let ?a = "f64 (of_nat n)" and ?b = "f64 (of_nat whole)"
  have b: "of_nat whole * (1 - f_eps) \<le> ?b" using f64_error(1) [of "of_nat whole"] by simp
  have "?a / ?b \<le> of_nat n * (1 + f_eps) / (of_nat whole * (1 - f_eps))"
    using b f64_error(2) [of "of_nat n"] assms e by (intro frac_le) simp_all
  also have "\<dots> = of_nat n / of_nat whole * (1 + f_eps) * (1 / (1 - f_eps))" by simp
  also have "\<dots> \<le> of_nat n / of_nat whole * (1 + f_eps) * (1 + f_eps) ^ 2"
    using growth by (intro mult_left_mono) simp_all
  finally have "?a / ?b \<le> of_nat n / of_nat whole * (1 + f_eps) ^ 3" by (simp add: power3_eq_cube power2_eq_square mult.assoc)
  moreover have "f64 (?a / ?b) \<le> ?a / ?b * (1 + f_eps)" by (intro f64_error(2) divide_nonneg_nonneg f64_nonneg) simp_all
  moreover have "?a / ?b * (1 + f_eps) \<le> of_nat n / of_nat whole * (1 + f_eps) ^ 3 * (1 + f_eps)"
    using calculation(1) by (intro mult_right_mono) simp_all
  moreover have "(1 + f_eps) ^ 4 = (1 + f_eps) ^ 3 * (1 + f_eps)" using power_Suc2 [of "1 + f_eps" 3] by simp
  ultimately show ?thesis by (simp add: share_of_def f_div_def f_of_int_def)
qed

lemma shares_sum:
  assumes "0 < whole" "0 \<le> acc" "acc \<le> of_nat s / of_nat whole * (1 + f_eps) ^ (4 + k)"
  shows "foldl f_add acc (map (share_of whole) ns) \<le> of_nat (s + sum_list ns) / of_nat whole * (1 + f_eps) ^ (4 + k + length ns)"
  using assms(2,3)
proof (induction ns arbitrary: acc s k)
  case (Cons n ns)
  let ?f = "share_of whole n" and ?e = "1 + f_eps"
  have "?f \<le> of_nat n / of_nat whole * ?e ^ 4" by (rule share_bound [OF assms(1)])
  also have "\<dots> \<le> of_nat n / of_nat whole * ?e ^ (4 + k)" by (intro mult_left_mono power_increasing) simp_all
  finally have "acc + ?f \<le> of_nat (s + n) / of_nat whole * ?e ^ (4 + k)"
    using Cons.prems(2) by (simp add: add_divide_distrib distrib_right)
  then have "(acc + ?f) * ?e \<le> of_nat (s + n) / of_nat whole * ?e ^ (4 + k) * ?e" by (intro mult_right_mono) simp_all
  moreover have "f_add acc ?f \<le> (acc + ?f) * ?e"
    unfolding f_add_def using Cons.prems(1) share_nonneg by (intro f64_error(2)) simp
  moreover have "?e ^ (4 + Suc k) = ?e ^ (4 + k) * ?e" using power_Suc2 [of ?e "4 + k"] by simp
  ultimately have "f_add acc ?f \<le> of_nat (s + n) / of_nat whole * ?e ^ (4 + Suc k)" by (simp only: mult.assoc)
  moreover have "0 \<le> f_add acc ?f" unfolding f_add_def using Cons.prems(1) share_nonneg by (intro f64_nonneg) simp
  ultimately show ?case using Cons.IH [of "f_add acc ?f" "s + n" "Suc k"] by (simp add: add.assoc)
qed simp

definition ring_starts :: "rat \<Rightarrow> rat list \<Rightarrow> rat list" where
  "ring_starts acc shares = map (\<lambda>i. foldl f_add acc (take i shares)) [0..<length shares]"

lemma ring_starts_simps [simp]: "ring_starts acc [] = []" "ring_starts acc (x # xs) = acc # ring_starts (f_add acc x) xs"
  by (simp_all add: ring_starts_def upt_conv_Cons map_Suc_upt [symmetric] del: upt_Suc)

definition slices_of :: "svg_element list \<Rightarrow> (string \<times> rat \<times> rat) list" where
  "slices_of es = concat (map (\<lambda>el. case el of El_slice x y r ring color share start tip \<Rightarrow> [(color, share, start)] | _ \<Rightarrow> []) es)"

text \<open>A ring shows its legend: one slice per entry, in its order and colour; each slice takes the share of its count and starts where
  the slices before it end; the counts add up to the total, and the slices do not go around more than once, up to rounding.\<close>

definition ring_tells :: "failure_pie_view \<Rightarrow> bool" where
  "ring_tells v \<longleftrightarrow>
     (let shares = map (\<lambda>it. share_of (fp_total v) (pl_count it)) (fp_legend v)
      in slices_of (sv_elements (fp_svg v)) = zip (map pl_color (fp_legend v)) (zip shares (ring_starts 0 shares)) \<and>
         fp_total v = sum_list (map pl_count (fp_legend v)) \<and> 0 < fp_total v \<and> foldl f_add 0 shares \<le> 1 + 1 / 2 ^ 49)"

lemma pie_slices_legend: "map (\<lambda>sl. (pl_code (snd sl), pl_count (snd sl))) (pie_slices whole i acc cs) = cs"
  by (induction whole i acc cs rule: pie_slices.induct) (simp_all add: Let_def)

lemma pie_slices_ring:
  "slices_of (map fst (pie_slices whole i acc cs)) =
     zip (map (\<lambda>sl. pl_color (snd sl)) (pie_slices whole i acc cs))
       (zip (map (share_of whole) (map snd cs)) (ring_starts acc (map (share_of whole) (map snd cs))))"
  by (induction whole i acc cs rule: pie_slices.induct) (simp_all add: slices_of_def Let_def share_of_def)

lemma pie_slices_safe: "0 \<le> acc \<Longrightarrow> list_all (element_safe 220 220) (map fst (pie_slices whole i acc cs))"
proof (induction whole i acc cs rule: pie_slices.induct)
  case (2 whole i acc code n cs)
  have "0 \<le> f_add acc (share_of whole n)" unfolding f_add_def using 2(2) share_nonneg by (intro f64_nonneg) simp
  then show ?case
    using 2 palette_plain [of piePalette i] share_nonneg [of whole n]
    by (simp add: Let_def inside_def disc_inside_def share_of_def [symmetric]) (simp add: piePalette_def)
qed simp

lemma fold_causes_length: "length (fold_causes counts) \<le> 6"
  by (simp add: fold_causes_def pieFoldAfter_def)

lemma buildFailurePie_ring: "pred_option ring_tells (buildFailurePie counts)"
proof (cases "buildFailurePie counts")
  case (Some v)
  let ?whole = "sum_list (map snd counts)" and ?sl = "\<lambda>whole. pie_slices whole 0 0 (fold_causes counts)"
  have whole: "0 < ?whole" and total: "fp_total v = ?whole" and legend: "fp_legend v = map snd (?sl ?whole)"
    and ring: "slices_of (sv_elements (fp_svg v)) = slices_of (map fst (?sl ?whole))"
    using Some by (auto simp: buildFailurePie_def slices_of_def Let_def simp del: sum_list_eq_0_iff split: if_splits)
  have counts: "map pl_count (fp_legend v) = map snd (fold_causes counts)"
    using arg_cong [OF pie_slices_legend [of ?whole 0 0 "fold_causes counts"], of "map snd"] by (simp add: legend comp_def)
  have shares: "map (\<lambda>it. share_of ?whole (pl_count it)) (fp_legend v) = map (share_of ?whole) (map snd (fold_causes counts))"
    unfolding counts [symmetric] by simp
  have "foldl f_add 0 (map (share_of ?whole) (map snd (fold_causes counts)))
      \<le> of_nat (0 + sum_list (map snd (fold_causes counts))) / of_nat ?whole * (1 + f_eps) ^ (4 + 0 + length (map snd (fold_causes counts)))"
    using whole by (intro shares_sum) simp_all
  also have "\<dots> = (1 + f_eps) ^ (4 + length (fold_causes counts))" using whole by (simp add: fold_causes_sum del: sum_list_eq_0_iff)
  also have "\<dots> \<le> (1 + f_eps) ^ 10" using fold_causes_length [of counts] by (intro power_increasing) simp_all
  also have "\<dots> \<le> 1 + 1 / 2 ^ 49" by (simp add: f_eps_def power_divide)
  finally have "foldl f_add 0 (map (share_of ?whole) (map snd (fold_causes counts))) \<le> 1 + 1 / 2 ^ 49" .
  then have "ring_tells v"
    unfolding ring_tells_def total shares counts ring pie_slices_ring Let_def
    using whole by (simp add: fold_causes_sum legend comp_def)
  then show ?thesis using Some by simp
qed simp

lemma buildFailurePie_safe: "pred_option (\<lambda>v. drawn_safely (fp_svg v)) (buildFailurePie counts)"
proof (cases "buildFailurePie counts")
  case (Some v)
  let ?whole = "sum_list (map snd counts)"
  have whole: "0 < ?whole" and v: "fp_svg v = \<lparr>sv_width = 220, sv_height = 220, sv_label = t_pie_label,
      sv_elements = map fst (pie_slices ?whole 0 0 (fold_causes counts)) @
        [El_text 110 (110 - 2) ''middle'' (FormatInt (int ?whole)), El_text 110 (110 + 20) ''middle'' t_pie_center]\<rparr>"
    using Some by (auto simp: buildFailurePie_def Let_def simp del: sum_list_eq_0_iff split: if_splits)
  have "list_all (element_safe 220 220) (map fst (pie_slices ?whole 0 0 (fold_causes counts)))"
    by (intro pie_slices_safe) simp
  then show ?thesis using Some by (simp add: v drawn_safely_def inside_def)
qed simp


section \<open>The latency strip\<close>

lemma mag_up_pos: "0 < mag_up x"
proof (induction x rule: mag_up.induct)
  case (1 x)
  then show ?case by (subst mag_up.simps) simp
qed

lemma mag_down_pos: "0 < mag_down x"
proof (induction x rule: mag_down.induct)
  case (1 x)
  then show ?case by (subst mag_down.simps) simp
qed

lemma niceAxisMax_pos: "0 < niceAxisMax ms"
  using mag_up_pos [of ms] mag_down_pos [of ms]
  by (auto simp: niceAxisMax_def magnitude_def Let_def split: option.split dest!: find_SomeD)

lemma strip_x_bounds: "0 < axisMax \<Longrightarrow> 0 \<le> ms \<Longrightarrow> ms \<le> axisMax \<Longrightarrow> 10 \<le> strip_x axisMax ms \<and> strip_x axisMax ms \<le> 626"
  using share_bounds [of 616 "ms / axisMax"] by (simp add: strip_x_def divide_le_eq_1)

lemma formatAxisMs_plain [simp]: "plain (formatAxisMs ms)"
proof -
  have "plain (digits_at n k)" for n k
  proof -
    have "plain (take m (FormatInt n))" "plain (drop m (FormatInt n))" for m
      by (rule plain_subset [OF FormatInt_plain], auto dest: in_set_takeD in_set_dropD)+
    then show ?thesis unfolding digits_at_def Let_def by (intro trim_zeros_plain) simp
  qed
  then show ?thesis by (simp add: formatAxisMs_def format_3g_def Let_def)
qed


lemma strip_axis_safe:
  assumes "0 < axisMax"
  shows "list_all (element_safe 640 150) (strip_axis axisMax)"
proof -
  have "list_all (element_safe 640 150) (let ms = axisMax * of_nat i / 4; x = strip_x axisMax ms
      in [El_line x 118 x (118 + 4), El_text x (118 + 18) (if i = 0 then ''start'' else if i = 4 then ''end'' else ''middle'') (formatAxisMs ms)])"
    if "i < 5" for i
    using that assms strip_x_bounds [of axisMax "axisMax * of_nat i / 4"] by (simp add: Let_def inside_def divide_le_eq)
  then show ?thesis unfolding strip_axis_def by (simp add: inside_def list_all_concat_map del: upt_rec_numeral)
qed

lemma strip_marks_safe:
  assumes "0 < axisMax" "0 \<le> p50"
  shows "list_all (element_safe 640 150) (strip_marks axisMax p50)"
proof -
  let ?slo = "if latencySLOMillis > axisMax then 640 - 14 else strip_x axisMax latencySLOMillis"
  have "10 \<le> ?slo \<and> ?slo \<le> 626" using strip_x_bounds [of axisMax latencySLOMillis] assms by (simp add: latencySLOMillis_def)
  moreover have "10 \<le> strip_x axisMax (min (p50 * 1000) axisMax) \<and> strip_x axisMax (min (p50 * 1000) axisMax) \<le> 626"
    using assms by (intro strip_x_bounds) simp_all
  ultimately show ?thesis by (simp add: strip_marks_def Let_def inside_def)
qed

lemma strip_dot_safe:
  assumes "0 < axisMax" "0 \<le> lm_secs sm"
  shows "element_safe 640 150 (strip_dot axisMax i sm)"
proof -
  have "10 \<le> strip_x axisMax (min (lm_secs sm * 1000) axisMax) \<and> strip_x axisMax (min (lm_secs sm * 1000) axisMax) \<le> 626"
    using assms by (intro strip_x_bounds) simp_all
  moreover have "[0, - 9, 9, - 17, 17] ! (i mod 5) \<in> set [0, - 9, 9, - 17, 17 :: rat]" by (intro nth_mem) simp
  ultimately show ?thesis by (auto simp: strip_dot_def Let_def inside_def disc_inside_def)
qed

lemma buildLatencyStrip_safe:
  assumes "\<forall>sm \<in> set samples. 0 \<le> lm_secs sm" "0 \<le> la_p50 stats"
  shows "pred_option (\<lambda>v. drawn_safely (lv_svg v)) (buildLatencyStrip samples stats)"
proof -
  have "list_all (element_safe 640 150) (map (\<lambda>(i, sm). strip_dot axisMax i sm) (enumerate 0 samples))" if "0 < axisMax" for axisMax
    using assms(1) strip_dot_safe [OF that] by (auto simp: list_all_iff dest!: enumerate_set)
  then show ?thesis
    using assms(2) by (simp add: buildLatencyStrip_def Let_def drawn_safely_def strip_axis_safe strip_marks_safe niceAxisMax_pos)
qed


section \<open>The delivery trend\<close>

lemma trend_label_plain [simp]: "plain (trend_label days t)"
  by (simp add: trend_label_def)

lemma buildTrendChart_safe: "pred_option (\<lambda>c. drawn_safely (lc_svg c)) (buildTrendChart counts days stageFilter now)"
proof (cases "buildTrendChart counts days stageFilter now")
  case (Some c)
  let ?axis = "trend_axis days now"
  define series where "series = map (\<lambda>tdef. (tdef, trend_counts days (trend_points (map Format_date ?axis) counts tdef))) (trend_defs stageFilter)"
  have c: "c = draw_trend days ?axis series"
    using Some by (simp add: buildTrendChart_def Let_def series_def comp_def split: if_splits)
  define p where "p = \<lparr>pw = 960, ph = 220, pcols = days, pmax = max_count (map snd series)\<rparr>"
  have p: "plane_ok p" by (simp add: p_def plane_ok_def pads max_count_bounds)
  have wh: "pw p = 960" "ph p = 220" "pcols p = days" by (simp_all add: p_def)
  have cs: "length cs \<le> pcols p" "\<forall>k \<in> set cs. k \<le> pmax p" "plain (td_color tdef)" if "(tdef, cs) \<in> set series" for tdef cs
  proof -
    show "length cs \<le> pcols p" using that by (auto simp: series_def wh trend_counts_def)
    show "\<forall>k \<in> set cs. k \<le> pmax p" using that max_count_bounds(2) [of cs "map snd series"] by (force simp: p_def)
    show "plain (td_color tdef)" using that by (auto simp: series_def trend_defs_def split: if_splits)
  qed
  have label: "element_safe 960 220 (El_text (x_at p i) (ph p - 8) ''middle'' (trend_label days t))"
    if "(i, t) \<in> set (enumerate 0 ?axis)" for i t
    using that x_at_bounds [OF p, of i] by (simp add: in_set_enumerate_eq trend_axis_def inside_def wh pads)
  have "list_all (element_safe 960 220) (gridlines p)" using gridlines_safe [OF p] by (simp add: wh)
  moreover have "list_all (element_safe 960 220) (concat (map (\<lambda>(i, t). if i mod k \<noteq> 0 \<and> i \<noteq> days - 1 then []
      else [El_text (x_at p i) (ph p - 8) ''middle'' (trend_label days t)]) (enumerate 0 ?axis)))" for k
    using label by (auto simp: list_all_iff)
  moreover have "list_all (element_safe 960 220) (map (\<lambda>(tdef, cs). polyline p cs (td_color tdef)) series)"
    using polyline_safe [OF p cs] by (fastforce simp: list_all_iff wh)
  moreover have "list_all (element_safe 960 220) (concat (map (\<lambda>(tdef, cs). points p (tip tdef) cs (td_color tdef)) series))" for tip
    using points_safe [OF p cs] unfolding list_all_concat_map wh by auto
  ultimately have "drawn_safely (lc_svg c)"
    by (simp add: c drawn_safely_def draw_trend_def Let_def p_def [symmetric] wh)
  then show ?thesis using Some by simp
qed simp


section \<open>The pages\<close>

text \<open>Latencies are never negative, and neither is a percentile of them.\<close>

lemma latency_pairs_nonneg: "(r, us) \<in> set (latency_pairs t rows) \<Longrightarrow> 0 \<le> us"
  by (auto simp: latency_pairs_def split: option.splits if_splits)

lemma LatencySamples_nonneg:
  assumes "LatencySamples e n w = (Inr samples, w')"
  shows "\<forall>sm \<in> set samples. 0 \<le> lm_secs sm"
proof -
  obtain xs t where "samples = map (\<lambda>(r, us). \<lparr>lm_app = strOrEmpty (ar_app_id r), lm_secs = seconds_of us\<rparr>) xs"
      "set xs \<subseteq> set (latency_pairs t (unordered e (w_tick w) (d_audit (w_db w))))"
    using assms by (auto simp: LatencySamples_def db_query_cases split: if_splits) (metis set_sort_by set_take_subset)
  then show ?thesis using latency_pairs_nonneg by (fastforce simp: seconds_of_def)
qed

lemma percentile_nonneg:
  assumes "\<forall>x \<in> set xs. 0 \<le> x" "0 \<le> p" "p \<le> 1"
  shows "0 \<le> percentile_cont p xs"
proof (cases "xs = []")
  case False
  define pos where "pos = p * (of_nat (length xs) - 1)"
  have n: "(0 :: rat) \<le> of_nat (length xs) - 1" using False by (cases xs) simp_all
  have pos: "0 \<le> pos" "pos \<le> of_nat (length xs) - 1"
    using share_bounds [OF n assms(2,3)] by (simp_all add: pos_def mult.commute)
  then have "pos \<le> of_int (int (length xs) - 1)" by simp
  then have "\<lceil>pos\<rceil> \<le> int (length xs) - 1" by (rule ceiling_le)
  then have hi: "nat \<lceil>pos\<rceil> < length xs" using False by (cases xs) auto
  moreover have "\<lfloor>pos\<rfloor> \<le> \<lceil>pos\<rceil>" by (rule floor_le_ceiling)
  ultimately have lo: "nat \<lfloor>pos\<rfloor> < length xs" by linarith
  define f where "f = pos - of_nat (nat \<lfloor>pos\<rfloor>)"
  have "of_nat (nat \<lfloor>pos\<rfloor>) = (of_int \<lfloor>pos\<rfloor> :: rat)" using pos(1) by simp
  then have f: "0 \<le> f" "f \<le> 1" unfolding f_def using floor_correct [of pos] by linarith+
  have "0 \<le> (1 - f) * xs ! nat \<lfloor>pos\<rfloor> + f * xs ! nat \<lceil>pos\<rceil>" using assms(1) hi lo f by simp
  then have "0 \<le> xs ! nat \<lfloor>pos\<rfloor> + f * (xs ! nat \<lceil>pos\<rceil> - xs ! nat \<lfloor>pos\<rfloor>)" by (simp add: algebra_simps)
  then show ?thesis using False by (simp add: percentile_cont_def Let_def pos_def f_def)
qed (simp add: percentile_cont_def)

lemma DeliveryLatency_nonneg:
  assumes "DeliveryLatency e w = (Inr lat, w')"
  shows "0 \<le> la_p50 lat"
proof -
  define xs where "xs = sort (map (\<lambda>p. seconds_of (snd p)) (latency_pairs (env_now e (w_tick w)) (d_audit (w_db w))))"
  have "\<forall>x \<in> set xs. 0 \<le> x" using latency_pairs_nonneg by (fastforce simp: xs_def seconds_of_def)
  moreover have "la_p50 lat = percentile_cont (1 / 2) xs"
    using assms by (auto simp: DeliveryLatency_def db_query_cases Let_def xs_def [symmetric] split: if_splits)
  ultimately show ?thesis using percentile_nonneg [of xs "1 / 2"] by simp
qed

text \<open>What a section of a page leaves true.\<close>

lemma read_section_keeps:
  assumes "P v" "\<And>x. P v \<Longrightarrow> P (good x v)" "P v \<Longrightarrow> P (bad v)"
  shows "P (fst (read_section q good bad v u))"
  using assms by (simp add: read_section_def split: prod.split sum.split)

definition dashboard_drawings :: "dashboard_view \<Rightarrow> svg list" where
  "dashboard_drawings v =
     (case dv_pie v of None \<Rightarrow> [] | Some p \<Rightarrow> [fp_svg p]) @ (case dv_strip v of None \<Rightarrow> [] | Some s \<Rightarrow> [lv_svg s])"

definition page_drawings :: "page \<Rightarrow> svg list" where
  "page_drawings data =
     (case pg_line_chart data of None \<Rightarrow> [] | Some c \<Rightarrow> [lc_svg c]) @
     (case pg_dash data of None \<Rightarrow> [] | Some v \<Rightarrow> dashboard_drawings v) @
     (case pg_delivery data of None \<Rightarrow> [] | Some d \<Rightarrow> (case dy_trend d of None \<Rightarrow> [] | Some c \<Rightarrow> [lc_svg c]))"

lemma dash_strip_safe:
  assumes "list_all drawn_safely (dashboard_drawings v)" "dv_strip v = None"
  shows "list_all drawn_safely (dashboard_drawings (fst (dash_strip e v u)))"
proof -
  have "list_all drawn_safely (dashboard_drawings (v\<lparr>dv_strip := buildLatencyStrip samples lat\<rparr>))"
    if "DeliveryLatency e w = (Inr lat, w1)" "LatencySamples e n w2 = (Inr samples, w3)" for lat samples w w1 w2 w3 n
    using assms buildLatencyStrip_safe [OF LatencySamples_nonneg [OF that(2)] DeliveryLatency_nonneg [OF that(1)]]
    by (cases "buildLatencyStrip samples lat") (auto simp: dashboard_drawings_def split: option.splits)
  then show ?thesis
    using assms by (auto simp: dash_strip_def read_section_def ui_do_def dashboard_drawings_def split: prod.splits sum.splits)
qed

lemma dash_sections_safe: "list_all drawn_safely (dashboard_drawings (fst (dash_sections e u)))"
proof -
  let ?P = "\<lambda>v. list_all drawn_safely (dashboard_drawings v) \<and> dv_strip v = None"
  define s1 where "s1 = read_section (DeliveryKPICounts e) (\<lambda>k v. v\<lparr>dv_kpi := Some (buildKPIView k)\<rparr>) (\<lambda>v. v\<lparr>dv_kpi_err := True\<rparr>) zero_dashboard u"
  define s2 where "s2 = read_section (PipelineStageCounts e) (\<lambda>cs v. v\<lparr>dv_pipeline := buildPipelineFlow cs\<rparr>)
    (\<lambda>v. v\<lparr>dv_pipeline_err := True\<rparr>) (fst s1) (snd s1)"
  define s3 where "s3 = read_section (FailureCauseCounts e) (\<lambda>cs v. v\<lparr>dv_pie := buildFailurePie cs\<rparr>) (\<lambda>v. v\<lparr>dv_pie_err := True\<rparr>) (fst s2) (snd s2)"
  have "?P (fst s1)" unfolding s1_def by (rule read_section_keeps) (simp_all add: dashboard_drawings_def zero_dashboard_def)
  then have "?P (fst s2)" unfolding s2_def by (rule read_section_keeps) (simp_all add: dashboard_drawings_def)
  moreover have "?P (v\<lparr>dv_pie := buildFailurePie cs\<rparr>)" if "?P v" for v cs
    using that buildFailurePie_safe [of cs] by (cases "buildFailurePie cs") (simp_all add: dashboard_drawings_def)
  ultimately have "?P (fst s3)" unfolding s3_def by (rule read_section_keeps) (simp_all add: dashboard_drawings_def)
  moreover have "dash_sections e u = dash_strip e (fst s3) (snd s3)"
    by (simp add: dash_sections_def s1_def s2_def s3_def case_prod_beta)
  ultimately show ?thesis by (simp add: dash_strip_safe)
qed

lemma basePageData_drawings [simp]:
  "pg_line_chart (fst (basePageData e r title active u)) = None" "pg_dash (fst (basePageData e r title active u)) = None"
  "pg_delivery (fst (basePageData e r title active u)) = None"
  by (simp_all add: basePageData_def zero_page_def split: prod.split)

lemma render_page: "ux_reply (render c p data) = U_page name data' \<Longrightarrow> data' = data"
  by (auto simp: render_def ui_answer_def ui_error_def split: if_splits)

lemma dash_chart_safe:
  assumes "pg_line_chart data = None" "list_all drawn_safely (page_drawings data)"
  shows "list_all drawn_safely (page_drawings (fst (dash_chart e cr data u)))"
proof -
  have "list_all drawn_safely (page_drawings (data\<lparr>pg_line_chart := buildLineChart series cr now\<rparr>))" for series now
    using assms buildLineChart_safe [of series cr now] by (cases "buildLineChart series cr now") (simp_all add: page_drawings_def)
  then show ?thesis using assms by (simp add: dash_chart_def page_drawings_def split: prod.split sum.split)
qed

lemma dashboard_safe:
  assumes "ux_reply (fst (handleDashboard e api c r u)) = U_page name data"
  shows "list_all drawn_safely (page_drawings data)"
proof -
  obtain b u1 where b: "basePageData e r t_dash_title ''dashboard'' u = (b, u1)" by fastforce
  have none: "pg_line_chart b = None" "pg_dash b = None" "pg_delivery b = None"
    using basePageData_drawings [of e r t_dash_title "''dashboard''" u] b by simp_all
  obtain healthy u2 where h: "client_Health api c (ur_trace r) u1 = (healthy, u2)" by fastforce
  obtain now u3 where n: "ui_now e u2 = (now, u3)" by fastforce
  define d where "d = b\<lparr>pg_subtitle := t_dash_subtitle, pg_server_url := uc_server_url c, pg_health_ok := (healthy = Some True),
    pg_health_db := (if healthy = Some True then ''connected'' else ''unreachable''), pg_uptime := uptimeString (time_sub now (uc_started c))\<rparr>"
  have d: "pg_line_chart d = None" "pg_dash d = None" "pg_delivery d = None" by (simp_all add: d_def none)
  show ?thesis
  proof (cases "uc_store c")
    case False
    then show ?thesis
      using assms d by (auto simp: handleDashboard_def b h n Let_def d_def [symmetric] page_drawings_def dest!: render_page)
  next
    case True
    let ?cr = "resolveChartRange (get_value (ur_query r) ''range'')"
    let ?d1 = "d\<lparr>pg_dash := Some (fst (dash_sections e u3)), pg_chart_title := cr_title ?cr, pg_chart_ranges := range_links ?cr\<rparr>"
    let ?c = "dash_chart e ?cr ?d1 (snd (dash_sections e u3))"
    have "list_all drawn_safely (page_drawings ?d1)" using dash_sections_safe [of e u3] d by (simp add: page_drawings_def)
    then have "list_all drawn_safely (page_drawings (fst ?c))" using d by (intro dash_chart_safe) simp_all
    then have "list_all drawn_safely (page_drawings (fst (read_section (DashboardStats e) (\<lambda>st data. data\<lparr>pg_stats := Some st\<rparr>) (\<lambda>data. data) (fst ?c) (snd ?c))))"
      by (rule read_section_keeps) (simp_all add: page_drawings_def)
    moreover have "fst (handleDashboard e api c r u) = render c ''dashboard.html''
        (fst (read_section (DashboardStats e) (\<lambda>st data. data\<lparr>pg_stats := Some st\<rparr>) (\<lambda>data. data) (fst ?c) (snd ?c)))"
      using True by (simp add: handleDashboard_def b h n Let_def d_def [symmetric] case_prod_beta)
    ultimately show ?thesis using assms by (auto dest!: render_page)
  qed
qed

lemma delivery_options_trend: "dy_trend (fst (delivery_options e days d u)) = dy_trend d"
proof -
  let ?P = "\<lambda>x. dy_trend x = dy_trend d"
  have keep: "?P v \<Longrightarrow> ?P (fst (read_section q good bad v w))" if "\<And>x v. ?P v \<Longrightarrow> ?P (good x v)" "\<And>v. ?P v \<Longrightarrow> ?P (bad v)" for q good bad v w
    using that by (rule read_section_keeps [where P = ?P, rotated])
  show ?thesis unfolding delivery_options_def by (simp add: Let_def case_prod_beta keep)
qed

lemma delivery_safe:
  assumes "ux_reply (fst (handleDeliveryPage e c r u)) = U_page name data"
  shows "list_all drawn_safely (page_drawings data)"
proof -
  obtain b u1 where b: "basePageData e r t_delivery_title ''delivery'' u = (b, u1)" by fastforce
  have none: "pg_line_chart b = None" "pg_dash b = None"
    using basePageData_drawings [of e r t_delivery_title "''delivery''" u] b by simp_all
  obtain d days where d: "delivery_start r = (d, days)" by fastforce
  then have "dy_trend d = None" by (auto simp: delivery_start_def Let_def split: prod.splits)
  then have options: "dy_trend (fst (delivery_options e days d u1)) = None" by (simp add: delivery_options_trend)
  have trend: "pred_option (\<lambda>ch. drawn_safely (lc_svg ch)) (dy_trend (fst (delivery_data e c days v w)))" if "dy_trend v = None" for v w
    using that buildTrendChart_safe by (simp add: delivery_data_def read_section_def split: prod.split sum.split)
  define v where "v = (if uc_store c then fst (delivery_data e c days (fst (delivery_options e days d u1)) (snd (delivery_options e days d u1))) else d)"
  have "pred_option (\<lambda>ch. drawn_safely (lc_svg ch)) (dy_trend v)" using \<open>dy_trend d = None\<close> trend [OF options] by (simp add: v_def)
  moreover have "pg_line_chart data = None" "pg_dash data = None" "pg_delivery data = Some v"
    using assms none by (auto simp: handleDeliveryPage_def b d Let_def case_prod_beta v_def split: if_splits dest!: render_page)
  ultimately show ?thesis by (cases "dy_trend v") (simp_all add: page_drawings_def)
qed

text \<open>The failure ring of a page.\<close>

definition page_ring :: "page \<Rightarrow> failure_pie_view option" where
  "page_ring data = Option.bind (pg_dash data) dv_pie"

text \<open>It is the one of the causes that the third query of the dashboard finds.\<close>

lemma read_section_eq:
  "read_section q good bad v u = (case fst (q (ui_w u)) of Inl _ \<Rightarrow> bad v | Inr x \<Rightarrow> good x v, u\<lparr>ui_w := snd (q (ui_w u))\<rparr>)"
  by (simp add: read_section_def ui_do_def split: prod.split sum.split)

lemma dash_sections_pie:
  "dv_pie (fst (dash_sections e u)) =
     (case fst (FailureCauseCounts e (snd (PipelineStageCounts e (snd (DeliveryKPICounts e (ui_w u)))))) of
        Inl _ \<Rightarrow> None | Inr cs \<Rightarrow> buildFailurePie cs)"
proof -
  have "dv_pie (fst (dash_strip e v u')) = dv_pie v" for v u'
    by (auto simp: dash_strip_def read_section_def split: prod.splits sum.splits)
  then show ?thesis
    by (simp add: dash_sections_def read_section_eq zero_dashboard_def split: sum.split)
qed

lemma dashboard_pie:
  assumes "ux_reply (fst (handleDashboard e api c r u)) = U_page name data"
  shows "page_ring data = (if uc_store c then dv_pie (fst (dash_sections e
    (snd (ui_now e (snd (client_Health api c (ur_trace r) (snd (basePageData e r t_dash_title ''dashboard'' u)))))))) else None)"
proof -
  have chart: "page_ring (fst (dash_chart e cr d u')) = page_ring d" for cr d u'
    by (simp add: dash_chart_def page_ring_def split: prod.split sum.split)
  have stats: "page_ring (fst (read_section q (\<lambda>st d. d\<lparr>pg_stats := Some st\<rparr>) (\<lambda>d. d) d u')) = page_ring d" for q d u'
    by (simp add: read_section_def page_ring_def split: prod.split sum.split)
  show ?thesis
    using assms
    by (auto simp: handleDashboard_def Let_def case_prod_beta page_ring_def chart [unfolded page_ring_def]
        stats [unfolded page_ring_def] dest!: render_page split: if_splits)
qed

lemma dashboard_ring:
  assumes "ux_reply (fst (handleDashboard e api c r u)) = U_page name data"
  shows "pred_option ring_tells (page_ring data)"
  using buildFailurePie_ring by (simp add: dashboard_pie [OF assms] dash_sections_pie split: sum.split)

lemma delivery_ring: "ux_reply (fst (handleDeliveryPage e c r u)) = U_page name data \<Longrightarrow> pred_option ring_tells (page_ring data)"
  by (auto simp: handleDeliveryPage_def Let_def case_prod_beta page_ring_def dest!: render_page split: if_splits)


section \<open>Properties\<close>

text \<open>C38: Whatever the database holds and however its queries fail, every drawing on the dashboard and on the delivery page is safe to
  insert into the page: no text in it contains a quotation mark, an angle bracket or a zero byte, and nothing is drawn away from the
  picture: the ends of the lines, the corners of the curves and the anchor points of labels and tooltips lie inside it, the visible dots and
  the failure ring lie wholly inside it, and a transparent hover circle reaches at most one unit beyond it. (How far a text extends
  from its anchor depends on the font.) The failure ring shows its legend: one slice per entry, in its colour, with
  the \<^verbatim>\<open>float64\<close> share of its count in the total of all counts, each slice starting where the slices before it end, and the shares
  together take one turn, up to \<open>2^-49\<close>.\<close>

theorem drawings_are_safe:
  assumes "h = handleDashboard e api c \<or> h = handleDeliveryPage e c" "ux_reply (fst (h r u)) = U_page name data"
  shows "list_all drawn_safely (page_drawings data) \<and> pred_option ring_tells (page_ring data)"
  using assms dashboard_safe delivery_safe dashboard_ring delivery_ring by metis

text \<open>A request by an application whose name is markup and two failures with different causes, shown on the dashboard.\<close>

definition demo_ring_db :: database where
  "demo_ring_db = (let t = unix_time 1767225600; row = (\<lambda>ev. unhashed_row demo_env ev t empty_db)
     in empty_db\<lparr>d_audit := [row (zero_event\<lparr>ev_stage := ''received'', ev_app_id := ''<script>''\<rparr>),
          row (zero_event\<lparr>ev_stage := ''denied'', ev_error_code := ''app_inactive''\<rparr>),
          row (zero_event\<lparr>ev_stage := ''denied'', ev_error_code := ''<b>''\<rparr>)]\<rparr>)"

lemma demo_causes:
  "fst (FailureCauseCounts demo_env (snd (PipelineStageCounts demo_env (snd (DeliveryKPICounts demo_env (empty_world\<lparr>w_db := demo_ring_db, w_tick := 1\<rparr>)))))) =
     Inr [(''<b>'', 1), (''app_inactive'', 1)]"
  by code_simp

theorem drawings_are_safe_witness:
  "\<exists>data v. ux_reply (fst (handleDashboard demo_env (\<lambda>q w. (None, w)) demo_ui_config demo_ui_request
      (demo_key_ui\<lparr>ui_w := empty_world\<lparr>w_db := demo_ring_db\<rparr>\<rparr>))) = U_page ''dashboard.html'' data \<and>
     list_all drawn_safely (page_drawings data) \<and> page_ring data = Some v \<and> ring_tells v \<and> fp_total v = 2"
proof -
  let ?u = "demo_key_ui\<lparr>ui_w := empty_world\<lparr>w_db := demo_ring_db\<rparr>\<rparr>" and ?h = "handleDashboard demo_env (\<lambda>q w. (None, w)) demo_ui_config"
  obtain data where data: "ux_reply (fst (?h demo_ui_request ?u)) = U_page ''dashboard.html'' data"
    by (simp add: handleDashboard_def Let_def case_prod_beta render_def ui_answer_def demo_ui_config_def)
  have safe: "list_all drawn_safely (page_drawings data) \<and> pred_option ring_tells (page_ring data)"
    using drawings_are_safe [of ?h] data by blast
  have "page_ring data = buildFailurePie [(''<b>'', 1), (''app_inactive'', 1)]"
    using demo_causes
    by (simp add: dashboard_pie [OF data] dash_sections_pie client_Health_def ui_do_def ui_now_def read_clock_def basePageData_def
        demo_ui_config_def demo_ui_request_def demo_key_ui_def empty_world_def tick_def)
  moreover have "fp_total v = 2" if "buildFailurePie [(''<b>'', 1), (''app_inactive'', 1)] = Some v" for v
    using that by (auto simp: buildFailurePie_def Let_def)
  ultimately show ?thesis using data safe by (auto simp: buildFailurePie_def Let_def)
qed

end
