(* ===== verification/Ui_Request_Chart.thy ===== *)
theory Ui_Request_Chart
  imports Ui_Drawings
begin

text \<open>
  The request chart of the dashboard counts what the audit log holds. The store groups the received rows by application and by bucket of
  the axis (\<^verbatim>\<open>store.go\<close>, \<^verbatim>\<open>RequestBuckets\<close>); the page builds the axis from its own clock, matches the two
  by the texts of the buckets, and folds the smaller applications into one line (\<^verbatim>\<open>dashboard.go\<close>,
  \<^verbatim>\<open>buildLineChart\<close>, \<^verbatim>\<open>selectLineSeries\<close>). Different buckets have different texts, by the laws of
  the calendar, so that nothing is lost or counted twice on the way.
\<close>

section \<open>Buckets and their texts\<close>

lemma Format_date_inj:
  assumes "Format_date t = Format_date t'"
  shows "t div second_ns div 86400 = t' div second_ns div 86400"
proof -
  let ?n = "t div second_ns div 86400" and ?n' = "t' div second_ns div 86400"
  obtain y m d where e: "days_date ?n = (y, m, d)" by (cases "days_date ?n") auto
  obtain y' m' d' where e': "days_date ?n' = (y', m', d')" by (cases "days_date ?n'") auto
  note c = days_date_correct [OF e] and c' = days_date_correct [OF e']
  have d: "d < 100" "d' < 100" using c c' days_in_le [of m y] days_in_le [of m' y'] by linarith+
  have len: "length (pad_int 2 d) = length (pad_int 2 d')" using c c' d by (simp add: pad_int_2_length)
  have "(pad_int 4 y @ ''-'' @ pad_int 2 m @ ''-'') @ pad_int 2 d = (pad_int 4 y' @ ''-'' @ pad_int 2 m' @ ''-'') @ pad_int 2 d'"
    using assms by (simp add: Format_date_def e e')
  then have "pad_int 4 y @ ''-'' @ pad_int 2 m @ ''-'' = pad_int 4 y' @ ''-'' @ pad_int 2 m' @ ''-'' \<and> pad_int 2 d = pad_int 2 d'"
    using append_eq_append_conv [OF disjI2 [OF len]] by blast
  moreover from this have "(pad_int 4 y @ ''-'' @ pad_int 2 m) @ ''-'' = (pad_int 4 y' @ ''-'' @ pad_int 2 m') @ ''-''" by simp
  ultimately have "pad_int 4 y @ ''-'' @ pad_int 2 m = pad_int 4 y' @ ''-'' @ pad_int 2 m'" "pad_int 2 d = pad_int 2 d'"
    unfolding append_same_eq by blast+
  then have "y = y' \<and> m = m'" "d = d'" using month_text_inj [of y m y' m'] c c' pad_int_inj by auto
  then show ?thesis using c(1) c'(1) by simp
qed


text \<open>Instants at which a bucket starts.\<close>

definition bucket_start :: "string \<Rightarrow> time \<Rightarrow> bool" where
  "bucket_start un t \<longleftrightarrow>
     (if un = ''hour'' then t mod hour_ns = 0 else if un = ''month'' then (\<exists>k. t = month_start k) else t mod (24 * hour_ns) = 0)"

lemma date_of_month_start: "date_of (month_start k) = (k div 12, k mod 12 + 1, 1)"
proof -
  have "days_date (date_days (k div 12) (k mod 12 + 1) 1) = (k div 12, k mod 12 + 1, 1)"
  proof (rule days_date_days)
    have "nat (k mod 12) < length (month_days (k div 12))" by (simp add: month_days_def)
    then have "month_days (k div 12) ! nat (k mod 12) \<in> set (month_days (k div 12))" by (rule nth_mem)
    then show "1 \<le> days_in (k div 12) (k mod 12 + 1)" using month_days_nonneg [of "k div 12"] by (fastforce simp: days_in_def)
  qed (use pos_mod_bound [of 12 k] in simp_all)
  then show ?thesis by (simp add: date_of_def month_start_def)
qed

lemma date_trunc_start: "bucket_start un (date_trunc un t)"
  by (auto simp: bucket_start_def date_trunc_def)

lemma bucket_back_start: "bucket_start un t \<Longrightarrow> bucket_start un (bucket_back un n t)"
proof -
  have "(t - n * k) mod k = t mod k" for k :: int by (simp add: mod_diff_right_eq [symmetric])
  then show "bucket_start un t \<Longrightarrow> bucket_start un (bucket_back un n t)"
    by (auto simp: bucket_start_def bucket_back_def)
qed

lemma days_of_ns: "t div second_ns div 86400 = t div (24 * hour_ns)" for t :: int
  by (simp add: div_mult2_eq [symmetric])

lemma bucket_key_inj:
  assumes "bucket_key un t = bucket_key un t'" "bucket_start un t" "bucket_start un t'"
  shows "t = t'"
proof -
  consider "un = ''hour''" | "un = ''month''" | "un \<noteq> ''hour''" "un \<noteq> ''month''" by blast
  then show ?thesis
  proof cases
    case 1
    have h: "0 \<le> hour_of x" "hour_of x < 100" for x using pos_mod_bound [of 24 "x div hour_ns"] by (simp_all add: hour_of_def)
    have "(Format_date t @ ''T'') @ pad_int 2 (hour_of t) = (Format_date t' @ ''T'') @ pad_int 2 (hour_of t')"
      using assms(1) 1 by (simp add: bucket_key_def)
    then have "Format_date t @ ''T'' = Format_date t' @ ''T'' \<and> pad_int 2 (hour_of t) = pad_int 2 (hour_of t')"
      using append_eq_append_conv [OF disjI2, of "pad_int 2 (hour_of t)" "pad_int 2 (hour_of t')"] h by (simp add: pad_int_2_length)
    then have d: "t div (24 * hour_ns) = t' div (24 * hour_ns)" "hour_of t = hour_of t'"
      using Format_date_inj [of t t'] pad_int_inj by (auto simp: days_of_ns)
    have "x = x div (24 * hour_ns) * (24 * hour_ns) + hour_of x * hour_ns" if "x mod hour_ns = 0" for x
    proof -
      have "x = x div hour_ns * hour_ns" using that by (metis add.right_neutral div_mult_mod_eq)
      moreover have "x div hour_ns = x div hour_ns div 24 * 24 + x div hour_ns mod 24" by simp
      moreover have "x div hour_ns div 24 = x div (24 * hour_ns)" by (simp add: div_mult2_eq [symmetric])
      ultimately show ?thesis unfolding hour_of_def by linarith
    qed
    then show ?thesis using assms(2,3) 1 d by (simp add: bucket_start_def) metis
  next
    case 2
    then obtain k k' where k: "t = month_start k" "t' = month_start k'" using assms(2,3) by (auto simp: bucket_start_def)
    then have "k div 12 = k' div 12 \<and> k mod 12 + 1 = k' mod 12 + 1"
      using assms(1) 2 month_text_inj [of "k div 12" "k mod 12 + 1" "k' div 12" "k' mod 12 + 1"] pos_mod_bound [of 12 k] pos_mod_bound [of 12 k']
      by (simp add: bucket_key_def year_of_def month_of_def date_of_month_start)
    then have "k = k'" by (metis add_right_cancel div_mult_mod_eq)
    with k show ?thesis by simp
  next
    case 3
    then have "t div (24 * hour_ns) = t' div (24 * hour_ns)"
      using assms(1) Format_date_inj [of t t'] by (simp add: bucket_key_def days_of_ns)
    moreover have "t = t div (24 * hour_ns) * (24 * hour_ns)" "t' = t' div (24 * hour_ns) * (24 * hour_ns)"
      using assms(2,3) 3 by (simp_all add: bucket_start_def) (metis add.right_neutral div_mult_mod_eq)+
    ultimately show ?thesis by metis
  qed
qed


section \<open>Counting\<close>

lemma month_start_inj: "month_start k = month_start k' \<Longrightarrow> k = k'"
proof -
  assume "month_start k = month_start k'"
  then have "(k div 12, k mod 12 + 1, 1 :: int) = (k' div 12, k' mod 12 + 1, 1)" using date_of_month_start by metis
  then show "k = k'" by (metis Pair_inject add_right_cancel div_mult_mod_eq)
qed

lemma bucket_back_inj: "bucket_back un n t = bucket_back un n' t \<Longrightarrow> n = n'"
  by (auto simp: bucket_back_def split: if_splits dest: month_start_inj)

lemma bucketAxis_facts:
  "length (bucketAxis spec now) = nat (sc_buckets spec)" "distinct (bucketAxis spec now)"
  "\<forall>t \<in> set (bucketAxis spec now). bucket_start (sc_unit spec) t"
  by (auto simp: bucketAxis_def distinct_map inj_on_def bucket_back_start date_trunc_start dest!: bucket_back_inj)

lemma bucket_index_iff:
  assumes "distinct axis" "\<forall>t \<in> set axis. bucket_start un t" "bucket_start un day"
  shows "bucket_index (map (bucket_key un) axis) (bucket_key un day) = Some i \<longleftrightarrow> i < length axis \<and> axis ! i = day"
proof -
  let ?keys = "map (bucket_key un) axis"
  have d: "distinct ?keys" using assms(1,2) by (auto simp: distinct_map inj_on_def intro: bucket_key_inj)
  then have "distinct (map fst (rev (zip ?keys [0..<length ?keys])))" by (simp add: rev_map [symmetric])
  then have "map_of (rev (zip ?keys [0..<length ?keys])) k = Some i \<longleftrightarrow> i < length ?keys \<and> ?keys ! i = k" for k
    by (auto simp: map_of_eq_Some_iff in_set_zip)
  then show ?thesis using assms by (auto simp: bucket_index_def intro: bucket_key_inj)
qed

lemma sum_insert_by: "sum_list (map f (insert_by le x xs)) = f x + sum_list (map f xs :: nat list)"
  by (induction xs) simp_all

lemma sum_sort_by: "sum_list (map f (sort_by le xs)) = sum_list (map f xs :: nat list)"
  by (induction xs) (simp_all add: sort_by_def sum_insert_by)

lemma length_insert_by [simp]: "length (insert_by le x xs) = Suc (length xs)"
  by (induction xs) simp_all

lemma length_sort_by [simp]: "length (sort_by le xs) = length xs"
  by (induction xs) (simp_all add: sort_by_def)

lemma rest_counts_nth: "\<forall>x \<in> set xs. length (snd x) = n \<Longrightarrow> length acc = n \<Longrightarrow> i < n \<Longrightarrow>
    foldl (\<lambda>acc x. add_counts acc (snd x)) acc xs ! i = acc ! i + (\<Sum>x\<leftarrow>xs. snd x ! i)"
  by (induction xs arbitrary: acc) (simp_all add: add_counts_def)

text \<open>Folding the smaller applications into one line keeps the count of every bucket.\<close>

lemma selectLineSeries_counts:
  assumes "\<forall>x \<in> set perApp. length (snd x) = buckets" "i < buckets"
  shows "(\<Sum>li\<leftarrow>selectLineSeries perApp buckets. ln_counts li ! i) = (\<Sum>x\<leftarrow>perApp. snd x ! i)"
proof -
  let ?t = "sort_by busier perApp" and ?k = topLineChartApps
  have len: "\<forall>x \<in> set (drop ?k ?t). length (snd x) = buckets" using assms(1) by (metis in_set_dropD set_sort_by)
  have "(\<Sum>x\<leftarrow>?t. snd x ! i) = (\<Sum>x\<leftarrow>take ?k ?t. snd x ! i) + (\<Sum>x\<leftarrow>drop ?k ?t. snd x ! i)"
    by (metis append_take_drop_id map_append sum_list_append)
  then show ?thesis
    using rest_counts_nth [OF len _ assms(2), of "replicate buckets 0"] assms(2)
    by (simp add: selectLineSeries_def Let_def comp_def case_prod_beta sum_sort_by [symmetric, of _ perApp busier])
qed

lemma selectLineSeries_few: "length (selectLineSeries perApp buckets) \<le> topLineChartApps + 1"
  "selectLineSeries perApp buckets = [] \<longleftrightarrow> perApp = []"
  by (auto simp: selectLineSeries_def Let_def simp flip: length_0_conv)

lemma count_per_app:
  assumes "distinct apps" "\<forall>k \<in> set ks. snd k = d \<longrightarrow> fst k \<in> set apps"
  shows "(\<Sum>a\<leftarrow>apps. length (filter (\<lambda>k. k = (a, d)) ks)) = length (filter (\<lambda>k. snd k = d) ks)"
  using assms(2)
proof (induction ks)
  case (Cons k ks)
  have "(\<Sum>a\<leftarrow>apps. if k = (a, d) then 1 else 0 :: nat) = (if snd k = d then 1 else 0)"
  proof (cases "snd k = d")
    case True
    then have "(k = (a, d)) = (a = fst k)" for a by (cases k) auto
    then have "(\<Sum>a\<leftarrow>apps. if k = (a, d) then 1 else 0 :: nat) = (\<Sum>a \<in> set apps. if a = fst k then 1 else 0)"
      using assms(1) by (simp add: sum_list_distinct_conv_sum_set)
    then show ?thesis using Cons.prems True by (simp add: sum.delta)
  next
    case False
    then have "(\<lambda>a. if k = (a, d) then 1 else 0 :: nat) = (\<lambda>a. 0)" by (intro ext) auto
    then show ?thesis using False by simp
  qed
  moreover have "(\<Sum>a\<leftarrow>apps. length (filter (\<lambda>x. x = (a, d)) (k # ks))) =
      (\<Sum>a\<leftarrow>apps. if k = (a, d) then 1 else 0) + (\<Sum>a\<leftarrow>apps. length (filter (\<lambda>x. x = (a, d)) ks))"
    by (simp add: sum_list_addf [symmetric] if_distrib cong: if_cong) (rule arg_cong [of _ _ sum_list], simp)
  ultimately show ?case using Cons by simp
qed simp


text \<open>The points of the chart: one per application and bucket in which it has made a request.\<close>

lemma app_buckets_iff:
  assumes "distinct axis" "\<forall>t \<in> set axis. bucket_start un t" "\<forall>p \<in> set series. bucket_start un (ac_day p)"
  shows "(app, i, n) \<in> set (app_buckets (map (bucket_key un) axis) un series) \<longleftrightarrow>
    i < length axis \<and> (\<exists>p \<in> set series. ac_app p = app \<and> ac_day p = axis ! i \<and> ac_count p = n)"
proof -
  have "(app, i, n) \<in> set (app_buckets (map (bucket_key un) axis) un series) \<longleftrightarrow>
      (\<exists>p \<in> set series. bucket_index (map (bucket_key un) axis) (bucket_key un (ac_day p)) = Some i \<and> ac_app p = app \<and> ac_count p = n)"
    by (auto simp: app_buckets_def split: option.split) force+
  moreover have "bucket_index (map (bucket_key un) axis) (bucket_key un (ac_day p)) = Some i \<longleftrightarrow> i < length axis \<and> axis ! i = ac_day p"
    if "p \<in> set series" for p using that assms by (intro bucket_index_iff) auto
  ultimately show ?thesis by (metis (no_types, lifting))
qed

lemma bucket_counts_nth:
  assumes "i < buckets" "\<And>n. (app, i, n) \<in> set pts \<longleftrightarrow> 0 < m \<and> n = m"
  shows "bucket_counts pts buckets app ! i = m"
proof -
  let ?xs = "rev (map snd (filter (\<lambda>p. fst p = app) pts))"
  have mem: "(i, n) \<in> set ?xs \<longleftrightarrow> 0 < m \<and> n = m" for n using assms(2) [of n] by force
  have "(case map_of ?xs i of None \<Rightarrow> 0 | Some c \<Rightarrow> c) = m"
  proof (cases "map_of ?xs i")
    case None
    then have "(i, m) \<notin> set ?xs" by (metis map_of_eq_None_iff fst_conv image_eqI)
    with None mem show ?thesis by auto
  next
    case (Some c)
    then have "(i, c) \<in> set ?xs" by (rule map_of_SomeD)
    with Some mem show ?thesis by auto
  qed
  with assms(1) show ?thesis by (simp add: bucket_counts_def)
qed

lemma set_group_count: "(k, n) \<in> set (group_count ks) \<longleftrightarrow> k \<in> set ks \<and> n = length (filter (\<lambda>x. x = k) ks)"
  by (auto simp: group_count_def)

text \<open>The chart of a list of requests, each with its application and bucket.\<close>

lemma chart_of_keys:
  assumes "set series = (\<lambda>((a, b), n). \<lparr>ac_app = a, ac_day = b, ac_count = n\<rparr>) ` set (group_count ks)"
    and "\<forall>k \<in> set ks. bucket_start (sc_unit (cr_spec cr)) (snd k)"
  shows "\<exists>lns. buildLineChart series cr now = (if lns = [] then None else Some (draw_lines cr (bucketAxis (cr_spec cr) now) lns)) \<and>
    length lns \<le> topLineChartApps + 1 \<and>
    (\<forall>i < length (bucketAxis (cr_spec cr) now).
       (\<Sum>li\<leftarrow>lns. ln_counts li ! i) = length (filter (\<lambda>k. snd k = bucketAxis (cr_spec cr) now ! i) ks))"
proof -
  let ?un = "sc_unit (cr_spec cr)" and ?axis = "bucketAxis (cr_spec cr) now" and ?n = "nat (sc_buckets (cr_spec cr))"
  define pts where "pts = app_buckets (map (bucket_key ?un) ?axis) ?un series"
  define perApp where "perApp = map (\<lambda>app. (app, bucket_counts pts ?n app)) (remdups (map fst pts))"
  note axis = bucketAxis_facts [of "cr_spec cr" now]
  have start: "\<forall>p \<in> set series. bucket_start ?un (ac_day p)" using assms(2) by (force simp: assms(1) set_group_count)
  have "(\<exists>p \<in> set series. ac_app p = app \<and> ac_day p = d \<and> ac_count p = n) \<longleftrightarrow>
      (app, d) \<in> set ks \<and> n = length (filter (\<lambda>k. k = (app, d)) ks)" for app d n
  proof -
    have "(\<exists>p \<in> set series. ac_app p = app \<and> ac_day p = d \<and> ac_count p = n) \<longleftrightarrow> ((app, d), n) \<in> set (group_count ks)"
      unfolding assms(1) by (auto intro!: bexI [of _ "((app, d), n)"])
    then show ?thesis by (simp add: set_group_count)
  qed
  then have pts: "(app, i, n) \<in> set pts \<longleftrightarrow> i < ?n \<and> (app, ?axis ! i) \<in> set ks \<and> n = length (filter (\<lambda>k. k = (app, ?axis ! i)) ks)" for app i n
    unfolding pts_def app_buckets_iff [OF axis(2,3) start] axis(1) by blast
  have count: "bucket_counts pts ?n app ! i = length (filter (\<lambda>k. k = (app, ?axis ! i)) ks)" if "i < ?n" for app i
    using that by (intro bucket_counts_nth) (auto simp: pts filter_empty_conv simp flip: length_greater_0_conv)
  have "(\<Sum>x\<leftarrow>perApp. snd x ! i) = length (filter (\<lambda>k. snd k = ?axis ! i) ks)" if i: "i < ?n" for i
  proof -
    have "\<forall>k \<in> set ks. snd k = ?axis ! i \<longrightarrow> fst k \<in> set (remdups (map fst pts))" using i pts by force
    from count_per_app [OF distinct_remdups this] show ?thesis using count [OF i] by (simp add: perApp_def comp_def)
  qed
  moreover have len: "\<forall>x \<in> set perApp. length (snd x) = ?n" by (simp add: perApp_def bucket_counts_def)
  ultimately have "(\<Sum>li\<leftarrow>selectLineSeries perApp ?n. ln_counts li ! i) = length (filter (\<lambda>k. snd k = ?axis ! i) ks)" if "i < ?n" for i
    using that selectLineSeries_counts [OF len, of i] by simp
  moreover have "buildLineChart series cr now = (if selectLineSeries perApp ?n = [] then None else Some (draw_lines cr ?axis (selectLineSeries perApp ?n)))"
    by (simp add: buildLineChart_def Let_def pts_def [symmetric] perApp_def [symmetric] selectLineSeries_few(2))
      (simp add: pts_def perApp_def app_buckets_def)
  ultimately show ?thesis using selectLineSeries_few(1) [of perApp ?n] axis(1) by (intro exI [of _ "selectLineSeries perApp ?n"]) simp
qed


section \<open>Properties\<close>

text \<open>C39: The request chart of the dashboard accounts for every request: if the query and the drawing fall into the same bucket of the
  axis, then for each bucket the counts of the drawn lines add up to the number of requests that the audit log holds for that bucket,
  that is of its received rows with an application; at most five lines are drawn, the smaller applications in one of them; and no chart
  is drawn only when every bucket is empty.\<close>

theorem request_chart_counts:
  assumes "RequestBuckets e (cr_spec cr) w = (Inr series, w')"
    and "date_trunc (sc_unit (cr_spec cr)) now = date_trunc (sc_unit (cr_spec cr)) (env_now e (w_tick w))"
  shows "\<exists>lns. buildLineChart series cr now = (if lns = [] then None else Some (draw_lines cr (bucketAxis (cr_spec cr) now) lns)) \<and>
    length lns \<le> topLineChartApps + 1 \<and>
    (\<forall>i < length (bucketAxis (cr_spec cr) now). (\<Sum>li\<leftarrow>lns. ln_counts li ! i) =
       length (filter (\<lambda>r. ar_stage r = ''received'' \<and> ar_app_id r \<noteq> None \<and> bucketAxis (cr_spec cr) now ! 0 \<le> micros_time (ar_at r) \<and>
         date_trunc (sc_unit (cr_spec cr)) (micros_time (ar_at r)) = bucketAxis (cr_spec cr) now ! i) (d_audit (w_db w))))"
proof -
  let ?un = "sc_unit (cr_spec cr)" and ?axis = "bucketAxis (cr_spec cr) now"
  let ?from = "bucket_back ?un (sc_buckets (cr_spec cr) - 1) (date_trunc ?un (env_now e (w_tick w)))"
  let ?rows = "filter (\<lambda>r. ar_stage r = ''received'' \<and> ar_app_id r \<noteq> None \<and> micros_time (ar_at r) \<ge> ?from) (d_audit (w_db w))"
  let ?ks = "map (\<lambda>r. (the (ar_app_id r), date_trunc ?un (micros_time (ar_at r)))) ?rows"
  have "series = map (\<lambda>((a, b), n). \<lparr>ac_app = a, ac_day = b, ac_count = n\<rparr>)
      (sort_by (\<lambda>x y. pair_le text_le (\<le>) (fst x) (fst y)) (group_count ?ks))"
    using assms(1) by (auto simp: RequestBuckets_def db_query_cases Let_def split: if_splits)
  then have series: "set series = (\<lambda>((a, b), n). \<lparr>ac_app = a, ac_day = b, ac_count = n\<rparr>) ` set (group_count ?ks)"
    by (simp only: set_map set_sort_by)
  have first: "?axis ! 0 = ?from" if "i < length ?axis" for i
  proof -
    have "0 < nat (sc_buckets (cr_spec cr))" using that by (simp add: bucketAxis_def)
    then show ?thesis using assms(2) by (simp add: bucketAxis_def)
  qed
  have "length (filter (\<lambda>k. snd k = d) ?ks) = length (filter (\<lambda>r. ar_stage r = ''received'' \<and> ar_app_id r \<noteq> None \<and>
      ?from \<le> micros_time (ar_at r) \<and> date_trunc ?un (micros_time (ar_at r)) = d) (d_audit (w_db w)))" for d
    by (simp add: filter_map comp_def)
  moreover have "\<forall>k \<in> set ?ks. bucket_start ?un (snd k)" by (auto simp: date_trunc_start)
  ultimately show ?thesis using chart_of_keys [OF series, of cr now] first by auto
qed

text \<open>One request in the current hour.\<close>

definition demo_chart_db :: database where
  "demo_chart_db = empty_db\<lparr>d_audit := [unhashed_row demo_env (zero_event\<lparr>ev_stage := ''received'', ev_app_id := ''<script>''\<rparr>) (unix_time 1767225600) empty_db]\<rparr>"

theorem request_chart_counts_witness:
  "\<exists>series lns. fst (RequestBuckets demo_env (cr_spec (hd chartRanges)) (empty_world\<lparr>w_db := demo_chart_db\<rparr>)) = Inr series \<and>
     buildLineChart series (hd chartRanges) (env_now demo_env 0) =
       (if lns = [] then None else Some (draw_lines (hd chartRanges) (bucketAxis (cr_spec (hd chartRanges)) (env_now demo_env 0)) lns)) \<and>
     (\<Sum>li\<leftarrow>lns. ln_counts li ! 23) = 1"
proof -
  let ?cr = "hd chartRanges" and ?w = "empty_world\<lparr>w_db := demo_chart_db\<rparr>" and ?now = "env_now demo_env 0"
  let ?axis = "bucketAxis (cr_spec ?cr) ?now"
  have spec: "cr_spec ?cr = \<lparr>sc_unit = ''hour'', sc_buckets = 24\<rparr>" by (simp add: chartRanges_def)
  have tick: "w_tick ?w = 0" by (simp add: empty_world_def)
  have trunc: "date_trunc ''hour'' (unix_time 1767225600) = unix_time 1767225600" by (simp add: date_trunc_def unix_time_def unix_epoch_s_def)
  have axis: "length ?axis = 24" "?axis ! 0 = unix_time 1767225600 - 23 * hour_ns" "?axis ! 23 = unix_time 1767225600"
    by (simp_all add: bucketAxis_def spec bucket_back_def trunc del: upt_rec_numeral)
  have row: "ar_stage r = ''received'' \<and> ar_app_id r \<noteq> None \<and> ?axis ! 0 \<le> micros_time (ar_at r) \<and>
      date_trunc ''hour'' (micros_time (ar_at r)) = ?axis ! 23" if "r \<in> set (d_audit (w_db ?w))" for r
  proof -
    have "ar_stage r = ''received''" "ar_app_id r \<noteq> None" "micros_time (ar_at r) = unix_time 1767225600"
      using that by (simp_all add: demo_chart_db_def unhashed_row_def zero_event_def nullif_text_def micros_time_def pg_micros_def
          unix_time_def unix_epoch_s_def)
    then show ?thesis unfolding axis by (simp add: trunc)
  qed
  have one: "length (d_audit (w_db ?w)) = 1" by (simp add: demo_chart_db_def)
  obtain series w' where series: "RequestBuckets demo_env (cr_spec ?cr) ?w = (Inr series, w')"
    by (simp add: RequestBuckets_def seriesUnits_def spec db_query_cases)
  from request_chart_counts [OF series, of ?now] tick obtain lns where lns:
    "buildLineChart series ?cr ?now = (if lns = [] then None else Some (draw_lines ?cr ?axis lns))"
    "\<forall>i < length ?axis. (\<Sum>li\<leftarrow>lns. ln_counts li ! i) =
       length (filter (\<lambda>r. ar_stage r = ''received'' \<and> ar_app_id r \<noteq> None \<and> ?axis ! 0 \<le> micros_time (ar_at r) \<and>
         date_trunc (sc_unit (cr_spec ?cr)) (micros_time (ar_at r)) = ?axis ! i) (d_audit (w_db ?w)))" by auto
  have "filter (\<lambda>r. ar_stage r = ''received'' \<and> ar_app_id r \<noteq> None \<and> ?axis ! 0 \<le> micros_time (ar_at r) \<and>
      date_trunc ''hour'' (micros_time (ar_at r)) = ?axis ! 23) (d_audit (w_db ?w)) = d_audit (w_db ?w)"
    using row unfolding filter_id_conv by blast
  then have "(\<Sum>li\<leftarrow>lns. ln_counts li ! 23) = 1" using lns(2) axis(1) one by (simp add: spec)
  with series lns(1) show ?thesis by (intro exI [of _ series] exI [of _ lns]) simp
qed

end
