(* ===== verification/Hook_Chain.thy ===== *)
theory Hook_Chain
  imports Audit_Chain
begin

text \<open>
  The hook chain (\<^verbatim>\<open>src/internal/hook/chain.go\<close>) and its built-in audit hook
  (\<^verbatim>\<open>src/internal/hook/builtin/audit_hook.go\<close>): hooks of the stage \<^verbatim>\<open>pre\<close> may stop a request or add to
  its payload, then the core runs, then the hooks of the stage \<^verbatim>\<open>post\<close>. A hook and the core work on the
  caller's request through a pointer, so each of them hands the request on.
\<close>

section \<open>Requests, results, hooks\<close>

text \<open>A value of type \<^verbatim>\<open>any\<close>, up to the types the code asserts.\<close>

datatype any = Any_string string | Any_int64 int | Any_other

definition StagePre :: string where "StagePre = ''pre''"
definition StageCore :: string where "StageCore = ''core''"
definition StagePost :: string where "StagePost = ''post''"

text \<open>The payload is \<^const>\<open>None\<close> as long as the map is nil.\<close>

record hook_request =
  hq_trace_id :: string
  hq_message_id :: string
  hq_endpoint :: string
  hq_app_id :: string
  hq_capability :: string
  hq_route_strategy :: string
  hq_payload :: "(string \<rightharpoonup> any) option"

text \<open>The entries of the map \<^verbatim>\<open>Updated\<close> are a list with distinct keys.\<close>

record hook_result =
  hz_continue :: bool
  hz_stage :: string
  hz_reason :: string
  hz_updated :: "(string \<times> any) list"

record 'e hook =
  hk_name :: string
  hk_stage :: string
  hk_run :: "hook_request \<Rightarrow> world \<Rightarrow> ('e + hook_result) \<times> hook_request \<times> world"

type_synonym 'e core = "hook_request \<Rightarrow> world \<Rightarrow> 'e option \<times> hook_request \<times> world"

datatype 'e chain_error =
    Pre_failed string 'e
  | ErrShortCircuit string string string
  | Core_failed 'e
  | Post_failed string 'e

record 'e chain =
  ch_pre :: "'e hook list"
  ch_post :: "'e hook list"


section \<open>The chain\<close>

definition add_hook :: "'e chain \<Rightarrow> 'e hook \<Rightarrow> 'e chain" where
  "add_hook c h =
     (if hk_stage h = StagePre then c\<lparr>ch_pre := ch_pre c @ [h]\<rparr>
      else if hk_stage h = StagePost then c\<lparr>ch_post := ch_post c @ [h]\<rparr>
      else c\<lparr>ch_pre := ch_pre c @ [h]\<rparr>)"

definition NewChain :: "'e hook list \<Rightarrow> 'e chain" where
  "NewChain hooks = foldl add_hook \<lparr>ch_pre = [], ch_post = []\<rparr> hooks"

definition mergePayload :: "hook_request \<Rightarrow> (string \<times> any) list \<Rightarrow> hook_request" where
  "mergePayload req updated =
     (if length updated = 0 then req
      else
        (let payload = (case hq_payload req of None \<Rightarrow> Map.empty | Some m \<Rightarrow> m)
         in req\<lparr>hq_payload := Some (foldl (\<lambda>m (k, v). m(k \<mapsto> v)) payload updated)\<rparr>))"

fun run_pre :: "'e hook list \<Rightarrow> hook_request \<Rightarrow> world \<Rightarrow> 'e chain_error option \<times> hook_request \<times> world" where
  "run_pre [] req w = (None, req, w)"
| "run_pre (h # hs) req w =
     (case hk_run h req w of
        (Inl err, req1, w1) \<Rightarrow> (Some (Pre_failed (hk_name h) err), req1, w1)
      | (Inr res, req1, w1) \<Rightarrow>
          if \<not> hz_continue res then (Some (ErrShortCircuit (hk_name h) (hz_stage res) (hz_reason res)), req1, w1)
          else run_pre hs (mergePayload req1 (hz_updated res)) w1)"

fun run_post :: "'e hook list \<Rightarrow> hook_request \<Rightarrow> world \<Rightarrow> 'e chain_error option \<times> hook_request \<times> world" where
  "run_post [] req w = (None, req, w)"
| "run_post (h # hs) req w =
     (case hk_run h req w of
        (Inl err, req1, w1) \<Rightarrow> (Some (Post_failed (hk_name h) err), req1, w1)
      | (Inr res, req1, w1) \<Rightarrow> run_post hs (mergePayload req1 (hz_updated res)) w1)"

text \<open>The core is \<^const>\<open>None\<close> when the caller passes nil.\<close>

definition Execute ::
  "'e chain \<Rightarrow> 'e core option \<Rightarrow> hook_request \<Rightarrow> world \<Rightarrow> 'e chain_error option \<times> hook_request \<times> world" where
  "Execute c core req w =
     (case run_pre (ch_pre c) req w of
        (Some err, req1, w1) \<Rightarrow> (Some err, req1, w1)
      | (None, req1, w1) \<Rightarrow>
          (case (case core of None \<Rightarrow> (None, req1, w1) | Some f \<Rightarrow> f req1 w1) of
             (Some err, req2, w2) \<Rightarrow> (Some (Core_failed err), req2, w2)
           | (None, req2, w2) \<Rightarrow> run_post (ch_post c) req2 w2))"


section \<open>The audit hook\<close>

text \<open>A type assertion gives the zero value when the key is missing or its value has another type.\<close>

definition payload_string :: "hook_request \<Rightarrow> string \<Rightarrow> string" where
  "payload_string req k =
     (case hq_payload req of None \<Rightarrow> [] | Some m \<Rightarrow> (case m k of Some (Any_string s) \<Rightarrow> s | _ \<Rightarrow> []))"

definition payload_int64 :: "hook_request \<Rightarrow> string \<Rightarrow> int" where
  "payload_int64 req k =
     (case hq_payload req of None \<Rightarrow> 0 | Some m \<Rightarrow> (case m k of Some (Any_int64 i) \<Rightarrow> i | _ \<Rightarrow> 0))"

definition hook_event :: "string \<Rightarrow> hook_request \<Rightarrow> event" where
  "hook_event stage req = zero_event\<lparr>ev_trace_id := hq_trace_id req, ev_message_id := hq_message_id req, ev_stage := stage,
     ev_endpoint := hq_endpoint req, ev_app_id := hq_app_id req, ev_capability := hq_capability req,
     ev_route_strategy := hq_route_strategy req, ev_delivery_channel := payload_string req ''delivery_channel'',
     ev_recipient_user_id := payload_int64 req ''recipient_user_id'',
     ev_recipient_chat_id := payload_int64 req ''recipient_chat_id''\<rparr>"

definition continue_result :: hook_result where
  "continue_result = \<lparr>hz_continue = True, hz_stage = [], hz_reason = [], hz_updated = []\<rparr>"

type_synonym event_writer = "event \<Rightarrow> world \<Rightarrow> (audit_err + unit) \<times> world"

definition AuditHook_Run ::
  "event_writer option \<Rightarrow> string \<Rightarrow> hook_request \<Rightarrow> world \<Rightarrow> (audit_err + hook_result) \<times> hook_request \<times> world" where
  "AuditHook_Run writer stage req w =
     (case writer of
        None \<Rightarrow> (Inr continue_result, req, w)
      | Some put \<Rightarrow>
          (case put (hook_event stage req) w of
             (Inl err, w1) \<Rightarrow> (Inl err, req, w1)
           | (Inr _, w1) \<Rightarrow> (Inr continue_result, req, w1)))"

definition NewPostDispatchAuditHook :: "event_writer option \<Rightarrow> audit_err hook" where
  "NewPostDispatchAuditHook writer =
     \<lparr>hk_name = ''audit_'' @ StageDispatched, hk_stage = StagePost, hk_run = AuditHook_Run writer StageDispatched\<rparr>"


section \<open>Order and effect\<close>

text \<open>The chain keeps the order of the hooks within a stage.\<close>

lemma NewChain_stages:
  "ch_pre (NewChain hooks) = filter (\<lambda>h. hk_stage h \<noteq> StagePost) hooks"
  "ch_post (NewChain hooks) = filter (\<lambda>h. hk_stage h = StagePost) hooks"
proof -
  have "ch_pre (foldl add_hook c hooks) = ch_pre c @ filter (\<lambda>h. hk_stage h \<noteq> StagePost) hooks \<and>
    ch_post (foldl add_hook c hooks) = ch_post c @ filter (\<lambda>h. hk_stage h = StagePost) hooks" for c
    by (induction hooks arbitrary: c) (auto simp: add_hook_def StagePre_def StagePost_def)
  then show "ch_pre (NewChain hooks) = filter (\<lambda>h. hk_stage h \<noteq> StagePost) hooks"
    "ch_post (NewChain hooks) = filter (\<lambda>h. hk_stage h = StagePost) hooks"
    by (simp_all add: NewChain_def)
qed

lemma run_post_append:
  "run_post (xs @ ys) req w =
     (case run_post xs req w of (Some err, s) \<Rightarrow> (Some err, s) | (None, req1, w1) \<Rightarrow> run_post ys req1 w1)"
  by (induction xs arbitrary: req w) (auto split: prod.split sum.split)

lemma mergePayload_entries:
  assumes "distinct (map fst updated)"
  shows "(case hq_payload (mergePayload req updated) of None \<Rightarrow> None | Some m \<Rightarrow> m k) =
    (case map_of updated k of Some v \<Rightarrow> Some v | None \<Rightarrow> (case hq_payload req of None \<Rightarrow> None | Some m \<Rightarrow> m k))"
proof -
  have "foldl (\<lambda>m (k, v). m(k \<mapsto> v)) m updated = m ++ map_of updated" for m
    using assms
  proof (induction updated arbitrary: m)
    case (Cons kv us)
    then have "map_of us (fst kv) = None" by (simp add: map_of_eq_None_iff)
    with Cons show ?case by (cases kv) (auto simp: map_add_def fun_eq_iff split: option.split)
  qed simp
  then show ?thesis by (auto simp: mergePayload_def Let_def map_add_def split: option.split)
qed

text \<open>With the audit hook at the end of any hooks, a request is written to the audit log exactly when no
  hook before it has stopped or failed and the core has succeeded: otherwise the chain ends as it would without the
  hook, and nothing more is written. The row the hook writes is one \<^verbatim>\<open>dispatched\<close> row with the request's
  identifiers as the other hooks and the core left them, and a write that fails is the chain's error.\<close>

theorem audit_hook_after_success:
  assumes "Execute (NewChain hooks) core req w = (out, req1, w1)"
    and "Execute (NewChain (hooks @ [NewPostDispatchAuditHook (Some (Write e))])) core req w = (out', req', w')"
  shows "(out \<noteq> None \<longrightarrow> out' = out \<and> req' = req1 \<and> w' = w1) \<and>
    (out = None \<longrightarrow> req' = req1 \<and>
       (out' = None \<longleftrightarrow> fst (Write e (hook_event StageDispatched req1) w1) = Inr ()) \<and>
       (out' = None \<longrightarrow> (\<exists>r. d_audit (w_db w') = d_audit (w_db w1) @ [r] \<and> ar_stage r = StageDispatched \<and>
          ar_trace_id r = nullif_text (hq_trace_id req1) \<and> ar_message_id r = nullif_text (hq_message_id req1) \<and>
          ar_delivery_channel r = nullif_text (payload_string req1 ''delivery_channel''))) \<and>
       (out' \<noteq> None \<longrightarrow> w_db w' = w_db w1))"
proof -
  let ?h = "NewPostDispatchAuditHook (Some (Write e))"
  let ?ev = "hook_event StageDispatched req1"
  have chain: "ch_pre (NewChain (hooks @ [?h])) = ch_pre (NewChain hooks)"
    "ch_post (NewChain (hooks @ [?h])) = ch_post (NewChain hooks) @ [?h]"
    by (simp_all add: NewChain_stages NewPostDispatchAuditHook_def)
  have both: "(out', req', w') = (case out of Some err \<Rightarrow> (Some err, req1, w1) | None \<Rightarrow> run_post [?h] req1 w1)"
    using assms unfolding Execute_def chain run_post_append by (auto split: prod.splits option.splits)
  show ?thesis
  proof (cases out)
    case None
    with both have run: "(out', req', w') = run_post [?h] req1 w1" by simp
    show ?thesis
    proof (cases rule: Write_cases [of e ?ev w1])
      case (written t)
      have "out' = None" "req' = req1" "w' = snd (Write e ?ev w1)"
        using run written(1) by (auto simp: NewPostDispatchAuditHook_def AuditHook_Run_def mergePayload_def
            continue_result_def split: prod.splits sum.splits)
      with None written show ?thesis
        by (simp add: append_audit_def chained_row_def unhashed_row_def hook_event_def Let_def)
    next
      case (failed err)
      have "out' \<noteq> None" "req' = req1" "w' = snd (Write e ?ev w1)"
        using run failed(1) by (auto simp: NewPostDispatchAuditHook_def AuditHook_Run_def split: prod.splits sum.splits)
      with None failed show ?thesis by simp
    qed
  qed (use both in simp)
qed

definition demo_hook_request :: hook_request where
  "demo_hook_request = \<lparr>hq_trace_id = ''t1'', hq_message_id = ''m1'', hq_endpoint = ''/v1/messages/direct'', hq_app_id = ''ops'',
     hq_capability = [], hq_route_strategy = ''direct'', hq_payload = None\<rparr>"

text \<open>A hook of the first stage that names the channel, and a core that succeeds: one row, with that channel.\<close>

definition channel_hook :: "audit_err hook" where
  "channel_hook = \<lparr>hk_name = ''channel'', hk_stage = StagePre,
     hk_run = (\<lambda>req w. (Inr (continue_result\<lparr>hz_updated := [(''delivery_channel'', Any_string ''dm'')]\<rparr>), req, w))\<rparr>"

theorem audit_hook_after_success_witness:
  "\<exists>r. d_audit (w_db (snd (snd (Execute (NewChain ([channel_hook] @ [NewPostDispatchAuditHook (Some (Write demo_env))]))
     None demo_hook_request empty_world)))) = [r] \<and> ar_stage r = StageDispatched \<and> ar_delivery_channel r = Some ''dm''"
proof -
  let ?req = "demo_hook_request\<lparr>hq_payload := Some [''delivery_channel'' \<mapsto> Any_string ''dm'']\<rparr>"
  let ?run = "Execute (NewChain ([channel_hook] @ [NewPostDispatchAuditHook (Some (Write demo_env))])) None demo_hook_request empty_world"
  have run: "Execute (NewChain [channel_hook]) None demo_hook_request empty_world = (None, ?req, empty_world)"
    by (simp add: Execute_def NewChain_stages channel_hook_def StagePre_def StagePost_def continue_result_def mergePayload_def
        demo_hook_request_def)
  have "fst (Write demo_env (hook_event StageDispatched ?req) empty_world) = Inr ()"
    by (simp add: Write_eq Let_def insertChainedQuery_def hook_event_def payload_string_def audit_stage_values_def channel_values_def nullif_text_def
        stage_defs)
  then show ?thesis
    using audit_hook_after_success [OF run, of demo_env "fst ?run" "fst (snd ?run)" "snd (snd ?run)"]
    by (auto simp: payload_string_def nullif_text_def empty_world_def empty_db_def)
qed

end
