(* ===== verification/Logging.thy ===== *)
theory Logging
  imports Api_Router Bot "HOL-Library.AList"
begin

text \<open>
  The log of the server process (\<^verbatim>\<open>src/internal/api/middleware/logger.go\<close>): how a line is made and what it hides, the recorder
  around the writer of a response and the line that the access log adds for every request, and the lines of the poller
  (\<^verbatim>\<open>src/internal/bot/poller.go\<close>). A line is its fields; the times it is stamped with are arguments. The log never influences what the
  program does: it is beside the state of the other theories.
\<close>

section \<open>Lines\<close>

text \<open>\<^verbatim>\<open>time.RFC3339Nano\<close>: the fraction without its trailing zeros.\<close>

definition nano_fraction :: "int \<Rightarrow> string" where
  "nano_fraction ns = (if ns = 0 then [] else ''.'' @ TrimRight (pad_int 9 ns) (CHR ''0''))"

definition Format_RFC3339Nano :: "time \<Rightarrow> string" where
  "Format_RFC3339Nano t = butlast (Format_RFC3339 t) @ nano_fraction (t mod second_ns) @ ''Z''"

text \<open>A later value of a key replaces an earlier one.\<close>

definition Log :: "time \<Rightarrow> string \<Rightarrow> string \<Rightarrow> details option \<Rightarrow> details" where
  "Log now level event fs =
     emit_fields (AList.update ''event'' (JStr event) (AList.update ''level'' (JStr level)
       (AList.update ''ts'' (JStr (Format_RFC3339Nano now)) (case fs of None \<Rightarrow> [] | Some m \<Rightarrow> m))))"

text \<open>The default logger has one output, the standard output until \<^verbatim>\<open>SetLogOutput\<close> names another; \<^verbatim>\<open>restore\<close> brings back the one
  that was there when it was made.\<close>

record log_state =
  lg_out :: nat
  lg_lines :: "nat \<Rightarrow> details list"

definition emit :: "details \<Rightarrow> log_state \<Rightarrow> log_state" where
  "emit line s = s\<lparr>lg_lines := (lg_lines s)(lg_out s := lg_lines s (lg_out s) @ [line])\<rparr>"

definition SetLogOutput :: "nat \<Rightarrow> log_state \<Rightarrow> (log_state \<Rightarrow> log_state) \<times> log_state" where
  "SetLogOutput w s = (\<lambda>s'. s'\<lparr>lg_out := lg_out s\<rparr>, s\<lparr>lg_out := w\<rparr>)"


section \<open>The recorder\<close>

text \<open>The writer of \<^verbatim>\<open>net/http\<close>: the first status counts, a body without a status has status 200. A connection may take only the
  first \<open>n\<close> bytes of a body.\<close>

record net_writer =
  nw_status :: "int option"
  nw_body :: bytes

definition net_WriteHeader :: "int \<Rightarrow> net_writer \<Rightarrow> net_writer" where
  "net_WriteHeader code nw = (if nw_status nw = None then nw\<lparr>nw_status := Some code\<rparr> else nw)"

definition net_Write :: "nat \<Rightarrow> bytes \<Rightarrow> net_writer \<Rightarrow> nat \<times> net_writer" where
  "net_Write n b nw = (let nw1 = net_WriteHeader 200 nw in (min n (length b), nw1\<lparr>nw_body := nw_body nw1 @ take n b\<rparr>))"

record status_recorder =
  sr_writer :: net_writer
  sr_status :: int
  sr_bytes :: nat

definition WriteHeader :: "int \<Rightarrow> status_recorder \<Rightarrow> status_recorder" where
  "WriteHeader code s = s\<lparr>sr_status := code, sr_writer := net_WriteHeader code (sr_writer s)\<rparr>"

definition Write_body :: "nat \<Rightarrow> bytes \<Rightarrow> status_recorder \<Rightarrow> status_recorder" where
  "Write_body n b s =
     (let s1 = (if sr_status s = 0 then s\<lparr>sr_status := 200\<rparr> else s)
      in case net_Write n b (sr_writer s1) of (k, nw) \<Rightarrow> s1\<lparr>sr_writer := nw, sr_bytes := sr_bytes s1 + k\<rparr>)"

datatype write_op = Op_header int | Op_body nat bytes

fun run_op :: "write_op \<Rightarrow> status_recorder \<Rightarrow> status_recorder" where
  "run_op (Op_header code) s = WriteHeader code s"
| "run_op (Op_body n b) s = Write_body n b s"

definition run_ops :: "write_op list \<Rightarrow> status_recorder \<Rightarrow> status_recorder" where
  "run_ops ops s = fold run_op ops s"

definition new_recorder :: status_recorder where
  "new_recorder = \<lparr>sr_writer = \<lparr>nw_status = None, nw_body = []\<rparr>, sr_status = 0, sr_bytes = 0\<rparr>"


section \<open>The access log\<close>

definition Milliseconds :: "duration \<Rightarrow> int" where
  "Milliseconds d = sgn d * (\<bar>d\<bar> div 1000000)"

definition access_line :: "http_request \<Rightarrow> status_recorder \<Rightarrow> time \<Rightarrow> time \<Rightarrow> details" where
  "access_line r rec start fin =
     Log fin ''info'' ''http_access'' (Some
       [(''trace_id'', JStr (hr_trace r)), (''method'', JStr (hr_method r)), (''path'', JStr (sanitizePath (hr_path r))),
        (''status'', JInt (sr_status rec)), (''bytes'', JInt (int (sr_bytes rec))), (''duration_ms'', JInt (Milliseconds (time_sub fin start)))])"

text \<open>Every answer of the handlers is written by \<^verbatim>\<open>writeJSON\<close> or \<^verbatim>\<open>http.Error\<close>: one status, then one body. The encoded body
  (\<open>wire\<close>) and how much of it the connection takes (\<open>sent\<close>) are arguments.\<close>

definition response_ops :: "(response \<Rightarrow> bytes) \<Rightarrow> (response \<Rightarrow> nat) \<Rightarrow> response \<Rightarrow> write_op list" where
  "response_ops wire sent resp = [Op_header (rs_status resp), Op_body (sent resp) (wire resp)]"

definition AccessLog ::
  "(response \<Rightarrow> bytes) \<Rightarrow> (response \<Rightarrow> nat) \<Rightarrow> time \<times> time \<Rightarrow> handler \<Rightarrow> http_request \<Rightarrow> world \<Rightarrow> (response \<times> net_writer \<times> details) \<times> world" where
  "AccessLog wire sent clk nxt r w =
     (case nxt r w of (resp, w1) \<Rightarrow>
      let rec = run_ops (response_ops wire sent resp) new_recorder
      in ((resp, sr_writer rec, access_line r rec (fst clk) (snd clk)), w1))"


section \<open>The poller\<close>

text \<open>\<^verbatim>\<open>updateSummary\<close>: what an error of a handler logs of the update; \<open>callback\<close> tells that the update is a callback query.\<close>

definition updateSummary :: "update \<Rightarrow> bool \<Rightarrow> details" where
  "updateSummary u callback =
     (case up_message u of
        Some m \<Rightarrow> [(''kind'', JStr ''message''), (''chat_id'', JInt (tc_id (tm_chat m))),
                    (''from_id'', JInt (case tm_from m of Some f \<Rightarrow> tu_id f | None \<Rightarrow> 0))]
      | None \<Rightarrow>
          (case up_my_chat_member u of
             Some mu \<Rightarrow> [(''kind'', JStr ''my_chat_member''), (''chat_id'', JInt (tc_id (mu_chat mu)))]
           | None \<Rightarrow>
               (case up_chat_member u of
                  Some mu \<Rightarrow> [(''kind'', JStr ''chat_member''), (''chat_id'', JInt (tc_id (mu_chat mu)))]
                | None \<Rightarrow> [(''kind'', JStr (if callback then ''callback_query'' else ''other''))])))"

text \<open>\<^verbatim>\<open>Poller.Run\<close>: a poller that is running already returns at once; otherwise it handles the updates that long polling delivers until
  the channel is closed (\<open>Inl\<close> is the error of the start). The flag is set while it runs and reset when it returns.\<close>

definition Poller_Run :: "env \<Rightarrow> bot_config \<Rightarrow> string + update list \<Rightarrow> bool \<times> world \<Rightarrow> string option \<times> bool \<times> world" where
  "Poller_Run e c polled s =
     (case s of (running, w) \<Rightarrow>
      if running then (None, running, w)
      else (case polled of Inl err \<Rightarrow> (Some err, False, w) | Inr us \<Rightarrow> (None, False, poller_run e c us w)))"


section \<open>What a line hides and keeps\<close>

lemma map_of_emit_fields:
  "map_of (emit_fields fs) k = map_option (\<lambda>v. if RedactKey k then JStr ''[REDACTED]'' else v) (map_of fs k)"
  by (induction fs) (auto simp: emit_fields_def)

lemma plain_keys [simp]:
  "\<not> RedactKey ''ts''" "\<not> RedactKey ''level''" "\<not> RedactKey ''event''" "\<not> RedactKey ''trace_id''" "\<not> RedactKey ''method''"
  "\<not> RedactKey ''path''" "\<not> RedactKey ''status''" "\<not> RedactKey ''bytes''" "\<not> RedactKey ''duration_ms''"
  by code_simp+

text \<open>Whatever the fields, the value under a key that names a secret is not in the line; other fields are, but for the three of the
  line itself.\<close>

lemma Log_hides: "RedactKey k \<Longrightarrow> map_of (Log now level event fs) k \<in> {None, Some (JStr ''[REDACTED]'')}"
  by (auto simp: Log_def map_of_emit_fields)

lemma Log_keeps:
  assumes "\<not> RedactKey k"
  shows "map_of (Log now level event (Some fs)) k =
    (if k = ''event'' then Some (JStr event) else if k = ''level'' then Some (JStr level)
     else if k = ''ts'' then Some (JStr (Format_RFC3339Nano now)) else map_of fs k)"
  using assms by (simp add: Log_def map_of_emit_fields update_conv' fun_upd_def option.map_ident)

text \<open>Lines that are written between a redirection and its \<^verbatim>\<open>restore\<close> go to the new output, and to no other.\<close>

lemma redirected_lines:
  assumes "SetLogOutput w s = (restore, s1)"
  shows "restore (fold emit ls s1) = s\<lparr>lg_lines := (lg_lines s)(w := lg_lines s w @ ls)\<rparr>"
proof -
  have "fold emit ls s1 = s1\<lparr>lg_lines := (lg_lines s1)(lg_out s1 := lg_lines s1 (lg_out s1) @ ls)\<rparr>" for s1
    by (induction ls arbitrary: s1) (simp_all add: emit_def)
  then show ?thesis using assms by (auto simp: SetLogOutput_def)
qed


section \<open>What the recorder records\<close>

text \<open>The number of bytes is right whatever is written. The status is the one that is sent when the handler sets it once, before the
  body, or leaves it to the body.\<close>

lemma run_ops_bytes: "sr_bytes (run_ops ops s) + length (nw_body (sr_writer s)) = sr_bytes s + length (nw_body (sr_writer (run_ops ops s)))"
  unfolding run_ops_def
proof (induction ops arbitrary: s)
  case (Cons op ops)
  have "sr_bytes (run_op op s) + length (nw_body (sr_writer s)) = sr_bytes s + length (nw_body (sr_writer (run_op op s)))"
    by (cases op) (auto simp: WriteHeader_def Write_body_def net_Write_def net_WriteHeader_def Let_def)
  with Cons.IH [of "run_op op s"] show ?case by simp
qed simp

lemma run_bodies:
  assumes "nw_status (sr_writer s) = Some (sr_status s)" "sr_status s \<noteq> 0"
  shows "nw_status (sr_writer (run_ops (map (\<lambda>(n, b). Op_body n b) bs) s)) = Some (sr_status s) \<and>
    sr_status (run_ops (map (\<lambda>(n, b). Op_body n b) bs) s) = sr_status s"
  using assms unfolding run_ops_def
proof (induction bs arbitrary: s)
  case (Cons nb bs)
  obtain n b where nb: "nb = (n, b)" by fastforce
  have "sr_status (Write_body n b s) = sr_status s" "nw_status (sr_writer (Write_body n b s)) = Some (sr_status s)"
    using Cons.prems by (simp_all add: Write_body_def net_Write_def net_WriteHeader_def Let_def)
  with Cons.IH [of "Write_body n b s"] Cons.prems(2) show ?case by (simp add: nb)
qed simp

lemma recorded_status:
  assumes "ops = Op_header code # map (\<lambda>(n, b). Op_body n b) bs" "code \<noteq> 0"
  shows "nw_status (sr_writer (run_ops ops new_recorder)) = Some code" "sr_status (run_ops ops new_recorder) = code"
  using run_bodies [of "WriteHeader code new_recorder" bs] assms
  by (simp_all add: run_ops_def WriteHeader_def net_WriteHeader_def new_recorder_def)

lemma recorded_status_body:
  "ops = map (\<lambda>(n, b). Op_body n b) bs \<Longrightarrow> bs \<noteq> [] \<Longrightarrow>
    nw_status (sr_writer (run_ops ops new_recorder)) = Some 200 \<and> sr_status (run_ops ops new_recorder) = 200"
proof (cases bs)
  case (Cons nb bs')
  assume "ops = map (\<lambda>(n, b). Op_body n b) bs"
  then show ?thesis using Cons run_bodies [of "Write_body (fst nb) (snd nb) new_recorder" bs']
    by (cases nb) (simp add: run_ops_def Write_body_def net_Write_def net_WriteHeader_def new_recorder_def Let_def)
qed simp

text \<open>Otherwise they differ: the recorder keeps the last status, the writer the first. A time-out that sets 504 after a handler has
  answered is logged and not sent; a handler that writes nothing is logged with status 0.\<close>

lemma recorded_status_differs:
  "nw_status (sr_writer (run_ops [Op_header 500, Op_body n b, Op_header 504] new_recorder)) = Some 500"
  "sr_status (run_ops [Op_header 500, Op_body n b, Op_header 504] new_recorder) = 504"
  "sr_status (run_ops [] new_recorder) = 0"
  by (simp_all add: run_ops_def WriteHeader_def Write_body_def net_Write_def net_WriteHeader_def new_recorder_def Let_def)


section \<open>The access log of the API\<close>

lemma sanitizePath_no_query: "CHR ''?'' \<notin> set (sanitizePath p)"
proof -
  have "IndexByte p c = None \<longleftrightarrow> c \<notin> set p" "IndexByte p c = Some i \<Longrightarrow> c \<notin> set (take i p)" for c i
    by (induction p arbitrary: i) (auto split: if_splits)
  then show ?thesis by (auto simp: sanitizePath_def split: option.split)
qed

text \<open>The middleware changes neither the answer nor the state, sends the answer's status and adds one line, which tells the request's trace
  and method, its path without a query, and the status and the number of bytes that were sent.\<close>

lemma AccessLog_line:
  assumes "AccessLog wire sent clk nxt r w = ((resp, nw, line), w')" "rs_status resp \<noteq> 0"
  shows "nxt r w = (resp, w')" "nw_status nw = Some (rs_status resp)" "nw_body nw = take (sent resp) (wire resp)"
    "map_of line ''event'' = Some (JStr ''http_access'')" "map_of line ''trace_id'' = Some (JStr (hr_trace r))"
    "map_of line ''method'' = Some (JStr (hr_method r))" "map_of line ''status'' = Some (JInt (rs_status resp))"
    "map_of line ''bytes'' = Some (JInt (int (length (nw_body nw))))" "\<exists>p. map_of line ''path'' = Some (JStr p) \<and> CHR ''?'' \<notin> set p"
proof -
  let ?rec = "run_ops (response_ops wire sent resp) new_recorder"
  have eqs: "nxt r w = (resp, w')" "nw = sr_writer ?rec" "line = access_line r ?rec (fst clk) (snd clk)"
    using assms(1) by (auto simp: AccessLog_def Let_def split: prod.splits)
  have ops: "response_ops wire sent resp = Op_header (rs_status resp) # map (\<lambda>(n, b). Op_body n b) [(sent resp, wire resp)]"
    by (simp add: response_ops_def)
  note st = recorded_status [OF ops assms(2)]
  have body: "sr_bytes ?rec = length (nw_body nw)" using run_ops_bytes [of "response_ops wire sent resp" new_recorder] eqs(2)
    by (simp add: new_recorder_def)
  show "nxt r w = (resp, w')" by (rule eqs)
  show "nw_status nw = Some (rs_status resp)" using st(1) eqs(2) by simp
  show "nw_body nw = take (sent resp) (wire resp)" unfolding eqs(2)
    by (simp add: response_ops_def run_ops_def WriteHeader_def Write_body_def net_Write_def net_WriteHeader_def new_recorder_def Let_def)
  show "map_of line ''event'' = Some (JStr ''http_access'')" "map_of line ''trace_id'' = Some (JStr (hr_trace r))"
    "map_of line ''method'' = Some (JStr (hr_method r))" "map_of line ''status'' = Some (JInt (rs_status resp))"
    "map_of line ''bytes'' = Some (JInt (int (length (nw_body nw))))" "\<exists>p. map_of line ''path'' = Some (JStr p) \<and> CHR ''?'' \<notin> set p"
    unfolding eqs(3) access_line_def using st(2) body sanitizePath_no_query by (simp_all add: Log_keeps)
qed

text \<open>A poller that ran is not running afterwards, and a second start while it runs does nothing.\<close>

lemma Poller_Run_flag:
  "Poller_Run e c polled (running, w) = (err, running', w') \<Longrightarrow> running' = running"
  "Poller_Run e c polled (True, w) = (None, True, w)"
  "Poller_Run e c (Inr us) (False, w) = (None, False, poller_run e c us w)"
  by (auto simp: Poller_Run_def split: if_splits sum.splits)

end
