(* ===== verification/Mock_Telegram.thy ===== *)
theory Mock_Telegram
  imports Auth "HOL-Library.Word" "HOL-Library.Sublist" "HOL-Library.Multiset"
begin

text \<open>
  The stub of the Telegram Bot API that the tests and the development stack run against
  (\<^verbatim>\<open>src/internal/mocktelegram/server.go\<close>): it records the calls it receives, in a window of bounded length, hands
  injected updates to the poller of the bot, and blocks an empty poll like the real API. Requests are served by goroutines that share
  one state under a mutex; \<^verbatim>\<open>mock_step\<close> interleaves them with the polls that are waiting. What
  \<^verbatim>\<open>encoding/json\<close> makes of a body is an argument, \<^verbatim>\<open>json_codec\<close>. The counters are
  mathematical integers: a run makes fewer than \<open>2 ^ 63\<close> calls.
\<close>

section \<open>State\<close>

definition maxRecordedCalls :: nat where "maxRecordedCalls = 2048"
definition maxQueuedUpdates :: nat where "maxQueuedUpdates = 1024"

record mock_call =
  mc_method :: string
  mc_token :: string
  mc_body :: bytes

text \<open>A JSON object: the texts of its fields.\<close>

type_synonym json_object = "string \<rightharpoonup> string"

record mock_state =
  ms_calls :: "mock_call list"
  ms_dropped :: int
  ms_msg_seq :: int
  ms_topic_seq :: int
  ms_update_seq :: int
  ms_queue :: "json_object list"

definition new_mock :: mock_state where
  "new_mock = \<lparr>ms_calls = [], ms_dropped = 0, ms_msg_seq = 0, ms_topic_seq = 0, ms_update_seq = 0, ms_queue = []\<rparr>"

text \<open>What \<^verbatim>\<open>json.Unmarshal\<close> into a map gives: an error, a nil map for \<^verbatim>\<open>null\<close>, or the fields.\<close>

datatype decoded_map = Not_an_object | Nil_map | Fields json_object

record json_codec =
  jc_valid :: "bytes \<Rightarrow> bool"
  jc_map :: "bytes \<Rightarrow> decoded_map"
  jc_timeout :: "bytes \<Rightarrow> int option"


section \<open>Operations\<close>

text \<open>The bounded window that calls and updates share: the oldest element gives way to the newest.\<close>

definition push_window :: "nat \<Rightarrow> 'a list \<Rightarrow> 'a \<Rightarrow> 'a list" where
  "push_window cap xs x = (if length xs \<ge> cap then tl xs @ [x] else xs @ [x])"

definition CallsForMethod :: "string \<Rightarrow> mock_state \<Rightarrow> mock_call list" where
  "CallsForMethod m s = filter (\<lambda>c. mc_method c = m) (ms_calls s)"

definition Reset :: "mock_state \<Rightarrow> mock_state" where
  "Reset s = s\<lparr>ms_calls := [], ms_dropped := 0\<rparr>"

definition record_call :: "string \<Rightarrow> string \<Rightarrow> bytes \<Rightarrow> mock_state \<Rightarrow> mock_state" where
  "record_call token m body s =
     s\<lparr>ms_calls := push_window maxRecordedCalls (ms_calls s) \<lparr>mc_method = m, mc_token = token, mc_body = body\<rparr>,
       ms_dropped := (if length (ms_calls s) \<ge> maxRecordedCalls then ms_dropped s + 1 else ms_dropped s)\<rparr>"

text \<open>An update is numbered before it is stored; storing into a nil map panics, and the number is lost.\<close>

definition numbered :: "decoded_map \<Rightarrow> int \<Rightarrow> json_object option" where
  "numbered v n =
     (case v of Not_an_object \<Rightarrow> Some [''update_id'' \<mapsto> FormatInt n] | Nil_map \<Rightarrow> None | Fields obj \<Rightarrow> Some (obj(''update_id'' \<mapsto> FormatInt n)))"

definition take_number :: "json_codec \<Rightarrow> bytes \<Rightarrow> mock_state \<Rightarrow> json_object option \<times> mock_state" where
  "take_number jc raw s =
     (let n = ms_update_seq s + 1 in (numbered (jc_map jc raw) n, s\<lparr>ms_update_seq := n\<rparr>))"

definition push_update :: "json_object \<Rightarrow> mock_state \<Rightarrow> mock_state" where
  "push_update out s = s\<lparr>ms_queue := push_window maxQueuedUpdates (ms_queue s) out\<rparr>"

definition Inject :: "json_codec \<Rightarrow> bytes \<Rightarrow> mock_state \<Rightarrow> unit option \<times> mock_state" where
  "Inject jc raw s =
     (case take_number jc raw s of (None, s1) \<Rightarrow> (None, s1) | (Some out, s1) \<Rightarrow> (Some (), push_update out s1))"

definition drainQueue :: "mock_state \<Rightarrow> json_object list \<times> mock_state" where
  "drainQueue s = (ms_queue s, s\<lparr>ms_queue := []\<rparr>)"

text \<open>The timeout of a poll: \<^verbatim>\<open>time.Duration(p.Timeout) * time.Second\<close> is a product of 64-bit integers.\<close>

definition maxWait :: duration where "maxWait = 30 * second_ns"
definition poll_tick :: duration where "poll_tick = 100000000"

definition longPollTimeout :: "json_codec \<Rightarrow> bytes \<Rightarrow> duration" where
  "longPollTimeout jc body =
     (case jc_timeout jc body of
        None \<Rightarrow> 0
      | Some n \<Rightarrow>
          (if n \<le> 0 then 0
           else (let d = sint (word_of_int n * word_of_int second_ns :: 64 word) in if d > maxWait then maxWait else d)))"


section \<open>Requests\<close>

record mock_request =
  mq_method :: string
  mq_path :: string
  mq_body :: bytes

datatype mock_reply =
    M_ok
  | M_calls "(string \<times> string \<times> bytes) list"
  | M_nothing
  | M_message int
  | M_me
  | M_updates "json_object list"
  | M_topic int
  | M_true
  | M_administrators
  | M_not_found

record mock_response =
  mp_status :: int
  mp_dropped :: "string option"
  mp_reply :: mock_reply

datatype mock_outcome = Replied mock_response | Polling duration | Panicked

abbreviation mock_ok :: "mock_reply \<Rightarrow> mock_outcome" where
  "mock_ok v \<equiv> Replied \<lparr>mp_status = 200, mp_dropped = None, mp_reply = v\<rparr>"

abbreviation mock_missing :: mock_outcome where
  "mock_missing \<equiv> Replied \<lparr>mp_status = 404, mp_dropped = None, mp_reply = M_not_found\<rparr>"

text \<open>The recorded calls as one array. A body that is empty is shown as \<^verbatim>\<open>null\<close>; a body that is no JSON text makes the encoder
  fail before it has written anything.\<close>

definition shown_calls :: "json_codec \<Rightarrow> mock_call list \<Rightarrow> mock_reply" where
  "shown_calls jc calls =
     (if list_all (\<lambda>c. mc_body c = [] \<or> jc_valid jc (mc_body c)) calls
      then M_calls (map (\<lambda>c. (mc_method c, mc_token c, if mc_body c = [] then ''null'' else mc_body c)) calls)
      else M_nothing)"

text \<open>\<^verbatim>\<open>/bot<token>/<method>\<close>\<close>

definition bot_path :: "string \<Rightarrow> (string \<times> string) option" where
  "bot_path p =
     (if \<not> HasPrefix p ''/bot'' then None
      else (let rest = drop 4 p
            in case IndexByte rest (CHR ''/'') of
                 None \<Rightarrow> None
               | Some i \<Rightarrow> if i = 0 \<or> i = length rest - 1 then None else Some (take i rest, drop (i + 1) rest)))"

definition answer_poll :: "json_codec \<Rightarrow> bytes \<Rightarrow> mock_state \<Rightarrow> mock_outcome \<times> mock_state" where
  "answer_poll jc body s =
     (case drainQueue s of (updates, s1) \<Rightarrow>
        (if updates = [] \<and> longPollTimeout jc body > 0 then (Polling (longPollTimeout jc body), s1)
         else (mock_ok (M_updates updates), s1)))"

definition bot_method :: "json_codec \<Rightarrow> string \<Rightarrow> bytes \<Rightarrow> mock_state \<Rightarrow> mock_outcome \<times> mock_state" where
  "bot_method jc m body s =
     (if m = ''sendMessage'' then (mock_ok (M_message (ms_msg_seq s + 1)), s\<lparr>ms_msg_seq := ms_msg_seq s + 1\<rparr>)
      else if m = ''getMe'' then (mock_ok M_me, s)
      else if m = ''getUpdates'' then answer_poll jc body s
      else if m = ''createForumTopic'' then (mock_ok (M_topic (ms_topic_seq s + 1 + 100)), s\<lparr>ms_topic_seq := ms_topic_seq s + 1\<rparr>)
      else if m \<in> {''closeForumTopic'', ''banChatMember''} then (mock_ok M_true, s)
      else if m = ''getChatAdministrators'' then (mock_ok M_administrators, s)
      else (mock_missing, s))"

definition mock_serve :: "json_codec \<Rightarrow> mock_request \<Rightarrow> mock_state \<Rightarrow> mock_outcome \<times> mock_state" where
  "mock_serve jc r s =
     (if mq_path r = ''/test/inject-update'' then
        (case Inject jc (mq_body r) s of (None, s1) \<Rightarrow> (Panicked, s1) | (Some _, s1) \<Rightarrow> (mock_ok M_ok, s1))
      else if mq_path r = ''/test/calls'' \<and> mq_method r = ''GET'' then
        (Replied \<lparr>mp_status = 200, mp_dropped = Some (FormatInt (ms_dropped s)), mp_reply = shown_calls jc (ms_calls s)\<rparr>, s)
      else if mq_path r = ''/test/reset'' \<and> mq_method r = ''POST'' then (mock_ok M_ok, Reset s)
      else
        (case bot_path (mq_path r) of
           None \<Rightarrow> (mock_missing, s)
         | Some (token, m) \<Rightarrow> bot_method jc m (mq_body r) (record_call token m (mq_body r) s)))"


section \<open>Interleaved requests\<close>

text \<open>
  The mutex is taken and released more than once within a request: an update is numbered in one step and stored in another, a call is
  recorded in one step and answered in another, the window and the number of evicted calls are read one after the other. The state of
  the running server has, beside the shared state, the updates that are numbered and not yet stored, the calls that are recorded and
  not yet answered, and the polls that are waiting, with the time that is left to each. A waiting poll looks at the queue every
  \<^verbatim>\<open>poll_tick\<close>; its deadline is taken at the latest when the tick after it comes.
\<close>

record mock_system =
  sy_mock :: mock_state
  sy_storing :: "json_object list"
  sy_answering :: "(string \<times> bytes) list"
  sy_polls :: "duration list"

datatype mock_label =
    L_numbered json_object
  | L_panicked
  | L_stored json_object
  | L_recorded mock_call
  | L_answered mock_outcome
  | L_listed "mock_call list"
  | L_counted int
  | L_reset
  | L_tick "json_object list"
  | L_timed_out
  | L_cancelled

inductive mock_step :: "json_codec \<Rightarrow> mock_system \<Rightarrow> mock_label \<Rightarrow> mock_system \<Rightarrow> bool" for jc where
  number: "take_number jc raw s = (Some out, s') \<Longrightarrow>
    mock_step jc \<lparr>sy_mock = s, sy_storing = us, sy_answering = qs, sy_polls = ps\<rparr> (L_numbered out)
      \<lparr>sy_mock = s', sy_storing = out # us, sy_answering = qs, sy_polls = ps\<rparr>"
| panic: "take_number jc raw s = (None, s') \<Longrightarrow>
    mock_step jc \<lparr>sy_mock = s, sy_storing = us, sy_answering = qs, sy_polls = ps\<rparr> L_panicked
      \<lparr>sy_mock = s', sy_storing = us, sy_answering = qs, sy_polls = ps\<rparr>"
| store: "mock_step jc \<lparr>sy_mock = s, sy_storing = us @ out # us', sy_answering = qs, sy_polls = ps\<rparr> (L_stored out)
      \<lparr>sy_mock = push_update out s, sy_storing = us @ us', sy_answering = qs, sy_polls = ps\<rparr>"
| rec_call: "mock_step jc \<lparr>sy_mock = s, sy_storing = us, sy_answering = qs, sy_polls = ps\<rparr>
      (L_recorded \<lparr>mc_method = m, mc_token = token, mc_body = body\<rparr>)
      \<lparr>sy_mock = record_call token m body s, sy_storing = us, sy_answering = (m, body) # qs, sy_polls = ps\<rparr>"
| answer: "bot_method jc m body s = (Replied resp, s') \<Longrightarrow>
    mock_step jc \<lparr>sy_mock = s, sy_storing = us, sy_answering = qs @ (m, body) # qs', sy_polls = ps\<rparr> (L_answered (Replied resp))
      \<lparr>sy_mock = s', sy_storing = us, sy_answering = qs @ qs', sy_polls = ps\<rparr>"
| wait: "bot_method jc m body s = (Polling d, s') \<Longrightarrow>
    mock_step jc \<lparr>sy_mock = s, sy_storing = us, sy_answering = qs @ (m, body) # qs', sy_polls = ps\<rparr> (L_answered (Polling d))
      \<lparr>sy_mock = s', sy_storing = us, sy_answering = qs @ qs', sy_polls = d # ps\<rparr>"
| list_calls: "mock_step jc y (L_listed (ms_calls (sy_mock y))) y"
| count: "mock_step jc y (L_counted (ms_dropped (sy_mock y))) y"
| reset: "mock_step jc y L_reset (y\<lparr>sy_mock := Reset (sy_mock y)\<rparr>)"
| tick: "drainQueue s = (updates, s') \<Longrightarrow> updates \<noteq> [] \<Longrightarrow>
    mock_step jc \<lparr>sy_mock = s, sy_storing = us, sy_answering = qs, sy_polls = ps @ d # ps'\<rparr> (L_tick updates)
      \<lparr>sy_mock = s', sy_storing = us, sy_answering = qs, sy_polls = ps @ ps'\<rparr>"
| idle: "drainQueue s = ([], s') \<Longrightarrow> 0 \<le> d \<Longrightarrow>
    mock_step jc \<lparr>sy_mock = s, sy_storing = us, sy_answering = qs, sy_polls = ps @ d # ps'\<rparr> (L_tick [])
      \<lparr>sy_mock = s', sy_storing = us, sy_answering = qs, sy_polls = ps @ (d - poll_tick) # ps'\<rparr>"
| time_out: "d \<le> poll_tick \<Longrightarrow>
    mock_step jc \<lparr>sy_mock = s, sy_storing = us, sy_answering = qs, sy_polls = ps @ d # ps'\<rparr> L_timed_out
      \<lparr>sy_mock = s, sy_storing = us, sy_answering = qs, sy_polls = ps @ ps'\<rparr>"
| cancel: "mock_step jc \<lparr>sy_mock = s, sy_storing = us, sy_answering = qs, sy_polls = ps @ d # ps'\<rparr> L_cancelled
      \<lparr>sy_mock = s, sy_storing = us, sy_answering = qs, sy_polls = ps @ ps'\<rparr>"

inductive mock_run :: "json_codec \<Rightarrow> mock_system \<Rightarrow> mock_label list \<Rightarrow> mock_system \<Rightarrow> bool" for jc where
  start: "mock_run jc y [] y"
| step: "mock_run jc y tr y1 \<Longrightarrow> mock_step jc y1 l y2 \<Longrightarrow> mock_run jc y (tr @ [l]) y2"

definition new_system :: mock_system where
  "new_system = \<lparr>sy_mock = new_mock, sy_storing = [], sy_answering = [], sy_polls = []\<rparr>"


section \<open>What a run has done\<close>

text \<open>The calls since the last reset, the updates in the order in which they were stored, those that no answer has taken, those that
  were handed out.\<close>

fun note_call :: "mock_call list \<Rightarrow> mock_label \<Rightarrow> mock_call list" where
  "note_call cs (L_recorded c) = cs @ [c]"
| "note_call cs L_reset = []"
| "note_call cs _ = cs"

definition recorded :: "mock_label list \<Rightarrow> mock_call list" where "recorded = foldl note_call []"

fun handed_out :: "mock_label \<Rightarrow> json_object list" where
  "handed_out (L_answered (Replied resp)) = (case mp_reply resp of M_updates us \<Rightarrow> us | _ \<Rightarrow> [])"
| "handed_out (L_tick us) = us"
| "handed_out _ = []"

definition delivered :: "mock_label list \<Rightarrow> json_object list" where "delivered tr = concat (map handed_out tr)"

fun stored_by :: "mock_label \<Rightarrow> json_object list" where
  "stored_by (L_stored u) = [u]"
| "stored_by _ = []"

definition stored :: "mock_label list \<Rightarrow> json_object list" where "stored tr = concat (map stored_by tr)"

fun numbered_by :: "mock_label \<Rightarrow> json_object list" where
  "numbered_by (L_numbered u) = [u]"
| "numbered_by _ = []"

definition numbered_in :: "mock_label list \<Rightarrow> json_object list" where "numbered_in tr = concat (map numbered_by tr)"

text \<open>The last elements of a list, and the law of the bounded window.\<close>

definition last_n :: "nat \<Rightarrow> 'a list \<Rightarrow> 'a list" where "last_n n xs = drop (length xs - n) xs"

locale bounded_window =
  fixes cap :: nat
  assumes cap_pos: "0 < cap"
begin

lemma push_last_n: "push_window cap (last_n cap xs) x = last_n cap (xs @ [x])"
proof (cases "length xs \<ge> cap")
  case True
  then have "length xs + 1 - cap = Suc (length xs - cap)" "length xs - cap < length xs" using cap_pos by linarith+
  with True show ?thesis by (simp add: push_window_def last_n_def drop_Suc tl_drop)
qed (simp add: push_window_def last_n_def)

lemma full_iff: "length (last_n cap xs) \<ge> cap \<longleftrightarrow> length xs \<ge> cap"
  by (simp add: last_n_def) linarith

lemma push_length: "length xs \<le> cap \<Longrightarrow> length (push_window cap xs x) \<le> cap"
  using cap_pos by (cases xs) (auto simp: push_window_def)

lemma push_short: "length xs < cap \<Longrightarrow> push_window cap xs x = xs @ [x]"
  by (simp add: push_window_def)

lemma push_subseq: "subseq (push_window cap xs x) (xs @ [x])"
  by (cases xs) (auto simp: push_window_def)

end

interpretation calls_window: bounded_window maxRecordedCalls
  by unfold_locales (simp add: maxRecordedCalls_def)

interpretation updates_window: bounded_window maxQueuedUpdates
  by unfold_locales (simp add: maxQueuedUpdates_def)

inductive_cases mock_stepE: "mock_step jc y l y'"

lemma answer_poll_cases:
  obtains "answer_poll jc body s = (Polling (longPollTimeout jc body), s\<lparr>ms_queue := []\<rparr>)" "ms_queue s = []" "0 < longPollTimeout jc body"
  | "answer_poll jc body s = (mock_ok (M_updates (ms_queue s)), s\<lparr>ms_queue := []\<rparr>)"
  by (cases "ms_queue s = [] \<and> longPollTimeout jc body > 0") (simp_all add: answer_poll_def drainQueue_def)

lemma bot_method_other: "m \<noteq> ''getUpdates'' \<Longrightarrow> bot_method jc m body s = (r, s') \<Longrightarrow>
  (\<exists>resp. r = Replied resp) \<and> handed_out (L_answered r) = [] \<and> ms_queue s' = ms_queue s \<and> ms_calls s' = ms_calls s \<and>
  ms_dropped s' = ms_dropped s \<and> ms_update_seq s' = ms_update_seq s"
  unfolding bot_method_def by (simp only: if_False split: if_split_asm; elim conjE Pair_inject; hypsubst; simp)

lemma bot_method_poll: "bot_method jc ''getUpdates'' body s = answer_poll jc body s"
  by (simp add: bot_method_def)

lemma bot_method_run:
  assumes "bot_method jc m body s = (r, s')"
  shows "ms_calls s' = ms_calls s" "ms_dropped s' = ms_dropped s" "ms_update_seq s' = ms_update_seq s"
    "ms_queue s' = ms_queue s \<and> handed_out (L_answered r) = [] \<or> ms_queue s' = [] \<and> handed_out (L_answered r) = ms_queue s"
proof -
  have "ms_calls s' = ms_calls s \<and> ms_dropped s' = ms_dropped s \<and> ms_update_seq s' = ms_update_seq s \<and>
    (ms_queue s' = ms_queue s \<and> handed_out (L_answered r) = [] \<or> ms_queue s' = [] \<and> handed_out (L_answered r) = ms_queue s)"
  proof (cases "m = ''getUpdates''")
    case True
    with assms have "answer_poll jc body s = (r, s')" by (simp add: bot_method_poll)
    then show ?thesis by (cases rule: answer_poll_cases [of jc body s]) auto
  qed (use bot_method_other assms in blast)
  then show "ms_calls s' = ms_calls s" "ms_dropped s' = ms_dropped s" "ms_update_seq s' = ms_update_seq s"
    "ms_queue s' = ms_queue s \<and> handed_out (L_answered r) = [] \<or> ms_queue s' = [] \<and> handed_out (L_answered r) = ms_queue s"
    by blast+
qed

lemma recorded_snoc [simp]: "recorded (tr @ [l]) = note_call (recorded tr) l" and recorded_Nil [simp]: "recorded [] = []"
  by (simp_all add: recorded_def)

lemma calls_windowed:
  assumes "mock_run jc new_system tr y"
  shows "ms_calls (sy_mock y) = last_n maxRecordedCalls (recorded tr) \<and>
    ms_dropped (sy_mock y) = int (length (recorded tr) - maxRecordedCalls)"
  using assms
proof (induction new_system tr y rule: mock_run.induct)
  case start
  show ?case by (simp add: new_system_def new_mock_def last_n_def)
next
  case (step tr y1 l y2)
  note ih = step.hyps(2)
  from step.hyps(3) show ?case
  proof cases
    case (rec_call s us qs ps m token body)
    with ih show ?thesis
      by (auto simp: record_call_def calls_window.push_last_n calls_window.full_iff of_nat_diff)
  qed (use ih in \<open>auto simp: take_number_def push_update_def Let_def Reset_def drainQueue_def last_n_def bot_method_run\<close>)
qed

lemma trace_snoc [simp]:
  "delivered (tr @ [l]) = delivered tr @ handed_out l" "stored (tr @ [l]) = stored tr @ stored_by l"
  "numbered_in (tr @ [l]) = numbered_in tr @ numbered_by l"
  "delivered [] = []" "stored [] = []" "numbered_in [] = []"
  by (simp_all add: delivered_def stored_def numbered_in_def)

text \<open>A step stores one update at the end of the queue, or hands out what is at its head; the rest keeps both.\<close>

lemma mock_step_queue:
  assumes "mock_step jc y l y'"
  shows "(\<exists>u. l = L_stored u \<and> ms_queue (sy_mock y') = push_window maxQueuedUpdates (ms_queue (sy_mock y)) u) \<or>
    stored_by l = [] \<and> handed_out l @ ms_queue (sy_mock y') = ms_queue (sy_mock y)"
  using assms
proof cases
  case (answer m body s resp s')
  then show ?thesis using bot_method_run(4) [OF answer(4)] by auto
next
  case (wait m body s d s')
  then show ?thesis using bot_method_run(4) [OF wait(4)] by auto
qed (auto simp: take_number_def push_update_def Let_def record_call_def Reset_def drainQueue_def)

lemma queue_in_order:
  assumes "mock_run jc new_system tr y"
  shows "subseq (delivered tr @ ms_queue (sy_mock y)) (stored tr)"
  using assms
proof (induction new_system tr y rule: mock_run.induct)
  case start
  show ?case by (simp add: new_system_def new_mock_def)
next
  case (step tr y1 l y2)
  note ih = step.hyps(2)
  from mock_step_queue [OF step.hyps(3)] show ?case
  proof (elim disjE exE conjE)
    fix u assume u: "l = L_stored u" "ms_queue (sy_mock y2) = push_window maxQueuedUpdates (ms_queue (sy_mock y1)) u"
    have "subseq (delivered tr @ ms_queue (sy_mock y2)) ((delivered tr @ ms_queue (sy_mock y1)) @ [u])"
      unfolding u(2) append_assoc by (intro list_emb_append_mono updates_window.push_subseq subseq_order.order_refl)
    also have "subseq \<dots> (stored tr @ [u])" by (intro list_emb_append_mono ih) simp
    finally show ?thesis by (simp add: u(1))
  qed (use ih in simp)
qed

lemma queue_complete:
  assumes "mock_run jc new_system tr y"
    and "\<forall>p. prefix p tr \<longrightarrow> length (stored p) \<le> length (delivered p) + maxQueuedUpdates"
  shows "delivered tr @ ms_queue (sy_mock y) = stored tr"
  using assms
proof (induction new_system tr y rule: mock_run.induct)
  case start
  show ?case by (simp add: new_system_def new_mock_def)
next
  case (step tr y1 l y2)
  have "\<forall>p. prefix p tr \<longrightarrow> length (stored p) \<le> length (delivered p) + maxQueuedUpdates" using step.prems by (simp add: prefix_snoc)
  with step.hyps(2) have ih: "delivered tr @ ms_queue (sy_mock y1) = stored tr" by blast
  from mock_step_queue [OF step.hyps(3)] show ?case
  proof (elim disjE exE conjE)
    fix u assume u: "l = L_stored u" "ms_queue (sy_mock y2) = push_window maxQueuedUpdates (ms_queue (sy_mock y1)) u"
    have "length (stored (tr @ [l])) \<le> length (delivered (tr @ [l])) + maxQueuedUpdates" using step.prems by blast
    then have "length (ms_queue (sy_mock y1)) < maxQueuedUpdates" using u(1) arg_cong [OF ih, of length] by simp
    then show ?thesis using ih by (simp add: u updates_window.push_short)
  qed (use ih in simp)
qed

lemma numbered_id: "numbered v n = Some u \<Longrightarrow> u ''update_id'' = Some (FormatInt n)"
  by (auto simp: numbered_def split: decoded_map.splits)

lemma numbers_distinct:
  assumes "mock_run jc new_system tr y"
  shows "0 \<le> ms_update_seq (sy_mock y) \<and> distinct (map (\<lambda>u. u ''update_id'') (numbered_in tr)) \<and>
    (\<forall>u \<in> set (numbered_in tr). \<exists>n. 0 < n \<and> n \<le> ms_update_seq (sy_mock y) \<and> u ''update_id'' = Some (FormatInt n)) \<and>
    mset (numbered_in tr) = mset (stored tr) + mset (sy_storing y)"
  using assms
proof (induction new_system tr y rule: mock_run.induct)
  case start
  show ?case by (simp add: new_system_def new_mock_def)
next
  case (step tr y1 l y2)
  note ih = step.hyps(2)
  from step.hyps(3) show ?case
  proof cases
    case (number raw s out s' us qs ps)
    then have s: "s' = s\<lparr>ms_update_seq := ms_update_seq s + 1\<rparr>" "out ''update_id'' = Some (FormatInt (ms_update_seq s + 1))"
      by (auto simp: take_number_def Let_def intro: numbered_id)
    have old: "\<exists>n. 0 < n \<and> n \<le> ms_update_seq s \<and> u ''update_id'' = Some (FormatInt n)" if "u \<in> set (numbered_in tr)" for u
      using ih number(1) that by simp
    have "out ''update_id'' \<noteq> u ''update_id''" if "u \<in> set (numbered_in tr)" for u
    proof -
      obtain n where "0 < n" "n \<le> ms_update_seq s" "u ''update_id'' = Some (FormatInt n)" using old \<open>u \<in> _\<close> by blast
      then show ?thesis using FormatInt_inj [of "ms_update_seq s + 1" n] s(2) by auto
    qed
    moreover have "\<exists>n. 0 < n \<and> n \<le> ms_update_seq s + 1 \<and> u ''update_id'' = Some (FormatInt n)"
      if "u \<in> set (numbered_in (tr @ [l]))" for u
    proof (cases "u = out")
      case True
      with ih number(1) s(2) show ?thesis by (intro exI [of _ "ms_update_seq s + 1"]) simp
    next
      case False
      with that number(2) old [of u] show ?thesis by force
    qed
    ultimately show ?thesis using ih number s(1) by (auto simp: image_iff)
  next
    case (panic raw s s' us qs ps)
    then have "s' = s\<lparr>ms_update_seq := ms_update_seq s + 1\<rparr>" by (auto simp: take_number_def Let_def)
    moreover have "\<exists>n. 0 < n \<and> n \<le> ms_update_seq s + 1 \<and> u ''update_id'' = Some (FormatInt n)" if "u \<in> set (numbered_in tr)" for u
      using ih panic(1) that by force
    ultimately show ?thesis using ih panic by simp
  next
    case (answer m body s resp s')
    then show ?thesis using ih bot_method_run(3) [OF answer(4)] by simp
  next
    case (wait m body s d s')
    then show ?thesis using ih bot_method_run(3) [OF wait(4)] by simp
  qed (use ih in \<open>auto simp: push_update_def record_call_def Reset_def drainQueue_def\<close>)
qed

lemma subseq_distinct: "subseq xs ys \<Longrightarrow> distinct ys \<Longrightarrow> distinct xs"
  by (induction rule: list_emb.induct) (auto elim: list_emb_set)

text \<open>A waiting poll never has more time left than the longest wait, and what it has left falls with every look at the queue.\<close>

lemma longPollTimeout_bound: "longPollTimeout jc body \<le> maxWait"
  by (simp add: longPollTimeout_def maxWait_def Let_def split: option.split)

lemma longPollTimeout_exact:
  assumes "jc_timeout jc body = Some n" "0 < n" "n \<le> 9223372036"
  shows "longPollTimeout jc body = min (n * second_ns) maxWait"
proof -
  have "sint (word_of_int n * word_of_int second_ns :: 64 word) = signed_take_bit 63 (n * second_ns)"
    unfolding wi_hom_mult sint_sbintrunc' by (simp only: len_num0 len_bit0 len_num1 arith_simps) simp
  also have "\<dots> = n * second_ns" using assms by (intro signed_take_bit_int_eq_self) simp_all
  finally show ?thesis using assms by (simp add: longPollTimeout_def Let_def min_def)
qed

lemma bot_method_wait: "bot_method jc m body s = (Polling d, s') \<Longrightarrow> 0 < d \<and> d \<le> maxWait"
proof (cases "m = ''getUpdates''")
  case True
  moreover assume "bot_method jc m body s = (Polling d, s')"
  ultimately have "answer_poll jc body s = (Polling d, s')" by (simp add: bot_method_poll)
  then show ?thesis using longPollTimeout_bound [of jc body] by (cases rule: answer_poll_cases [of jc body s]) auto
qed (auto dest: bot_method_other)

lemma polls_bounded:
  assumes "mock_run jc new_system tr y" "d \<in> set (sy_polls y)"
  shows "- poll_tick \<le> d \<and> d \<le> maxWait"
  using assms
proof (induction new_system tr y arbitrary: d rule: mock_run.induct)
  case start
  then show ?case by (simp add: new_system_def)
next
  case (step tr y1 l y2)
  from step.hyps(3) show ?case
  proof cases
    case (wait m body s d' s')
    then show ?thesis using step.hyps(2) step.prems bot_method_wait [OF wait(4)] by (auto simp: poll_tick_def)
  next
    case (idle s s' d' us qs ps ps')
    then show ?thesis using step.hyps(2) [of d'] step.hyps(2) [of d] step.prems by (auto simp: poll_tick_def)
  qed (use step.hyps(2) step.prems in auto)
qed


section \<open>Properties\<close>

text \<open>C36: However the requests of tests, of the server and of the polls of the bot interleave, the stub hands out every stored update
  at most once, in the order in which the updates were stored, under numbers that never repeat; and as long as no more than
  1024 updates wait at any time, the updates handed out and those still queued are all that were stored.\<close>

theorem mock_updates_once:
  assumes "mock_run jc new_system tr y"
  shows "subseq (delivered tr @ ms_queue (sy_mock y)) (stored tr) \<and>
    distinct (map (\<lambda>u. u ''update_id'') (delivered tr @ ms_queue (sy_mock y))) \<and>
    ((\<forall>p. prefix p tr \<longrightarrow> length (stored p) \<le> length (delivered p) + maxQueuedUpdates) \<longrightarrow>
      delivered tr @ ms_queue (sy_mock y) = stored tr)"
proof -
  have m: "mset (numbered_in tr) = mset (stored tr @ sy_storing y)" and d: "distinct (map (\<lambda>u. u ''update_id'') (numbered_in tr))"
    using numbers_distinct [OF assms] by simp_all
  from m have "mset (map (\<lambda>u. u ''update_id'') (numbered_in tr)) = mset (map (\<lambda>u. u ''update_id'') (stored tr @ sy_storing y))"
    by (simp only: mset_map)
  from mset_eq_imp_distinct_iff [OF this] d have "distinct (map (\<lambda>u. u ''update_id'') (stored tr @ sy_storing y))" by blast
  then have "distinct (map (\<lambda>u. u ''update_id'') (stored tr))" by (simp only: map_append distinct_append)
  then have "distinct (map (\<lambda>u. u ''update_id'') (delivered tr @ ms_queue (sy_mock y)))"
    by (rule subseq_distinct [OF subseq_map [OF queue_in_order [OF assms]]])
  with queue_in_order [OF assms] queue_complete [OF assms] show ?thesis by blast
qed

definition demo_codec :: json_codec where
  "demo_codec = \<lparr>jc_valid = (\<lambda>b. True), jc_map = (\<lambda>b. if b = ''null'' then Nil_map else Fields [''text'' \<mapsto> b]), jc_timeout = (\<lambda>b. Some 30)\<rparr>"

text \<open>Two injections at once: the second number is stored first; a poll that found nothing then takes both updates.\<close>

definition demo_update :: "int \<Rightarrow> json_object" where
  "demo_update n = [''text'' \<mapsto> ''hello'', ''update_id'' \<mapsto> FormatInt n]"

definition demo_trace :: "mock_label list" where
  "demo_trace = [L_recorded \<lparr>mc_method = ''getUpdates'', mc_token = ''t'', mc_body = []\<rparr>, L_answered (Polling maxWait),
     L_numbered (demo_update 1), L_numbered (demo_update 2), L_stored (demo_update 2), L_stored (demo_update 1),
     L_tick [demo_update 2, demo_update 1]]"

lemma demo_mock_run: "\<exists>y. mock_run demo_codec new_system demo_trace y \<and> ms_queue (sy_mock y) = []"
proof -
  let ?c = "\<lparr>mc_method = ''getUpdates'', mc_token = ''t'', mc_body = []\<rparr>"
  let ?s = "new_mock\<lparr>ms_calls := [?c]\<rparr>" and ?u = demo_update
  let ?y = "\<lambda>s us qs ps. \<lparr>sy_mock = s, sy_storing = us, sy_answering = qs, sy_polls = ps\<rparr>"
  note step = mock_run.step [OF _ _, of demo_codec new_system]
  have wait: "longPollTimeout demo_codec [] = maxWait"
    using longPollTimeout_exact [of demo_codec "[]" 30] by (simp add: demo_codec_def maxWait_def)
  have 1: "mock_step demo_codec new_system (L_recorded ?c) (?y ?s [] [(''getUpdates'', [])] [])"
    using mock_step.rec_call [of demo_codec new_mock "[]" "[]" "[]" "''getUpdates''" "''t''" "[]"]
    by (simp add: new_system_def new_mock_def record_call_def push_window_def maxRecordedCalls_def)
  have "bot_method demo_codec ''getUpdates'' [] ?s = (Polling maxWait, ?s)"
    using wait by (simp add: bot_method_poll answer_poll_def drainQueue_def new_mock_def maxWait_def)
  then have 2: "mock_step demo_codec (?y ?s [] [(''getUpdates'', [])] []) (L_answered (Polling maxWait)) (?y ?s [] [] [maxWait])"
    using mock_step.wait [of demo_codec "''getUpdates''" "[]" ?s maxWait ?s "[]" "[]" "[]" "[]"] by simp
  let ?s1 = "?s\<lparr>ms_update_seq := 1\<rparr>" and ?s2 = "?s\<lparr>ms_update_seq := 2\<rparr>"
  have 3: "mock_step demo_codec (?y ?s [] [] [maxWait]) (L_numbered (?u 1)) (?y ?s1 [?u 1] [] [maxWait])"
    by (rule mock_step.number [of _ "''hello''"])
      (simp add: take_number_def demo_codec_def numbered_def new_mock_def demo_update_def)
  have 4: "mock_step demo_codec (?y ?s1 [?u 1] [] [maxWait]) (L_numbered (?u 2)) (?y ?s2 [?u 2, ?u 1] [] [maxWait])"
    by (rule mock_step.number [of _ "''hello''"])
      (simp add: take_number_def demo_codec_def numbered_def new_mock_def demo_update_def)
  have 5: "mock_step demo_codec (?y ?s2 [?u 2, ?u 1] [] [maxWait]) (L_stored (?u 2)) (?y (?s2\<lparr>ms_queue := [?u 2]\<rparr>) [?u 1] [] [maxWait])"
    using mock_step.store [of demo_codec ?s2 "[]" "?u 2" "[?u 1]" "[]" "[maxWait]"]
    by (simp add: push_update_def push_window_def maxQueuedUpdates_def new_mock_def)
  have 6: "mock_step demo_codec (?y (?s2\<lparr>ms_queue := [?u 2]\<rparr>) [?u 1] [] [maxWait]) (L_stored (?u 1))
      (?y (?s2\<lparr>ms_queue := [?u 2, ?u 1]\<rparr>) [] [] [maxWait])"
    using mock_step.store [of demo_codec "?s2\<lparr>ms_queue := [?u 2]\<rparr>" "[]" "?u 1" "[]" "[]" "[maxWait]"]
    by (simp add: push_update_def push_window_def maxQueuedUpdates_def new_mock_def)
  have 7: "mock_step demo_codec (?y (?s2\<lparr>ms_queue := [?u 2, ?u 1]\<rparr>) [] [] [maxWait]) (L_tick [?u 2, ?u 1]) (?y ?s2 [] [] [])"
    using mock_step.tick [of "?s2\<lparr>ms_queue := [?u 2, ?u 1]\<rparr>" "[?u 2, ?u 1]" ?s2 demo_codec "[]" "[]" "[]" maxWait "[]"]
    by (simp add: drainQueue_def new_mock_def)
  have "mock_run demo_codec new_system ([] @ [L_recorded ?c] @ [L_answered (Polling maxWait)] @ [L_numbered (?u 1)] @ [L_numbered (?u 2)] @
      [L_stored (?u 2)] @ [L_stored (?u 1)] @ [L_tick [?u 2, ?u 1]]) (?y ?s2 [] [] [])"
    unfolding append_assoc [symmetric]
    by (rule step [OF step [OF step [OF step [OF step [OF step [OF step [OF mock_run.start 1] 2] 3] 4] 5] 6] 7])
  then show ?thesis by (intro exI [of _ "?y ?s2 [] [] []"]) (simp add: demo_trace_def new_mock_def)
qed

theorem mock_updates_once_witness:
  "\<exists>y. mock_run demo_codec new_system demo_trace y \<and>
     subseq (delivered demo_trace @ ms_queue (sy_mock y)) [demo_update 2, demo_update 1] \<and>
     distinct (map (\<lambda>u. u ''update_id'') (delivered demo_trace)) \<and> delivered demo_trace = [demo_update 2, demo_update 1]"
proof -
  obtain y where y: "mock_run demo_codec new_system demo_trace y" using demo_mock_run by blast
  have "stored demo_trace = [demo_update 2, demo_update 1]" "delivered demo_trace = [demo_update 2, demo_update 1]"
    by (simp_all add: demo_trace_def stored_def delivered_def)
  then show ?thesis using mock_updates_once [OF y] y by (auto intro!: exI [of _ y])
qed

end
