(* ===== verification/Skills_Harness.thy ===== *)
theory Skills_Harness
  imports Mock_Telegram
begin

text \<open>
  The harness that replays a transcript of HTTP calls against a running server and its Telegram stub
  (\<^verbatim>\<open>src/internal/skillsharness/harness.go\<close>). The client of \<^verbatim>\<open>net/http\<close> is an argument with the state of what it talks to; so is the
  decoding of JSON. The lemmas say what a passing transcript shows: every call was answered as expected, and, with the stub behind the
  client, the counted calls were made by the server for this transcript.
\<close>

section \<open>Transcripts\<close>

record http_call =
  hc_method :: string
  hc_path :: string
  hc_body :: bytes
  hc_expected_status :: int
  hc_contains :: "string list"

record transcript =
  tr_env :: "string \<rightharpoonup> string"
  tr_cleanup :: "(string \<times> string) list"
  tr_calls :: "http_call list"
  tr_mock :: "(string \<times> int) list"

datatype load_error = Unreadable | Unparsable

definition transcript_path :: "string \<Rightarrow> string \<Rightarrow> string" where
  "transcript_path dir skill = dir @ ''/'' @ skill @ ''.json''"

definition LoadTranscript :: "(string \<Rightarrow> bytes option) \<Rightarrow> (bytes \<Rightarrow> transcript option) \<Rightarrow> string \<Rightarrow> string \<Rightarrow> load_error + transcript" where
  "LoadTranscript readFile unmarshal dir skill =
     (case readFile (transcript_path dir skill) of
        None \<Rightarrow> Inl Unreadable
      | Some data \<Rightarrow> (case unmarshal data of None \<Rightarrow> Inl Unparsable | Some tr \<Rightarrow> Inr tr))"


section \<open>Replaying\<close>

record harness_request =
  hq_method :: string
  hq_url :: string
  hq_body :: bytes
  hq_headers :: "(string \<times> string) list"

text \<open>A status and the bytes of the body that could be read.\<close>

type_synonym harness_answer = "int \<times> bytes"

text \<open>\<open>cl_builds\<close> is whether \<^verbatim>\<open>http.NewRequestWithContext\<close> accepts the method and the URL.\<close>

record 's client =
  cl_builds :: "string \<Rightarrow> string \<Rightarrow> bool"
  cl_do :: "harness_request \<Rightarrow> 's \<Rightarrow> harness_answer option \<times> 's"

definition bearer_header :: "string \<Rightarrow> (string \<times> string) list" where
  "bearer_header apiKey = (if apiKey \<noteq> [] then [(''Authorization'', ''Bearer '' @ apiKey)] else [])"

fun cleanup_calls :: "'s client \<Rightarrow> string \<Rightarrow> string \<Rightarrow> (string \<times> string) list \<Rightarrow> 's \<Rightarrow> 's" where
  "cleanup_calls cl url apiKey [] s = s"
| "cleanup_calls cl url apiKey ((m, p) # cs) s =
     (if cl_builds cl m (url @ p)
      then cleanup_calls cl url apiKey cs
             (snd (cl_do cl \<lparr>hq_method = m, hq_url = url @ p, hq_body = [], hq_headers = bearer_header apiKey\<rparr> s))
      else cleanup_calls cl url apiKey cs s)"

definition reset_mock :: "'s client \<Rightarrow> string \<Rightarrow> 's \<Rightarrow> 's" where
  "reset_mock cl mockURL s =
     (if mockURL \<noteq> [] \<and> cl_builds cl ''POST'' (mockURL @ ''/test/reset'')
      then snd (cl_do cl \<lparr>hq_method = ''POST'', hq_url = mockURL @ ''/test/reset'', hq_body = [], hq_headers = []\<rparr> s)
      else s)"

datatype fixture_error =
    Build_failed nat
  | Http_failed nat
  | Wrong_status nat int
  | Missing_text nat string
  | Mock_build_failed
  | Mock_http_failed
  | Mock_unparsable
  | Too_few_calls string nat int

definition call_request :: "string \<Rightarrow> string \<Rightarrow> http_call \<Rightarrow> harness_request" where
  "call_request url apiKey call =
     \<lparr>hq_method = hc_method call, hq_url = url @ hc_path call, hq_body = hc_body call,
      hq_headers = (if hc_body call \<noteq> [] then [(''Content-Type'', ''application/json'')] else []) @ bearer_header apiKey\<rparr>"

definition check_answer :: "nat \<Rightarrow> http_call \<Rightarrow> harness_answer \<Rightarrow> fixture_error option" where
  "check_answer i call ans =
     (if fst ans \<noteq> hc_expected_status call then Some (Wrong_status i (fst ans))
      else map_option (Missing_text i) (find (\<lambda>want. \<not> Contains (snd ans) want) (hc_contains call)))"

fun replay :: "'s client \<Rightarrow> string \<Rightarrow> string \<Rightarrow> nat \<Rightarrow> http_call list \<Rightarrow> 's \<Rightarrow> fixture_error option \<times> 's" where
  "replay cl url apiKey i [] s = (None, s)"
| "replay cl url apiKey i (call # cs) s =
     (if \<not> cl_builds cl (hc_method call) (url @ hc_path call) then (Some (Build_failed i), s)
      else (case cl_do cl (call_request url apiKey call) s of
              (None, s1) \<Rightarrow> (Some (Http_failed i), s1)
            | (Some ans, s1) \<Rightarrow>
                (case check_answer i call ans of
                   Some err \<Rightarrow> (Some err, s1)
                 | None \<Rightarrow> replay cl url apiKey (i + 1) cs s1)))"

definition call_count :: "string \<Rightarrow> string list \<Rightarrow> nat" where
  "call_count m ms = length (filter (\<lambda>x. x = m) ms)"

definition check_counts :: "string list \<Rightarrow> (string \<times> int) list \<Rightarrow> fixture_error option" where
  "check_counts ms expected =
     map_option (\<lambda>(m, k). Too_few_calls m (call_count m ms) k) (find (\<lambda>(m, k). int (call_count m ms) < k) expected)"

definition check_mock :: "'s client \<Rightarrow> (bytes \<Rightarrow> string list option) \<Rightarrow> string \<Rightarrow> (string \<times> int) list \<Rightarrow> 's \<Rightarrow> fixture_error option \<times> 's" where
  "check_mock cl methods mockURL expected s =
     (if mockURL = [] \<or> expected = [] then (None, s)
      else if \<not> cl_builds cl ''GET'' (mockURL @ ''/test/calls'') then (Some Mock_build_failed, s)
      else (case cl_do cl \<lparr>hq_method = ''GET'', hq_url = mockURL @ ''/test/calls'', hq_body = [], hq_headers = []\<rparr> s of
              (None, s1) \<Rightarrow> (Some Mock_http_failed, s1)
            | (Some (_, raw), s1) \<Rightarrow>
                (case methods raw of None \<Rightarrow> (Some Mock_unparsable, s1) | Some ms \<Rightarrow> (check_counts ms expected, s1))))"

definition runFixtureWithMock ::
  "'s client \<Rightarrow> (bytes \<Rightarrow> string list option) \<Rightarrow> transcript \<Rightarrow> string \<Rightarrow> string \<Rightarrow> 's \<Rightarrow> fixture_error option \<times> 's" where
  "runFixtureWithMock cl methods tr serverURL mockURL s =
     (let apiKey = (case tr_env tr ''TELEGRAM_API_KEY'' of Some k \<Rightarrow> k | None \<Rightarrow> [])
      in case replay cl serverURL apiKey 0 (tr_calls tr) (reset_mock cl mockURL (cleanup_calls cl serverURL apiKey (tr_cleanup tr) s)) of
           (Some err, s1) \<Rightarrow> (Some err, s1)
         | (None, s1) \<Rightarrow> check_mock cl methods mockURL (tr_mock tr) s1)"

definition RunFixture ::
  "'s client \<Rightarrow> (bytes \<Rightarrow> string list option) \<Rightarrow> (string \<Rightarrow> string) \<Rightarrow> transcript \<Rightarrow> string \<Rightarrow> 's \<Rightarrow> fixture_error option \<times> 's" where
  "RunFixture cl methods getenv tr serverURL = runFixtureWithMock cl methods tr serverURL (getenv ''MOCKTELEGRAM_URL'')"

datatype live_error = Live_key_unset | Live_deferred

definition RunLive :: "(string \<Rightarrow> string) \<Rightarrow> live_error" where
  "RunLive getenv = (if getenv ''CLAUDE_API_KEY'' = [] then Live_key_unset else Live_deferred)"


section \<open>What a passing transcript shows\<close>

text \<open>The answers to the calls when each is sent, whatever the answers are.\<close>

fun conversation :: "'s client \<Rightarrow> string \<Rightarrow> string \<Rightarrow> http_call list \<Rightarrow> 's \<Rightarrow> harness_answer option list \<times> 's" where
  "conversation cl url apiKey [] s = ([], s)"
| "conversation cl url apiKey (call # cs) s =
     (case cl_do cl (call_request url apiKey call) s of (ans, s1) \<Rightarrow>
      case conversation cl url apiKey cs s1 of (as, s2) \<Rightarrow> (ans # as, s2))"

definition meets :: "http_call \<Rightarrow> harness_answer option \<Rightarrow> bool" where
  "meets call ans = (case ans of None \<Rightarrow> False
     | Some (status, body) \<Rightarrow> status = hc_expected_status call \<and> list_all (Contains body) (hc_contains call))"

lemma check_answer_None: "check_answer i call ans = None \<longleftrightarrow> meets call (Some ans)"
  by (auto simp: check_answer_def meets_def find_None_iff list_all_iff split: prod.split)

lemma replay_passes_iff:
  "replay cl url apiKey i calls s = (None, s') \<longleftrightarrow>
     list_all (\<lambda>call. cl_builds cl (hc_method call) (url @ hc_path call)) calls \<and>
     (\<exists>as. conversation cl url apiKey calls s = (as, s') \<and> list_all2 meets calls as)"
proof (induction calls arbitrary: i s)
  case (Cons call cs)
  obtain ans s1 where go: "cl_do cl (call_request url apiKey call) s = (ans, s1)" by fastforce
  obtain as s2 where rest: "conversation cl url apiKey cs s1 = (as, s2)" by fastforce
  show ?case
  proof (cases ans)
    case None
    with go rest show ?thesis by (auto simp: meets_def)
  next
    case (Some a)
    with go rest Cons.IH [of "i + 1" s1] show ?thesis
      using check_answer_None [of i call a] by (cases "check_answer i call a") auto
  qed
qed auto

lemma check_counts_None: "check_counts ms expected = None \<longleftrightarrow> (\<forall>(m, k) \<in> set expected. k \<le> int (call_count m ms))"
  by (force simp: check_counts_def find_None_iff not_less)


section \<open>The stub behind the client\<close>

text \<open>The server as far as the harness sees it: its answer to a request and the requests that it makes to the stub meanwhile. The client
  reaches the stub under \<open>mockURL\<close> and the server under every other URL. \<open>enc\<close> encodes an answer of the stub.\<close>

type_synonym 'x served = "harness_request \<Rightarrow> 'x \<Rightarrow> harness_answer option \<times> mock_request list \<times> 'x"

definition stub_requests :: "json_codec \<Rightarrow> mock_request list \<Rightarrow> mock_state \<Rightarrow> mock_state" where
  "stub_requests jc qs m = fold (\<lambda>q m. snd (mock_serve jc q m)) qs m"

definition stack_do ::
  "json_codec \<Rightarrow> (mock_reply \<Rightarrow> bytes) \<Rightarrow> string \<Rightarrow> 'x served \<Rightarrow> harness_request \<Rightarrow> mock_state \<times> 'x \<Rightarrow> harness_answer option \<times> mock_state \<times> 'x" where
  "stack_do jc enc mockURL srv q s =
     (if HasPrefix (hq_url q) mockURL then
        (case mock_serve jc \<lparr>mq_method = hq_method q, mq_path = drop (length mockURL) (hq_url q), mq_body = hq_body q\<rparr> (fst s) of
           (Replied resp, m1) \<Rightarrow> (Some (mp_status resp, enc (mp_reply resp)), m1, snd s)
         | (_, m1) \<Rightarrow> (None, m1, snd s))
      else (case srv q (snd s) of (ans, qs, x1) \<Rightarrow> (ans, stub_requests jc qs (fst s), x1)))"

definition stack_client ::
  "json_codec \<Rightarrow> (mock_reply \<Rightarrow> bytes) \<Rightarrow> (string \<Rightarrow> string \<Rightarrow> bool) \<Rightarrow> string \<Rightarrow> 'x served \<Rightarrow> (mock_state \<times> 'x) client" where
  "stack_client jc enc builds mockURL srv = \<lparr>cl_builds = builds, cl_do = stack_do jc enc mockURL srv\<rparr>"

text \<open>The requests that the server makes to the stub while it answers the calls, and how many of them call a method of the Bot API.\<close>

fun made :: "'x served \<Rightarrow> string \<Rightarrow> string \<Rightarrow> http_call list \<Rightarrow> 'x \<Rightarrow> mock_request list" where
  "made srv url apiKey [] x = []"
| "made srv url apiKey (call # cs) x =
     (case srv (call_request url apiKey call) x of (_, qs, x1) \<Rightarrow> qs @ made srv url apiKey cs x1)"

definition calls_method :: "string \<Rightarrow> mock_request \<Rightarrow> bool" where
  "calls_method m q = (case bot_path (mq_path q) of Some (_, m') \<Rightarrow> m' = m | None \<Rightarrow> False)"

abbreviation recorded_count :: "string \<Rightarrow> mock_state \<Rightarrow> nat" where
  "recorded_count m s \<equiv> call_count m (map mc_method (ms_calls s))"

lemma bot_method_calls: "ms_calls (snd (bot_method jc m body s)) = ms_calls s"
  by (simp add: bot_method_def answer_poll_def drainQueue_def)

lemma push_window_count: "length (filter P (push_window cap xs x)) \<le> length (filter P xs) + (if P x then 1 else 0)"
  by (cases xs) (auto simp: push_window_def)

lemma mock_serve_count: "recorded_count m (snd (mock_serve jc q s)) \<le> recorded_count m s + (if calls_method m q then 1 else 0)"
proof -
  have rec: "recorded_count m (record_call token m' body s) \<le> recorded_count m s + (if m' = m then 1 else 0)" for token m' body
    using push_window_count [of "\<lambda>c. mc_method c = m" maxRecordedCalls "ms_calls s" "\<lparr>mc_method = m', mc_token = token, mc_body = body\<rparr>"]
    by (simp add: record_call_def call_count_def filter_map comp_def)
  obtain r s1 where inj: "Inject jc (mq_body q) s = (r, s1)" by fastforce
  then have "ms_calls s1 = ms_calls s"
    by (auto simp: Inject_def take_number_def push_update_def Let_def split: option.splits)
  with inj have "ms_calls (snd (mock_serve jc q s)) \<in> {ms_calls s, []} \<or>
      (\<exists>token m'. bot_path (mq_path q) = Some (token, m') \<and> ms_calls (snd (mock_serve jc q s)) = ms_calls (record_call token m' (mq_body q) s))"
    by (cases r; cases "bot_path (mq_path q)") (auto simp: mock_serve_def bot_method_calls Reset_def)
  then show ?thesis
  proof (elim disjE exE conjE)
    fix token m'
    assume "bot_path (mq_path q) = Some (token, m')" "ms_calls (snd (mock_serve jc q s)) = ms_calls (record_call token m' (mq_body q) s)"
    then show ?thesis using rec [of token m' "mq_body q"] by (simp add: calls_method_def)
  qed (auto simp: call_count_def)
qed

lemma stub_requests_count: "recorded_count m (stub_requests jc qs s) \<le> recorded_count m s + length (filter (calls_method m) qs)"
proof (induction qs arbitrary: s)
  case (Cons q qs)
  from Cons.IH [of "snd (mock_serve jc q s)"] mock_serve_count [of m jc q s] show ?case by (simp add: stub_requests_def split: if_splits)
qed (simp add: stub_requests_def)

lemma conversation_stub:
  assumes "\<And>p. \<not> HasPrefix (url @ p) mockURL"
  shows "conversation (stack_client jc enc builds mockURL srv) url apiKey calls s = (as, s') \<Longrightarrow>
    recorded_count m (fst s') \<le> recorded_count m (fst s) + length (filter (calls_method m) (made srv url apiKey calls (snd s)))"
proof (induction calls arbitrary: s as)
  case (Cons call cs)
  obtain ans qs x1 where srv: "srv (call_request url apiKey call) (snd s) = (ans, qs, x1)" by (metis prod_cases3)
  let ?s1 = "(stub_requests jc qs (fst s), x1)"
  have step: "cl_do (stack_client jc enc builds mockURL srv) (call_request url apiKey call) s = (ans, ?s1)"
    using assms srv by (simp add: stack_client_def stack_do_def call_request_def)
  then obtain as' where "conversation (stack_client jc enc builds mockURL srv) url apiKey cs ?s1 = (as', s')"
    using Cons.prems by (auto split: prod.splits)
  from Cons.IH [OF this] stub_requests_count [of m jc qs "fst s"] srv show ?case by simp
qed (auto)

text \<open>A transcript that passes with an expected number of calls shows that the server made at least so many calls of the method while it
  answered the calls of this transcript: calls of the clean-up and of earlier transcripts do not count.\<close>

lemma fixture_counts_own_calls:
  assumes "runFixtureWithMock (stack_client jc enc builds mockURL srv) methods tr serverURL mockURL s = (None, s')"
    and "mockURL \<noteq> []" "\<And>p. \<not> HasPrefix (serverURL @ p) mockURL" "builds ''POST'' (mockURL @ ''/test/reset'')"
    and "\<And>cs. methods (enc (M_calls cs)) = Some (map fst cs)" "methods (enc M_nothing) = None"
    and "apiKey = (case tr_env tr ''TELEGRAM_API_KEY'' of Some k \<Rightarrow> k | None \<Rightarrow> [])"
    and "x = snd (cleanup_calls (stack_client jc enc builds mockURL srv) serverURL apiKey (tr_cleanup tr) s)" "(m, k) \<in> set (tr_mock tr)"
  shows "k \<le> int (length (filter (calls_method m) (made srv serverURL apiKey (tr_calls tr) x)))"
proof -
  let ?cl = "stack_client jc enc builds mockURL srv"
  let ?s0 = "cleanup_calls ?cl serverURL apiKey (tr_cleanup tr) s"
  let ?s1 = "reset_mock ?cl mockURL ?s0"
  have prefix: "HasPrefix (mockURL @ p) mockURL" for p by (simp add: HasPrefix_def)
  have reset: "?s1 = (Reset (fst ?s0), snd ?s0)"
    using assms(2,4) by (simp add: reset_mock_def stack_client_def stack_do_def prefix mock_serve_def)
  from assms(1) obtain s2 where replay: "replay ?cl serverURL apiKey 0 (tr_calls tr) ?s1 = (None, s2)"
    and mock: "check_mock ?cl methods mockURL (tr_mock tr) s2 = (None, s')"
    by (auto simp: runFixtureWithMock_def Let_def assms(7) [symmetric] split: prod.splits option.splits)
  from replay obtain as where "conversation ?cl serverURL apiKey (tr_calls tr) ?s1 = (as, s2)" by (auto simp: replay_passes_iff)
  from conversation_stub [OF assms(3) this] have few:
    "recorded_count m (fst s2) \<le> length (filter (calls_method m) (made srv serverURL apiKey (tr_calls tr) x))"
    by (simp add: reset Reset_def call_count_def assms(8))
  have "tr_mock tr \<noteq> []" using assms(9) by auto
  then have "check_counts (map mc_method (ms_calls (fst s2))) (tr_mock tr) = None"
    using mock assms(2,5,6)
    by (auto simp: check_mock_def stack_client_def stack_do_def prefix mock_serve_def shown_calls_def comp_def split: if_splits option.splits)
  then have "k \<le> int (recorded_count m (fst s2))" using assms(9) by (auto simp: check_counts_None)
  with few show ?thesis by linarith
qed

end
