(* ===== verification/Go_Net.thy ===== *)
theory Go_Net
  imports Go_Encoding
begin

text \<open>
  Network addresses as text: \<^verbatim>\<open>net.SplitHostPort\<close>, \<^verbatim>\<open>net.ParseIP\<close> and \<^verbatim>\<open>IP.IsLoopback\<close>, and which IPv4 texts they accept.
\<close>

section \<open>Host and port\<close>

definition LastIndexByte :: "string \<Rightarrow> char \<Rightarrow> nat option" where
  "LastIndexByte s c = map_option (\<lambda>i. length s - 1 - i) (IndexByte (rev s) c)"

text \<open>The port starts after the last colon; a host with colons stands in brackets.\<close>

definition SplitHostPort :: "string \<Rightarrow> (string \<times> string) option" where
  "SplitHostPort hostport =
     (case LastIndexByte hostport (CHR '':'') of
        None \<Rightarrow> None
      | Some i \<Rightarrow>
          (let port = drop (i + 1) hostport
           in if hd hostport = CHR ''['' then
                (case IndexByte hostport (CHR '']'') of
                   None \<Rightarrow> None
                 | Some fin \<Rightarrow>
                     if fin + 1 \<noteq> i \<or> CHR ''['' \<in> set (drop 1 hostport) \<or> CHR '']'' \<in> set (drop (fin + 1) hostport) then None
                     else Some (take (fin - 1) (drop 1 hostport), port))
              else if CHR '':'' \<in> set (take i hostport) \<or> CHR ''['' \<in> set hostport \<or> CHR '']'' \<in> set hostport then None
              else Some (take i hostport, port)))"


section \<open>Addresses\<close>

text \<open>\<^verbatim>\<open>parseIPv4Fields\<close>: four numbers up to 255 without leading zeros. The flag says that the loop is at the start of a number; the
  numbers before it are in \<open>fs\<close>.\<close>

fun ipv4_fields :: "bool \<Rightarrow> string \<Rightarrow> nat \<Rightarrow> nat \<Rightarrow> nat list \<Rightarrow> nat list option" where
  "ipv4_fields st [] val digLen fs = (if length fs < 3 then None else Some (fs @ [val]))"
| "ipv4_fields st (c # cs) val digLen fs =
     (if is_digit_char c then
        (if digLen = 1 \<and> val = 0 then None
         else if val * 10 + digit_val c > 255 then None
         else ipv4_fields False cs (val * 10 + digit_val c) (digLen + 1) fs)
      else if c = CHR ''.'' then
        (if st \<or> cs = [] then None else if length fs = 3 then None else ipv4_fields True cs 0 0 (fs @ [val]))
      else None)"

definition parseIPv4 :: "string \<Rightarrow> nat list option" where
  "parseIPv4 s = ipv4_fields True s 0 0 []"

definition hex_val :: "char \<Rightarrow> nat option" where
  "hex_val c =
     (let n = of_char c :: nat
      in if is_digit_char c then Some (n - 48) else if 97 \<le> n \<and> n \<le> 102 then Some (n - 87) else if 65 \<le> n \<and> n \<le> 70 then Some (n - 55) else None)"

definition hex_num :: "string \<Rightarrow> nat" where
  "hex_num s = foldl (\<lambda>acc c. 16 * acc + (case hex_val c of Some v \<Rightarrow> v | None \<Rightarrow> 0)) 0 s"

text \<open>The loop of \<^verbatim>\<open>parseIPv6\<close> over at most eight groups: the rest of the text, the bytes so far and the position of the ellipsis.\<close>

fun ipv6_loop :: "nat \<Rightarrow> string \<Rightarrow> nat list \<Rightarrow> nat option \<Rightarrow> (string \<times> nat list \<times> nat option) option" where
  "ipv6_loop 0 s ip ell = Some (s, ip, ell)"
| "ipv6_loop (Suc n) s ip ell =
     (let ds = takeWhile (\<lambda>c. hex_val c \<noteq> None) s; s1 = dropWhile (\<lambda>c. hex_val c \<noteq> None) s
      in if length ds > 4 \<or> ds = [] then None
         else if s1 \<noteq> [] \<and> hd s1 = CHR ''.'' then
           (if ell = None \<and> length ip \<noteq> 12 \<or> length ip + 4 > 16 then None
            else map_option (\<lambda>fs. ([], ip @ fs, ell)) (ipv4_fields True s 0 0 []))
         else
           (let ip1 = ip @ [hex_num ds div 256, hex_num ds mod 256]
            in if s1 = [] then Some ([], ip1, ell)
               else if hd s1 \<noteq> CHR '':'' \<or> length s1 = 1 then None
               else if s1 ! 1 = CHR '':'' then
                 (if ell \<noteq> None then None
                  else if length s1 = 2 then Some ([], ip1, Some (length ip1))
                  else ipv6_loop n (drop 2 s1) ip1 (Some (length ip1)))
               else ipv6_loop n (drop 1 s1) ip1 ell))"

definition expand_ellipsis :: "nat list \<Rightarrow> nat option \<Rightarrow> nat list option" where
  "expand_ellipsis ip ell =
     (case ell of
        None \<Rightarrow> if length ip < 16 then None else Some ip
      | Some k \<Rightarrow> if length ip < 16 then Some (take k ip @ replicate (16 - length ip) 0 @ drop k ip) else None)"

text \<open>\<^verbatim>\<open>net.ParseIP\<close> refuses an address with a zone.\<close>

definition parseIPv6 :: "string \<Rightarrow> nat list option" where
  "parseIPv6 s =
     (if CHR ''%'' \<in> set s then None
      else if HasPrefix s ''::'' then
        (if length s = 2 then Some (replicate 16 0)
         else (case ipv6_loop 8 (drop 2 s) [] (Some 0) of
                 Some ([], ip, ell) \<Rightarrow> expand_ellipsis ip ell
               | _ \<Rightarrow> None))
      else (case ipv6_loop 8 s [] None of
              Some ([], ip, ell) \<Rightarrow> expand_ellipsis ip ell
            | _ \<Rightarrow> None))"

text \<open>The first of the characters dot, colon and percent decides; the result has sixteen bytes.\<close>

definition ParseIP :: "string \<Rightarrow> nat list option" where
  "ParseIP s =
     (case find (\<lambda>c. c \<in> {CHR ''.'', CHR '':'', CHR ''%''}) s of
        Some c \<Rightarrow>
          if c = CHR ''.'' then map_option (\<lambda>fs. replicate 10 0 @ [255, 255] @ fs) (parseIPv4 s)
          else if c = CHR '':'' then parseIPv6 s else None
      | None \<Rightarrow> None)"

definition IsLoopback :: "nat list \<Rightarrow> bool" where
  "IsLoopback ip =
     (if take 12 ip = replicate 10 0 @ [255, 255] then ip ! 12 = 127 else ip = replicate 15 0 @ [1])"


section \<open>Which texts are IPv4 addresses\<close>

fun dotted :: "nat list \<Rightarrow> string" where
  "dotted [] = []"
| "dotted [n] = nat_dec n"
| "dotted (n # ns) = nat_dec n @ ''.'' @ dotted ns"

lemma dot_no_digit [simp]: "\<not> is_digit_char (CHR ''.'')"
  by (simp add: is_digit_char_def)

lemma ipv4_fields_number:
  "n \<le> 255 \<Longrightarrow> ipv4_fields st (nat_dec n @ s) 0 0 fs = ipv4_fields False s n (length (nat_dec n)) fs"
proof (induction n arbitrary: s rule: nat_dec.induct)
  case (1 n)
  show ?case
  proof (cases "n < 10")
    case True
    then show ?thesis by (simp add: nat_dec.simps [of n])
  next
    case False
    have n: "n div 10 * 10 + n mod 10 = n" by simp
    have "ipv4_fields st (nat_dec n @ s) 0 0 fs = ipv4_fields st (nat_dec (n div 10) @ digit_char (n mod 10) # s) 0 0 fs"
      using False by (simp add: nat_dec.simps [of n])
    also have "\<dots> = ipv4_fields False (digit_char (n mod 10) # s) (n div 10) (length (nat_dec (n div 10))) fs"
      using 1 False by simp
    also have "\<dots> = ipv4_fields False s n (length (nat_dec n)) fs"
    proof -
      have "length (nat_dec n) = Suc (length (nat_dec (n div 10)))" using False by (simp add: nat_dec.simps [of n])
      moreover have "\<not> (length (nat_dec (n div 10)) = 1 \<and> n div 10 = 0)" using False by auto
      ultimately show ?thesis using "1.prems" n by (simp only: ipv4_fields.simps) simp
    qed
    finally show ?thesis .
  qed
qed

lemma parseIPv4_dotted:
  assumes "a \<le> 255" "b \<le> 255" "c \<le> 255" "d \<le> 255"
  shows "parseIPv4 (dotted [a, b, c, d]) = Some [a, b, c, d]"
  using assms ipv4_fields_number [of d True "[]"] by (simp add: parseIPv4_def ipv4_fields_number)

lemma nat_dec_snoc: "0 < v \<Longrightarrow> is_digit_char c \<Longrightarrow> nat_dec (v * 10 + digit_val c) = nat_dec v @ [c]"
proof -
  assume "0 < v" "is_digit_char c"
  then have "digit_val c < 10" "digit_char (digit_val c) = c"
    by (auto simp: is_digit_char_def digit_val_def digit_char_def)
  with \<open>0 < v\<close> show ?thesis by (simp add: nat_dec.simps [of "v * 10 + digit_val c"])
qed

lemma nat_dec_digit: "is_digit_char c \<Longrightarrow> nat_dec (digit_val c) = [c]"
  by (auto simp: nat_dec.simps is_digit_char_def digit_val_def digit_char_def)

lemma dotted_snoc: "dotted (ns @ [n]) = concat (map (\<lambda>m. nat_dec m @ ''.'') ns) @ nat_dec n"
  by (induction ns rule: dotted.induct) (auto simp: neq_Nil_conv)

lemma ipv4_fields_dotted:
  assumes "ipv4_fields st s val digLen fs = Some out" "if st then val = 0 \<and> digLen = 0 \<and> s \<noteq> [] else digLen = length (nat_dec val)"
    and "val \<le> 255" "list_all (\<lambda>n. n \<le> 255) fs" "length fs \<le> 3"
  shows "length out = 4 \<and> list_all (\<lambda>n. n \<le> 255) out \<and>
    dotted out = concat (map (\<lambda>m. nat_dec m @ ''.'') fs) @ (if st then [] else nat_dec val) @ s"
  using assms
proof (induction st s val digLen fs rule: ipv4_fields.induct)
  case (1 st val digLen fs)
  then show ?case by (auto simp: dotted_snoc split: if_splits)
next
  case (2 st c cs val digLen fs)
  show ?case
  proof (cases "is_digit_char c")
    case True
    let ?v = "val * 10 + digit_val c"
    have ok: "\<not> (digLen = 1 \<and> val = 0)" "?v \<le> 255" "ipv4_fields False cs ?v (digLen + 1) fs = Some out"
      using "2.prems"(1) True by (auto split: if_splits)
    have digits: "nat_dec ?v = (if st then [] else nat_dec val) @ [c]"
    proof (cases st)
      case True
      with "2.prems"(2) \<open>is_digit_char c\<close> show ?thesis by (simp add: nat_dec_digit)
    next
      case False
      then have "0 < val" using ok(1) "2.prems"(2) by (cases "val = 0") (simp_all add: nat_dec.simps)
      with False True show ?thesis by (simp add: nat_dec_snoc)
    qed
    have "digLen + 1 = length (nat_dec ?v)" using digits "2.prems"(2) by (auto split: if_splits)
    with "2.IH"(1) [OF True ok(1) _ ok(3)] ok(2) "2.prems"(4,5) show ?thesis by (simp add: digits)
  next
    case False
    then have "c = CHR ''.''" "\<not> st" "cs \<noteq> []" "length fs \<noteq> 3" "ipv4_fields True cs 0 0 (fs @ [val]) = Some out"
      using "2.prems"(1) by (auto split: if_splits)
    with "2.IH"(2) [OF False] "2.prems" show ?thesis by simp
  qed
qed

lemma length_4: "length fs = 4 \<longleftrightarrow> (\<exists>a b c d. fs = [a, b, c, d])"
  by (auto simp: numeral_eq_Suc length_Suc_conv)

lemma parseIPv4_iff:
  assumes "s \<noteq> []"
  shows "parseIPv4 s = Some fs \<longleftrightarrow> length fs = 4 \<and> list_all (\<lambda>n. n \<le> 255) fs \<and> s = dotted fs"
proof
  assume "parseIPv4 s = Some fs"
  then show "length fs = 4 \<and> list_all (\<lambda>n. n \<le> 255) fs \<and> s = dotted fs"
    using ipv4_fields_dotted [of True s 0 0 "[]" fs] assms by (simp add: parseIPv4_def)
next
  assume "length fs = 4 \<and> list_all (\<lambda>n. n \<le> 255) fs \<and> s = dotted fs"
  moreover then obtain a b c d where "fs = [a, b, c, d]"
    by (auto simp: length_4)
  ultimately show "parseIPv4 s = Some fs" using parseIPv4_dotted [of a b c d] by simp
qed

lemma dotted_chars: "c \<in> set (dotted ns) \<Longrightarrow> is_digit_char c \<or> c = CHR ''.''"
  by (induction ns rule: dotted.induct) (use nat_dec_digits in auto)

lemma ParseIP_v4:
  assumes "CHR '':'' \<notin> set s" "CHR ''%'' \<notin> set s"
  shows "ParseIP s = Some ip \<longleftrightarrow>
    (\<exists>fs. length fs = 4 \<and> list_all (\<lambda>n. n \<le> 255) fs \<and> s = dotted fs \<and> ip = replicate 10 0 @ [255, 255] @ fs)"
proof (cases "CHR ''.'' \<in> set s")
  case True
  then have "find (\<lambda>c. c \<in> {CHR ''.'', CHR '':'', CHR ''%''}) s = Some (CHR ''.'')" using assms by (induction s) auto
  moreover have "s \<noteq> []" using True by auto
  ultimately show ?thesis by (auto simp: ParseIP_def parseIPv4_iff)
next
  case False
  then have "find (\<lambda>c. c \<in> {CHR ''.'', CHR '':'', CHR ''%''}) s = None" using assms by (induction s) auto
  moreover have "CHR ''.'' \<in> set (dotted fs)" if "length fs = 4" for fs
    using that by (auto simp: numeral_eq_Suc length_Suc_conv)
  ultimately show ?thesis using False by (auto simp: ParseIP_def)
qed

lemma SplitHostPort_plain:
  assumes "set host \<inter> {CHR '':'', CHR ''['', CHR '']''} = {}" "set port \<inter> {CHR '':'', CHR ''['', CHR '']''} = {}"
  shows "SplitHostPort (host @ '':'' @ port) = Some (host, port)"
proof -
  have "LastIndexByte (host @ '':'' @ port) (CHR '':'') = Some (length host)"
    using assms(2) by (simp add: LastIndexByte_def IndexByte_append)
  moreover have "hd (host @ '':'' @ port) \<noteq> CHR ''[''" using assms(1) by (cases host) auto
  ultimately show ?thesis using assms by (auto simp: SplitHostPort_def)
qed

text \<open>Which listen addresses without an IPv6 host are on the loopback interface.\<close>

lemma loopback_v4:
  assumes "set host \<inter> {CHR '':'', CHR ''%''} = {}"
  shows "(\<exists>ip. ParseIP host = Some ip \<and> IsLoopback ip) \<longleftrightarrow>
    (\<exists>b c d. b \<le> 255 \<and> c \<le> 255 \<and> d \<le> 255 \<and> host = dotted [127, b, c, d])"
proof -
  have plain: "CHR '':'' \<notin> set host" "CHR ''%'' \<notin> set host" using assms by auto
  have v4: "IsLoopback (replicate 10 0 @ [255, 255] @ fs) \<longleftrightarrow> hd fs = 127" if "fs \<noteq> []" for fs
    using that by (simp add: IsLoopback_def nth_append hd_conv_nth)
  have "(\<exists>ip. ParseIP host = Some ip \<and> IsLoopback ip) \<longleftrightarrow>
      (\<exists>fs. length fs = 4 \<and> list_all (\<lambda>n. n \<le> 255) fs \<and> host = dotted fs \<and> IsLoopback (replicate 10 0 @ [255, 255] @ fs))"
    unfolding ParseIP_v4 [OF plain] by blast
  also have "\<dots> \<longleftrightarrow> (\<exists>fs. length fs = 4 \<and> list_all (\<lambda>n. n \<le> 255) fs \<and> host = dotted fs \<and> hd fs = 127)"
    using v4 by (metis length_0_conv zero_neq_numeral)
  also have "\<dots> \<longleftrightarrow> (\<exists>b c d. list_all (\<lambda>n. n \<le> 255) [127, b, c, d] \<and> host = dotted [127, b, c, d])"
    unfolding length_4 by (metis list.sel(1))
  also have "\<dots> \<longleftrightarrow> (\<exists>b c d. b \<le> 255 \<and> c \<le> 255 \<and> d \<le> 255 \<and> host = dotted [127, b, c, d])"
    by simp
  finally show ?thesis .
qed

end
