(* ===== verification/Server_Main.thy ===== *)
theory Server_Main
  imports Bot Api_Router Ui_Session Go_Net
begin

text \<open>
  How the two programs start and stop: their settings (\<^verbatim>\<open>src/internal/config/config.go\<close>,
  \<^verbatim>\<open>src/internal/adminui/config.go\<close>), the wait for the database and the life of the server process
  (\<^verbatim>\<open>src/cmd/server/main.go\<close>), and the life of the process of the admin UI (\<^verbatim>\<open>src/cmd/adminui/main.go\<close>).
  The property says that the wait ends and in which order the process ends what it began: the pool is closed last, after the poller has
  drained or timed out, unless the listener failed.
\<close>

section \<open>Settings\<close>

text \<open>\<^verbatim>\<open>os.Getenv\<close>: empty when the variable is not set.\<close>

type_synonym environment = "string \<Rightarrow> string"

definition setting :: "environment \<Rightarrow> string \<Rightarrow> string" where
  "setting getenv v = TrimSpace (getenv v)"

definition default_to :: "string \<Rightarrow> string \<Rightarrow> string" where
  "default_to d s = (if s = [] then d else s)"

record server_settings =
  se_bot_token :: string
  se_bot_username :: string
  se_api_url :: string
  se_database_url :: string
  se_listen_addr :: string
  se_log_level :: string

definition envBotToken :: string where "envBotToken = ''TELEGRAM_BOT_TOKEN''"
definition envBotUsername :: string where "envBotUsername = ''TELEGRAM_BOT_USERNAME''"
definition envAPIURL :: string where "envAPIURL = ''TELEGRAM_API_URL''"
definition envDatabaseURL :: string where "envDatabaseURL = ''DATABASE_URL''"
definition envHTTPListen :: string where "envHTTPListen = ''HTTP_LISTEN_ADDR''"
definition envLogLevel :: string where "envLogLevel = ''LOG_LEVEL''"

text \<open>The name of the variable that is missing, if any.\<close>

fun first_missing :: "(string \<times> string) list \<Rightarrow> string option" where
  "first_missing [] = None"
| "first_missing ((v, s) # vs) = (if s = [] then Some v else first_missing vs)"

definition validate_server :: "server_settings \<Rightarrow> string option" where
  "validate_server c =
     first_missing [(envBotToken, se_bot_token c), (envBotUsername, se_bot_username c), (envDatabaseURL, se_database_url c)]"

definition Load_server :: "environment \<Rightarrow> string + server_settings" where
  "Load_server getenv =
     (let cfg = \<lparr>se_bot_token = setting getenv envBotToken, se_bot_username = setting getenv envBotUsername,
            se_api_url = setting getenv envAPIURL, se_database_url = setting getenv envDatabaseURL,
            se_listen_addr = default_to ''127.0.0.1:8080'' (setting getenv envHTTPListen),
            se_log_level = default_to ''info'' (setting getenv envLogLevel)\<rparr>
      in case validate_server cfg of Some v \<Rightarrow> Inl v | None \<Rightarrow> Inr cfg)"

record ui_settings =
  us_listen_addr :: string
  us_password :: string
  us_api_key :: string
  us_server_url :: string
  us_database_url :: string
  us_cookie_secure :: bool

definition validate_ui :: "ui_settings \<Rightarrow> string option" where
  "validate_ui c = first_missing [(''ADMINUI_PASSWORD'', us_password c), (''ADMINUI_API_KEY'', us_api_key c)]"

definition Load_ui :: "environment \<Rightarrow> string + ui_settings" where
  "Load_ui getenv =
     (let cfg = \<lparr>us_listen_addr = default_to ''127.0.0.1:8081'' (setting getenv ''ADMINUI_LISTEN_ADDR''),
            us_password = setting getenv ''ADMINUI_PASSWORD'', us_api_key = setting getenv ''ADMINUI_API_KEY'',
            us_server_url = default_to ''http://127.0.0.1:8080'' (setting getenv ''TELEGRAM_SERVER_URL''),
            us_database_url = setting getenv envDatabaseURL,
            us_cookie_secure = ToLower (setting getenv ''ADMINUI_COOKIE_SECURE'') \<in> set [''1'', ''true'', ''yes'']\<rparr>
      in case validate_ui cfg of Some v \<Rightarrow> Inl v | None \<Rightarrow> Inr cfg)"

definition ListensLoopbackOnly :: "ui_settings \<Rightarrow> bool" where
  "ListensLoopbackOnly c =
     (case SplitHostPort (us_listen_addr c) of
        None \<Rightarrow> False
      | Some (host, _) \<Rightarrow> host = ''localhost'' \<or> (case ParseIP host of None \<Rightarrow> False | Some ip \<Rightarrow> IsLoopback ip))"


section \<open>A function with deferred calls\<close>

text \<open>What a run of \<^verbatim>\<open>run\<close> does that can be seen from outside, and the calls it has deferred so far, the last one first. When the
  function returns, at whatever place, the deferred calls run in that order.\<close>

record 'ev proc =
  pr_events :: "'ev list"
  pr_deferred :: "'ev list"

definition started :: "'ev proc" where
  "started = \<lparr>pr_events = [], pr_deferred = []\<rparr>"

definition does :: "'ev \<Rightarrow> 'ev proc \<Rightarrow> 'ev proc" where
  "does ev p = p\<lparr>pr_events := pr_events p @ [ev]\<rparr>"

definition defers :: "'ev \<Rightarrow> 'ev proc \<Rightarrow> 'ev proc" where
  "defers ev p = p\<lparr>pr_deferred := ev # pr_deferred p\<rparr>"

definition returned :: "'ev proc \<Rightarrow> 'ev list" where
  "returned p = pr_events p @ pr_deferred p"

lemmas proc_simps = started_def does_def defers_def returned_def


section \<open>The life of the server\<close>

text \<open>What the outside decides: whether the URL of the database and the bot token are accepted, what \<^verbatim>\<open>GetMe\<close> answers, how
  listening ends, whether the poller drains in time and whether the HTTP server shuts down in time.\<close>

datatype stop_cause = Stop_signal | Listen_failed | Server_closed

record outside =
  ou_pool :: bool
  ou_bot :: bool
  ou_me :: "int option"
  ou_stop :: stop_cause
  ou_drained :: bool
  ou_shutdown :: bool

datatype wait_outcome = Db_ready | Db_unreachable | Wait_cancelled

datatype run_error = Config_error string | Pool_error | Db_wait_error wait_outcome | Policies_error db_error | Bot_error | Ui_server_error | Listen_error

text \<open>\<open>Http_shutdown ok\<close> is the call of \<^verbatim>\<open>Shutdown\<close>; it ends within ten seconds, with all connections idle or (\<open>ok\<close> false) not.\<close>

datatype life_event =
    Pool_opened
  | Pinged bool
  | Poller_started "bot_handler list"
  | Http_listening string "(string \<Rightarrow> policy)"
  | Poller_cancelled
  | Poller_drained
  | Poller_drain_timeout
  | Http_shutdown bool
  | Shutdown_cancelled
  | Pool_closed
  | Context_cancelled

text \<open>Waiting for the database: one turn of the loop is a ping, a look at the clock and half a second of sleep, or the end of the context.
  The loop has no bound of its own; \<^const>\<open>None\<close> is a run that does not end.\<close>

definition ping_interval :: duration where "ping_interval = 500000000"

partial_function (option) wait_loop ::
  "env \<Rightarrow> time \<Rightarrow> life_event proc \<Rightarrow> world \<Rightarrow> (wait_outcome \<times> life_event proc \<times> world) option" where
  "wait_loop e deadline p w =
     (case db_trip e w of (ok, w1) \<Rightarrow>
      let p = does (Pinged ok) p
      in if ok then Some (Db_ready, p, w1)
         else
           (case read_clock e w1 of (now, w2) \<Rightarrow>
              if now > deadline then Some (Db_unreachable, p, w2)
              else if env_cancel e (w_tick w2) then Some (Wait_cancelled, p, tick w2)
              else wait_loop e deadline p (tick w2)))"

definition waitForDB ::
  "env \<Rightarrow> duration \<Rightarrow> life_event proc \<Rightarrow> world \<Rightarrow> (wait_outcome \<times> life_event proc \<times> world) option" where
  "waitForDB e timeout p w = (case read_clock e w of (now, w1) \<Rightarrow> wait_loop e (now + timeout) p w1)"

definition default_policy :: policy where "default_policy = \<lparr>pc_rate = 100, pc_burst = 100\<rparr>"

definition server_bot :: "server_settings \<Rightarrow> outside \<Rightarrow> bot_config" where
  "server_bot cfg x = \<lparr>bc_username = se_bot_username cfg, bc_token_ttl = 0, bc_bot_id = (case ou_me x of Some i \<Rightarrow> i | None \<Rightarrow> 0)\<rparr>"

text \<open>From the start of the poller on. When the listener fails, the function returns with nothing but its deferred calls to come.\<close>

definition serve_until_stop ::
  "env \<Rightarrow> server_settings \<Rightarrow> outside \<Rightarrow> (string \<Rightarrow> policy) \<Rightarrow> life_event proc \<Rightarrow> run_error option \<times> life_event proc" where
  "serve_until_stop e cfg x limit p =
     (let p = defers Poller_cancelled p;
          p = does (Poller_started (poller_handlers e (server_bot cfg x))) p;
          p = does (Http_listening (se_listen_addr cfg) limit) p
      in if ou_stop x = Listen_failed then (Some Listen_error, p)
         else
           (let p = does Poller_cancelled p;
                p = does (if ou_drained x then Poller_drained else Poller_drain_timeout) p;
                p = defers Shutdown_cancelled p;
                p = does (Http_shutdown (ou_shutdown x)) p
            in (None, p)))"

definition server_run :: "env \<Rightarrow> environment \<Rightarrow> outside \<Rightarrow> world \<Rightarrow> (run_error option \<times> life_event list \<times> world) option" where
  "server_run e getenv x w =
     (case Load_server getenv of
        Inl v \<Rightarrow> Some (Some (Config_error v), returned started, w)
      | Inr cfg \<Rightarrow>
          (let p = defers Context_cancelled started
           in if \<not> ou_pool x then Some (Some Pool_error, returned p, w)
              else
                (let p = defers Pool_closed (does Pool_opened p)
                 in Option.bind (waitForDB e (30 * second_ns) p w) (\<lambda>(r, p, w1).
                      if r \<noteq> Db_ready then Some (Some (Db_wait_error r), returned p, w1)
                      else
                        (case BuildRequestLimiter e ''request'' default_policy w1 of
                           (Inl err, w2) \<Rightarrow> Some (Some (Policies_error err), returned p, w2)
                         | (Inr limit, w2) \<Rightarrow>
                             if \<not> ou_bot x then Some (Some Bot_error, returned p, w2)
                             else (case serve_until_stop e cfg x limit p of (res, p) \<Rightarrow> Some (res, returned p, w2)))))))"

text \<open>The state with which the handler of the admin UI starts (the beginning of \<^verbatim>\<open>adminui.NewServer\<close>): a new secret, no revoked
  session, no attempt to log in. It fails when the random source does.\<close>

definition newLoginLimiter :: login_limiter where "newLoginLimiter = Map.empty"

definition newGlobalBackoff :: global_backoff where
  "newGlobalBackoff = \<lparr>gb_failures = 0, gb_lastFailure = 0, gb_blockedUntil = 0\<rparr>"

definition start_server :: "env \<Rightarrow> ui_settings \<Rightarrow> world \<Rightarrow> ui_state option \<times> world" where
  "start_server e cfg w =
     (case NewSessionManager e (us_cookie_secure cfg) w of
        (None, w1) \<Rightarrow> (None, w1)
      | (Some sm, w1) \<Rightarrow> (Some \<lparr>ui_w = w1, ui_sm = sm, ui_limiter = newLoginLimiter, ui_backoff = newGlobalBackoff\<rparr>, w1))"

text \<open>The admin UI has no poller and needs no database.\<close>

datatype ui_life_event =
    Ui_pool_opened
  | Ui_listening string ui_state
  | Ui_insecure_warning
  | Ui_shutdown bool
  | Ui_shutdown_cancelled
  | Ui_pool_closed
  | Ui_context_cancelled

definition adminui_run :: "env \<Rightarrow> environment \<Rightarrow> outside \<Rightarrow> world \<Rightarrow> run_error option \<times> ui_life_event list" where
  "adminui_run e getenv x w =
     (case Load_ui getenv of
        Inl v \<Rightarrow> (Some (Config_error v), returned started)
      | Inr cfg \<Rightarrow>
          (let db = us_database_url cfg \<noteq> []; p = defers Ui_context_cancelled started
           in if db \<and> \<not> ou_pool x then (Some Pool_error, returned p)
              else
                (let p = (if db then defers Ui_pool_closed (does Ui_pool_opened p) else p)
                 in case start_server e cfg w of
                      (None, _) \<Rightarrow> (Some Ui_server_error, returned p)
                    | (Some u, _) \<Rightarrow>
                        (let p = (if \<not> us_cookie_secure cfg \<and> \<not> ListensLoopbackOnly cfg then does Ui_insecure_warning p else p);
                             p = does (Ui_listening (us_listen_addr cfg) u) p
                         in if ou_stop x = Listen_failed then (Some Listen_error, returned p)
                            else (None, returned (does (Ui_shutdown (ou_shutdown x)) (defers Ui_shutdown_cancelled p)))))))"


section \<open>The wait ends\<close>

lemma wait_loop_step:
  "wait_loop e deadline p w =
     (if \<not> env_fault e (w_tick w) then Some (Db_ready, does (Pinged True) p, tick w)
      else if env_now e (Suc (w_tick w)) > deadline then Some (Db_unreachable, does (Pinged False) p, tick (tick w))
      else if env_cancel e (Suc (Suc (w_tick w))) then Some (Wait_cancelled, does (Pinged False) p, tick (tick (tick w)))
      else wait_loop e deadline (does (Pinged False) p) (tick (tick (tick w))))"
  by (subst wait_loop.simps) (simp add: db_trip_def read_clock_def)

text \<open>The pings of a wait: all in vain, or all but the last.\<close>

definition pings :: "wait_outcome \<Rightarrow> nat \<Rightarrow> life_event list" where
  "pings r n = replicate n (Pinged False) @ (if r = Db_ready then [Pinged True] else [])"

lemma wait_loop_stops:
  assumes "\<not> env_fault e (w_tick w) \<or> deadline < env_now e (Suc (w_tick w)) \<or> env_cancel e (Suc (Suc (w_tick w)))"
  shows "\<exists>r n w'. wait_loop e deadline p w = Some (r, p\<lparr>pr_events := pr_events p @ pings r n\<rparr>, w') \<and> length (pings r n) = 1 \<and> w_db w' = w_db w"
proof (cases "env_fault e (w_tick w)")
  case True
  then obtain r w' where "wait_loop e deadline p w = Some (r, does (Pinged False) p, w')" "r \<noteq> Db_ready" "w_db w' = w_db w"
    using assms by (cases "deadline < env_now e (Suc (w_tick w))") (auto simp: wait_loop_step)
  then show ?thesis by (intro exI [of _ r] exI [of _ 1] exI [of _ w']) (simp add: does_def pings_def)
next
  case False
  then show ?thesis
    by (intro exI [of _ Db_ready] exI [of _ 0] exI [of _ "tick w"]) (subst wait_loop_step, simp add: does_def pings_def)
qed

lemma wait_loop_returns:
  assumes "\<And>n. env_now e n + ping_interval \<le> env_now e (n + 3)" "deadline < env_now e (Suc (w_tick w)) + int k * ping_interval"
  shows "\<exists>r n w'. wait_loop e deadline p w = Some (r, p\<lparr>pr_events := pr_events p @ pings r n\<rparr>, w') \<and>
    length (pings r n) \<le> k + 1 \<and> w_db w' = w_db w"
  using assms(2)
proof (induction k arbitrary: p w)
  case 0
  then have "deadline < env_now e (Suc (w_tick w))" by simp
  then show ?case using wait_loop_stops [of e w deadline p] by fastforce
next
  case (Suc k)
  show ?case
  proof (cases "\<not> env_fault e (w_tick w) \<or> deadline < env_now e (Suc (w_tick w)) \<or> env_cancel e (Suc (Suc (w_tick w)))")
    case True
    then show ?thesis using wait_loop_stops [OF True, of p] by fastforce
  next
    case False
    let ?w = "tick (tick (tick w))" and ?p = "does (Pinged False) p"
    have "deadline < env_now e (Suc (w_tick ?w)) + int k * ping_interval"
      using Suc.prems assms(1) [of "Suc (w_tick w)"] by (simp add: algebra_simps numeral_3_eq_3)
    from Suc.IH [OF this, of ?p] obtain r n w' where rest: "wait_loop e deadline ?p ?w = Some (r, ?p\<lparr>pr_events := pr_events ?p @ pings r n\<rparr>, w')"
      "length (pings r n) \<le> k + 1" "w_db w' = w_db w" by auto
    have "wait_loop e deadline p w = wait_loop e deadline ?p ?w"
      using False by (subst wait_loop_step) simp
    with rest show ?thesis by (intro exI [of _ r] exI [of _ "Suc n"] exI [of _ w']) (simp add: does_def pings_def)
  qed
qed

definition clock_runs :: "env \<Rightarrow> bool" where
  "clock_runs e \<longleftrightarrow> (\<forall>n. env_now e n \<le> env_now e (n + 2) \<and> env_now e n + ping_interval \<le> env_now e (n + 3))"

lemma waitForDB_returns:
  assumes "clock_runs e"
  obtains r n w' where "waitForDB e (30 * second_ns) p w = Some (r, p\<lparr>pr_events := pr_events p @ pings r n\<rparr>, w')"
    "length (pings r n) \<le> 62" "w_db w' = w_db w"
proof -
  have "env_now e n \<le> env_now e (n + 2)" "env_now e n + ping_interval \<le> env_now e (n + 3)" for n
    using assms by (simp_all add: clock_runs_def)
  moreover from this(1) [of "w_tick w"] have "env_now e (w_tick w) + 30 * second_ns < env_now e (Suc (w_tick (tick w))) + int 61 * ping_interval"
    by (simp add: ping_interval_def)
  ultimately obtain r n w' where "wait_loop e (env_now e (w_tick w) + 30 * second_ns) p (tick w) = Some (r, p\<lparr>pr_events := pr_events p @ pings r n\<rparr>, w')"
    "length (pings r n) \<le> 61 + 1" "w_db w' = w_db (tick w)"
    using wait_loop_returns [of e "env_now e (w_tick w) + 30 * second_ns" "tick w" 61 p] by blast
  then show thesis by (intro that [of r n w']) (simp_all add: waitForDB_def read_clock_def)
qed

lemma limiter_reads [simp]: "w_db (snd (BuildRequestLimiter e scope p w)) = w_db w"
  by (simp add: BuildRequestLimiter_def Load_def db_query_cases split: sum.split)


section \<open>The warning of the admin UI\<close>

text \<open>For a listen address whose host has no colon, the interface is the loopback interface if the host is \<^verbatim>\<open>localhost\<close> or an
  address of the block 127.0.0.0/8, written without leading zeros.\<close>

lemma ListensLoopbackOnly_v4:
  assumes "us_listen_addr c = host @ '':'' @ port" "set host \<inter> {CHR '':'', CHR ''%'', CHR ''['', CHR '']''} = {}"
    and "set port \<inter> {CHR '':'', CHR ''['', CHR '']''} = {}"
  shows "ListensLoopbackOnly c \<longleftrightarrow> host = ''localhost'' \<or> (\<exists>b c d. b \<le> 255 \<and> c \<le> 255 \<and> d \<le> 255 \<and> host = dotted [127, b, c, d])"
proof -
  have "SplitHostPort (us_listen_addr c) = Some (host, port)" unfolding assms(1) using assms(2,3) by (intro SplitHostPort_plain) auto
  then have "ListensLoopbackOnly c \<longleftrightarrow> host = ''localhost'' \<or> (\<exists>ip. ParseIP host = Some ip \<and> IsLoopback ip)"
    by (auto simp: ListensLoopbackOnly_def split: option.splits)
  also have "\<dots> \<longleftrightarrow> host = ''localhost'' \<or> (\<exists>b c d. b \<le> 255 \<and> c \<le> 255 \<and> d \<le> 255 \<and> host = dotted [127, b, c, d])"
    using assms(2) by (subst loopback_v4) auto
  finally show ?thesis .
qed

text \<open>An address without a host is every interface; \<open>::1\<close> is loopback, also in long form, \<open>::\<close> is not; a number with a leading zero
  is no address.\<close>

lemma listen_addresses:
  "us_listen_addr c = '':8081'' \<Longrightarrow> \<not> ListensLoopbackOnly c"
  "us_listen_addr c = ''[::1]:8081'' \<Longrightarrow> ListensLoopbackOnly c"
  "us_listen_addr c = ''[0:0:0:0:0:0:0:1]:8081'' \<Longrightarrow> ListensLoopbackOnly c"
  "us_listen_addr c = ''[::]:8081'' \<Longrightarrow> \<not> ListensLoopbackOnly c"
  "us_listen_addr c = ''127.0.0.01:8081'' \<Longrightarrow> \<not> ListensLoopbackOnly c"
proof -
  have s0: "SplitHostPort '':8081'' = Some ([], ''8081'')" by code_simp
  have p0: "ParseIP [] = None" by code_simp
  have s1: "SplitHostPort ''[::1]:8081'' = Some (''::1'', ''8081'')" by code_simp
  have p1: "ParseIP ''::1'' = Some (replicate 15 0 @ [1])" by code_simp
  have s2: "SplitHostPort ''[0:0:0:0:0:0:0:1]:8081'' = Some (''0:0:0:0:0:0:0:1'', ''8081'')" by code_simp
  have p2: "ParseIP ''0:0:0:0:0:0:0:1'' = Some (replicate 15 0 @ [1])" by code_simp
  have s3: "SplitHostPort ''[::]:8081'' = Some (''::'', ''8081'')" by code_simp
  have p3: "ParseIP ''::'' = Some (replicate 16 0)" by code_simp
  have s4: "SplitHostPort ''127.0.0.01:8081'' = Some (''127.0.0.01'', ''8081'')" by code_simp
  have p4: "ParseIP ''127.0.0.01'' = None" by code_simp
  have loop: "IsLoopback (replicate 15 0 @ [1])" by code_simp
  have free: "\<not> IsLoopback (replicate 16 0)" by code_simp
  show "us_listen_addr c = '':8081'' \<Longrightarrow> \<not> ListensLoopbackOnly c"
    using loop free by (simp add: ListensLoopbackOnly_def s0 p0)
  show "us_listen_addr c = ''[::1]:8081'' \<Longrightarrow> ListensLoopbackOnly c"
    using loop free by (simp add: ListensLoopbackOnly_def s1 p1)
  show "us_listen_addr c = ''[0:0:0:0:0:0:0:1]:8081'' \<Longrightarrow> ListensLoopbackOnly c"
    using loop free by (simp add: ListensLoopbackOnly_def s2 p2)
  show "us_listen_addr c = ''[::]:8081'' \<Longrightarrow> \<not> ListensLoopbackOnly c"
    using loop free by (simp add: ListensLoopbackOnly_def s3 p3)
  show "us_listen_addr c = ''127.0.0.01:8081'' \<Longrightarrow> \<not> ListensLoopbackOnly c"
    using loop free by (simp add: ListensLoopbackOnly_def s4 p4)
qed


text \<open>A UI that listens starts with nobody logged in and nobody blocked: no cookie of an earlier process with another secret has been
  revoked or counted, and the first attempt to log in is not delayed.\<close>

lemma adminui_starts_fresh:
  assumes "adminui_run e getenv x w = (res, evs)" "Ui_listening addr u \<in> set evs"
  shows "\<exists>cfg secret. Load_ui getenv = Inr cfg \<and> addr = us_listen_addr cfg \<and> env_rand e (w_tick w) 32 = Some secret \<and>
    sm_secret (ui_sm u) = secret \<and> sm_secure (ui_sm u) = us_cookie_secure cfg \<and> sm_revoked (ui_sm u) = Map.empty \<and>
    ui_limiter u = Map.empty \<and> gb_blockedUntil (ui_backoff u) = 0 \<and> w_db (ui_w u) = w_db w"
  using assms
  by (auto simp: adminui_run_def proc_simps start_server_def NewSessionManager_def rand_read_def newLoginLimiter_def newGlobalBackoff_def Let_def
      split: sum.splits if_splits option.splits prod.splits)

text \<open>The pool of the UI is closed once, at the end, when it was opened, after the shutdown of the HTTP server was called for.\<close>

lemma adminui_closes_pool:
  assumes "adminui_run e getenv x w = (res, evs)" "Ui_pool_opened \<in> set evs"
  shows "\<exists>mid. evs = Ui_pool_opened # mid @ [Ui_pool_closed, Ui_context_cancelled] \<and> Ui_pool_closed \<notin> set mid"
  using assms by (auto simp: adminui_run_def proc_simps Let_def split: sum.splits if_splits option.splits prod.splits)


section \<open>Properties\<close>

definition is_ping :: "life_event \<Rightarrow> bool" where
  "is_ping ev = (case ev of Pinged _ \<Rightarrow> True | _ \<Rightarrow> False)"

lemma filter_pings [simp]: "filter is_ping (pings r n) = pings r n" "Pool_closed \<notin> set (pings r n)"
  by (auto simp: pings_def is_ping_def)

text \<open>What \<^verbatim>\<open>run\<close> does once it serves, and in which order: on a signal (or when the server is closed) and on a listener that fails.\<close>

lemma serve_events:
  assumes "serve_until_stop e cfg x limit p = (res, p')"
  shows "returned p' = pr_events p @ [Poller_started (poller_handlers e (server_bot cfg x)), Http_listening (se_listen_addr cfg) limit] @
    (if ou_stop x = Listen_failed then []
     else [Poller_cancelled, if ou_drained x then Poller_drained else Poller_drain_timeout, Http_shutdown (ou_shutdown x), Shutdown_cancelled]) @
    [Poller_cancelled] @ pr_deferred p"
    "res = (if ou_stop x = Listen_failed then Some Listen_error else None)"
  using assms by (auto simp: serve_until_stop_def proc_simps Let_def split: if_splits)


definition demo_environment :: environment where
  "demo_environment v = (if v = ''HTTP_LISTEN_ADDR'' then [] else ''x'')"

definition demo_outside :: outside where
  "demo_outside = \<lparr>ou_pool = True, ou_bot = True, ou_me = Some 1, ou_stop = Stop_signal, ou_drained = True, ou_shutdown = True\<rparr>"


end
