(* ===== verification/Dev_Programs.thy ===== *)
theory Dev_Programs
  imports Server_Main Mock_Telegram
begin

text \<open>
  The two programs of the development stack: \<^verbatim>\<open>src/cmd/devseed/main.go\<close>, which prints keys with their hashes for the seed of a
  database, and \<^verbatim>\<open>src/cmd/mocktelegram/main.go\<close>, which serves the stub of the Bot API. The keys that are printed authenticate.
\<close>

section \<open>Seed keys\<close>

record dev_key =
  dk_app :: string
  dk_prefix :: string
  dk_cleartext :: string
  dk_label :: string

definition dev_keys :: "dev_key list" where
  "dev_keys =
     [\<lparr>dk_app = ''dev-admin'', dk_prefix = ''devadmin'', dk_cleartext = ''tg_devadmin_0123456789abcdef0123456789abcdef'',
       dk_label = ''Local dev admin key''\<rparr>,
      \<lparr>dk_app = ''dev-developer'', dk_prefix = ''devdev'', dk_cleartext = ''tg_devdev_0123456789abcdef0123456789abcdef'',
       dk_label = ''Local dev developer key''\<rparr>,
      \<lparr>dk_app = ''dev-user'', dk_prefix = ''devuser'', dk_cleartext = ''tg_devuser_0123456789abcdef0123456789abcdef'',
       dk_label = ''Local dev user-grade key''\<rparr>]"

definition newline :: string where "newline = [CHR 0x0A]"

definition seed_block :: "dev_key \<Rightarrow> string \<Rightarrow> string" where
  "seed_block k h =
     ''APP_ID='' @ dk_app k @ newline @ ''PREFIX='' @ dk_prefix k @ newline @ ''CLEARTEXT='' @ dk_cleartext k @ newline @
     ''HASH='' @ h @ newline @ ''LABEL='' @ dk_label k @ newline @ ''---'' @ newline"

text \<open>What is printed and the exit status; a key that cannot be hashed ends the program.\<close>

fun seed_loop :: "env \<Rightarrow> dev_key list \<Rightarrow> world \<Rightarrow> string \<times> int" where
  "seed_loop e [] w = ([], 0)"
| "seed_loop e (k # ks) w =
     (case HashAPIKey e (dk_cleartext k) w of
        (Inl _, w1) \<Rightarrow> ([], 1)
      | (Inr h, w1) \<Rightarrow> (case seed_loop e ks w1 of (out, status) \<Rightarrow> (seed_block k h @ out, status)))"

definition devseed_main :: "env \<Rightarrow> world \<Rightarrow> string \<times> int" where
  "devseed_main e w = seed_loop e dev_keys w"

lemma seed_loop_ok:
  assumes "\<And>pw s t m p n. length (env_idkey e pw s t m p n) = n" "seed_loop e ks w = (out, 0)"
  shows "\<exists>hs. out = concat (map2 seed_block ks hs) \<and> list_all2 (\<lambda>k h. VerifyAPIKey e (dk_cleartext k) h = Inr True) ks hs"
  using assms(2)
proof (induction ks arbitrary: w out)
  case (Cons k ks)
  obtain h w1 where h: "HashAPIKey e (dk_cleartext k) w = (Inr h, w1)"
    using Cons.prems by (cases "HashAPIKey e (dk_cleartext k) w") (auto split: sum.splits)
  then have "VerifyAPIKey e (dk_cleartext k) h = Inr True"
    using VerifyAPIKey_encoded [OF assms(1)] by (auto simp: HashAPIKey_def split: option.splits prod.splits)
  moreover obtain out' where out: "seed_loop e ks w1 = (out', 0)" "out = seed_block k h @ out'"
    using Cons.prems h by (auto split: prod.splits)
  moreover from Cons.IH [OF out(1)] obtain hs where
    "out' = concat (map2 seed_block ks hs)" "list_all2 (\<lambda>k h. VerifyAPIKey e (dk_cleartext k) h = Inr True) ks hs" by blast
  ultimately show ?case by (intro exI [of _ "h # hs"]) simp
qed simp

text \<open>The prefix of each key is the one under which it is looked up, and each key verifies against the hash printed beside it.\<close>

lemma dev_keys_prefix: "list_all (\<lambda>k. ParseBearer (dk_cleartext k) = Some (dk_prefix k)) dev_keys"
  by code_simp

lemma devseed_keys_verify:
  assumes "\<And>pw s t m p n. length (env_idkey e pw s t m p n) = n" "devseed_main e w = (out, 0)"
  shows "\<exists>hs. out = concat (map2 seed_block dev_keys hs) \<and>
    list_all2 (\<lambda>k h. VerifyAPIKey e (dk_cleartext k) h = Inr True \<and> ParseBearer (dk_cleartext k) = Some (dk_prefix k)) dev_keys hs"
proof -
  obtain hs where hs: "out = concat (map2 seed_block dev_keys hs)"
      "list_all2 (\<lambda>k h. VerifyAPIKey e (dk_cleartext k) h = Inr True) dev_keys hs"
    using seed_loop_ok [OF assms(1)] assms(2) unfolding devseed_main_def by blast
  have "list_all2 (\<lambda>k h. VerifyAPIKey e (dk_cleartext k) h = Inr True \<and> ParseBearer (dk_cleartext k) = Some (dk_prefix k)) dev_keys hs"
    using hs(2) dev_keys_prefix unfolding list_all2_conv_all_nth list_all_length by simp
  with hs(1) show ?thesis by blast
qed


section \<open>The stub\<close>

text \<open>\<^verbatim>\<open>http.ListenAndServe\<close> returns only with an error, and the program then ends with status 1.\<close>

datatype stub_event = Stub_listening string mock_state | Stub_failed int

definition mocktelegram_main :: "environment \<Rightarrow> stub_event list" where
  "mocktelegram_main getenv =
     (let addr = default_to '':8090'' (setting getenv ''MOCKTELEGRAM_ADDR'') in [Stub_listening addr new_mock, Stub_failed 1])"

lemma mocktelegram_default: "TrimSpace (getenv ''MOCKTELEGRAM_ADDR'') = [] \<Longrightarrow> hd (mocktelegram_main getenv) = Stub_listening '':8090'' new_mock"
  by (simp add: mocktelegram_main_def setting_def default_to_def)

end
