(* ===== verification/Spec2Isabelle.thy ===== *)
theory Spec2Isabelle
  imports Audit_Concurrent Bot_Properties Api_Contract Ui_Request_Chart Hook_Chain Logging Skills_Harness Dev_Programs
begin

text \<open>
  \<^bold>\<open>The program.\<close> The repository holds a notification server: applications call an HTTP API to send messages to Telegram users,
  a bot registers the users and keeps their chats, and an operator manages both through an admin UI. The API server and the bot run
  in one process (\<^verbatim>\<open>cmd/server\<close>), the admin UI in another (\<^verbatim>\<open>cmd/adminui\<close>); they share one PostgreSQL database. The API
  authenticates a bearer key, limits the rate of requests, checks a capability, resolves the recipients of a message by one of four
  strategies and sends through a rate-limited dispatcher. Every stage leaves a row in an append-only audit log whose rows are chained by
  SHA-256. The UI has its own session; it reads the database for its pages and makes most changes by calling the API with a key of
  its own.

  \<^bold>\<open>The theories\<close>, in the order of the dependencies; paths are below \<^verbatim>\<open>src/internal\<close> unless they start with another directory.

  \<^item> Language and library: \<open>Prelude\<close> (package \<^verbatim>\<open>strings\<close>, sorting, result types, the collections of simplification rules),
    \<open>Go_Float\<close> (the rounding of \<^verbatim>\<open>float64\<close>), \<open>Go_Encoding\<close> (decimal, hexadecimal and base64 text), \<open>Go_Text\<close> (UTF-8, quoting, escaping), \<open>Go_Time\<close> and \<open>Go_Calendar\<close>
    (dates, RFC 3339, and the laws that parsing inverts printing), \<open>Go_Net\<close> (IP addresses).
  \<^item> \<open>World\<close>: the tables of \<^verbatim>\<open>src/migrations\<close> as lists of records with their constraints (\<open>db_ok\<close>), the memory of the server process,
    transactions, and the record \<open>env\<close> of everything outside.
  \<^item> Audit log (\<^verbatim>\<open>audit\<close>): \<open>Audit_Log\<close> (events, serialisation, the chained insert, the verifier), \<open>Audit_Chain\<close> (the serialisation
    can be read back, a written log verifies, two verified logs with one head are equal), \<open>Audit_Concurrent\<close> (any number of writers
    around the advisory lock, as a step relation).
  \<^item> Server: \<open>Auth\<close> (\<^verbatim>\<open>auth\<close>: Argon2id keys, capabilities, resolution of a bearer), \<open>Rate_Limit\<close> (\<^verbatim>\<open>ratelimit\<close> and the dispatch limiter),
    \<open>Strategy\<close> (\<^verbatim>\<open>dispatch/strategy\<close>), \<open>Telegram_Dispatch\<close> (\<^verbatim>\<open>dispatch/telegram\<close>), \<open>Registry\<close> (\<^verbatim>\<open>registry\<close>), \<open>Hook_Chain\<close> (\<^verbatim>\<open>hook\<close>),
    \<open>Http\<close> (\<^verbatim>\<open>api/middleware\<close>), \<open>Api_Messages\<close>, \<open>Api_Admin\<close> and \<open>Api_Audit\<close> (\<^verbatim>\<open>api/handlers\<close>), \<open>Api_Router\<close> (\<^verbatim>\<open>api/server.go\<close>).
  \<^item> Bot (\<^verbatim>\<open>bot\<close>): \<open>Bot_Texts\<close>, \<open>Bot\<close> (poller, provisioner, five handlers), \<open>Bot_Properties\<close>.
  \<^item> Admin UI (\<^verbatim>\<open>adminui\<close>): \<open>Ui_Texts\<close>, \<open>Ui_Views\<close> (texts and page data), \<open>Ui_Session\<close> and \<open>Ui_Session_Safe\<close> (cookies, CSRF tokens, the
    brakes on password guessing), \<open>Ui_Store\<close>, \<open>Ui_Keys\<close>, \<open>Ui_Apps\<close>, \<open>Ui_Test_Send\<close>, \<open>Ui_Audit\<close>, \<open>Ui_Stats\<close> and \<open>Ui_Charts\<close> and \<open>Ui_Pages\<close>
    (queries, drawings and handlers of the dashboard and of the delivery page), \<open>Ui_Drawings\<close> and \<open>Ui_Request_Chart\<close> (what the drawings
    keep and count), \<open>Ui_Server\<close> (routes and middlewares), \<open>Ui_Invariant\<close> (the UI in front of the API), \<open>Api_Contract\<close> (the types of the API's
    answers and what the UI's client decodes).
  \<^item> Around them: \<open>Logging\<close> (\<^verbatim>\<open>api/middleware/logger.go\<close>, the run of the poller), \<open>Mock_Telegram\<close> (\<^verbatim>\<open>mocktelegram\<close>, the stub of the Bot
    API), \<open>Skills_Harness\<close> (\<^verbatim>\<open>skillsharness\<close>, transcripts replayed against server and stub), \<open>Server_Main\<close> (\<^verbatim>\<open>config\<close>, \<^verbatim>\<open>cmd/server\<close>, \<^verbatim>\<open>cmd/adminui\<close>),
    \<open>Dev_Programs\<close> (\<^verbatim>\<open>cmd/devseed\<close>, \<^verbatim>\<open>cmd/mocktelegram\<close>). This theory
    composes the API server, the bot and the UI.

  \<^bold>\<open>How the code is modelled.\<close> A struct is a record, an error is the left side of a sum, and a handler is a function that takes the state
  and returns its result with the new state. The state is \<open>world\<close> for the server and \<open>ui_state\<close> (that world with the sessions, the login
  limiter and the backoff) for the UI. Each access to the clock, to the random source or to the database advances \<open>w_tick\<close>, and \<open>env\<close>
  tells by this number what time it is, whether the access fails and in which order unordered rows come, so that the theorems hold for
  every clock and every pattern of failures. A statement of SQL is a function on the table; a transaction that fails restores the tables;
  a failed \<^verbatim>\<open>COMMIT\<close> counts as not applied. A statement
  that PostgreSQL refuses for a reason outside the modelled constraints, such as text that is not UTF-8, is a failing access. Strings are lists of bytes, \<^verbatim>\<open>int64\<close> is kept at its width where it can wrap around, and
  a \<^verbatim>\<open>float64\<close> is the rational number it stands for: in the two rate limiters, the login limiter and the shares of the failure ring every operation is
  rounded to 53 bits; the coordinates of the other drawings and the numbers that are only printed are exact. The body of a request is the value that strict decoding of JSON gives, or the failure to decode.
  Text is compared bytewise and days are those of a database session without daylight saving.

  What is not in the repository is an argument: Telegram (\<open>env_tg\<close>), SHA-256 (\<open>env_sha256\<close>), Argon2id (\<open>env_idkey\<close>), the text of a
  \<^verbatim>\<open>jsonb\<close> value (\<open>env_jsonb\<close>), the path matching of chi (\<open>chi\<close>, \<open>ui_match\<close>), the parsing of templates, the bytes of an answer, the
  network between UI and API, and the outcomes of pgx, telego and net/http at the start. A theorem that relies on one of them says
  so in a hypothesis, for instance that SHA-256 does not collide on the payloads of two logs, and its witness instantiates it.

  \<^bold>\<open>What is shown.\<close>
  \<^item> \<open>system_keeps_invariants\<close> (here): every interleaving of requests, updates and operator actions keeps the constraints of the schema and the
    hash chain and only appends to the log. Below it stand contracts, as locales, of the parts: \<open>registry_op\<close>, \<open>route_strategy\<close>,
    \<open>dispatcher\<close>, \<open>message_endpoint\<close>, \<open>admin_endpoint\<close>, \<open>polled_handler\<close>, \<open>ui_page\<close>, \<open>ui_action\<close>, \<open>resolver\<close>, \<open>audit_writer\<close>,
    \<open>rate_bound\<close>, \<open>bounded_window\<close>; each is interpreted for the functions of the model.
  \<^item> Who may do what: effects need the capability of the route or a session with its CSRF token, grants cannot escalate, a bearer
    resolves exactly when a live key grants it, revoked keys, removed applications, anonymized users and ended sessions stay dead (a session
    that ends within the second in which it began is the exception, shown by a witness).
  \<^item> What a request does: exact recipients, reports, audit rows and refusals of messages; atomicity of administration; exact search and
    its paging; every answer of the API has the type of its route; the bot's subscriptions, links, bans and topics.
  \<^item> Limits: the calls that a limiter admits in a window, with the error of the floating-point arithmetic and, for the dispatch limiter, with
    the stages of its calls interleaved; that a denied caller is admitted two nanoseconds after the announced wait; that the sweep of
    the login limiter cannot be observed.
  \<^item> The pages: the filters of the audit page select the chosen days, the verification page tells the truth about the chain and names the first bad
    row, drawings are safe to insert and the failure ring shows its legend, the request chart accounts for every request, and the test console
    makes one request with the pasted key.
  \<^item> The processes: the start of the server ends and the pool is closed last, after the poller has drained unless the listener failed; the stub hands out every update once. Below the properties,
    \<open>Logging\<close> shows that a line never shows the value under a secret key and that the access log tells what was sent, \<open>Skills_Harness\<close>
    that a passing transcript counts only calls of its own, \<open>Server_Main\<close> which listen addresses the UI takes for loopback.

  \<^bold>\<open>Bounds.\<close> Recursion is structural or has a measure. Only the wait for the database may run forever, when the clock stands still:
  \<open>wait_loop\<close> is a partial function, and it is proved to return after at most 62 pings when the clock runs. The windows of the stub
  hold 2048 calls and 1024 updates, as in the code.

  \<^bold>\<open>Not modelled.\<close> The HTML templates (the model has the data each page is rendered with) and their parsing; timeouts of contexts other
  than through a failing access; the log calls of the handlers, which only pass fields to the logger; \<^verbatim>\<open>UserTopicStore.ListForUser\<close>, which
  nothing calls; the structs and constructors that only carry the pool; the down migrations.
\<close>

section \<open>The system\<close>

text \<open>The three programs that share the database: the API server answers a request, its bot handles an update from
  Telegram, and the admin UI answers a request of the operator, calling the API server on the way. A step is the work
  of one of them from start to end.\<close>

record system_config =
  sys_chi :: chi
  sys_limits :: "(string \<Rightarrow> policy) option"
  sys_bot :: bot_config
  sys_match :: ui_match
  sys_net :: "nat \<Rightarrow> net_outcome"
  sys_ui :: ui_config

inductive system_step :: "env \<Rightarrow> system_config \<Rightarrow> ui_state \<Rightarrow> ui_state \<Rightarrow> bool" for e c where
  api: "system_step e c u (u\<lparr>ui_w := snd (NewRouter e (sys_chi c) (sys_limits c) r (ui_w u))\<rparr>)"
| bot: "system_step e c u (u\<lparr>ui_w := dispatch (poller_handlers e (sys_bot c)) upd (ui_w u)\<rparr>)"
| ui: "system_step e c u
    (snd (NewServer e (sys_match c) (server_api e (sys_chi c) (sys_limits c) (sys_net c)) (sys_ui c) q u))"

inductive_cases system_stepE: "system_step e c u u'"

lemma intact_bot: "orders_rows e \<Longrightarrow> intact e w (dispatch (poller_handlers e c) upd w)"
  using poller_keeps [of e c w upd] by (auto simp: keeps_def intact_def db_ok_def prefix_def)

lemma system_step_intact: "orders_rows e \<Longrightarrow> system_step e c u u' \<Longrightarrow> intact e (ui_w u) (ui_w u')"
  by (elim system_stepE) (simp_all add: intact_bot NewServer_intact)

lemma system_run_intact:
  assumes "orders_rows e" "(system_step e c)\<^sup>*\<^sup>* u u'"
  shows "intact e (ui_w u) (ui_w u')"
  using assms(2)
proof (induction rule: rtranclp_induct)
  case (step v v')
  from intact_trans [OF step.IH system_step_intact [OF assms(1) step.hyps(2)]] show ?case .
qed simp

text \<open>C1: In every interleaving of API requests, updates for the bot and requests of the operator, with the database,
  Telegram and the network failing in any way on the path, the state keeps every constraint of the schema, the audit log keeps its hash
  chain, and no row of the log is ever changed or removed.\<close>

theorem system_keeps_invariants:
  assumes "orders_rows e" "(system_step e c)\<^sup>*\<^sup>* u u'" "db_ok (w_db (ui_w u))" "chain_ok e (w_db (ui_w u))"
  shows "db_ok (w_db (ui_w u')) \<and> chain_ok e (w_db (ui_w u')) \<and>
    prefix (d_audit (w_db (ui_w u))) (d_audit (w_db (ui_w u')))"
  using system_run_intact [OF assms(1,2)] assms(3,4) by (simp add: intact_def)

definition demo_system :: system_config where
  "demo_system = \<lparr>sys_chi = demo_chi, sys_limits = None, sys_bot = demo_bot, sys_match = demo_match,
     sys_net = (\<lambda>n. Answered), sys_ui = demo_ui_config\<rparr>"

theorem system_keeps_invariants_witness:
  "\<exists>u'. (system_step demo_env demo_system)\<^sup>*\<^sup>* demo_ui u' \<and> db_ok (w_db (ui_w u')) \<and> chain_ok demo_env (w_db (ui_w u')) \<and>
     ui_w u' = snd (NewRouter demo_env demo_chi None demo_message
       (dispatch (poller_handlers demo_env demo_bot) (private_text ''/start'') empty_world))"
proof -
  have start: "db_ok (w_db (ui_w demo_ui))" "chain_ok demo_env (w_db (ui_w demo_ui))" "ui_w demo_ui = empty_world"
    by (simp_all add: demo_ui_def empty_world_def empty_db_def db_ok_defs chain_ok_def)
  let ?u1 = "demo_ui\<lparr>ui_w := dispatch (poller_handlers demo_env demo_bot) (private_text ''/start'') (ui_w demo_ui)\<rparr>"
  let ?u2 = "?u1\<lparr>ui_w := snd (NewRouter demo_env demo_chi None demo_message (ui_w ?u1))\<rparr>"
  have "system_step demo_env demo_system demo_ui ?u1" "system_step demo_env demo_system ?u1 ?u2"
    using system_step.bot [of demo_env demo_system demo_ui] system_step.api [of demo_env demo_system ?u1]
    by (simp_all add: demo_system_def)
  then have run: "(system_step demo_env demo_system)\<^sup>*\<^sup>* demo_ui ?u2" by simp
  show ?thesis
    using run system_keeps_invariants [OF _ run start(1,2)] by (intro exI [of _ ?u2]) (simp add: start(3))
qed

end
